(* ===== verification/Prelude.thy ===== *)
theory Prelude
  imports Complex_Main "HOL-Library.Code_Target_Nat"
begin

text \<open>
  Shared vocabulary of the development. It holds
  \<^item> SQL tables as lists of rows in insertion order: a \<open>SELECT ... WHERE\<close> is a
    \<open>filter\<close> or \<open>find\<close>, an \<open>UPDATE ... SET ... WHERE\<close> is \<open>update_where\<close>, an
    \<open>INSERT\<close> appends a row, and a primary key is a \<open>distinct (map key rows)\<close>;
  \<^item> the lemmas on such tables that every component uses (what a lookup returns after
    an update, how a column sum changes when one keyed row changes);
  \<^item> computations over a state that may raise: \<open>'s \<Rightarrow> 's \<times> ('e + 'a)\<close>, with the
    combinators the Python statements translate to and a weakest-precondition
    calculus for them;
  \<^item> the transition-system locale whose invariant rule the components instantiate.
\<close>

named_theorems table_simps \<open>rewriting of lookups, keys and sums under table updates\<close>
named_theorems wp_simps \<open>weakest preconditions of computations\<close>

section \<open>Tables\<close>

definition row_where :: "('r \<Rightarrow> bool) \<Rightarrow> 'r list \<Rightarrow> 'r option" where
  "row_where p rows = List.find p rows"

definition update_where :: "('r \<Rightarrow> bool) \<Rightarrow> ('r \<Rightarrow> 'r) \<Rightarrow> 'r list \<Rightarrow> 'r list" where
  "update_where p f rows = map (\<lambda>r. if p r then f r else r) rows"

definition column_sum :: "('r \<Rightarrow> int) \<Rightarrow> 'r list \<Rightarrow> int" where
  "column_sum g rows = sum_list (map g rows)"

definition count_where :: "('r \<Rightarrow> bool) \<Rightarrow> 'r list \<Rightarrow> nat" where
  "count_where p rows = length (filter p rows)"

section \<open>Computations that may raise\<close>

type_synonym ('s, 'e, 'a) exec = "'s \<Rightarrow> 's \<times> ('e + 'a)"

definition ret :: "'a \<Rightarrow> ('s, 'e, 'a) exec" where
  "ret x = (\<lambda>s. (s, Inr x))"

definition throw :: "'e \<Rightarrow> ('s, 'e, 'a) exec" where
  "throw e = (\<lambda>s. (s, Inl e))"

definition bindE :: "('s, 'e, 'a) exec \<Rightarrow> ('a \<Rightarrow> ('s, 'e, 'b) exec) \<Rightarrow> ('s, 'e, 'b) exec" where
  "bindE m f = (\<lambda>s. case m s of (s', Inl e) \<Rightarrow> (s', Inl e) | (s', Inr x) \<Rightarrow> f x s')"

definition seqE :: "('s, 'e, 'a) exec \<Rightarrow> ('s, 'e, 'b) exec \<Rightarrow> ('s, 'e, 'b) exec" where
  "seqE m n = bindE m (\<lambda>_. n)"

definition getsE :: "('s \<Rightarrow> 'b) \<Rightarrow> ('b \<Rightarrow> ('s, 'e, 'a) exec) \<Rightarrow> ('s, 'e, 'a) exec" where
  "getsE f k = (\<lambda>s. k (f s) s)"

definition modifyE :: "('s \<Rightarrow> 's) \<Rightarrow> ('s, 'e, unit) exec" where
  "modifyE f = (\<lambda>s. (f s, Inr ()))"

definition whenE :: "bool \<Rightarrow> ('s, 'e, unit) exec \<Rightarrow> ('s, 'e, unit) exec" where
  "whenE b m = (if b then m else ret ())"

definition catchE :: "('s, 'e, 'a) exec \<Rightarrow> ('e \<Rightarrow> ('s, 'e, 'a) exec) \<Rightarrow> ('s, 'e, 'a) exec" where
  "catchE m h = (\<lambda>s. case m s of (s', Inl e) \<Rightarrow> h e s' | (s', Inr x) \<Rightarrow> (s', Inr x))"

primrec stepsE :: "('s, 'e, unit) exec list \<Rightarrow> ('s, 'e, unit) exec" where
  "stepsE [] = ret ()"
| "stepsE (m # ms) = seqE m (stepsE ms)"

definition wp ::
  "('s, 'e, 'a) exec \<Rightarrow> ('a \<Rightarrow> 's \<Rightarrow> bool) \<Rightarrow> ('e \<Rightarrow> 's \<Rightarrow> bool) \<Rightarrow> 's \<Rightarrow> bool" where
  "wp m Q E s = (case m s of (s', Inl e) \<Rightarrow> E e s' | (s', Inr x) \<Rightarrow> Q x s')"

text \<open>A computation that moves the state only along \<open>R\<close>, whether it returns or raises.\<close>

definition keeps :: "('s \<Rightarrow> 's \<Rightarrow> bool) \<Rightarrow> ('s, 'e, 'a) exec \<Rightarrow> bool" where
  "keeps R m = (\<forall>s. R s (fst (m s)))"

section \<open>Lemmas on tables\<close>

lemma row_where_Nil [simp]: "row_where p [] = None"
  by (simp add: row_where_def)

lemma row_where_Cons [simp]:
  "row_where p (r # rows) = (if p r then Some r else row_where p rows)"
  by (simp add: row_where_def)

lemma row_where_append [simp]:
  "row_where p (xs @ ys) = (case row_where p xs of None \<Rightarrow> row_where p ys | Some r \<Rightarrow> Some r)"
  by (induction xs) auto

lemma row_where_Some: "row_where p rows = Some r \<Longrightarrow> r \<in> set rows \<and> p r"
  by (induction rows) (auto split: if_splits)

lemma row_where_None: "row_where p rows = None \<longleftrightarrow> (\<forall>r \<in> set rows. \<not> p r)"
  by (induction rows) auto

lemma update_where_Nil [simp]: "update_where p f [] = []"
  by (simp add: update_where_def)

lemma update_where_Cons [simp]:
  "update_where p f (r # rows) = (if p r then f r else r) # update_where p f rows"
  by (simp add: update_where_def)

lemma update_where_append [simp]:
  "update_where p f (xs @ ys) = update_where p f xs @ update_where p f ys"
  by (simp add: update_where_def)

lemma length_update_where [simp]: "length (update_where p f rows) = length rows"
  by (simp add: update_where_def)

lemma set_update_where:
  "set (update_where p f rows) = (\<lambda>r. if p r then f r else r) ` set rows"
  by (simp add: update_where_def)

lemma update_where_none: "\<forall>r \<in> set rows. \<not> p r \<Longrightarrow> update_where p f rows = rows"
  by (induction rows) auto

lemma map_update_where:
  assumes "\<And>r. p r \<Longrightarrow> g (f r) = g r"
  shows "map g (update_where p f rows) = map g rows"
  using assms by (induction rows) auto

lemma column_sum_simps [simp]:
  "column_sum g [] = 0"
  "column_sum g (r # rows) = g r + column_sum g rows"
  "column_sum g (xs @ ys) = column_sum g xs + column_sum g ys"
  by (simp_all add: column_sum_def)

lemma column_sum_cong:
  "(\<And>r. r \<in> set rows \<Longrightarrow> f r = g r) \<Longrightarrow> column_sum f rows = column_sum g rows"
  by (induction rows) auto

lemma column_sum_zero: "(\<And>r. r \<in> set rows \<Longrightarrow> f r = 0) \<Longrightarrow> column_sum f rows = 0"
  by (induction rows) auto

lemma column_sum_nonneg: "(\<And>r. r \<in> set rows \<Longrightarrow> 0 \<le> f r) \<Longrightarrow> 0 \<le> column_sum f rows"
  by (induction rows) auto

lemma column_sum_ge_member:
  "(\<And>r. r \<in> set rows \<Longrightarrow> 0 \<le> f r) \<Longrightarrow> r \<in> set rows \<Longrightarrow> f r \<le> column_sum f rows"
proof (induction rows)
  case Nil
  then show ?case by simp
next
  case (Cons x xs)
  have "0 \<le> column_sum f xs" by (rule column_sum_nonneg) (simp add: Cons.prems)
  moreover have "0 \<le> f x" using Cons.prems by simp
  ultimately show ?case using Cons by (cases "r = x") (auto, fastforce)
qed

lemma count_where_simps [simp]:
  "count_where p [] = 0"
  "count_where p (r # rows) = (if p r then 1 else 0) + count_where p rows"
  "count_where p (xs @ ys) = count_where p xs + count_where p ys"
  by (simp_all add: count_where_def)

lemma count_where_0: "count_where p rows = 0 \<longleftrightarrow> (\<forall>r \<in> set rows. \<not> p r)"
  by (auto simp: count_where_def filter_empty_conv)

lemma count_where_cong:
  "(\<And>r. r \<in> set rows \<Longrightarrow> p r = q r) \<Longrightarrow> count_where p rows = count_where q rows"
  by (induction rows) auto

lemma count_where_map_update:
  assumes "\<And>r. p r \<Longrightarrow> q (f r) = q r"
  shows "count_where q (update_where p f rows) = count_where q rows"
  using assms by (induction rows) auto

subsection \<open>Rows addressed by their primary key\<close>

text \<open>
  A change of a row that keeps its primary key. Every \<open>UPDATE ... WHERE pk = :k\<close> of
  the program is an instance; the lemmas say what such an update does to lookups,
  to the key column and to a column sum.
\<close>

locale keyed_update =
  fixes key :: "'r \<Rightarrow> 'k" and change :: "'r \<Rightarrow> 'r"
  assumes key_change: "key (change r) = key r"
begin

lemma keys: "map key (update_where (\<lambda>r. key r = k) change rows) = map key rows"
  by (rule map_update_where) (simp add: key_change)

lemma lookup_same:
  "row_where (\<lambda>r. key r = k) (update_where (\<lambda>r. key r = k) change rows)
     = map_option change (row_where (\<lambda>r. key r = k) rows)"
  by (induction rows) (auto simp: key_change)

lemma lookup_other:
  "k' \<noteq> k \<Longrightarrow> row_where (\<lambda>r. key r = k') (update_where (\<lambda>r. key r = k) change rows)
     = row_where (\<lambda>r. key r = k') rows"
  by (induction rows) (auto simp: key_change)

lemma lookup:
  "row_where (\<lambda>r. key r = k') (update_where (\<lambda>r. key r = k) change rows)
     = (if k' = k then map_option change (row_where (\<lambda>r. key r = k) rows)
        else row_where (\<lambda>r. key r = k') rows)"
  by (simp add: lookup_same lookup_other)

end

lemma row_where_key_in:
  "distinct (map key rows) \<Longrightarrow> r \<in> set rows \<Longrightarrow> row_where (\<lambda>x. key x = key r) rows = Some r"
  by (induction rows) auto

lemma row_where_keyD:
  "row_where (\<lambda>x. key x = k) rows = Some r \<Longrightarrow> r \<in> set rows \<and> key r = k"
  by (drule row_where_Some) simp

text \<open>A column sum when one keyed row changes and the summand may change with it.\<close>

lemma column_sum_change:
  assumes "distinct (map key rows)" "row_where (\<lambda>r. key r = k) rows = Some p"
    and "\<And>r. r \<in> set rows \<Longrightarrow> key r \<noteq> k \<Longrightarrow> g' r = g r"
  shows "column_sum g' (update_where (\<lambda>r. key r = k) f rows) = column_sum g rows - g p + g' (f p)"
  using assms
proof (induction rows)
  case Nil
  then show ?case by simp
next
  case (Cons x xs)
  show ?case
  proof (cases "key x = k")
    case True
    then have "x = p" using Cons.prems(2) by simp
    have others: "\<forall>y \<in> set xs. key y \<noteq> k" using Cons.prems(1) True by (force simp: image_iff)
    then have "update_where (\<lambda>r. key r = k) f xs = xs" by (rule update_where_none)
    moreover have "column_sum g' xs = column_sum g xs"
      by (rule column_sum_cong) (use others Cons.prems(3) in simp)
    ultimately show ?thesis using True \<open>x = p\<close> by simp
  next
    case False
    with Cons show ?thesis by simp
  qed
qed

lemma column_sum_update_key:
  assumes "distinct (map key rows)" "row_where (\<lambda>r. key r = k) rows = Some r"
  shows "column_sum g (update_where (\<lambda>r. key r = k) f rows) = column_sum g rows - g r + g (f r)"
  by (rule column_sum_change [OF assms]) simp

lemma set_update_key:
  assumes "distinct (map key rows)" "row_where (\<lambda>r. key r = k) rows = Some r"
  shows "set (update_where (\<lambda>r. key r = k) f rows) = insert (f r) (set rows - {r})"
proof -
  from assms(2) have r: "r \<in> set rows" "key r = k" by (auto dest: row_where_Some)
  have only: "x = r" if "x \<in> set rows" "key x = k" for x
    using row_where_key_in [OF assms(1) that(1)] assms(2) that(2) by simp
  have "(\<lambda>x. if key x = k then f x else x) ` set rows = insert (f r) (set rows - {r})"
  proof (rule set_eqI)
    fix y
    show "y \<in> (\<lambda>x. if key x = k then f x else x) ` set rows \<longleftrightarrow> y \<in> insert (f r) (set rows - {r})"
      using r only by (fastforce simp: image_iff)
  qed
  then show ?thesis by (simp add: set_update_where)
qed

section \<open>Weakest preconditions\<close>

lemma wp_ret [wp_simps]: "wp (ret x) Q E s = Q x s"
  by (simp add: wp_def ret_def)

lemma wp_throw [wp_simps]: "wp (throw e) Q E s = E e s"
  by (simp add: wp_def throw_def)

lemma wp_bindE [wp_simps]: "wp (bindE m f) Q E s = wp m (\<lambda>x. wp (f x) Q E) E s"
  by (simp add: wp_def bindE_def split: prod.splits sum.splits)

lemma wp_seqE [wp_simps]: "wp (seqE m n) Q E s = wp m (\<lambda>_. wp n Q E) E s"
  by (simp add: seqE_def wp_bindE)

lemma wp_getsE [wp_simps]: "wp (getsE f k) Q E s = wp (k (f s)) Q E s"
  by (simp add: wp_def getsE_def)

lemma wp_modifyE [wp_simps]: "wp (modifyE f) Q E s = Q () (f s)"
  by (simp add: wp_def modifyE_def)

lemma wp_whenE [wp_simps]: "wp (whenE b m) Q E s = (if b then wp m Q E s else Q () s)"
  by (simp add: whenE_def wp_ret)

lemma wp_catchE [wp_simps]: "wp (catchE m h) Q E s = wp m Q (\<lambda>e. wp (h e) Q E) s"
  by (simp add: wp_def catchE_def split: prod.splits sum.splits)

lemma wp_stepsE [wp_simps]:
  "wp (stepsE []) Q E s = Q () s"
  "wp (stepsE (m # ms)) Q E s = wp m (\<lambda>_. wp (stepsE ms) Q E) E s"
  by (simp_all add: wp_ret wp_seqE)

lemma wp_if [wp_simps]: "wp (if b then m else n) Q E s = (if b then wp m Q E s else wp n Q E s)"
  by simp

lemma wp_case_option [wp_simps]:
  "wp (case x of None \<Rightarrow> m | Some y \<Rightarrow> n y) Q E s
     = (case x of None \<Rightarrow> wp m Q E s | Some y \<Rightarrow> wp (n y) Q E s)"
  by (simp split: option.splits)

text \<open>The same rules for a weakest precondition that is itself a postcondition.\<close>

lemma wp_ret_ext [wp_simps]: "wp (ret x) Q E = Q x"
  by (simp add: fun_eq_iff wp_ret)

lemma wp_throw_ext [wp_simps]: "wp (throw e) Q E = E e"
  by (simp add: fun_eq_iff wp_throw)

lemma wp_bindE_ext [wp_simps]: "wp (bindE m f) Q E = wp m (\<lambda>x. wp (f x) Q E) E"
  by (simp add: fun_eq_iff wp_bindE)

lemma wp_seqE_ext [wp_simps]: "wp (seqE m n) Q E = wp m (\<lambda>_. wp n Q E) E"
  by (simp add: fun_eq_iff wp_seqE)

lemma wp_catchE_ext [wp_simps]: "wp (catchE m h) Q E = wp m Q (\<lambda>e. wp (h e) Q E)"
  by (simp add: fun_eq_iff wp_catchE)

lemma wp_stepsE_ext [wp_simps]:
  "wp (stepsE []) Q E = Q ()"
  "wp (stepsE (m # ms)) Q E = wp m (\<lambda>_. wp (stepsE ms) Q E) E"
  by (simp_all add: fun_eq_iff wp_stepsE del: stepsE.simps)

lemma wp_modifyE_ext [wp_simps]: "wp (modifyE f) Q E = (\<lambda>s. Q () (f s))"
  by (simp add: fun_eq_iff wp_modifyE)

lemma wp_whenE_ext [wp_simps]: "wp (whenE b m) Q E = (\<lambda>s. if b then wp m Q E s else Q () s)"
  by (simp add: fun_eq_iff wp_whenE)

lemma wp_getsE_ext [wp_simps]: "wp (getsE f k) Q E = (\<lambda>s. wp (k (f s)) Q E s)"
  by (simp add: fun_eq_iff wp_getsE)

lemmas wp_ext = wp_ret_ext wp_throw_ext wp_bindE_ext wp_seqE_ext wp_catchE_ext wp_stepsE_ext

lemma wp_conseq:
  "wp m Q E s \<Longrightarrow> (\<And>x t. Q x t \<Longrightarrow> Q' x t) \<Longrightarrow> (\<And>e t. E e t \<Longrightarrow> E' e t) \<Longrightarrow> wp m Q' E' s"
  by (auto simp: wp_def split: prod.splits sum.splits)

lemma wp_any: "(\<And>x t. Q x t) \<Longrightarrow> (\<And>e t. E e t) \<Longrightarrow> wp m Q E s"
  by (auto simp: wp_def split: prod.split sum.split)

lemma wp_conj: "wp m Q E s \<Longrightarrow> wp m Q' E' s \<Longrightarrow> wp m (\<lambda>x t. Q x t \<and> Q' x t) (\<lambda>e t. E e t \<and> E' e t) s"
  by (auto simp: wp_def split: prod.splits sum.splits)

lemma wp_run: "m s = (t, r) \<Longrightarrow> wp m Q E s = (case r of Inl e \<Rightarrow> E e t | Inr x \<Rightarrow> Q x t)"
  by (simp add: wp_def)

lemma wpD_Inr: "wp m Q E s \<Longrightarrow> m s = (t, Inr x) \<Longrightarrow> Q x t"
  by (simp add: wp_def)

lemma wpD_Inl: "wp m Q E s \<Longrightarrow> m s = (t, Inl e) \<Longrightarrow> E e t"
  by (simp add: wp_def)

lemma wpI: "(\<And>t x. m s = (t, Inr x) \<Longrightarrow> Q x t) \<Longrightarrow> (\<And>t e. m s = (t, Inl e) \<Longrightarrow> E e t) \<Longrightarrow> wp m Q E s"
  by (auto simp: wp_def split: prod.splits sum.splits)

section \<open>Frames\<close>

text \<open>
  For a relation that is reflexive and transitive, what a computation keeps follows from
  what its parts keep.
\<close>

locale effect_frame =
  fixes R :: "'s \<Rightarrow> 's \<Rightarrow> bool"
  assumes refl: "R s s" and trans: "R s t \<Longrightarrow> R t u \<Longrightarrow> R s u"
begin

lemma keeps_ret: "keeps R (ret x)"
  by (simp add: keeps_def ret_def refl)

lemma keeps_throw: "keeps R (throw e)"
  by (simp add: keeps_def throw_def refl)

lemma keeps_bindE:
  assumes "keeps R m" and "\<And>x. keeps R (f x)"
  shows "keeps R (bindE m f)"
  unfolding keeps_def
proof (rule allI)
  fix s
  obtain t r where t: "m s = (t, r)" by fastforce
  then have "R s t" using assms(1) by (metis fst_conv keeps_def)
  moreover have "R t (fst (f x t))" for x using assms(2) by (simp add: keeps_def)
  ultimately show "R s (fst (bindE m f s))"
    by (cases r) (auto simp: bindE_def t intro: trans)
qed

lemma keeps_seqE: "keeps R m \<Longrightarrow> keeps R n \<Longrightarrow> keeps R (seqE m n)"
  unfolding seqE_def by (rule keeps_bindE)

lemma keeps_catchE:
  assumes "keeps R m" and "\<And>e. keeps R (hdl e)"
  shows "keeps R (catchE m hdl)"
  unfolding keeps_def
proof (rule allI)
  fix s
  obtain t r where t: "m s = (t, r)" by fastforce
  then have "R s t" using assms(1) by (metis fst_conv keeps_def)
  moreover have "R t (fst (hdl e t))" for e using assms(2) by (simp add: keeps_def)
  ultimately show "R s (fst (catchE m hdl s))"
    by (cases r) (auto simp: catchE_def t intro: trans)
qed

lemma keeps_getsE: "(\<And>x. keeps R (k x)) \<Longrightarrow> keeps R (getsE f k)"
  by (simp add: keeps_def getsE_def)

lemma keeps_modifyE: "(\<And>s. R s (f s)) \<Longrightarrow> keeps R (modifyE f)"
  by (simp add: keeps_def modifyE_def)

lemma keeps_whenE: "keeps R m \<Longrightarrow> keeps R (whenE b m)"
  by (simp add: whenE_def keeps_ret)

lemma keeps_if: "keeps R m \<Longrightarrow> keeps R n \<Longrightarrow> keeps R (if b then m else n)"
  by simp

lemma keeps_option:
  "keeps R m \<Longrightarrow> (\<And>y. keeps R (n y)) \<Longrightarrow> keeps R (case x of None \<Rightarrow> m | Some y \<Rightarrow> n y)"
  by (simp split: option.split)

lemma keeps_stepsE: "(\<And>m. m \<in> set ms \<Longrightarrow> keeps R m) \<Longrightarrow> keeps R (stepsE ms)"
  by (induction ms) (auto intro: keeps_ret keeps_seqE)

lemmas keeps_rules =
  keeps_ret keeps_throw keeps_bindE keeps_seqE keeps_catchE keeps_getsE keeps_whenE keeps_if
  keeps_option keeps_stepsE

end

lemma keeps_wp: "keeps R m \<Longrightarrow> wp m (\<lambda>_. R s) (\<lambda>_. R s) s"
  by (auto simp: keeps_def wp_def split: prod.split sum.split) (metis fst_conv)+

section \<open>Transition systems and their invariants\<close>

locale invariant_system =
  fixes init :: "'s \<Rightarrow> bool" and step :: "'s \<Rightarrow> 's \<Rightarrow> bool" and inv :: "'s \<Rightarrow> bool"
  assumes inv_init: "init s \<Longrightarrow> inv s"
    and inv_step: "inv s \<Longrightarrow> step s t \<Longrightarrow> inv t"
begin

lemma inv_star: "step\<^sup>*\<^sup>* s t \<Longrightarrow> inv s \<Longrightarrow> inv t"
  by (induction rule: rtranclp_induct) (auto intro: inv_step)

lemma inv_reachable: "init s \<Longrightarrow> step\<^sup>*\<^sup>* s t \<Longrightarrow> inv t"
  using inv_init inv_star by blast

end

end
