(* ===== verification/Money.thy ===== *)
theory Money
  imports Prelude
begin

text \<open>
  Decimal amounts: \<^verbatim>\<open>sidecar/app/money.py\<close> (and its twin in the gateway). A Python
  \<open>Decimal\<close> is a coefficient and a power of ten; \<open>quantize_money\<close> rounds it to twelve
  decimal places with the default context's rule (half to even). A quantised amount
  is an \<open>int\<close> counting units of \<open>10 ^ -12\<close>, the scale of the \<open>NUMERIC(24, 12)\<close>
  columns, and \<open>decimal_str\<close> is Python's \<open>str\<close> of it. Coefficients are unbounded:
  the 28 digit context and the column width are not modelled, nor is a negative zero.
\<close>

section \<open>Decimals and quantisation\<close>

datatype decimal = Dec (coeff: int) (expo: int)

type_synonym money = int

definition MONEY_DB_PRECISION :: nat where
  "MONEY_DB_PRECISION = 12"

definition round_half_even :: "int \<Rightarrow> int \<Rightarrow> int" where
  "round_half_even n d =
     (let q = n div d; r = n mod d
      in if 2 * r < d then q else if d < 2 * r then q + 1 else if even q then q else q + 1)"

definition quantize_money :: "decimal option \<Rightarrow> money" where
  "quantize_money value =
     (case value of
        None \<Rightarrow> 0
      | Some (Dec c e) \<Rightarrow>
          (if 0 \<le> e + int MONEY_DB_PRECISION then c * 10 ^ nat (e + int MONEY_DB_PRECISION)
           else round_half_even c (10 ^ nat (- (e + int MONEY_DB_PRECISION)))))"

text \<open>A value read back from a \<open>NUMERIC(24, 12)\<close> column is the decimal with that scale.\<close>

definition of_column :: "money \<Rightarrow> decimal" where
  "of_column m = Dec m (- int MONEY_DB_PRECISION)"

text \<open>Python's truth value of a decimal: \<open>x or y\<close> takes \<open>y\<close> when \<open>x\<close> is missing or zero.\<close>

definition decimal_or :: "decimal option \<Rightarrow> decimal \<Rightarrow> decimal" where
  "decimal_or x y = (case x of None \<Rightarrow> y | Some d \<Rightarrow> if coeff d = 0 then y else d)"

definition negative :: "decimal \<Rightarrow> bool" where
  "negative d = (coeff d < 0)"

section \<open>Decimal numerals\<close>

definition digit_char :: "nat \<Rightarrow> char" where
  "digit_char n = char_of (48 + n)"

fun nat_str :: "nat \<Rightarrow> string" where
  "nat_str n = (if n < 10 then [digit_char n] else nat_str (n div 10) @ [digit_char (n mod 10)])"

declare nat_str.simps [simp del]

definition int_str :: "int \<Rightarrow> string" where
  "int_str i = (if i < 0 then CHR ''-'' # nat_str (nat (- i)) else nat_str (nat i))"

text \<open>
  \<open>str(Decimal)\<close> of an amount with exponent -12: with more than six digits the plain
  notation, otherwise scientific notation (\<open>str\<close> of a quantised zero is \<open>0E-12\<close>).
\<close>

definition decimal_digits :: "nat \<Rightarrow> string" where
  "decimal_digits n =
     (let ds = nat_str n; len = length ds; left = int len - int MONEY_DB_PRECISION
      in if - 6 < left
         then (if left \<le> 0 then ''0.'' @ replicate (nat (- left)) (CHR ''0'') @ ds
               else take (nat left) ds @ ''.'' @ drop (nat left) ds)
         else (if len = 1 then ds else take 1 ds @ ''.'' @ drop 1 ds)
              @ ''E'' @ int_str (left - 1))"

definition decimal_str :: "money \<Rightarrow> string" where
  "decimal_str m =
     (if m < 0 then CHR ''-'' # decimal_digits (nat (- m)) else decimal_digits (nat m))"

text \<open>Reading a numeral back, to show that printing loses nothing.\<close>

definition digit_val :: "char \<Rightarrow> nat" where
  "digit_val c = of_char c - 48"

definition is_digit :: "char \<Rightarrow> bool" where
  "is_digit c = (48 \<le> (of_char c :: nat) \<and> (of_char c :: nat) \<le> 57)"

definition digits_val :: "string \<Rightarrow> nat" where
  "digits_val ds = foldl (\<lambda>acc c. 10 * acc + digit_val c) 0 ds"

definition decimal_read :: "string \<Rightarrow> money" where
  "decimal_read s =
     (let mant = int (digits_val (filter is_digit (takeWhile (\<lambda>c. c \<noteq> CHR ''E'') s)))
      in if s \<noteq> [] \<and> hd s = CHR ''-'' then - mant else mant)"

section \<open>Rounding\<close>

lemma round_half_even_exact: "0 < d \<Longrightarrow> round_half_even (k * d) d = k"
  by (simp add: round_half_even_def)

lemma multiple_distance:
  fixes d n :: int
  assumes "0 < d"
  shows "\<bar>n div d * d - n\<bar> = n mod d" "\<bar>(n div d + 1) * d - n\<bar> = d - n mod d"
proof -
  have "n div d * d = n - n mod d" by (simp add: minus_mod_eq_div_mult)
  moreover have "0 \<le> n mod d" "n mod d < d" using assms by simp_all
  ultimately show "\<bar>n div d * d - n\<bar> = n mod d" "\<bar>(n div d + 1) * d - n\<bar> = d - n mod d"
    by (simp_all only: distrib_right)
qed

lemma round_half_even_nearest:
  assumes "0 < d"
  shows "2 * \<bar>round_half_even n d * d - n\<bar> \<le> d"
proof -
  define q e1 e2 where "q = n div d" and "e1 = \<bar>n div d * d - n\<bar>"
    and "e2 = \<bar>(n div d + 1) * d - n\<bar>"
  have e1: "n mod d = e1" unfolding e1_def by (rule multiple_distance(1) [OF assms, symmetric])
  have "e2 = d - n mod d" unfolding e2_def by (rule multiple_distance(2) [OF assms])
  with e1 have e: "e1 + e2 = d" "n mod d = e1" by (simp_all only: diff_add_eq add_diff_cancel_left' add_diff_cancel_right')
  have "\<bar>round_half_even n d * d - n\<bar>
      = (if 2 * e1 < d then e1 else if d < 2 * e1 then e2 else if even q then e1 else e2)"
    by (simp only: round_half_even_def Let_def e(2) q_def e1_def e2_def split: if_splits) simp
  with e(1) show ?thesis by (auto split: if_splits)
qed

lemma round_half_even_tie:
  assumes "0 < d" "2 * \<bar>round_half_even n d * d - n\<bar> = d"
  shows "even (round_half_even n d)"
  using assms multiple_distance [OF assms(1), of n]
  by (simp add: round_half_even_def Let_def split: if_splits)

lemma round_half_even_mono:
  assumes "0 < d" "m \<le> n"
  shows "round_half_even m d \<le> round_half_even n d"
proof (cases "m div d = n div d")
  case True
  have "m mod d \<le> n mod d"
    using assms True by (metis add_le_cancel_left div_mult_mod_eq)
  then show ?thesis using True by (auto simp: round_half_even_def Let_def)
next
  case False
  have "m div d \<le> n div d" using assms by (simp add: zdiv_mono1)
  with False have "m div d + 1 \<le> n div d" by simp
  then show ?thesis by (auto simp: round_half_even_def Let_def)
qed

lemma round_half_even_nonneg: "0 < d \<Longrightarrow> 0 \<le> n \<Longrightarrow> 0 \<le> round_half_even n d"
  using round_half_even_mono [of d 0 n] round_half_even_exact [of d 0] by simp

lemma quantize_money_None [simp]: "quantize_money None = 0"
  by (simp add: quantize_money_def)

lemma quantize_money_of_column [simp]: "quantize_money (Some (of_column m)) = m"
  by (simp add: quantize_money_def of_column_def)

lemma quantize_money_nonneg: "\<not> negative d \<Longrightarrow> 0 \<le> quantize_money (Some d)"
  by (cases d) (auto simp: quantize_money_def negative_def intro: round_half_even_nonneg)

section \<open>Printing and reading numerals\<close>

lemma digit_char_val: "n < 10 \<Longrightarrow> digit_val (digit_char n) = n"
  by (simp add: digit_val_def digit_char_def)

lemma digit_char_is_digit: "n < 10 \<Longrightarrow> is_digit (digit_char n)"
  by (simp add: is_digit_def digit_char_def)

lemma nat_str_digits: "\<forall>c \<in> set (nat_str n). is_digit c"
proof (induction n rule: nat_str.induct)
  case (1 n)
  then show ?case
    by (subst nat_str.simps) (auto simp: digit_char_is_digit)
qed

lemma nat_str_nonempty [simp]: "nat_str n \<noteq> []"
  by (subst nat_str.simps) simp

lemma digits_val_snoc [simp]: "digits_val (ds @ [c]) = 10 * digits_val ds + digit_val c"
  by (simp add: digits_val_def)

lemma digits_val_nat_str [simp]: "digits_val (nat_str n) = n"
proof (induction n rule: nat_str.induct)
  case (1 n)
  show ?case
  proof (cases "n < 10")
    case True
    then show ?thesis
      by (subst nat_str.simps) (simp add: digit_char_val digits_val_def)
  next
    case False
    then show ?thesis
      using 1 by (subst nat_str.simps) (simp add: digit_char_val)
  qed
qed

lemma digits_val_zeros [simp]: "digits_val (replicate k (CHR ''0'') @ ds) = digits_val ds"
proof (induction k)
  case 0
  then show ?case by simp
next
  case (Suc k)
  then show ?case by (simp add: digits_val_def digit_val_def)
qed

lemma nat_str_inj: "nat_str m = nat_str n \<Longrightarrow> m = n"
  by (metis digits_val_nat_str)

lemma nat_str_no_minus: "hd (nat_str n) \<noteq> CHR ''-''"
proof -
  have "hd (nat_str n) \<in> set (nat_str n)" by simp
  then have "is_digit (hd (nat_str n))" using nat_str_digits by blast
  then show ?thesis by (auto simp: is_digit_def)
qed

lemma int_str_nonempty [simp]: "int_str i \<noteq> []"
  by (simp add: int_str_def)

lemma int_str_inj: "int_str i = int_str j \<Longrightarrow> i = j"
  by (auto simp: int_str_def split: if_splits dest!: nat_str_inj)
    (metis list.sel(1) nat_str_no_minus)+

lemma digit_facts:
  "is_digit c \<Longrightarrow> c \<noteq> CHR ''E''" "is_digit c \<Longrightarrow> c \<noteq> CHR ''-''" "is_digit (CHR ''0'')"
  "\<not> is_digit (CHR ''.'')" "\<not> is_digit (CHR ''-'')"
  by (auto simp: is_digit_def)

lemma filter_digits: "\<forall>c \<in> set ds. is_digit c \<Longrightarrow> filter is_digit ds = ds"
  by simp

lemma takeWhile_noE:
  "\<forall>c \<in> set xs. c \<noteq> CHR ''E'' \<Longrightarrow> takeWhile (\<lambda>c. c \<noteq> CHR ''E'') (xs @ CHR ''E'' # ys) = xs"
  "\<forall>c \<in> set xs. c \<noteq> CHR ''E'' \<Longrightarrow> takeWhile (\<lambda>c. c \<noteq> CHR ''E'') xs = xs"
  by (induction xs) auto

text \<open>The mantissa digits of a printed amount, with leading zeros or a point in between.\<close>

lemma decimal_digits_mantissa:
  "digits_val (filter is_digit (takeWhile (\<lambda>c. c \<noteq> CHR ''E'') (decimal_digits n))) = n"
proof -
  let ?ds = "nat_str n" and ?left = "int (length (nat_str n)) - int MONEY_DB_PRECISION"
  let ?mant = "if length ?ds = 1 then ?ds else take 1 ?ds @ ''.'' @ drop 1 ?ds"
  have ds: "\<forall>c \<in> set ?ds. is_digit c" by (rule nat_str_digits)
  have dsE: "\<forall>c \<in> set ?ds. c \<noteq> CHR ''E''" using ds digit_facts(1) by blast
  have split: "filter is_digit (take k ?ds @ ''.'' @ drop k ?ds) = ?ds"
    "\<forall>c \<in> set (take k ?ds @ ''.'' @ drop k ?ds). c \<noteq> CHR ''E''" for k
  proof -
    have "filter is_digit (take k ?ds) @ filter is_digit (drop k ?ds) = ?ds"
      using ds by (metis append_take_drop_id filter_append filter_digits)
    then show "filter is_digit (take k ?ds @ ''.'' @ drop k ?ds) = ?ds"
      by (simp add: digit_facts)
    show "\<forall>c \<in> set (take k ?ds @ ''.'' @ drop k ?ds). c \<noteq> CHR ''E''"
      using dsE by (auto dest: in_set_takeD in_set_dropD)
  qed
  consider (sci) "?left \<le> - 6" | (small) "- 6 < ?left" "?left \<le> 0" | (big) "0 < ?left"
    by linarith
  then show ?thesis
  proof cases
    case sci
    have "decimal_digits n = ?mant @ CHR ''E'' # int_str (?left - 1)"
      using sci by (simp add: decimal_digits_def Let_def)
    moreover have "\<forall>c \<in> set ?mant. c \<noteq> CHR ''E''" "filter is_digit ?mant = ?ds"
      using split [of 1] dsE filter_digits [OF ds] by auto
    ultimately show ?thesis by (simp only: takeWhile_noE(1) digits_val_nat_str)
  next
    case small
    have eq: "decimal_digits n = ''0.'' @ replicate (nat (- ?left)) (CHR ''0'') @ ?ds"
      using small by (simp add: decimal_digits_def Let_def)
    have "takeWhile (\<lambda>c. c \<noteq> CHR ''E'') (decimal_digits n) = decimal_digits n"
      unfolding eq takeWhile_eq_all_conv using dsE by (simp add: ball_Un)
    moreover have "filter is_digit (decimal_digits n)
        = replicate (Suc (nat (- ?left))) (CHR ''0'') @ ?ds"
      unfolding eq using filter_digits [OF ds] by (simp add: digit_facts)
    ultimately show ?thesis by (simp only: digits_val_zeros digits_val_nat_str)
  next
    case big
    have eq: "decimal_digits n = take (nat ?left) ?ds @ ''.'' @ drop (nat ?left) ?ds"
      using big by (simp add: decimal_digits_def Let_def)
    show ?thesis
      unfolding eq using split [of "nat ?left"] by (simp only: takeWhile_noE(2) digits_val_nat_str)
  qed
qed

lemma decimal_digits_hd: "decimal_digits n \<noteq> []" "hd (decimal_digits n) \<noteq> CHR ''-''"
proof -
  have hd: "hd (nat_str n) \<noteq> CHR ''-''" by (rule nat_str_no_minus)
  have ne: "nat_str n \<noteq> []" by simp
  show "decimal_digits n \<noteq> []"
    using ne by (auto simp: decimal_digits_def Let_def)
  show "hd (decimal_digits n) \<noteq> CHR ''-''"
    using hd ne by (auto simp: decimal_digits_def Let_def hd_append)
qed

lemma decimal_read_str: "decimal_read (decimal_str m) = m"
proof (cases "m < 0")
  case True
  then show ?thesis
    using decimal_digits_mantissa [of "nat (- m)"]
    by (simp add: decimal_read_def decimal_str_def Let_def digit_facts)
next
  case False
  then show ?thesis
    using decimal_digits_mantissa [of "nat m"] decimal_digits_hd [of "nat m"]
    by (simp add: decimal_read_def decimal_str_def Let_def)
qed

lemma decimal_str_inj: "decimal_str a = decimal_str b \<Longrightarrow> a = b"
  by (metis decimal_read_str)

end
