(* ===== verification/Json.thy ===== *)
theory Json
  imports Money "HOL-Library.Char_ord" "HOL-Library.List_Lexorder"
begin

text \<open>
  What the program uses of Python's \<open>json\<close> module: JSON values, \<open>json.dumps\<close> with
  \<open>sort_keys=True\<close>, ASCII escapes and the two separator pairs that occur, and the
  fact that this canonical form is injective, on which request fingerprints and row
  hashes rely. An object is its list of items; \<open>sort_keys\<close> orders the items of every
  nested object by key. Numbers are integers (no component writes a float); strings
  are sequences of 8 bit characters.
\<close>

datatype json =
    JNull
  | JBool bool
  | JInt int
  | JStr string
  | JArr "json list"
  | JObj "(string \<times> json) list"

type_synonym jobject = "(string \<times> json) list"

section \<open>Printing\<close>

definition hex_char :: "nat \<Rightarrow> char" where
  "hex_char n = (if n < 10 then char_of (48 + n) else char_of (87 + n))"

definition esc_char :: "char \<Rightarrow> string" where
  "esc_char c =
     (if c = CHR 0x22 then [CHR 0x5C, CHR 0x22]
      else if c = CHR 0x5C then [CHR 0x5C, CHR 0x5C]
      else if c = CHR 0x0A then [CHR 0x5C, CHR ''n'']
      else if c = CHR 0x0D then [CHR 0x5C, CHR ''r'']
      else if c = CHR 0x09 then [CHR 0x5C, CHR ''t'']
      else if c = CHR 0x08 then [CHR 0x5C, CHR ''b'']
      else if c = CHR 0x0C then [CHR 0x5C, CHR ''f'']
      else let n = (of_char c :: nat) in
        if 32 \<le> n \<and> n \<le> 126 then [c]
        else [CHR 0x5C, CHR ''u'', CHR ''0'', CHR ''0'', hex_char (n div 16), hex_char (n mod 16)])"

abbreviation quote_char :: char where
  "quote_char \<equiv> CHR 0x22"

definition json_string :: "string \<Rightarrow> string" where
  "json_string s = quote_char # concat (map esc_char s) @ [quote_char]"

fun join :: "string \<Rightarrow> string list \<Rightarrow> string" where
  "join sep [] = []"
| "join sep [x] = x"
| "join sep (x # y # ys) = x @ sep @ join sep (y # ys)"

text \<open>\<open>dumps isep ksep\<close> is \<open>json.dumps\<close> with \<open>separators=(isep, ksep)\<close>.\<close>

fun dumps :: "string \<Rightarrow> string \<Rightarrow> json \<Rightarrow> string" where
  "dumps isep ksep JNull = ''null''"
| "dumps isep ksep (JBool b) = (if b then ''true'' else ''false'')"
| "dumps isep ksep (JInt i) = int_str i"
| "dumps isep ksep (JStr s) = json_string s"
| "dumps isep ksep (JArr vs) = CHR ''['' # join isep (map (dumps isep ksep) vs) @ '']''"
| "dumps isep ksep (JObj kvs) =
     CHR ''{'' # join isep (map (\<lambda>(k, v). json_string k @ ksep @ dumps isep ksep v) kvs) @ ''}''"

fun sort_keys :: "json \<Rightarrow> json" where
  "sort_keys (JArr vs) = JArr (map sort_keys vs)"
| "sort_keys (JObj kvs) = JObj (sort_key fst (map (\<lambda>(k, v). (k, sort_keys v)) kvs))"
| "sort_keys v = v"

definition dumps_sorted :: "json \<Rightarrow> string" where
  "dumps_sorted v = dumps '', '' '': '' (sort_keys v)"

definition dumps_compact :: "json \<Rightarrow> string" where
  "dumps_compact v = dumps '','' '':'' (sort_keys v)"

text \<open>The inverse of the escapes, to show that they lose nothing.\<close>

definition hex_val :: "char \<Rightarrow> nat" where
  "hex_val c = (let n = of_char c in if n < 58 then n - 48 else n - 87)"

definition unesc :: "string \<Rightarrow> char" where
  "unesc s =
     (if length s = 1 then hd s
      else if length s = 2 then
        (let x = s ! 1 in if x = CHR ''n'' then CHR 0x0A else if x = CHR ''r'' then CHR 0x0D
         else if x = CHR ''t'' then CHR 0x09 else if x = CHR ''b'' then CHR 0x08
         else if x = CHR ''f'' then CHR 0x0C else x)
      else char_of (16 * hex_val (s ! 4) + hex_val (s ! 5)))"

definition esc_len :: "string \<Rightarrow> nat" where
  "esc_len s = (if hd s \<noteq> CHR 0x5C then 1 else if hd (tl s) = CHR ''u'' then 6 else 2)"

text \<open>
  \<open>ends s\<close>: what may follow a printed value. After a value the printer emits nothing, a
  comma or a closing bracket, never a digit.
\<close>

definition ends :: "string \<Rightarrow> bool" where
  "ends s = (s = [] \<or> hd s = CHR '','' \<or> hd s = CHR ''}'' \<or> hd s = CHR '']'')"

section \<open>The printed form determines the value\<close>

lemma hex_val_char: "m < 16 \<Longrightarrow> hex_val (hex_char m) = m"
  by (auto simp: hex_val_def hex_char_def Let_def)

lemma esc_len_esc: "esc_len (esc_char c @ s) = length (esc_char c)"
  by (simp add: esc_len_def esc_char_def Let_def)

lemma unesc_esc: "unesc (esc_char c) = c"
proof -
  have "(of_char c :: nat) div 16 < 16" using nat_of_char_less_256 [of c] by (simp add: less_mult_imp_div_less)
  then show ?thesis
    by (simp add: esc_char_def unesc_def Let_def hex_val_char)
qed

lemma esc_char_hd: "esc_char c \<noteq> []" "hd (esc_char c) \<noteq> quote_char"
  by (simp_all add: esc_char_def Let_def)

lemma esc_char_prefix:
  assumes "esc_char c @ s = esc_char d @ t"
  shows "c = d \<and> s = t"
proof -
  have "length (esc_char c) = length (esc_char d)"
    using esc_len_esc [of c s] esc_len_esc [of d t] assms by simp
  with assms have "esc_char c = esc_char d" "s = t" by auto
  then show ?thesis using unesc_esc by metis
qed

lemma esc_char_not_quote: "esc_char c @ s = quote_char # t \<Longrightarrow> False"
  using esc_char_hd [of c] by (cases "esc_char c") auto

lemma esc_body_prefix:
  "concat (map esc_char xs) @ quote_char # s = concat (map esc_char ys) @ quote_char # t
     \<Longrightarrow> xs = ys \<and> s = t"
proof (induction xs arbitrary: ys)
  case Nil
  show ?case
  proof (cases ys)
    case Nil
    with Nil.prems show ?thesis by simp
  next
    case (Cons y ys')
    with Nil.prems have "esc_char y @ concat (map esc_char ys') @ quote_char # t = quote_char # s"
      by simp
    then have False by (rule esc_char_not_quote)
    then show ?thesis ..
  qed
next
  case (Cons x xs)
  show ?case
  proof (cases ys)
    case Nil
    with Cons.prems have "esc_char x @ concat (map esc_char xs) @ quote_char # s = quote_char # t"
      by simp
    then have False by (rule esc_char_not_quote)
    then show ?thesis ..
  next
    case (Cons y ys')
    with Cons.prems have "esc_char x @ concat (map esc_char xs) @ quote_char # s
        = esc_char y @ concat (map esc_char ys') @ quote_char # t" by simp
    from esc_char_prefix [OF this] show ?thesis using Cons.IH Cons by blast
  qed
qed

lemma json_string_prefix: "json_string xs @ s = json_string ys @ t \<Longrightarrow> xs = ys \<and> s = t"
  by (auto simp: json_string_def dest: esc_body_prefix)

lemma ends_not_digit: "ends s \<Longrightarrow> takeWhile is_digit s = []"
  by (cases s) (auto simp: ends_def is_digit_def)

lemma nat_str_prefix:
  assumes "ends s" "ends t" "nat_str m @ s = nat_str n @ t"
  shows "m = n \<and> s = t"
proof -
  have "takeWhile is_digit (nat_str k @ u) = nat_str k" if "ends u" for k u
    using nat_str_digits [of k] ends_not_digit [OF that] by simp
  then have "nat_str m = nat_str n" using assms by metis
  then show ?thesis using assms(3) nat_str_inj by auto
qed

lemma int_str_hd: "is_digit (hd (int_str i)) \<or> hd (int_str i) = CHR ''-''"
  using nat_str_digits [of "nat i"] by (auto simp: int_str_def)

lemma int_str_prefix:
  assumes "ends s" "ends t" "int_str i @ s = int_str j @ t"
  shows "i = j \<and> s = t"
proof -
  have pos: "nat_str n @ u \<noteq> CHR ''-'' # x" for n u x
    using nat_str_no_minus [of n] by (cases "nat_str n") auto
  consider "i < 0" "j < 0" | "i < 0" "0 \<le> j" | "0 \<le> i" "j < 0" | "0 \<le> i" "0 \<le> j"
    by linarith
  then show ?thesis
  proof cases
    case 1
    then have "nat_str (nat (- i)) @ s = nat_str (nat (- j)) @ t"
      using assms(3) by (simp add: int_str_def)
    from nat_str_prefix [OF assms(1,2) this] 1 show ?thesis by (simp add: eq_nat_nat_iff)
  next
    case 2
    with assms(3) pos show ?thesis by (metis append_Cons int_str_def not_less)
  next
    case 3
    with assms(3) pos show ?thesis by (metis append_Cons int_str_def not_less)
  next
    case 4
    then have "nat_str (nat i) @ s = nat_str (nat j) @ t"
      using assms(3) by (simp add: int_str_def)
    from nat_str_prefix [OF assms(1,2) this] 4 show ?thesis by (simp add: eq_nat_nat_iff)
  qed
qed

text \<open>The first character of a printed value tells its constructor.\<close>

definition ctor :: "json \<Rightarrow> nat" where
  "ctor v = (case v of JNull \<Rightarrow> 0 | JBool _ \<Rightarrow> 1 | JInt _ \<Rightarrow> 2 | JStr _ \<Rightarrow> 3 | JArr _ \<Rightarrow> 4 | JObj _ \<Rightarrow> 5)"

definition tag :: "char \<Rightarrow> nat" where
  "tag c = (if c = CHR ''n'' then 0 else if c = CHR ''t'' \<or> c = CHR ''f'' then 1
            else if c = quote_char then 3 else if c = CHR ''['' then 4 else if c = CHR ''{'' then 5
            else if c = CHR '']'' \<or> c = CHR ''}'' then 6 else 2)"

lemma digit_not_lit:
  "is_digit c \<Longrightarrow> c \<noteq> CHR ''n'' \<and> c \<noteq> CHR ''t'' \<and> c \<noteq> CHR ''f'' \<and> c \<noteq> quote_char
     \<and> c \<noteq> CHR ''['' \<and> c \<noteq> CHR ''{'' \<and> c \<noteq> CHR '']'' \<and> c \<noteq> CHR ''}''"
  by (auto simp: is_digit_def)

lemma tag_int: "tag (hd (int_str i)) = 2"
proof -
  have "tag c = 2" if "is_digit c" for c
    using digit_not_lit [OF that] by (simp add: tag_def)
  moreover have "tag (CHR ''-'') = 2" by (simp add: tag_def)
  ultimately show ?thesis using int_str_hd [of i] by metis
qed

lemma dumps_tag: "dumps i k v \<noteq> []" "tag (hd (dumps i k v)) = ctor v"
  by (cases v; simp add: json_string_def ctor_def tag_int; simp add: tag_def)+

lemma dumps_hd:
  "hd (dumps i k v) \<noteq> CHR '']''" "hd (dumps i k v) \<noteq> CHR ''}''"
proof -
  have "tag (hd (dumps i k v)) \<noteq> 6" unfolding dumps_tag(2) by (simp add: ctor_def split: json.splits)
  then show "hd (dumps i k v) \<noteq> CHR '']''" "hd (dumps i k v) \<noteq> CHR ''}''"
    by (auto simp: tag_def)
qed

lemma dumps_same_ctor:
  assumes "dumps i k v @ s = dumps i k w @ t"
  shows "ctor v = ctor w"
proof -
  have "hd (dumps i k v) = hd (dumps i k w)"
    using arg_cong [OF assms, of hd] by (simp add: dumps_tag(1))
  then show ?thesis using dumps_tag(2) by metis
qed

lemma join_Cons: "join sep (x # xs) = (if xs = [] then x else x @ sep @ join sep xs)"
  by (cases xs) auto

lemma join_prefix:
  assumes elem: "\<And>v w s t. v \<in> set vs \<Longrightarrow> ends s \<Longrightarrow> ends t \<Longrightarrow> f v @ s = f w @ t \<Longrightarrow> v = w \<and> s = t"
    and hd: "\<And>v. f v \<noteq> [] \<and> hd (f v) \<noteq> c"
    and c: "c = CHR '']'' \<or> c = CHR ''}''" and sep: "sep = CHR '','' # sep'"
  shows "join sep (map f vs) @ c # s = join sep (map f ws) @ c # t \<Longrightarrow> vs = ws \<and> s = t"
  using elem
proof (induction vs arbitrary: ws)
  case Nil
  show ?case
  proof (cases ws)
    case Nil
    with Nil.prems show ?thesis by simp
  next
    case (Cons w ws')
    obtain x xs where "f w = x # xs" "x \<noteq> c" using hd [of w] by (cases "f w") auto
    then show ?thesis using Nil.prems(1) Cons by (auto simp: join_Cons split: if_splits)
  qed
next
  case (Cons v vs)
  show ?case
  proof (cases ws)
    case Nil
    obtain x xs where "f v = x # xs" "x \<noteq> c" using hd [of v] by (cases "f v") auto
    then show ?thesis using Cons.prems(1) Nil by (auto simp: join_Cons split: if_splits)
  next
    case (Cons w ws')
    define x where "x = (if vs = [] then c # s else sep @ join sep (map f vs) @ c # s)"
    define y where "y = (if ws' = [] then c # t else sep @ join sep (map f ws') @ c # t)"
    have xy: "ends x" "ends y" using c sep by (auto simp: x_def y_def ends_def)
    have "f v @ x = f w @ y"
      using Cons.prems(1) Cons by (auto simp: join_Cons x_def y_def split: if_splits)
    then have vw: "v = w" "x = y"
      using Cons.prems(2) [of v x y w] xy by auto
    have rest: "(vs = [] \<longleftrightarrow> ws' = []) \<and> join sep (map f vs) @ c # s = join sep (map f ws') @ c # t"
      using vw(2) c sep by (auto simp: x_def y_def split: if_splits)
    show ?thesis
      using Cons.IH [of ws'] Cons.prems(2) rest vw(1) Cons by auto
  qed
qed

theorem dumps_prefix:
  assumes "isep = CHR '','' # sep'"
  shows "ends s \<Longrightarrow> ends t \<Longrightarrow> dumps isep ksep v @ s = dumps isep ksep w @ t \<Longrightarrow> v = w \<and> s = t"
proof (induction v arbitrary: w s t)
  case JNull
  then show ?case using dumps_same_ctor [OF JNull(3)] by (cases w) (auto simp: ctor_def)
next
  case (JBool b)
  then show ?case using dumps_same_ctor [OF JBool(3)]
    by (cases w) (auto simp: ctor_def split: if_splits)
next
  case (JInt i)
  obtain j where w: "w = JInt j"
    using dumps_same_ctor [OF JInt(3)] by (cases w) (auto simp: ctor_def)
  then show ?case using int_str_prefix [OF JInt.prems(1,2), of i j] JInt.prems(3) by simp
next
  case (JStr x)
  obtain y where w: "w = JStr y"
    using dumps_same_ctor [OF JStr(3)] by (cases w) (auto simp: ctor_def)
  then show ?case using json_string_prefix [of x s y t] JStr.prems(3) by simp
next
  case (JArr vs)
  obtain ws where w: "w = JArr ws"
    using dumps_same_ctor [OF JArr.prems(3)] by (cases w) (auto simp: ctor_def)
  have "vs = ws \<and> s = t"
  proof (rule join_prefix [where f = "dumps isep ksep" and c = "CHR '']''"])
    show "join isep (map (dumps isep ksep) vs) @ CHR '']'' # s
        = join isep (map (dumps isep ksep) ws) @ CHR '']'' # t"
      using JArr.prems(3) w by simp
  qed (use assms JArr.IH dumps_hd dumps_tag(1) in auto)
  then show ?case using w by simp
next
  case (JObj kvs)
  let ?f = "\<lambda>(k, v). json_string k @ ksep @ dumps isep ksep v"
  obtain kws where w: "w = JObj kws"
    using dumps_same_ctor [OF JObj.prems(3)] by (cases w) (auto simp: ctor_def)
  have "kvs = kws \<and> s = t"
  proof (rule join_prefix [where f = ?f and c = "CHR ''}''"])
    show "join isep (map ?f kvs) @ CHR ''}'' # s = join isep (map ?f kws) @ CHR ''}'' # t"
      using JObj.prems(3) w by simp
    fix x y s t
    assume x: "x \<in> set kvs" and e: "ends s" "ends t" "?f x @ s = ?f y @ t"
    obtain k v k' v' where xy: "x = (k, v)" "y = (k', v')" by fastforce
    then have eq: "json_string k @ (ksep @ dumps isep ksep v @ s)
        = json_string k' @ (ksep @ dumps isep ksep v' @ t)" using e(3) by simp
    from json_string_prefix [OF eq] have "k = k'" "dumps isep ksep v @ s = dumps isep ksep v' @ t"
      by simp_all
    then show "x = y \<and> s = t" using JObj.IH [OF x, of v s t v'] e xy by auto
  qed (use assms in \<open>auto simp: json_string_def\<close>)
  then show ?case using w by simp
qed

lemma dumps_inj:
  assumes "dumps (CHR '','' # sep) ksep v = dumps (CHR '','' # sep) ksep w"
  shows "v = w"
  using dumps_prefix [of "CHR '','' # sep" sep "[]" "[]" ksep v w] assms by (simp add: ends_def)

end
