(* ===== verification/Text.thy ===== *)
theory Text
  imports Json
begin

text \<open>
  What the program uses of Python's \<open>str\<close>, on ASCII text: \<open>strip\<close>, \<open>rstrip\<close>, \<open>lower\<close>, \<open>startswith\<close>,
  \<open>split\<close> on one character, \<open>partition\<close>, and \<open>str\<close> of the values of a decoded JSON document.
\<close>

section \<open>String methods\<close>

definition is_space :: "char \<Rightarrow> bool" where
  "is_space c = (let n = (of_char c :: nat) in 9 \<le> n \<and> n \<le> 13 \<or> 28 \<le> n \<and> n \<le> 32)"

definition lstrip :: "string \<Rightarrow> string" where
  "lstrip s = dropWhile is_space s"

definition rstrip :: "(char \<Rightarrow> bool) \<Rightarrow> string \<Rightarrow> string" where
  "rstrip p s = rev (dropWhile p (rev s))"

definition strip :: "string \<Rightarrow> string" where
  "strip s = rstrip is_space (lstrip s)"

definition lower_char :: "char \<Rightarrow> char" where
  "lower_char c = (let n = (of_char c :: nat) in if 65 \<le> n \<and> n \<le> 90 then char_of (n + 32) else c)"

definition lower :: "string \<Rightarrow> string" where
  "lower s = map lower_char s"

definition startswith :: "string \<Rightarrow> string \<Rightarrow> bool" where
  "startswith s p = (take (length p) s = p)"

fun split :: "char \<Rightarrow> string \<Rightarrow> string list" where
  "split c [] = [[]]"
| "split c (x # xs) =
     (if x = c then [] # split c xs
      else case split c xs of [] \<Rightarrow> [[x]] | w # ws \<Rightarrow> (x # w) # ws)"

text \<open>\<open>s.split(c)[-1]\<close>.\<close>

definition last_part :: "char \<Rightarrow> string \<Rightarrow> string" where
  "last_part c s = last (split c s)"

text \<open>\<open>s.partition(c)\<close>: head, separator (empty when absent), tail.\<close>

definition partition_at :: "char \<Rightarrow> string \<Rightarrow> string \<times> string \<times> string" where
  "partition_at c s =
     (let before = takeWhile (\<lambda>x. x \<noteq> c) s; after = dropWhile (\<lambda>x. x \<noteq> c) s
      in case after of [] \<Rightarrow> (s, [], []) | _ # rest \<Rightarrow> (before, [c], rest))"

text \<open>The entries of a comma separated setting: \<open>[part.strip() for part in s.split(",") if part.strip()]\<close>.\<close>

definition comma_list :: "string \<Rightarrow> string list" where
  "comma_list s = filter (\<lambda>p. p \<noteq> []) (map strip (split (CHR '','') s))"

section \<open>Laws\<close>

lemma is_space_lower [simp]: "is_space (lower_char c) = is_space c"
proof (cases "65 \<le> (of_char c :: nat) \<and> (of_char c :: nat) \<le> 90")
  case True
  then have "of_char (lower_char c) = (of_char c + 32 :: nat)"
    by (simp add: lower_char_def Let_def)
  then show ?thesis using True by (simp add: is_space_def Let_def)
next
  case False
  then show ?thesis by (auto simp: lower_char_def Let_def)
qed

lemma lower_char_idem [simp]: "lower_char (lower_char c) = lower_char c"
  by (simp add: lower_char_def Let_def)

lemma lower_idem [simp]: "lower (lower s) = lower s"
  by (simp add: lower_def)

lemma lower_append: "lower (s @ t) = lower s @ lower t"
  by (simp add: lower_def)

lemma dropWhile_map_same: "(\<And>x. p (f x) = p x) \<Longrightarrow> dropWhile p (map f xs) = map f (dropWhile p xs)"
  by (induction xs) auto

lemma strip_lower: "strip (lower s) = lower (strip s)"
  by (simp add: strip_def lstrip_def rstrip_def lower_def dropWhile_map_same rev_map)

lemma hd_rstrip: "rstrip p s \<noteq> [] \<Longrightarrow> hd (rstrip p s) = hd s"
proof -
  assume ne: "rstrip p s \<noteq> []"
  have "s = rstrip p s @ rev (takeWhile p (rev s))"
    unfolding rstrip_def by (metis rev_append rev_rev_ident takeWhile_dropWhile_id)
  then show ?thesis using ne by (metis hd_append2)
qed

lemma rstrip_idem [simp]: "rstrip p (rstrip p s) = rstrip p s"
  by (simp add: rstrip_def dropWhile_idem)

lemma strip_ends:
  assumes "strip s \<noteq> []"
  shows "\<not> is_space (hd (strip s))" "\<not> is_space (last (strip s))"
proof -
  have ne: "lstrip s \<noteq> []" using assms by (auto simp: strip_def rstrip_def)
  then have "\<not> is_space (hd (lstrip s))" by (simp add: lstrip_def hd_dropWhile)
  then show "\<not> is_space (hd (strip s))" using hd_rstrip [of is_space "lstrip s"] assms by (simp add: strip_def)
  have "dropWhile is_space (rev (lstrip s)) \<noteq> []" using assms by (simp add: strip_def rstrip_def)
  from hd_dropWhile [OF this] show "\<not> is_space (last (strip s))"
    using assms by (simp add: strip_def rstrip_def last_rev)
qed

lemma strip_fixed:
  assumes "s = [] \<or> \<not> is_space (hd s) \<and> \<not> is_space (last s)"
  shows "strip s = s"
proof (cases "s = []")
  case False
  with assms have "dropWhile is_space s = s" "dropWhile is_space (rev s) = rev s"
    by (simp_all add: dropWhile_eq_self_iff hd_rev)
  then show ?thesis by (simp add: strip_def lstrip_def rstrip_def)
qed (simp add: strip_def lstrip_def rstrip_def)

lemma strip_idem [simp]: "strip (strip s) = strip s"
  using strip_ends [of s] by (intro strip_fixed) blast

lemma split_not_Nil [simp]: "split c s \<noteq> []"
  by (induction s) (auto split: list.splits)

text \<open>Splitting loses nothing, and no part contains the separator.\<close>

lemma join_split: "join [c] (split c s) = s"
proof (induction s)
  case (Cons x xs)
  then show ?case
    by (cases "split c xs"; cases "tl (split c xs)") auto
qed simp

lemma split_parts: "p \<in> set (split c s) \<Longrightarrow> c \<notin> set p"
  by (induction s arbitrary: p) (auto split: if_splits list.splits)

lemma split_plain: "c \<notin> set s \<Longrightarrow> split c s = [s]"
  by (induction s) auto

lemma split_sep: "c \<notin> set s \<Longrightarrow> split c (s @ c # t) = s # split c t"
  by (induction s) auto

lemma last_part_plain: "c \<notin> set (last_part c s)"
  unfolding last_part_def by (rule split_parts [where s = s]) simp

lemma last_part_idem [simp]: "last_part c (last_part c s) = last_part c s"
  using split_plain [OF last_part_plain] by (simp add: last_part_def)

lemma comma_list_stripped: "p \<in> set (comma_list s) \<Longrightarrow> p \<noteq> [] \<and> strip p = p"
  by (auto simp: comma_list_def)

end
