(* ===== verification/State.thy ===== *)
theory State
  imports Json
begin

text \<open>
  The data of the ModelGovernor control plane: the rows of the Postgres tables that
  \<^verbatim>\<open>migrations/\<close> creates, the requests of \<^verbatim>\<open>sidecar/app/schemas.py\<close>, the settings of
  \<^verbatim>\<open>sidecar/app/config.py\<close>, the in-process state of the limiter, the circuit breaker and
  the diagnostic switch, and the state \<open>sys\<close> a sidecar or reconciler process works on.

  A SQLAlchemy session is modelled by the two databases of \<open>sys\<close>: \<open>db\<close> is what the
  open transaction sees and \<open>committed\<close> what other transactions see; \<open>commit\<close> publishes
  the first, and leaving \<open>get_db_session\<close> discards what was not committed. Transactions
  run one after another. The primary key, unique and foreign key constraints that the
  code reacts to raise \<open>IntegrityError\<close> in the model; the \<open>CHECK\<close> constraints are not
  enforced by the model, nor are the partial unique indexes on \<open>ledger_events\<close> of
  migration 0005: that the code never violates them is proved instead.

  What is not under the repository is a field of \<open>host\<close>: the SHA-256 digest, the text
  Postgres gives a timestamp, and the Redis server, whose reply to a command depends on
  the commands sent before (\<open>None\<close> is a raised client error). The flags
  \<open>breaker_degraded\<close> and \<open>guardrails_degraded\<close> belong to the cached instances of
  \<open>get_circuit_breaker\<close> and \<open>get_guardrails\<close>; they are \<open>None\<close> until the first call
  constructs the instance.
\<close>

section \<open>Tables\<close>

datatype status = RESERVED | SETTLED | EXPIRED | REFUNDED | IN_FLIGHT | PROVIDER_TIMEOUT | STRANDED

record wallet =
  w_user_id :: string
  w_balance :: money
  w_active :: bool
  w_locked_at :: "int option"
  w_lock_reason :: "string option"
  w_updated_at :: int

record trace_budget =
  t_trace_id :: string
  t_cap_amount :: money
  t_reserved_total :: money
  t_settled_total :: money
  t_updated_at :: int

record escrow =
  e_idempotency_key :: string
  e_user_id :: string
  e_trace_id :: string
  e_model :: string
  e_request_fingerprint :: string
  e_reserved_amount :: money
  e_actual_amount :: money
  e_status :: status
  e_provider_request_id :: "string option"
  e_terminal_reason :: string
  e_trace_cap_amount :: money
  e_drift_amount :: money
  e_created_at :: int
  e_expires_at :: int
  e_dispatch_started_at :: "int option"
  e_settled_at :: "int option"
  e_expired_at :: "int option"
  e_tenant_id :: string
  e_session_id :: string
  e_agent_run_id :: string
  e_workflow_step :: string
  e_policy_version :: string
  e_input_tokens :: int
  e_output_tokens :: int
  e_cached_input_tokens :: int
  e_cached_output_tokens :: int

record attempt =
  a_attempt_key :: string
  a_idempotency_key :: string
  a_provider_name :: "string option"
  a_model_name :: "string option"
  a_provider_request_id :: "string option"
  a_status :: status
  a_terminal_reason :: string
  a_created_at :: int
  a_updated_at :: int

record event =
  ev_event_id :: int
  ev_idempotency_key :: string
  ev_user_id :: string
  ev_event_type :: string
  ev_amount_delta :: money
  ev_metadata :: jobject
  ev_recorded_at :: string
  ev_prev_hash :: "string option"
  ev_row_hash :: "string option"

record budget_scope =
  b_scope_type :: string
  b_scope_key :: string
  b_cap_amount :: money
  b_consumed_amount :: money
  b_updated_at :: int

record loop_state =
  l_scope_key :: string
  l_last_signature :: string
  l_consecutive_count :: int
  l_updated_at :: int

record identity =
  id_tenant_id :: string
  id_session_id :: string
  id_agent_run_id :: string
  id_workflow_step :: string

record incident =
  i_idempotency_key :: "string option"
  i_user_id :: "string option"
  i_identity :: identity
  i_incident_type :: string
  i_details :: jobject
  i_recorded_at :: int

record lineage =
  n_idempotency_key :: string
  n_identity :: identity
  n_user_id :: string
  n_event_type :: string
  n_prompt_template_version :: "string option"
  n_system_context_hash :: "string option"
  n_tool_name :: "string option"
  n_tool_input :: "string option"
  n_raw_tool_output :: "string option"
  n_provider_request_id :: "string option"
  n_state_snapshot :: jobject
  n_recorded_at :: int

record verify_checkpoint =
  last_verified_event_id :: int
  verified_head_hash :: string
  cp_sealed_count :: nat
  cp_total_events :: nat

record audit_row =
  au_audit_id :: int
  au_actor_subject :: string
  au_actor_method :: string
  au_actor_roles :: string
  au_action :: string
  au_resource :: string
  au_details :: jobject
  au_recorded_at :: string
  au_prev_hash :: "string option"
  au_row_hash :: "string option"

record chain_anchor =
  an_anchor_id :: int
  an_head_hash :: string
  an_sealed_count :: nat
  an_total_events :: nat
  an_source :: string

record db =
  user_wallets :: "wallet list"
  trace_budget_state :: "trace_budget list"
  escrow_ledger :: "escrow list"
  provider_dispatch_attempts :: "attempt list"
  ledger_events :: "event list"
  next_event_id :: int
  budget_scope_state :: "budget_scope list"
  execution_loop_state :: "loop_state list"
  guardrail_incidents :: "incident list"
  execution_lineage :: "lineage list"
  model_policy_registry :: "string list"
  verify_checkpoints :: "verify_checkpoint option"
  has_tenant_id :: bool
  has_row_hash :: bool
  has_checkpoint_table :: bool
  admin_audit_log :: "audit_row list"
  next_audit_id :: int
  has_admin_audit :: bool
  ledger_chain_anchors :: "chain_anchor list"
  next_anchor_id :: int
  has_anchor_table :: bool

section \<open>Requests and settings\<close>

record reserve_request =
  rq_user_id :: string
  rq_trace_id :: string
  rq_idempotency_key :: string
  rq_model :: string
  rq_estimated_cost :: decimal
  rq_trace_cap :: "decimal option"
  rq_tenant_id :: "string option"
  rq_session_id :: "string option"
  rq_agent_run_id :: "string option"
  rq_workflow_step :: "string option"
  rq_policy_version :: string
  rq_run_budget :: "decimal option"
  rq_session_budget :: "decimal option"
  rq_tenant_budget :: "decimal option"
  rq_user_budget :: "decimal option"
  rq_requires_manual_approval :: bool
  rq_manual_approval_id :: "string option"
  rq_high_cost_tool :: "string option"

datatype settle_outcome = O_IN_FLIGHT | O_PROVIDER_TIMEOUT | O_SETTLED

record settle_request =
  st_idempotency_key :: "string option"
  st_outcome :: settle_outcome
  st_actual_cost :: decimal
  st_dispatch_attempt_key :: "string option"
  st_provider_name :: "string option"
  st_model :: "string option"
  st_provider_request_id :: "string option"
  st_reason :: "string option"
  st_tenant_id :: "string option"
  st_user_id :: "string option"
  st_session_id :: "string option"
  st_agent_run_id :: "string option"
  st_workflow_step :: "string option"
  st_policy_version :: string
  st_input_tokens :: int
  st_output_tokens :: int
  st_cached_input_tokens :: int
  st_cached_output_tokens :: int
  st_latency_ms :: int
  st_retry_count :: int
  st_failover_count :: int
  st_loop_signature :: "string option"
  st_prompt_template_version :: "string option"
  st_system_context_hash :: "string option"
  st_tool_name :: "string option"
  st_tool_input :: "string option"
  st_raw_tool_output :: "string option"
  st_state_snapshot :: "jobject option"

text \<open>
  The field constraints of the pydantic models; FastAPI answers 422 to a request that
  violates them and does not call the handler.
\<close>

definition bounded_str :: "nat \<Rightarrow> nat \<Rightarrow> string \<Rightarrow> bool" where
  "bounded_str lo hi x = (lo \<le> length x \<and> length x \<le> hi)"

definition opt_ok :: "('a \<Rightarrow> bool) \<Rightarrow> 'a option \<Rightarrow> bool" where
  "opt_ok p x = (case x of None \<Rightarrow> True | Some v \<Rightarrow> p v)"

definition positive :: "decimal \<Rightarrow> bool" where
  "positive d = (0 < coeff d)"

definition reserve_request_ok :: "reserve_request \<Rightarrow> bool" where
  "reserve_request_ok r =
     (bounded_str 1 255 (rq_user_id r) \<and> bounded_str 1 255 (rq_trace_id r)
      \<and> bounded_str 1 255 (rq_idempotency_key r) \<and> bounded_str 1 255 (rq_model r)
      \<and> \<not> negative (rq_estimated_cost r) \<and> opt_ok positive (rq_trace_cap r)
      \<and> opt_ok (bounded_str 1 255) (rq_tenant_id r) \<and> opt_ok (bounded_str 1 255) (rq_session_id r)
      \<and> opt_ok (bounded_str 1 255) (rq_agent_run_id r) \<and> opt_ok (bounded_str 1 255) (rq_workflow_step r)
      \<and> bounded_str 1 64 (rq_policy_version r)
      \<and> opt_ok positive (rq_run_budget r) \<and> opt_ok positive (rq_session_budget r)
      \<and> opt_ok positive (rq_tenant_budget r) \<and> opt_ok positive (rq_user_budget r)
      \<and> opt_ok (bounded_str 1 255) (rq_manual_approval_id r)
      \<and> opt_ok (bounded_str 1 255) (rq_high_cost_tool r))"

definition settle_request_ok :: "settle_request \<Rightarrow> bool" where
  "settle_request_ok r =
     (opt_ok (bounded_str 1 255) (st_idempotency_key r) \<and> \<not> negative (st_actual_cost r)
      \<and> opt_ok (bounded_str 1 255) (st_dispatch_attempt_key r)
      \<and> opt_ok (bounded_str 0 255) (st_provider_name r) \<and> opt_ok (bounded_str 0 255) (st_model r)
      \<and> opt_ok (bounded_str 0 255) (st_provider_request_id r) \<and> opt_ok (bounded_str 0 255) (st_reason r)
      \<and> opt_ok (bounded_str 1 255) (st_tenant_id r) \<and> opt_ok (bounded_str 1 255) (st_user_id r)
      \<and> opt_ok (bounded_str 1 255) (st_session_id r)
      \<and> opt_ok (bounded_str 1 255) (st_agent_run_id r) \<and> opt_ok (bounded_str 1 255) (st_workflow_step r)
      \<and> bounded_str 1 64 (st_policy_version r)
      \<and> 0 \<le> st_input_tokens r \<and> 0 \<le> st_output_tokens r
      \<and> 0 \<le> st_cached_input_tokens r \<and> 0 \<le> st_cached_output_tokens r
      \<and> 0 \<le> st_latency_ms r \<and> 0 \<le> st_retry_count r \<and> 0 \<le> st_failover_count r
      \<and> opt_ok (bounded_str 1 255) (st_loop_signature r)
      \<and> opt_ok (bounded_str 1 255) (st_prompt_template_version r)
      \<and> opt_ok (bounded_str 1 255) (st_system_context_hash r)
      \<and> opt_ok (bounded_str 1 255) (st_tool_name r))"

record settings =
  reserve_ttl_seconds :: int
  default_trace_cap_amount :: decimal
  drift_absolute_tolerance :: decimal
  drift_ratio_tolerance :: decimal
  default_run_budget_amount :: decimal
  default_session_budget_amount :: decimal
  default_user_budget_amount :: decimal
  default_tenant_budget_amount :: decimal
  manual_approval_cost_threshold :: decimal
  max_loop_repeats :: int
  guardrails_enabled :: bool
  rate_limit_per_minute :: int
  max_trace_depth :: int
  max_user_inflight :: int
  fallback_max_trace_depth :: int
  fallback_max_user_inflight :: int
  fallback_rate_limit_per_minute :: int
  fallback_global_tokens_per_second :: rat
  fallback_token_bucket_capacity :: rat
  diagnostic_mode_blocks_writes :: bool
  circuit_breaker_enabled :: bool
  circuit_breaker_failure_threshold :: int
  circuit_breaker_window_seconds :: int
  circuit_breaker_open_seconds :: int

text \<open>The defaults of \<open>Settings\<close>.\<close>

definition default_settings :: settings where
  "default_settings =
     \<lparr>reserve_ttl_seconds = 300,
      default_trace_cap_amount = Dec 25000000 (- 6),
      drift_absolute_tolerance = Dec 500000 (- 6),
      drift_ratio_tolerance = Dec 50000 (- 6),
      default_run_budget_amount = Dec 25000000 (- 6),
      default_session_budget_amount = Dec 250000000 (- 6),
      default_user_budget_amount = Dec 500000000 (- 6),
      default_tenant_budget_amount = Dec 5000000000 (- 6),
      manual_approval_cost_threshold = Dec 2000000 (- 6),
      max_loop_repeats = 3,
      guardrails_enabled = True,
      rate_limit_per_minute = 120,
      max_trace_depth = 50,
      max_user_inflight = 10,
      fallback_max_trace_depth = 50,
      fallback_max_user_inflight = 5,
      fallback_rate_limit_per_minute = 60,
      fallback_global_tokens_per_second = 20,
      fallback_token_bucket_capacity = 40,
      diagnostic_mode_blocks_writes = True,
      circuit_breaker_enabled = True,
      circuit_breaker_failure_threshold = 5,
      circuit_breaker_window_seconds = 60,
      circuit_breaker_open_seconds = 30\<rparr>"

section \<open>The process and its environment\<close>

datatype exn =
    ConflictError string
  | InsufficientFundsError string
  | NotFoundError string
  | PolicyStateError string
  | TraceCapExceededError string
  | LedgerError string
  | AttributionPolicyError string
  | BudgetScopeExceededError string
  | PolicyDecisionError string
  | RateLimitExceeded string
  | TraceDepthExceeded string
  | InflightLimitExceeded string
  | CircuitOpenError string
  | FinanceOpsInvariantError string
  | IntegrityError
  | RedisError
  | RuntimeError string
  | ValueError string
  | HTTPException int string

datatype redis_cmd =
    PING
  | EXISTS string
  | INCR string
  | DECR string
  | EXPIRE string int
  | SADD string string
  | SCARD string
  | SETEX string string int
  | DEL "string list"
  | HSET string "(string \<times> string) list"
  | HGET string string
  | HGETALL string

record host =
  sha256_hexdigest :: "string \<Rightarrow> string"
  timestamp_text :: "int \<Rightarrow> string"
  redis_reply :: "redis_cmd list \<Rightarrow> redis_cmd \<Rightarrow> int option"
  redis_hash :: "redis_cmd list \<Rightarrow> string \<Rightarrow> (string \<times> string) list option"

record limiter =
  rate_windows :: "string \<Rightarrow> (int \<times> int) option"
  inflight :: "string \<Rightarrow> int"
  trace_depth :: "string \<Rightarrow> string list"
  tokens :: rat
  last_refill :: rat
  initialized :: bool

record breaker =
  failures :: "string \<Rightarrow> rat list"
  open_until :: "string \<Rightarrow> rat option"
  breaker_degraded :: "bool option"

record diagnostic =
  diag_active :: bool
  diag_reason :: "string option"
  diag_component :: "string option"

record sys =
  db :: db
  committed :: db
  counters :: "string \<Rightarrow> int"
  clock :: int
  monotonic :: rat
  limiter :: limiter
  guardrails_degraded :: "bool option"
  breaker :: breaker
  diagnostic :: diagnostic
  redis_log :: "redis_cmd list"

type_synonym 'a handler = "(sys, exn, 'a) exec"

definition increment_by :: "string \<Rightarrow> int \<Rightarrow> sys \<Rightarrow> sys" where
  "increment_by name delta s = s\<lparr>counters := (counters s)(name := counters s name + delta)\<rparr>"

definition increment :: "string \<Rightarrow> sys \<Rightarrow> sys" where
  "increment name = increment_by name 1"

definition on_db :: "(db \<Rightarrow> db) \<Rightarrow> sys \<Rightarrow> sys" where
  "on_db f s = s\<lparr>db := f (db s)\<rparr>"

definition commit :: "sys \<Rightarrow> sys" where
  "commit s = s\<lparr>committed := db s\<rparr>"

definition send :: "redis_cmd \<Rightarrow> sys \<Rightarrow> sys" where
  "send c s = s\<lparr>redis_log := redis_log s @ [c]\<rparr>"

text \<open>
  \<open>with get_db_session() as session: ...\<close>: the body starts from what is committed, and
  whatever it has not committed when it returns or raises is rolled back.
\<close>

definition get_db_session :: "'a handler \<Rightarrow> 'a handler" where
  "get_db_session body s =
     (case body (s\<lparr>db := committed s\<rparr>) of (s', r) \<Rightarrow> (s'\<lparr>db := committed s'\<rparr>, r))"

text \<open>Python's truth value of an optional string, and \<open>x or y\<close> on strings.\<close>

definition truthy :: "string option \<Rightarrow> bool" where
  "truthy x = (case x of None \<Rightarrow> False | Some s \<Rightarrow> s \<noteq> [])"

definition str_or :: "string option \<Rightarrow> string \<Rightarrow> string" where
  "str_or x y = (case x of None \<Rightarrow> y | Some s \<Rightarrow> if s = [] then y else s)"

text \<open>SQL's \<open>COALESCE\<close> of two nullable values.\<close>

definition coalesce :: "'a option \<Rightarrow> 'a option \<Rightarrow> 'a option" where
  "coalesce x y = (case x of None \<Rightarrow> y | Some v \<Rightarrow> Some v)"

fun status_of :: "settle_outcome \<Rightarrow> status" where
  "status_of O_IN_FLIGHT = IN_FLIGHT"
| "status_of O_PROVIDER_TIMEOUT = PROVIDER_TIMEOUT"
| "status_of O_SETTLED = SETTLED"

fun outcome_name :: "settle_outcome \<Rightarrow> string" where
  "outcome_name O_IN_FLIGHT = ''IN_FLIGHT''"
| "outcome_name O_PROVIDER_TIMEOUT = ''PROVIDER_TIMEOUT''"
| "outcome_name O_SETTLED = ''SETTLED''"

fun status_name :: "status \<Rightarrow> string" where
  "status_name RESERVED = ''RESERVED''"
| "status_name SETTLED = ''SETTLED''"
| "status_name EXPIRED = ''EXPIRED''"
| "status_name REFUNDED = ''REFUNDED''"
| "status_name IN_FLIGHT = ''IN_FLIGHT''"
| "status_name PROVIDER_TIMEOUT = ''PROVIDER_TIMEOUT''"
| "status_name STRANDED = ''STRANDED''"

section \<open>Frame lemmas\<close>

lemma increment_frame [simp]:
  "db (increment n s) = db s" "committed (increment n s) = committed s"
  "clock (increment n s) = clock s" "monotonic (increment n s) = monotonic s"
  "limiter (increment n s) = limiter s" "breaker (increment n s) = breaker s"
  "diagnostic (increment n s) = diagnostic s" "redis_log (increment n s) = redis_log s"
  "guardrails_degraded (increment n s) = guardrails_degraded s"
  by (simp_all add: increment_def increment_by_def)

lemma increment_by_frame [simp]:
  "db (increment_by n k s) = db s" "committed (increment_by n k s) = committed s"
  "clock (increment_by n k s) = clock s" "monotonic (increment_by n k s) = monotonic s"
  "limiter (increment_by n k s) = limiter s" "breaker (increment_by n k s) = breaker s"
  "diagnostic (increment_by n k s) = diagnostic s" "redis_log (increment_by n k s) = redis_log s"
  "guardrails_degraded (increment_by n k s) = guardrails_degraded s"
  by (simp_all add: increment_by_def)

lemma on_db_frame [simp]:
  "db (on_db f s) = f (db s)" "committed (on_db f s) = committed s"
  "clock (on_db f s) = clock s" "monotonic (on_db f s) = monotonic s"
  "counters (on_db f s) = counters s"
  "limiter (on_db f s) = limiter s" "breaker (on_db f s) = breaker s"
  "diagnostic (on_db f s) = diagnostic s" "redis_log (on_db f s) = redis_log s"
  "guardrails_degraded (on_db f s) = guardrails_degraded s"
  by (simp_all add: on_db_def)

lemma commit_frame [simp]:
  "db (commit s) = db s" "committed (commit s) = db s"
  "clock (commit s) = clock s" "monotonic (commit s) = monotonic s"
  "counters (commit s) = counters s"
  "limiter (commit s) = limiter s" "breaker (commit s) = breaker s"
  "diagnostic (commit s) = diagnostic s" "redis_log (commit s) = redis_log s"
  "guardrails_degraded (commit s) = guardrails_degraded s"
  by (simp_all add: commit_def)

lemma send_frame [simp]:
  "db (send c s) = db s" "committed (send c s) = committed s"
  "clock (send c s) = clock s" "monotonic (send c s) = monotonic s"
  "counters (send c s) = counters s"
  "limiter (send c s) = limiter s" "breaker (send c s) = breaker s"
  "diagnostic (send c s) = diagnostic s" "redis_log (send c s) = redis_log s @ [c]"
  "guardrails_degraded (send c s) = guardrails_degraded s"
  by (simp_all add: send_def)

lemma wp_get_db_session [wp_simps]:
  "wp (get_db_session m) Q E s
     = wp m (\<lambda>x t. Q x (t\<lparr>db := committed t\<rparr>)) (\<lambda>e t. E e (t\<lparr>db := committed t\<rparr>))
         (s\<lparr>db := committed s\<rparr>)"
  by (simp add: wp_def get_db_session_def split: prod.splits sum.splits)

end
