(* ===== verification/Auth.thy ===== *)
theory Auth
  imports Text State
begin

text \<open>
  Authentication: \<^verbatim>\<open>sidecar/app/auth_oidc.py\<close> and \<^verbatim>\<open>gateway/app/auth_oidc.py\<close> with the credential
  check of the OpenAI-compatible API in \<^verbatim>\<open>gateway/app/openai_auth.py\<close>. PyJWT is a parameter: the
  lookup of a signing key and \<open>decode\<close>, which either yields the claims of a token or rejects it.
\<close>

section \<open>Tokens and claims\<close>

record decode_options =
  algorithms :: "string list"
  issuer :: string
  audience :: "string option"

record identity_provider =
  pyjwt_installed :: bool
  signing_key_from_jwt :: "string \<Rightarrow> string \<Rightarrow> string option"
  jwt_decode :: "decode_options \<Rightarrow> string \<Rightarrow> string \<Rightarrow> jobject option"
  container_repr :: "json \<Rightarrow> string"

datatype auth_method = Oidc | Internal_Token

record auth_context =
  ac_method :: auth_method
  ac_subject :: string
  ac_roles :: "string set"

record oidc_settings =
  oidc_enabled :: bool
  oidc_issuer_url :: "string option"
  oidc_audience :: "string option"
  oidc_jwks_url :: "string option"
  oidc_algorithms :: string
  oidc_allow_internal_token_fallback :: bool

record auth_settings = oidc_settings +
  sidecar_internal_tokens :: string
  oidc_internal_token_is_admin :: bool
  oidc_viewer_roles :: string
  oidc_financial_admin_roles :: string

text \<open>The defaults of the sidecar's \<open>Settings\<close>; the list of tokens has none.\<close>

definition default_auth_settings :: "string \<Rightarrow> auth_settings" where
  "default_auth_settings toks =
     \<lparr>oidc_enabled = False, oidc_issuer_url = None, oidc_audience = None, oidc_jwks_url = None,
      oidc_algorithms = ''RS256'', oidc_allow_internal_token_fallback = True,
      sidecar_internal_tokens = toks, oidc_internal_token_is_admin = True,
      oidc_viewer_roles = ''viewer,modelgovernor-viewer'',
      oidc_financial_admin_roles = ''financial-admin,modelgovernor-financial-admin''\<rparr>"

text \<open>\<open>claims.get(k)\<close>, the truth value of a claim, and \<open>str\<close> of it.\<close>

definition claim :: "string \<Rightarrow> jobject \<Rightarrow> json" where
  "claim k claims = (case map_of claims k of None \<Rightarrow> JNull | Some v \<Rightarrow> v)"

fun json_truthy :: "json \<Rightarrow> bool" where
  "json_truthy JNull = False"
| "json_truthy (JBool b) = b"
| "json_truthy (JInt i) = (i \<noteq> 0)"
| "json_truthy (JStr s) = (s \<noteq> [])"
| "json_truthy (JArr vs) = (vs \<noteq> [])"
| "json_truthy (JObj kvs) = (kvs \<noteq> [])"

definition py_str :: "identity_provider \<Rightarrow> json \<Rightarrow> string" where
  "py_str idp v =
     (case v of JNull \<Rightarrow> ''None'' | JBool b \<Rightarrow> (if b then ''True'' else ''False'') | JInt i \<Rightarrow> int_str i
      | JStr s \<Rightarrow> s | _ \<Rightarrow> container_repr idp v)"

definition listed_roles :: "identity_provider \<Rightarrow> json \<Rightarrow> string list" where
  "listed_roles idp v = (case v of JArr vs \<Rightarrow> map (py_str idp) vs | _ \<Rightarrow> [])"

definition extract_roles :: "identity_provider \<Rightarrow> jobject \<Rightarrow> string set" where
  "extract_roles idp claims =
     (let realm = (case claim ''realm_access'' claims of
                     JObj access \<Rightarrow> listed_roles idp (claim ''roles'' access) | _ \<Rightarrow> []);
          found = realm @ listed_roles idp (claim ''groups'' claims) @ listed_roles idp (claim ''roles'' claims)
      in set (map (\<lambda>role. lower (strip role)) (filter (\<lambda>role. strip role \<noteq> []) found)))"

definition parse_bearer :: "string option \<Rightarrow> string option" where
  "parse_bearer authorization =
     (if \<not> truthy authorization then None
      else case partition_at (CHR '' '') (the authorization) of
        (scheme, _, token) \<Rightarrow>
          if lower scheme \<noteq> ''bearer'' \<or> strip token = [] then None else Some (strip token))"

text \<open>\<open>_validate_oidc_jwt\<close>; an exception of the key lookup is not caught.\<close>

definition jwks_url_of :: "'a oidc_settings_scheme \<Rightarrow> string" where
  "jwks_url_of cfg =
     str_or (oidc_jwks_url cfg)
       (rstrip (\<lambda>c. c = CHR ''/'') (the (oidc_issuer_url cfg)) @ ''/protocol/openid-connect/certs'')"

definition decode_kwargs :: "'a oidc_settings_scheme \<Rightarrow> decode_options" where
  "decode_kwargs cfg =
     \<lparr>algorithms = comma_list (oidc_algorithms cfg), issuer = the (oidc_issuer_url cfg),
      audience = (if truthy (oidc_audience cfg) then oidc_audience cfg else None)\<rparr>"

definition subject_of :: "identity_provider \<Rightarrow> jobject \<Rightarrow> string" where
  "subject_of idp claims =
     py_str idp (if json_truthy (claim ''sub'' claims) then claim ''sub'' claims
                 else if json_truthy (claim ''email'' claims) then claim ''email'' claims
                 else JStr ''unknown'')"

text \<open>\<open>int(claims.get("exp", 0))\<close>; PyJWT rejects a token whose \<open>exp\<close> is not a number.\<close>

definition expiry_of :: "jobject \<Rightarrow> exn + int" where
  "expiry_of claims =
     (case map_of claims ''exp'' of
        None \<Rightarrow> Inr 0
      | Some (JInt i) \<Rightarrow> Inr i
      | Some (JBool b) \<Rightarrow> Inr (if b then 1 else 0)
      | _ \<Rightarrow> Inl (ValueError ''exp''))"

definition accept_claims :: "identity_provider \<Rightarrow> int \<Rightarrow> jobject \<Rightarrow> exn + auth_context" where
  "accept_claims idp now claims =
     (case expiry_of claims of
        Inl e \<Rightarrow> Inl e
      | Inr expiry \<Rightarrow>
          if expiry \<le> now then Inl (HTTPException 401 ''expired OIDC token'')
          else Inr \<lparr>ac_method = Oidc, ac_subject = subject_of idp claims, ac_roles = extract_roles idp claims\<rparr>)"

definition validate_oidc_jwt ::
  "string \<Rightarrow> identity_provider \<Rightarrow> int \<Rightarrow> 'a oidc_settings_scheme \<Rightarrow> string \<Rightarrow> exn + auth_context" where
  "validate_oidc_jwt no_issuer idp now cfg token =
     (if \<not> truthy (oidc_issuer_url cfg) then Inl (HTTPException 503 no_issuer)
      else if \<not> pyjwt_installed idp then Inl (HTTPException 503 ''OIDC support requires PyJWT'')
      else case signing_key_from_jwt idp (jwks_url_of cfg) token of
        None \<Rightarrow> Inl (RuntimeError ''PyJWKClientError'')
      | Some key \<Rightarrow>
          (case jwt_decode idp (decode_kwargs cfg) token key of
             None \<Rightarrow> Inl (HTTPException 401 ''invalid or expired OIDC token'')
           | Some claims \<Rightarrow> accept_claims idp now claims))"

section \<open>The sidecar\<close>

definition has_role :: "string list \<Rightarrow> auth_context \<Rightarrow> bool" where
  "has_role role_names ctx =
     (\<exists>r \<in> set (map (\<lambda>role. lower (strip role)) (filter (\<lambda>role. strip role \<noteq> []) role_names)). r \<in> ac_roles ctx)"

definition role_list :: "string \<Rightarrow> string list" where
  "role_list setting = map lower (comma_list setting)"

definition is_financial_admin :: "auth_settings \<Rightarrow> auth_context \<Rightarrow> bool" where
  "is_financial_admin cfg ctx =
     (if ac_method ctx = Internal_Token \<and> oidc_internal_token_is_admin cfg then True
      else has_role (role_list (oidc_financial_admin_roles cfg)) ctx)"

definition is_viewer :: "auth_settings \<Rightarrow> auth_context \<Rightarrow> bool" where
  "is_viewer cfg ctx =
     (if is_financial_admin cfg ctx then True
      else if ac_method ctx = Internal_Token then True
      else if role_list (oidc_viewer_roles cfg) = [] then True
      else has_role (role_list (oidc_viewer_roles cfg)) ctx)"

definition internal_token_context :: auth_context where
  "internal_token_context =
     \<lparr>ac_method = Internal_Token, ac_subject = ''internal-token'', ac_roles = {''financial-admin'', ''viewer''}\<rparr>"

definition validate_internal_token :: "auth_settings \<Rightarrow> string option \<Rightarrow> auth_context option" where
  "validate_internal_token cfg x_internal_token =
     (if truthy x_internal_token \<and> the x_internal_token \<in> set (comma_list (sidecar_internal_tokens cfg))
      then Some internal_token_context else None)"

definition resolve_auth_context ::
  "identity_provider \<Rightarrow> int \<Rightarrow> auth_settings \<Rightarrow> string option \<Rightarrow> string option \<Rightarrow> exn + auth_context" where
  "resolve_auth_context idp now cfg authorization x_internal_token =
     (if oidc_enabled cfg
      then (case parse_bearer authorization of
              Some bearer \<Rightarrow>
                (case validate_oidc_jwt ''OIDC issuer is not configured'' idp now cfg bearer of
                   Inl e \<Rightarrow> Inl e
                 | Inr ctx \<Rightarrow> if is_viewer cfg ctx then Inr ctx
                              else Inl (HTTPException 403 ''insufficient OIDC role for internal access''))
            | None \<Rightarrow>
                (case (if oidc_allow_internal_token_fallback cfg then validate_internal_token cfg x_internal_token else None) of
                   Some ctx \<Rightarrow> Inr ctx
                 | None \<Rightarrow> Inl (HTTPException 401 ''missing or invalid OIDC bearer token'')))
      else (case validate_internal_token cfg x_internal_token of
              Some ctx \<Rightarrow> Inr ctx
            | None \<Rightarrow> Inl (HTTPException 401 ''missing or invalid internal token'')))"

definition require_internal_auth ::
  "identity_provider \<Rightarrow> int \<Rightarrow> auth_settings \<Rightarrow> string option \<Rightarrow> string option \<Rightarrow> exn + auth_context" where
  "require_internal_auth = resolve_auth_context"

definition require_financial_admin ::
  "identity_provider \<Rightarrow> int \<Rightarrow> auth_settings \<Rightarrow> string option \<Rightarrow> string option \<Rightarrow> exn + auth_context" where
  "require_financial_admin idp now cfg authorization x_internal_token =
     (case resolve_auth_context idp now cfg authorization x_internal_token of
        Inl e \<Rightarrow> Inl e
      | Inr ctx \<Rightarrow> if is_financial_admin cfg ctx then Inr ctx
                   else Inl (HTTPException 403 ''financial admin role required''))"

record identity_headers =
  tenant_id :: string
  session_id :: string
  agent_run_id :: string
  workflow_step :: string

definition require_execution_identity ::
  "string option \<Rightarrow> string option \<Rightarrow> string option \<Rightarrow> string option \<Rightarrow> exn + identity_headers" where
  "require_execution_identity t s a w =
     (if \<not> truthy t \<or> \<not> truthy s \<or> \<not> truthy a \<or> \<not> truthy w
      then Inl (HTTPException 400 ''missing execution identity headers'')
      else Inr \<lparr>tenant_id = the t, session_id = the s, agent_run_id = the a, workflow_step = the w\<rparr>)"

section \<open>The gateway\<close>

record gateway_settings = oidc_settings +
  sidecar_internal_token :: string
  provider_mode :: string
  mock_dispatch_cost :: decimal
  mock_output_tokens :: int
  provider_max_output_tokens :: int
  openai_compat_enabled :: bool
  openai_compat_api_key :: "string option"
  openai_compat_default_user_id :: string
  openai_api_key :: "string option"
  anthropic_api_key :: "string option"
  vertex_project_id :: "string option"
  oidc_dispatch_roles :: string

definition default_gateway_settings :: gateway_settings where
  "default_gateway_settings =
     \<lparr>oidc_enabled = False, oidc_issuer_url = None, oidc_audience = None, oidc_jwks_url = None,
      oidc_algorithms = ''RS256'', oidc_allow_internal_token_fallback = False,
      sidecar_internal_token = ''dev-token'', provider_mode = ''mock'', mock_dispatch_cost = Dec 1000000 (- 6),
      mock_output_tokens = 32, provider_max_output_tokens = 1024, openai_compat_enabled = True,
      openai_compat_api_key = None, openai_compat_default_user_id = ''default-user'', openai_api_key = None,
      anthropic_api_key = None, vertex_project_id = None,
      oidc_dispatch_roles = ''dispatch,modelgovernor-dispatch''\<rparr>"

definition can_dispatch :: "gateway_settings \<Rightarrow> auth_context \<Rightarrow> bool" where
  "can_dispatch cfg ctx =
     (if ac_method ctx = Internal_Token then True
      else if role_list (oidc_dispatch_roles cfg) = [] then True
      else \<exists>r \<in> set (map (\<lambda>role. lower (strip role)) (role_list (oidc_dispatch_roles cfg))). r \<in> ac_roles ctx)"

definition gateway_internal_token :: "gateway_settings \<Rightarrow> string option \<Rightarrow> auth_context option" where
  "gateway_internal_token cfg x_internal_token =
     (if truthy x_internal_token \<and> x_internal_token = Some (sidecar_internal_token cfg)
      then Some \<lparr>ac_method = Internal_Token, ac_subject = ''internal-token'', ac_roles = {''dispatch''}\<rparr> else None)"

definition gateway_validate_oidc_jwt ::
  "identity_provider \<Rightarrow> int \<Rightarrow> gateway_settings \<Rightarrow> string \<Rightarrow> exn + auth_context" where
  "gateway_validate_oidc_jwt = validate_oidc_jwt ''gateway OIDC issuer is not configured''"

definition require_dispatch_auth ::
  "identity_provider \<Rightarrow> int \<Rightarrow> gateway_settings \<Rightarrow> string option \<Rightarrow> string option \<Rightarrow> exn + auth_context" where
  "require_dispatch_auth idp now cfg authorization x_internal_token =
     (if oidc_enabled cfg
      then (case parse_bearer authorization of
              Some bearer \<Rightarrow>
                (case gateway_validate_oidc_jwt idp now cfg bearer of
                   Inl e \<Rightarrow> Inl e
                 | Inr ctx \<Rightarrow> if can_dispatch cfg ctx then Inr ctx
                              else Inl (HTTPException 403 ''insufficient OIDC role for governed dispatch''))
            | None \<Rightarrow>
                (case (if oidc_allow_internal_token_fallback cfg then gateway_internal_token cfg x_internal_token else None) of
                   Some ctx \<Rightarrow> Inr ctx
                 | None \<Rightarrow> Inl (HTTPException 401 ''missing or invalid OIDC bearer token'')))
      else (case gateway_internal_token cfg x_internal_token of
              Some ctx \<Rightarrow> Inr ctx
            | None \<Rightarrow>
                (case parse_bearer authorization of
                   None \<Rightarrow> Inl (HTTPException 401 ''missing gateway credentials'')
                 | Some bearer \<Rightarrow>
                     (case gateway_validate_oidc_jwt idp now cfg bearer of
                        Inl e \<Rightarrow> Inl e
                      | Inr ctx \<Rightarrow> if can_dispatch cfg ctx then Inr ctx
                                   else Inl (HTTPException 401 ''missing gateway credentials'')))))"

record openai_compat_auth =
  oa_subject :: string
  oa_method :: string

definition invalid_api_key :: exn where
  "invalid_api_key =
     HTTPException 401 ''Incorrect API key provided. Use Authorization: Bearer <gateway-key>.''"

definition compat_key :: "gateway_settings \<Rightarrow> string" where
  "compat_key cfg = str_or (openai_compat_api_key cfg) (sidecar_internal_token cfg)"

text \<open>With OIDC disabled a refused bearer token falls through to the 401; any other exception is raised.\<close>

definition compat_bearer ::
  "identity_provider \<Rightarrow> int \<Rightarrow> gateway_settings \<Rightarrow> string \<Rightarrow> exn + openai_compat_auth" where
  "compat_bearer idp now cfg bearer =
     (case gateway_validate_oidc_jwt idp now cfg bearer of
        Inl e \<Rightarrow> (if oidc_enabled cfg then Inl e
                  else case e of HTTPException _ _ \<Rightarrow> Inl invalid_api_key | _ \<Rightarrow> Inl e)
      | Inr ctx \<Rightarrow>
          if can_dispatch cfg ctx then Inr \<lparr>oa_subject = ac_subject ctx, oa_method = ''oidc''\<rparr>
          else if oidc_enabled cfg then Inl (HTTPException 403 ''insufficient OIDC role for chat completions'')
          else Inl invalid_api_key)"

definition require_openai_compat_auth ::
  "identity_provider \<Rightarrow> int \<Rightarrow> gateway_settings \<Rightarrow> string option \<Rightarrow> string option \<Rightarrow> exn + openai_compat_auth" where
  "require_openai_compat_auth idp now cfg authorization x_internal_token =
     (if truthy (parse_bearer authorization) \<and> parse_bearer authorization = Some (compat_key cfg)
      then Inr \<lparr>oa_subject = ''openai-api-key'', oa_method = ''api_key''\<rparr>
      else case gateway_internal_token cfg x_internal_token of
        Some ctx \<Rightarrow> Inr \<lparr>oa_subject = ac_subject ctx, oa_method = ''internal_token''\<rparr>
      | None \<Rightarrow>
          (case parse_bearer authorization of
             Some bearer \<Rightarrow> compat_bearer idp now cfg bearer
           | None \<Rightarrow> Inl invalid_api_key))"

section \<open>What a credential check promises\<close>

text \<open>A bearer token that the identity provider vouches for, under the issuer, the algorithms and the audience of the settings.\<close>

definition vouched :: "identity_provider \<Rightarrow> int \<Rightarrow> 'a oidc_settings_scheme \<Rightarrow> string \<Rightarrow> jobject \<Rightarrow> bool" where
  "vouched idp now cfg token claims =
     (truthy (oidc_issuer_url cfg)
      \<and> (\<exists>key. signing_key_from_jwt idp (jwks_url_of cfg) token = Some key
             \<and> jwt_decode idp (decode_kwargs cfg) token key = Some claims)
      \<and> (\<exists>expiry. expiry_of claims = Inr expiry \<and> now < expiry))"

lemma validate_oidc_jwt_vouched:
  assumes "validate_oidc_jwt msg idp now cfg token = Inr ctx"
  obtains claims where "vouched idp now cfg token claims" "ac_method ctx = Oidc"
    "ac_subject ctx = subject_of idp claims" "ac_roles ctx = extract_roles idp claims"
  using assms by (auto simp: validate_oidc_jwt_def accept_claims_def vouched_def split: if_splits option.splits sum.splits)

locale credential_check =
  fixes idp :: identity_provider and now :: int and cfg :: "'a oidc_settings_scheme"
    and toks :: "string set" and check :: "string option \<Rightarrow> string option \<Rightarrow> exn + auth_context"
  assumes internal: "check a x = Inr ctx \<Longrightarrow> ac_method ctx = Internal_Token \<Longrightarrow> \<exists>t \<in> toks. x = Some t \<and> t \<noteq> []"
    and fallback: "check a x = Inr ctx \<Longrightarrow> ac_method ctx = Internal_Token \<Longrightarrow> oidc_enabled cfg
      \<Longrightarrow> parse_bearer a = None \<and> oidc_allow_internal_token_fallback cfg"
    and bearer: "check a x = Inr ctx \<Longrightarrow> ac_method ctx = Oidc
      \<Longrightarrow> \<exists>token claims. parse_bearer a = Some token \<and> vouched idp now cfg token claims
            \<and> ac_subject ctx = subject_of idp claims \<and> ac_roles ctx = extract_roles idp claims"
begin

lemma refused_without_credentials:
  assumes "x = None \<or> x = Some [] \<or> the x \<notin> toks" "\<And>token claims. parse_bearer a = Some token \<Longrightarrow> \<not> vouched idp now cfg token claims"
  shows "\<exists>e. check a x = Inl e"
proof (cases "check a x")
  case (Inr ctx)
  then show ?thesis using internal [OF Inr] bearer [OF Inr] assms by (cases "ac_method ctx") auto
qed blast

lemma only_oidc:
  assumes "oidc_enabled cfg" "\<not> oidc_allow_internal_token_fallback cfg" "check a x = Inr ctx"
  shows "ac_method ctx = Oidc \<and> (\<exists>token claims. parse_bearer a = Some token \<and> vouched idp now cfg token claims)"
  using fallback [OF assms(3)] bearer [OF assms(3)] assms(1,2) by (cases "ac_method ctx") auto

end

interpretation sidecar_auth: credential_check idp now cfg "set (comma_list (sidecar_internal_tokens cfg))"
  "resolve_auth_context idp now cfg"
proof unfold_locales
  fix a x ctx assume r: "resolve_auth_context idp now cfg a x = Inr ctx"
  show "\<exists>t \<in> set (comma_list (sidecar_internal_tokens cfg)). x = Some t \<and> t \<noteq> []" if "ac_method ctx = Internal_Token"
    using r that
    by (auto simp: resolve_auth_context_def validate_internal_token_def truthy_def elim: validate_oidc_jwt_vouched
        split: if_splits option.splits sum.splits)
  show "parse_bearer a = None \<and> oidc_allow_internal_token_fallback cfg"
    if "ac_method ctx = Internal_Token" "oidc_enabled cfg"
    using r that by (auto simp: resolve_auth_context_def elim: validate_oidc_jwt_vouched split: if_splits option.splits sum.splits)
  show "\<exists>token claims. parse_bearer a = Some token \<and> vouched idp now cfg token claims
            \<and> ac_subject ctx = subject_of idp claims \<and> ac_roles ctx = extract_roles idp claims" if "ac_method ctx = Oidc"
    using r that
    by (auto simp: resolve_auth_context_def validate_internal_token_def internal_token_context_def
        elim!: validate_oidc_jwt_vouched split: if_splits option.splits sum.splits)
qed

interpretation gateway_auth: credential_check idp now cfg "{sidecar_internal_token cfg}" "require_dispatch_auth idp now cfg"
proof unfold_locales
  fix a x ctx assume r: "require_dispatch_auth idp now cfg a x = Inr ctx"
  note defs = require_dispatch_auth_def gateway_internal_token_def gateway_validate_oidc_jwt_def truthy_def
  show "\<exists>t \<in> {sidecar_internal_token cfg}. x = Some t \<and> t \<noteq> []" if "ac_method ctx = Internal_Token"
    using r that by (auto simp: defs elim: validate_oidc_jwt_vouched split: if_splits option.splits sum.splits)
  show "parse_bearer a = None \<and> oidc_allow_internal_token_fallback cfg"
    if "ac_method ctx = Internal_Token" "oidc_enabled cfg"
    using r that by (auto simp: defs elim: validate_oidc_jwt_vouched split: if_splits option.splits sum.splits)
  show "\<exists>token claims. parse_bearer a = Some token \<and> vouched idp now cfg token claims
            \<and> ac_subject ctx = subject_of idp claims \<and> ac_roles ctx = extract_roles idp claims" if "ac_method ctx = Oidc"
    using r that by (auto simp: defs elim!: validate_oidc_jwt_vouched split: if_splits option.splits sum.splits)
qed

section \<open>Properties\<close>

definition sample_provider :: identity_provider where
  "sample_provider =
     \<lparr>pyjwt_installed = True, signing_key_from_jwt = (\<lambda>_ _. Some ''key''),
      jwt_decode = (\<lambda>_ token _. if token = ''good'' then Some [(''sub'', JStr ''bob''), (''exp'', JInt 2000),
        (''roles'', JArr [JStr '' Viewer ''])] else None), container_repr = (\<lambda>_. [])\<rparr>"

text \<open>C37: access to the internal routes of the sidecar. A caller is admitted only with a configured,
  non-empty internal token, which counts under OIDC only when the fallback is enabled and no bearer
  token was sent, or under OIDC with a bearer token that the identity provider vouches for under the
  configured issuer, algorithms and audience, that has not expired, and whose roles make it a viewer.\<close>

theorem sidecar_access_needs_credential:
  assumes "resolve_auth_context idp now cfg a x = Inr ctx"
  shows "ac_method ctx = Internal_Token \<and> (\<exists>t \<in> set (comma_list (sidecar_internal_tokens cfg)). x = Some t \<and> t \<noteq> [])
      \<and> (oidc_enabled cfg \<longrightarrow> parse_bearer a = None \<and> oidc_allow_internal_token_fallback cfg)
    \<or> ac_method ctx = Oidc \<and> oidc_enabled cfg \<and> is_viewer cfg ctx
      \<and> (\<exists>token claims. parse_bearer a = Some token \<and> vouched idp now cfg token claims
            \<and> ac_subject ctx = subject_of idp claims \<and> ac_roles ctx = extract_roles idp claims)"
proof (cases "ac_method ctx")
  case Internal_Token
  then show ?thesis using sidecar_auth.internal [OF assms] sidecar_auth.fallback [OF assms] by blast
next
  case Oidc
  then have "oidc_enabled cfg" "is_viewer cfg ctx"
    using assms by (auto simp: resolve_auth_context_def validate_internal_token_def internal_token_context_def
        split: if_splits option.splits sum.splits)
  then show ?thesis using sidecar_auth.bearer [OF assms Oidc] Oidc by blast
qed

theorem sidecar_access_needs_credential_witness:
  "\<exists>ctx. resolve_auth_context sample_provider 1000
       ((default_auth_settings ''t1, t2'')\<lparr>oidc_enabled := True, oidc_issuer_url := Some ''https://idp''\<rparr>)
       (Some ''Bearer good'') None = Inr ctx \<and> ac_method ctx = Oidc \<and> ac_subject ctx = ''bob''
     \<and> (\<exists>claims. vouched sample_provider 1000
       ((default_auth_settings ''t1, t2'')\<lparr>oidc_enabled := True, oidc_issuer_url := Some ''https://idp''\<rparr>) ''good'' claims)"
proof -
  let ?cfg = "(default_auth_settings ''t1, t2'')\<lparr>oidc_enabled := True, oidc_issuer_url := Some ''https://idp''\<rparr>"
  let ?ctx = "\<lparr>ac_method = Oidc, ac_subject = ''bob'', ac_roles = {''viewer''}\<rparr>"
  have run: "resolve_auth_context sample_provider 1000 ?cfg (Some ''Bearer good'') None = Inr ?ctx" by code_simp
  have "parse_bearer (Some ''Bearer good'') = Some ''good''" by code_simp
  then show ?thesis using sidecar_access_needs_credential [OF run] run by auto
qed

text \<open>The switch \<open>oidc_internal_token_is_admin\<close> has no effect. As long as \<open>financial-admin\<close> is one of the
  admin roles, which it is by default, every request is answered alike whether the switch is on or off:
  the context of an internal token carries that role itself.\<close>

theorem admin_switch_has_no_effect:
  assumes "''financial-admin'' \<in> set (role_list (oidc_financial_admin_roles cfg))"
  shows "require_financial_admin idp now (cfg\<lparr>oidc_internal_token_is_admin := b\<rparr>) a x
    = require_financial_admin idp now cfg a x"
proof -
  let ?cfg = "cfg\<lparr>oidc_internal_token_is_admin := b\<rparr>"
  have stable: "lower (strip ''financial-admin'') = ''financial-admin''" "strip ''financial-admin'' \<noteq> []" by code_simp+
  then have tok: "has_role (role_list (oidc_financial_admin_roles cfg)) internal_token_context"
    using assms by (force simp: has_role_def internal_token_context_def)
  have same: "is_financial_admin ?cfg ctx = is_financial_admin cfg ctx" "is_viewer ?cfg ctx = is_viewer cfg ctx"
    if "ac_method ctx = Oidc \<or> ctx = internal_token_context" for ctx
    using that tok by (auto simp: is_financial_admin_def is_viewer_def)
  have jwt: "validate_oidc_jwt m idp now ?cfg t = validate_oidc_jwt m idp now cfg t" for m t
    by (simp add: validate_oidc_jwt_def jwks_url_of_def decode_kwargs_def cong: option.case_cong)
  have oidc: "validate_oidc_jwt m idp now cfg t = Inr ctx \<Longrightarrow> ac_method ctx = Oidc" for m t ctx
    by (erule validate_oidc_jwt_vouched)
  have resolve: "resolve_auth_context idp now ?cfg a x = resolve_auth_context idp now cfg a x"
    unfolding resolve_auth_context_def jwt
    by (auto simp: validate_internal_token_def same oidc split: option.splits sum.splits)
  have "ac_method ctx = Oidc \<or> ctx = internal_token_context" if "resolve_auth_context idp now cfg a x = Inr ctx" for ctx
    using that by (auto simp: resolve_auth_context_def validate_internal_token_def oidc split: if_splits option.splits sum.splits)
  then show ?thesis unfolding require_financial_admin_def resolve by (auto simp: same split: sum.splits)
qed

theorem admin_switch_has_no_effect_witness:
  "require_financial_admin sample_provider 1000 ((default_auth_settings ''t1'')\<lparr>oidc_internal_token_is_admin := False\<rparr>) None (Some ''t1'')
    = Inr internal_token_context"
proof -
  have "''financial-admin'' \<in> set (role_list (oidc_financial_admin_roles (default_auth_settings ''t1'')))" by code_simp
  moreover have "require_financial_admin sample_provider 1000 (default_auth_settings ''t1'') None (Some ''t1'') = Inr internal_token_context"
    by code_simp
  ultimately show ?thesis by (simp add: admin_switch_has_no_effect)
qed

text \<open>The OpenAI-compatible API ignores the fallback switch. Under OIDC with the internal token fallback
  disabled, \<open>/governed/dispatch\<close> refuses the internal token, but \<open>/v1/chat/completions\<close>, which reaches the same
  dispatch, admits it.\<close>

theorem compat_api_ignores_fallback_switch:
  assumes "oidc_enabled cfg" "\<not> oidc_allow_internal_token_fallback cfg" "sidecar_internal_token cfg \<noteq> []"
    and "parse_bearer a = None"
  shows "(\<exists>e. require_dispatch_auth idp now cfg a (Some (sidecar_internal_token cfg)) = Inl e)
    \<and> require_openai_compat_auth idp now cfg a (Some (sidecar_internal_token cfg))
        = Inr \<lparr>oa_subject = ''internal-token'', oa_method = ''internal_token''\<rparr>"
proof
  show "\<exists>e. require_dispatch_auth idp now cfg a (Some (sidecar_internal_token cfg)) = Inl e"
    using gateway_auth.only_oidc [OF assms(1,2), of idp now a "Some (sidecar_internal_token cfg)"] assms(4)
    by (cases "require_dispatch_auth idp now cfg a (Some (sidecar_internal_token cfg))") auto
  show "require_openai_compat_auth idp now cfg a (Some (sidecar_internal_token cfg))
        = Inr \<lparr>oa_subject = ''internal-token'', oa_method = ''internal_token''\<rparr>"
    using assms(3,4) by (simp add: require_openai_compat_auth_def gateway_internal_token_def truthy_def)
qed

theorem compat_api_ignores_fallback_switch_witness:
  "require_openai_compat_auth sample_provider 1000 (default_gateway_settings\<lparr>oidc_enabled := True\<rparr>) None (Some ''dev-token'')
    = Inr \<lparr>oa_subject = ''internal-token'', oa_method = ''internal_token''\<rparr>"
  using compat_api_ignores_fallback_switch [of "default_gateway_settings\<lparr>oidc_enabled := True\<rparr>" None sample_provider 1000]
  by (simp add: default_gateway_settings_def parse_bearer_def truthy_def)

end
