(* ===== verification/Pricing.thy ===== *)
theory Pricing
  imports Auth
begin

text \<open>
  Token prices and reserve estimates of the gateway: \<^verbatim>\<open>gateway/app/pricing.py\<close> and
  \<^verbatim>\<open>gateway/app/money.py\<close>, with the arithmetic and the order of \<open>Decimal\<close> that they use. The 28 digits of
  the default context are not modelled: products and sums are exact.
\<close>

section \<open>Decimal arithmetic\<close>

definition dec_mult :: "decimal \<Rightarrow> decimal \<Rightarrow> decimal" where
  "dec_mult a b = Dec (coeff a * coeff b) (expo a + expo b)"

definition scaled :: "int \<Rightarrow> decimal \<Rightarrow> int" where
  "scaled m d = coeff d * 10 ^ nat (expo d - m)"

definition dec_add :: "decimal \<Rightarrow> decimal \<Rightarrow> decimal" where
  "dec_add a b = (let m = min (expo a) (expo b) in Dec (scaled m a + scaled m b) m)"

definition dec_less :: "decimal \<Rightarrow> decimal \<Rightarrow> bool" where
  "dec_less a b = (let m = min (expo a) (expo b) in scaled m a < scaled m b)"

text \<open>Python's \<open>min(a, b)\<close> and \<open>max(a, b)\<close>: the first argument unless the second is strictly better.\<close>

definition py_min :: "decimal \<Rightarrow> decimal \<Rightarrow> decimal" where
  "py_min a b = (if dec_less b a then b else a)"

definition py_max :: "decimal \<Rightarrow> decimal \<Rightarrow> decimal" where
  "py_max a b = (if dec_less a b then b else a)"

definition decimal_of_int :: "int \<Rightarrow> decimal" where
  "decimal_of_int i = Dec i 0"

section \<open>Token prices\<close>

definition MODEL_TOKEN_PRICING :: "(string \<times> decimal \<times> decimal) list" where
  "MODEL_TOKEN_PRICING =
     [(''gpt-4o-mini'', Dec 15 (- 8), Dec 60 (- 8)),
      (''gpt-4.1-mini'', Dec 25 (- 8), Dec 100 (- 8)),
      (''claude-3-5-haiku-latest'', Dec 25 (- 8), Dec 125 (- 8)),
      (''claude-3-haiku-20240307'', Dec 25 (- 8), Dec 125 (- 8)),
      (''gemini-1.5-flash'', Dec 75 (- 9), Dec 30 (- 8)),
      (''gemini-1.5-pro'', Dec 125 (- 8), Dec 500 (- 8))]"

definition DEFAULT_TOKEN_PRICING :: "decimal \<times> decimal" where
  "DEFAULT_TOKEN_PRICING = (Dec 50 (- 8), Dec 150 (- 8))"

definition token_rates :: "string \<Rightarrow> decimal \<times> decimal" where
  "token_rates model =
     (case map_of MODEL_TOKEN_PRICING (last_part (CHR ''/'') model) of
        None \<Rightarrow> DEFAULT_TOKEN_PRICING | Some rates \<Rightarrow> rates)"

text \<open>A quantised \<open>Decimal\<close> is the decimal with twelve places.\<close>

definition compute_token_cost :: "string \<Rightarrow> int \<Rightarrow> int \<Rightarrow> int \<Rightarrow> decimal" where
  "compute_token_cost model input_tokens output_tokens cached_input_tokens =
     (case token_rates model of (input_rate, output_rate) \<Rightarrow>
        let billable_input = max (input_tokens - cached_input_tokens) 0;
            total = dec_add (dec_mult (decimal_of_int billable_input) input_rate)
                            (dec_mult (decimal_of_int output_tokens) output_rate)
        in of_column (quantize_money (Some total)))"

record chat_message =
  cm_role :: string
  cm_content :: string

definition estimated_input_tokens :: "chat_message list \<Rightarrow> int" where
  "estimated_input_tokens messages = max (int (length (join '' '' (map cm_content messages))) div 4) 1"

definition estimate_chat_reserve_cost :: "string \<Rightarrow> chat_message list \<Rightarrow> int option \<Rightarrow> gateway_settings \<Rightarrow> decimal" where
  "estimate_chat_reserve_cost model messages max_tokens cfg =
     (let output_tokens = (case max_tokens of None \<Rightarrow> provider_max_output_tokens cfg
                           | Some n \<Rightarrow> if n = 0 then provider_max_output_tokens cfg else n);
          raw = compute_token_cost model (estimated_input_tokens messages) output_tokens 0;
          buffered = dec_add (dec_mult raw (Dec 110 (- 2))) (Dec 1000 (- 6))
      in of_column (quantize_money (Some (py_max buffered (Dec 10000 (- 6))))))"

section \<open>The order of decimals and quantisation\<close>

text \<open>All comparisons happen at a common exponent.\<close>

lemma scaled_lower: "m \<le> expo d \<Longrightarrow> m' \<le> m \<Longrightarrow> scaled m' d = scaled m d * 10 ^ nat (m - m')"
  by (simp add: scaled_def power_add [symmetric] nat_add_distrib [symmetric])

lemma dec_less_scaled:
  assumes "m \<le> expo a" "m \<le> expo b"
  shows "dec_less a b \<longleftrightarrow> scaled m a < scaled m b"
proof -
  let ?n = "min (expo a) (expo b)"
  have "scaled m a = scaled ?n a * 10 ^ nat (?n - m)" "scaled m b = scaled ?n b * 10 ^ nat (?n - m)"
    using assms by (auto intro: scaled_lower)
  then show ?thesis by (simp add: dec_less_def Let_def)
qed

lemma round_half_even_scale: "0 < k \<Longrightarrow> 0 < d \<Longrightarrow> round_half_even (n * k) (d * k) = round_half_even n d"
  by (simp add: round_half_even_def Let_def mult_mod_right [symmetric] mult.commute [of _ k] mult.left_commute [of 2])

lemma quantize_scaled:
  assumes "m \<le> expo d" "m \<le> - 12"
  shows "quantize_money (Some d) = round_half_even (scaled m d) (10 ^ nat (- 12 - m))"
proof (cases d)
  case (Dec c e)
  show ?thesis
  proof (cases "0 \<le> e + 12")
    case True
    have "nat (e - m) = nat (e + 12) + nat (- 12 - m)" using True assms Dec by (simp add: nat_add_distrib [symmetric])
    then have "scaled m d = (c * 10 ^ nat (e + 12)) * 10 ^ nat (- 12 - m)" by (simp add: scaled_def Dec power_add)
    then show ?thesis
      using True round_half_even_exact [of "10 ^ nat (- 12 - m)" "c * 10 ^ nat (e + 12)"]
      by (simp add: quantize_money_def MONEY_DB_PRECISION_def Dec)
  next
    case False
    have "nat (- 12 - m) = nat (- (e + 12)) + nat (e - m)" using False assms Dec by (simp add: nat_add_distrib [symmetric])
    then have "round_half_even (scaled m d) (10 ^ nat (- 12 - m)) = round_half_even c (10 ^ nat (- (e + 12)))"
      by (simp add: scaled_def Dec power_add round_half_even_scale)
    then show ?thesis using False by (simp add: quantize_money_def MONEY_DB_PRECISION_def Dec)
  qed
qed

lemma quantize_mono: "\<not> dec_less b a \<Longrightarrow> quantize_money (Some a) \<le> quantize_money (Some b)"
proof -
  assume le: "\<not> dec_less b a"
  let ?m = "min (min (expo a) (expo b)) (- 12)"
  have "scaled ?m a \<le> scaled ?m b" using le dec_less_scaled [of ?m b a] by simp
  then show ?thesis by (simp add: quantize_scaled [of ?m a] quantize_scaled [of ?m b] round_half_even_mono)
qed

lemma py_min_le: "\<not> dec_less a (py_min a b)" "\<not> dec_less b (py_min a b)"
  by (auto simp: py_min_def dec_less_def min.commute Let_def)

lemma dec_less_expo12: "dec_less (of_column a) (of_column b) \<longleftrightarrow> a < b"
  by (simp add: dec_less_def of_column_def scaled_def)

section \<open>Estimates cover the usage they assume\<close>

lemma py_max_ge: "\<not> dec_less (py_max a b) a" "\<not> dec_less (py_max a b) b"
  by (auto simp: py_max_def dec_less_def min.commute Let_def)

lemma dec_less_trans:
  assumes "\<not> dec_less b a" "\<not> dec_less c b"
  shows "\<not> dec_less c a"
proof -
  let ?m = "min (min (expo a) (expo b)) (expo c)"
  have "?m \<le> expo a" "?m \<le> expo b" "?m \<le> expo c" by simp_all
  then show ?thesis using assms dec_less_scaled [of ?m b a] dec_less_scaled [of ?m c b] dec_less_scaled [of ?m c a] by linarith
qed

lemma token_rates_nonneg:
  assumes "token_rates model = (i, out)"
  shows "0 \<le> coeff i" "0 \<le> coeff out"
proof -
  have "\<forall>(m, i, out) \<in> set MODEL_TOKEN_PRICING. 0 \<le> coeff i \<and> 0 \<le> coeff out"
    by (simp add: MODEL_TOKEN_PRICING_def)
  then show "0 \<le> coeff i" "0 \<le> coeff out"
    using assms by (auto simp: token_rates_def DEFAULT_TOKEN_PRICING_def split: option.splits dest!: map_of_SomeD)
qed

definition token_total :: "string \<Rightarrow> int \<Rightarrow> int \<Rightarrow> decimal" where
  "token_total model i out =
     (case token_rates model of (ir, outr) \<Rightarrow> dec_add (dec_mult (decimal_of_int i) ir) (dec_mult (decimal_of_int out) outr))"

lemma compute_token_cost_total:
  "compute_token_cost model i out cached = of_column (quantize_money (Some (token_total model (max (i - cached) 0) out)))"
  by (simp add: compute_token_cost_def token_total_def Let_def split: prod.split)

lemma token_total_mono:
  assumes "i \<le> i'" "out \<le> out'"
  shows "\<not> dec_less (token_total model i' out') (token_total model i out)"
proof -
  obtain ir outr where r: "token_rates model = (ir, outr)" by fastforce
  have "i * coeff ir \<le> i' * coeff ir" "out * coeff outr \<le> out' * coeff outr"
    using assms token_rates_nonneg [OF r] by (auto intro: mult_right_mono)
  then show ?thesis
    by (simp add: token_total_def r dec_add_def dec_mult_def decimal_of_int_def dec_less_def scaled_def Let_def not_less
        add_mono mult_right_mono)
qed

lemma token_total_nonneg: "0 \<le> i \<Longrightarrow> 0 \<le> out \<Longrightarrow> 0 \<le> quantize_money (Some (token_total model i out))"
proof (rule quantize_money_nonneg)
  assume nn: "0 \<le> i" "0 \<le> out"
  obtain ir outr where r: "token_rates model = (ir, outr)" by fastforce
  show "\<not> negative (token_total model i out)"
    using nn token_rates_nonneg [OF r]
    by (simp add: token_total_def r dec_add_def dec_mult_def decimal_of_int_def scaled_def Let_def negative_def not_less)
qed

text \<open>The tokens of output that an estimate assumes.\<close>

definition output_budget :: "int option \<Rightarrow> gateway_settings \<Rightarrow> int" where
  "output_budget max_tokens cfg =
     (case max_tokens of None \<Rightarrow> provider_max_output_tokens cfg
      | Some n \<Rightarrow> if n = 0 then provider_max_output_tokens cfg else n)"

lemma buffer_covers:
  assumes "0 \<le> r"
  shows "\<not> dec_less (dec_add (dec_mult (of_column r) (Dec 110 (- 2))) (Dec 1000 (- 6))) (of_column r)"
  using assms by (simp add: dec_less_def dec_add_def dec_mult_def of_column_def scaled_def MONEY_DB_PRECISION_def Let_def)

text \<open>C36: reserve estimates are upper bounds. A chat whose prompt tokens stay within the estimate of its text and
  whose output stays within the requested or the default maximum costs no more than the gateway reserves for it,
  cached tokens or not, and a reserve is never below 0.01.\<close>

theorem estimate_covers_usage:
  assumes "i \<le> estimated_input_tokens messages" "0 \<le> cached" "0 \<le> out" "out \<le> output_budget max_tokens cfg"
  shows "\<not> dec_less (estimate_chat_reserve_cost model messages max_tokens cfg) (compute_token_cost model i out cached)
    \<and> \<not> dec_less (estimate_chat_reserve_cost model messages max_tokens cfg) (Dec 1 (- 2))"
proof -
  let ?in = "estimated_input_tokens messages" and ?out = "output_budget max_tokens cfg"
  define r where "r = quantize_money (Some (token_total model ?in ?out))"
  define top where "top = py_max (dec_add (dec_mult (of_column r) (Dec 110 (- 2))) (Dec 1000 (- 6))) (Dec 10000 (- 6))"
  have pos: "1 \<le> ?in" by (simp add: estimated_input_tokens_def)
  have est: "estimate_chat_reserve_cost model messages max_tokens cfg = of_column (quantize_money (Some top))"
    using pos by (simp add: estimate_chat_reserve_cost_def output_budget_def [symmetric] compute_token_cost_total r_def top_def Let_def)
  have "0 \<le> r" unfolding r_def by (rule token_total_nonneg) (use pos assms(3,4) in auto)
  then have "\<not> dec_less top (of_column r)" unfolding top_def by (rule dec_less_trans [OF buffer_covers py_max_ge(1)])
  then have r_le: "r \<le> quantize_money (Some top)" using quantize_mono [of top "of_column r"] by simp
  have "quantize_money (Some (token_total model (max (i - cached) 0) out)) \<le> r"
    unfolding r_def by (rule quantize_mono [OF token_total_mono]) (use assms pos in auto)
  moreover have "quantize_money (Some (Dec 10000 (- 6))) \<le> quantize_money (Some top)"
    unfolding top_def by (rule quantize_mono [OF py_max_ge(2)])
  then have "10 ^ 10 \<le> quantize_money (Some top)" by (simp add: quantize_money_def MONEY_DB_PRECISION_def)
  then have "\<not> dec_less (of_column (quantize_money (Some top))) (Dec 1 (- 2))"
    by (simp add: dec_less_def of_column_def scaled_def MONEY_DB_PRECISION_def Let_def)
  ultimately show ?thesis using r_le by (simp add: est compute_token_cost_total dec_less_expo12)
qed

theorem estimate_covers_usage_witness:
  "\<not> dec_less (estimate_chat_reserve_cost ''gpt-4o-mini'' [\<lparr>cm_role = ''user'', cm_content = ''hello world!''\<rparr>] (Some 10) default_gateway_settings)
      (compute_token_cost ''gpt-4o-mini'' 3 10 0)
   \<and> estimate_chat_reserve_cost ''gpt-4o-mini'' [\<lparr>cm_role = ''user'', cm_content = ''hello world!''\<rparr>] (Some 10) default_gateway_settings
      = Dec 10000000000 (- 12)"
proof -
  have "estimated_input_tokens [\<lparr>cm_role = ''user'', cm_content = ''hello world!''\<rparr>] = 3"
    "output_budget (Some 10) default_gateway_settings = 10"
    "estimate_chat_reserve_cost ''gpt-4o-mini'' [\<lparr>cm_role = ''user'', cm_content = ''hello world!''\<rparr>] (Some 10) default_gateway_settings
      = Dec 10000000000 (- 12)"
    by code_simp+
  then show ?thesis
    using estimate_covers_usage [of 3 "[\<lparr>cm_role = ''user'', cm_content = ''hello world!''\<rparr>]" 0 10 "Some 10"
        default_gateway_settings "''gpt-4o-mini''"] by simp
qed

end
