(* ===== verification/Samples.thy ===== *)
theory Samples
  imports State
begin

text \<open>
  Concrete instances on which the properties of the components are applied: a host with a
  short digest and no Redis server, a freshly migrated database, and a process at rest.
\<close>

definition sample_host :: host where
  "sample_host =
     \<lparr>sha256_hexdigest = (\<lambda>x. CHR ''#'' # take 8 (rev x)), timestamp_text = int_str, redis_reply = (\<lambda>_ _. None),
      redis_hash = (\<lambda>_ _. None)\<rparr>"

definition empty_db :: db where
  "empty_db =
     \<lparr>user_wallets = [], trace_budget_state = [], escrow_ledger = [], provider_dispatch_attempts = [],
      ledger_events = [], next_event_id = 1, budget_scope_state = [], execution_loop_state = [],
      guardrail_incidents = [], execution_lineage = [], model_policy_registry = [''gpt-4o''],
      verify_checkpoints = None, has_tenant_id = True, has_row_hash = True,
      has_checkpoint_table = True, admin_audit_log = [], next_audit_id = 1, has_admin_audit = True,
      ledger_chain_anchors = [], next_anchor_id = 1, has_anchor_table = True\<rparr>"

text \<open>One user, \<open>alice\<close>, with a balance of one hundred.\<close>

definition sample_db :: db where
  "sample_db =
     empty_db\<lparr>user_wallets :=
       [\<lparr>w_user_id = ''alice'', w_balance = 100 * 10 ^ 12, w_active = True, w_locked_at = None,
         w_lock_reason = None, w_updated_at = 0\<rparr>]\<rparr>"

text \<open>A reservation of \<open>alice\<close> for 15 units of \<open>10 ^ -12\<close> under a trace cap of 50, and the report of an outcome.\<close>

definition sample_reserve :: "string \<Rightarrow> reserve_request" where
  "sample_reserve k =
     \<lparr>rq_user_id = ''alice'', rq_trace_id = ''trace-1'', rq_idempotency_key = k, rq_model = ''gpt-4o'',
      rq_estimated_cost = Dec 15 (- 12), rq_trace_cap = Some (Dec 50 (- 12)), rq_tenant_id = None, rq_session_id = None,
      rq_agent_run_id = None, rq_workflow_step = None, rq_policy_version = ''v1'', rq_run_budget = None,
      rq_session_budget = None, rq_tenant_budget = None, rq_user_budget = None,
      rq_requires_manual_approval = False, rq_manual_approval_id = None, rq_high_cost_tool = None\<rparr>"

definition sample_settle :: "string \<Rightarrow> settle_outcome \<Rightarrow> decimal \<Rightarrow> settle_request" where
  "sample_settle k outcome cost =
     \<lparr>st_idempotency_key = Some k, st_outcome = outcome, st_actual_cost = cost,
      st_dispatch_attempt_key = Some (k @ ''-a1''), st_provider_name = Some ''openai'', st_model = None,
      st_provider_request_id = None, st_reason = None, st_tenant_id = None, st_user_id = None,
      st_session_id = None, st_agent_run_id = None, st_workflow_step = None, st_policy_version = ''v1'',
      st_input_tokens = 10, st_output_tokens = 20, st_cached_input_tokens = 0, st_cached_output_tokens = 0,
      st_latency_ms = 5, st_retry_count = 0, st_failover_count = 0, st_loop_signature = None,
      st_prompt_template_version = None, st_system_context_hash = None, st_tool_name = None,
      st_tool_input = None, st_raw_tool_output = None, st_state_snapshot = None\<rparr>"

definition idle_sys :: "db \<Rightarrow> sys" where
  "idle_sys d =
     \<lparr>db = d, committed = d, counters = (\<lambda>_. 0), clock = 1000, monotonic = 1000,
      limiter = \<lparr>rate_windows = (\<lambda>_. None), inflight = (\<lambda>_. 0), trace_depth = (\<lambda>_. []),
                 tokens = 0, last_refill = 0, initialized = False\<rparr>,
      guardrails_degraded = None,
      breaker = \<lparr>failures = (\<lambda>_. []), open_until = (\<lambda>_. None), breaker_degraded = None\<rparr>,
      diagnostic = \<lparr>diag_active = False, diag_reason = None, diag_component = None\<rparr>,
      redis_log = []\<rparr>"

lemma idle_sys_simps [simp]:
  "db (idle_sys d) = d" "committed (idle_sys d) = d" "clock (idle_sys d) = 1000"
  "monotonic (idle_sys d) = 1000"
  by (simp_all add: idle_sys_def)

end
