(* ===== verification/Hash_Chain.thy ===== *)
theory Hash_Chain
  imports Samples
begin

text \<open>
  The contract every hash-chained table of the governors follows
  (\<^verbatim>\<open>governor-spine-core/spine_core/ledger_contract.py\<close>): a row stores the hash of its
  predecessor and the digest of its own content with that hash. \<open>chained\<close> says that a
  table satisfies it; the locale \<open>hash_chain\<close> proves, for any row type whose canonical
  payload is injective, that the head hash determines the whole table unless two
  payloads of the compared tables collide.
\<close>

definition GENESIS_HASH :: string where
  "GENESIS_HASH = replicate 64 (CHR ''0'')"

fun chained ::
  "('r \<Rightarrow> string \<Rightarrow> string) \<Rightarrow> ('r \<Rightarrow> string option) \<Rightarrow> ('r \<Rightarrow> string option) \<Rightarrow> string \<Rightarrow> 'r list \<Rightarrow> bool" where
  "chained digest prev_of hash_of g [] = True"
| "chained digest prev_of hash_of g (r # rs) =
     (str_or (prev_of r) GENESIS_HASH = g \<and> hash_of r = Some (digest r g)
      \<and> chained digest prev_of hash_of (digest r g) rs)"

fun chain_head :: "('r \<Rightarrow> string \<Rightarrow> string) \<Rightarrow> string \<Rightarrow> 'r list \<Rightarrow> string" where
  "chain_head digest g [] = g"
| "chain_head digest g (r # rs) = chain_head digest (digest r g) rs"

fun chain_payloads :: "('r \<Rightarrow> string \<Rightarrow> string) \<Rightarrow> ('r \<Rightarrow> string \<Rightarrow> string) \<Rightarrow> string \<Rightarrow> 'r list \<Rightarrow> string list" where
  "chain_payloads payload digest g [] = []"
| "chain_payloads payload digest g (r # rs) =
     payload r g # chain_payloads payload digest (digest r g) rs"

text \<open>Two different payloads with one digest, one in each of two lists.\<close>

definition collision :: "(string \<Rightarrow> string) \<Rightarrow> string list \<Rightarrow> string list \<Rightarrow> bool" where
  "collision H xs ys = (\<exists>x \<in> set xs. \<exists>y \<in> set ys. x \<noteq> y \<and> H x = H y)"

lemma collision_Cons: "collision H xs ys \<Longrightarrow> collision H (x # xs) (y # ys)"
  unfolding collision_def by (meson list.set_intros(2))

lemma collision_hd: "x \<noteq> y \<Longrightarrow> H x = H y \<Longrightarrow> collision H (x # xs) (y # ys)"
  unfolding collision_def by (meson list.set_intros(1))

lemma chained_append:
  "chained d p h g (xs @ ys) = (chained d p h g xs \<and> chained d p h (chain_head d g xs) ys)"
  by (induction xs arbitrary: g) auto

lemma chain_head_append: "chain_head d g (xs @ ys) = chain_head d (chain_head d g xs) ys"
  by (induction xs arbitrary: g) auto

lemma chain_payloads_append:
  "chain_payloads q d g (xs @ ys) = chain_payloads q d g xs @ chain_payloads q d (chain_head d g xs) ys"
  by (induction xs arbitrary: g) auto

lemma chain_head_last:
  "chained d p h g rows \<Longrightarrow> rows \<noteq> [] \<Longrightarrow> h (last rows) = Some (chain_head d g rows)"
proof (induction rows arbitrary: g)
  case Nil
  then show ?case by simp
next
  case (Cons r rs)
  then show ?case by (cases rs) auto
qed

lemma chained_sealed: "chained d p h g rows \<Longrightarrow> r \<in> set rows \<Longrightarrow> h r \<noteq> None"
  by (induction rows arbitrary: g) auto

locale hash_chain =
  fixes H :: "string \<Rightarrow> string" and payload :: "'r \<Rightarrow> string \<Rightarrow> string" and content :: "'r \<Rightarrow> 'c"
  assumes payload_inj: "payload r g = payload r' g' \<Longrightarrow> content r = content r' \<and> g = g'"
begin

abbreviation digest :: "'r \<Rightarrow> string \<Rightarrow> string" where
  "digest r g \<equiv> H (payload r g)"

lemma head_determines:
  "length rows = length rows' \<Longrightarrow> chain_head digest g rows = chain_head digest g' rows'
     \<Longrightarrow> (map content rows = map content rows' \<and> (rows \<noteq> [] \<longrightarrow> g = g'))
         \<or> collision H (chain_payloads payload digest g rows) (chain_payloads payload digest g' rows')"
proof (induction rows rows' arbitrary: g g' rule: list_induct2)
  case Nil
  then show ?case by simp
next
  case (Cons r rs r' rs')
  let ?xs = "chain_payloads payload digest (digest r g) rs"
    and ?ys = "chain_payloads payload digest (digest r' g') rs'"
  have IH: "(map content rs = map content rs' \<and> (rs \<noteq> [] \<longrightarrow> digest r g = digest r' g'))
      \<or> collision H ?xs ?ys"
    by (rule Cons.IH) (use Cons.prems in simp)
  have "digest r g = digest r' g'" if "rs = []"
    using that Cons.hyps Cons.prems by simp
  with IH consider (tail) "collision H ?xs ?ys"
    | (head) "map content rs = map content rs'" "digest r g = digest r' g'" "payload r g \<noteq> payload r' g'"
    | (same) "map content rs = map content rs'" "payload r g = payload r' g'"
    by blast
  then show ?case
  proof cases
    case tail
    then show ?thesis by (simp add: collision_Cons)
  next
    case head
    then have "collision H (payload r g # ?xs) (payload r' g' # ?ys)" by (simp add: collision_hd)
    then show ?thesis by simp
  next
    case same
    then show ?thesis using payload_inj [OF same(2)] by simp
  qed
qed

end

end
