(* ===== verification/Ledger_Seal.thy ===== *)
theory Ledger_Seal
  imports Hash_Chain
begin

text \<open>
  \<^verbatim>\<open>sidecar/app/ledger_seal.py\<close>, \<^verbatim>\<open>sidecar/app/ledger_events.py\<close> and
  \<^verbatim>\<open>spine_core/chain_checkpoint.py\<close>: the append-only \<open>ledger_events\<close> table, the hash
  chain over it, and its verification, full and from a checkpoint.
\<close>

section \<open>Row hashes\<close>

text \<open>The JSON object \<open>compute_row_hash\<close> hashes, for the columns of a row and a previous hash.\<close>

definition row_payload ::
  "int \<Rightarrow> string \<Rightarrow> string \<Rightarrow> string \<Rightarrow> string \<Rightarrow> jobject \<Rightarrow> string \<Rightarrow> string \<Rightarrow> string" where
  "row_payload event_id idempotency_key user_id event_type amount_delta metadata recorded_at prev_hash =
     dumps_compact
       (JObj [(''event_id'', JInt event_id),
              (''idempotency_key'', JStr idempotency_key),
              (''user_id'', JStr user_id),
              (''event_type'', JStr event_type),
              (''amount_delta'', JStr amount_delta),
              (''metadata'', JObj metadata),
              (''recorded_at'', JStr recorded_at),
              (''prev_hash'', JStr prev_hash)])"

definition compute_row_hash ::
  "host \<Rightarrow> int \<Rightarrow> string \<Rightarrow> string \<Rightarrow> string \<Rightarrow> string \<Rightarrow> jobject \<Rightarrow> string \<Rightarrow> string \<Rightarrow> string" where
  "compute_row_hash h event_id idempotency_key user_id event_type amount_delta metadata recorded_at prev_hash =
     sha256_hexdigest h
       (row_payload event_id idempotency_key user_id event_type amount_delta metadata recorded_at prev_hash)"

section \<open>Appending\<close>

text \<open>\<open>SELECT ... WHERE p ORDER BY event_id DESC LIMIT 1\<close>.\<close>

definition latest :: "(event \<Rightarrow> bool) \<Rightarrow> event list \<Rightarrow> event option" where
  "latest p rows =
     (case sort_key ev_event_id (filter p rows) of [] \<Rightarrow> None | r # rs \<Rightarrow> Some (last (r # rs)))"

definition previous_hash :: "int \<Rightarrow> event list \<Rightarrow> string" where
  "previous_hash event_id rows =
     (case latest (\<lambda>e. ev_row_hash e \<noteq> None \<and> ev_row_hash e \<noteq> Some GENESIS_HASH
                       \<and> ev_event_id e < event_id) rows of
        None \<Rightarrow> GENESIS_HASH
      | Some e \<Rightarrow> str_or (ev_row_hash e) GENESIS_HASH)"

definition seal_ledger_event ::
  "host \<Rightarrow> int \<Rightarrow> string \<Rightarrow> string \<Rightarrow> string \<Rightarrow> string \<Rightarrow> jobject \<Rightarrow> string \<Rightarrow> db \<Rightarrow> db" where
  "seal_ledger_event h event_id idempotency_key user_id event_type amount_delta metadata recorded_at d =
     (let prev_hash = previous_hash event_id (ledger_events d);
          row_hash = compute_row_hash h event_id idempotency_key user_id event_type amount_delta
                       metadata recorded_at prev_hash
      in d\<lparr>ledger_events := update_where (\<lambda>e. ev_event_id e = event_id)
             (\<lambda>e. e\<lparr>ev_prev_hash := Some prev_hash, ev_row_hash := Some row_hash\<rparr>) (ledger_events d)\<rparr>)"

definition seal_last_event ::
  "host \<Rightarrow> string \<Rightarrow> string \<Rightarrow> string \<Rightarrow> jobject \<Rightarrow> unit handler" where
  "seal_last_event h idempotency_key user_id event_type metadata =
     getsE (\<lambda>s. has_row_hash (db s)) (\<lambda>supported.
       if \<not> supported
       then throw (RuntimeError ''ledger_events seal columns unavailable - cannot append unsealed events'')
       else getsE (\<lambda>s. latest (\<lambda>e. ev_idempotency_key e = idempotency_key) (ledger_events (db s)))
         (\<lambda>row. case row of
            None \<Rightarrow> ret ()
          | Some r \<Rightarrow>
              stepsE
                [modifyE (on_db (seal_ledger_event h (ev_event_id r) idempotency_key user_id event_type
                   (decimal_str (ev_amount_delta r))
                   (if ev_metadata r \<noteq> [] then ev_metadata r else metadata) (ev_recorded_at r))),
                 modifyE (increment ''ledger_event_sealed_total'')]))"

definition insert_event ::
  "host \<Rightarrow> int \<Rightarrow> string \<Rightarrow> string \<Rightarrow> string \<Rightarrow> money \<Rightarrow> jobject \<Rightarrow> db \<Rightarrow> db" where
  "insert_event h now idempotency_key user_id event_type amount_delta metadata d =
     d\<lparr>ledger_events := ledger_events d @
         [\<lparr>ev_event_id = next_event_id d, ev_idempotency_key = idempotency_key, ev_user_id = user_id,
           ev_event_type = event_type,
           ev_amount_delta = quantize_money (Some (of_column amount_delta)),
           ev_metadata = metadata, ev_recorded_at = timestamp_text h now,
           ev_prev_hash = None, ev_row_hash = None\<rparr>],
       next_event_id := next_event_id d + 1\<rparr>"

definition append_sealed_ledger_event ::
  "host \<Rightarrow> string \<Rightarrow> string \<Rightarrow> string \<Rightarrow> money \<Rightarrow> jobject \<Rightarrow> unit handler" where
  "append_sealed_ledger_event h idempotency_key user_id event_type amount_delta metadata =
     getsE clock (\<lambda>now. stepsE
       [modifyE (on_db (insert_event h now idempotency_key user_id event_type amount_delta metadata)),
        seal_last_event h idempotency_key user_id event_type metadata])"

definition head_hash :: "db \<Rightarrow> string option" where
  "head_hash d =
     (if \<not> has_row_hash d then None
      else case latest (\<lambda>e. ev_row_hash e \<noteq> None \<and> ev_row_hash e \<noteq> Some GENESIS_HASH) (ledger_events d) of
             None \<Rightarrow> None | Some e \<Rightarrow> ev_row_hash e)"

section \<open>Verification\<close>

record chain_break =
  br_event_id :: int
  br_reason :: string

record ledger_verify_state =
  vs_valid :: bool
  vs_sealed_count :: nat
  vs_unsealed_count :: nat
  vs_head_hash :: "string option"
  vs_first_break :: "chain_break option"
  vs_last_event_id :: int

record verification_result =
  vr_valid :: bool
  vr_sealed_count :: nat
  vr_unsealed_count :: nat
  vr_total_events :: nat
  vr_head_hash :: "string option"
  vr_first_break :: "chain_break option"
  vr_incremental :: bool

definition event_digest :: "host \<Rightarrow> event \<Rightarrow> string \<Rightarrow> string" where
  "event_digest h e prev_hash =
     compute_row_hash h (ev_event_id e) (ev_idempotency_key e) (ev_user_id e) (ev_event_type e)
       (decimal_str (ev_amount_delta e)) (ev_metadata e) (ev_recorded_at e) prev_hash"

text \<open>The loop of \<open>_verify_ledger_rows\<close>; its state is the last sealed hash, the head, the
  counts and the last event id.\<close>

fun verify_loop ::
  "host \<Rightarrow> event list \<Rightarrow> string option \<Rightarrow> string option \<Rightarrow> nat \<Rightarrow> nat \<Rightarrow> int \<Rightarrow> ledger_verify_state" where
  "verify_loop h [] last_sealed_hash head sealed unsealed last_id =
     \<lparr>vs_valid = (unsealed = 0), vs_sealed_count = sealed, vs_unsealed_count = unsealed,
      vs_head_hash = head, vs_first_break = None, vs_last_event_id = last_id\<rparr>"
| "verify_loop h (row # rows) last_sealed_hash head sealed unsealed last_id =
     (case ev_row_hash row of
        None \<Rightarrow> verify_loop h rows last_sealed_hash head sealed (unsealed + 1) (ev_event_id row)
      | Some row_hash \<Rightarrow>
          (let prev_hash = str_or (ev_prev_hash row) GENESIS_HASH
           in if Some prev_hash \<noteq> last_sealed_hash
              then \<lparr>vs_valid = False, vs_sealed_count = sealed, vs_unsealed_count = unsealed,
                    vs_head_hash = head,
                    vs_first_break = Some \<lparr>br_event_id = ev_event_id row,
                      br_reason = ''prev_hash mismatch at event_id='' @ int_str (ev_event_id row)\<rparr>,
                    vs_last_event_id = ev_event_id row\<rparr>
              else if row_hash \<noteq> event_digest h row prev_hash
              then \<lparr>vs_valid = False, vs_sealed_count = sealed, vs_unsealed_count = unsealed,
                    vs_head_hash = head,
                    vs_first_break = Some \<lparr>br_event_id = ev_event_id row,
                      br_reason = ''row_hash mismatch at event_id='' @ int_str (ev_event_id row)\<rparr>,
                    vs_last_event_id = ev_event_id row\<rparr>
              else verify_loop h rows (Some row_hash) (Some row_hash) (sealed + 1) unsealed
                     (ev_event_id row)))"

definition verify_ledger_rows :: "host \<Rightarrow> db \<Rightarrow> int \<Rightarrow> nat \<Rightarrow> ledger_verify_state" where
  "verify_ledger_rows h d from_id prior =
     (let anchor = (if 0 < from_id then row_where (\<lambda>e. ev_event_id e = from_id) (ledger_events d) else None);
          from_event_id = (if anchor = None then 0 else from_id);
          prior_sealed = (if 0 < from_id \<and> anchor = None then 0 else prior);
          last_sealed_hash = (case anchor of None \<Rightarrow> Some GENESIS_HASH | Some e \<Rightarrow> ev_row_hash e);
          rows = sort_key ev_event_id
                   (if 0 < from_event_id then filter (\<lambda>e. from_event_id < ev_event_id e) (ledger_events d)
                    else ledger_events d)
      in if 0 < from_event_id \<and> rows = []
         then \<lparr>vs_valid = True, vs_sealed_count = prior_sealed, vs_unsealed_count = 0,
               vs_head_hash = last_sealed_hash, vs_first_break = None, vs_last_event_id = from_event_id\<rparr>
         else verify_loop h rows last_sealed_hash
                (if last_sealed_hash \<noteq> Some GENESIS_HASH then last_sealed_hash else None)
                prior_sealed 0 from_event_id)"

definition count_events :: "db \<Rightarrow> nat" where
  "count_events d = length (ledger_events d)"

definition load_checkpoint :: "db \<Rightarrow> verify_checkpoint option" where
  "load_checkpoint d = (if has_checkpoint_table d then verify_checkpoints d else None)"

definition save_checkpoint :: "verify_checkpoint \<Rightarrow> db \<Rightarrow> db" where
  "save_checkpoint c d = (if has_checkpoint_table d then d\<lparr>verify_checkpoints := Some c\<rparr> else d)"

definition persist_checkpoint :: "verify_checkpoint \<Rightarrow> sys \<Rightarrow> sys" where
  "persist_checkpoint c s = commit (on_db (save_checkpoint c) s)"

text \<open>\<open>verify_ledger_chain\<close>: \<open>r\<close> is the database the read session sees.\<close>

definition checkpoint_is_current :: "db \<Rightarrow> verify_checkpoint \<Rightarrow> string \<Rightarrow> bool" where
  "checkpoint_is_current r c current_head =
     (verified_head_hash c = current_head \<and> count_events r = cp_total_events c
      \<and> cp_sealed_count c = count_events r)"

definition tail_verified :: "ledger_verify_state \<Rightarrow> bool" where
  "tail_verified v = (vs_valid v \<and> truthy (vs_head_hash v) \<and> vs_unsealed_count v = 0)"

definition checkpoint_of :: "ledger_verify_state \<Rightarrow> nat \<Rightarrow> verify_checkpoint" where
  "checkpoint_of v total_events =
     \<lparr>last_verified_event_id = vs_last_event_id v, verified_head_hash = str_or (vs_head_hash v) [],
      cp_sealed_count = vs_sealed_count v, cp_total_events = total_events\<rparr>"

definition verify_full :: "host \<Rightarrow> bool \<Rightarrow> db \<Rightarrow> sys \<Rightarrow> sys \<times> verification_result" where
  "verify_full h incremental r s =
     (let full = verify_ledger_rows h r 0 0;
          result = \<lparr>vr_valid = vs_valid full, vr_sealed_count = vs_sealed_count full,
                    vr_unsealed_count = vs_unsealed_count full, vr_total_events = count_events r,
                    vr_head_hash = vs_head_hash full, vr_first_break = vs_first_break full,
                    vr_incremental = False\<rparr>
      in (if incremental \<and> has_checkpoint_table r \<and> tail_verified full
          then persist_checkpoint (checkpoint_of full (count_events r)) s else s,
          result))"

definition verify_ledger_chain :: "host \<Rightarrow> bool \<Rightarrow> db \<Rightarrow> sys \<Rightarrow> sys \<times> verification_result" where
  "verify_ledger_chain h incremental r s =
     (if \<not> has_row_hash r
      then (s, \<lparr>vr_valid = False, vr_sealed_count = 0, vr_unsealed_count = 0, vr_total_events = 0,
                vr_head_hash = None,
                vr_first_break = Some \<lparr>br_event_id = 0, br_reason = ''seal_schema_unavailable''\<rparr>,
                vr_incremental = False\<rparr>)
      else if count_events r = 0
      then (s, \<lparr>vr_valid = True, vr_sealed_count = 0, vr_unsealed_count = 0, vr_total_events = 0,
                vr_head_hash = None, vr_first_break = None, vr_incremental = False\<rparr>)
      else case (if incremental \<and> has_checkpoint_table r then load_checkpoint r else None, head_hash r) of
        (Some c, Some current_head) \<Rightarrow>
          (if current_head \<noteq> [] \<and> checkpoint_is_current r c current_head
           then (s, \<lparr>vr_valid = True, vr_sealed_count = cp_sealed_count c, vr_unsealed_count = 0,
                     vr_total_events = count_events r, vr_head_hash = Some current_head,
                     vr_first_break = None, vr_incremental = True\<rparr>)
           else let tail = verify_ledger_rows h r (last_verified_event_id c) (cp_sealed_count c)
                in if current_head \<noteq> [] \<and> tail_verified tail
                   then (persist_checkpoint (checkpoint_of tail (count_events r)) s,
                         \<lparr>vr_valid = True, vr_sealed_count = vs_sealed_count tail,
                          vr_unsealed_count = vs_unsealed_count tail, vr_total_events = count_events r,
                          vr_head_hash = vs_head_hash tail, vr_first_break = None,
                          vr_incremental = True\<rparr>)
                   else verify_full h incremental r s)
      | _ \<Rightarrow> verify_full h incremental r s)"

section \<open>The chain as a hash chain\<close>

text \<open>The columns of a row that the digest covers; metadata counts up to the order of its keys.\<close>

definition event_content :: "event \<Rightarrow> int \<times> string \<times> string \<times> string \<times> money \<times> json \<times> string" where
  "event_content e =
     (ev_event_id e, ev_idempotency_key e, ev_user_id e, ev_event_type e, ev_amount_delta e,
      sort_keys (JObj (ev_metadata e)), ev_recorded_at e)"

definition event_payload :: "event \<Rightarrow> string \<Rightarrow> string" where
  "event_payload e prev_hash =
     row_payload (ev_event_id e) (ev_idempotency_key e) (ev_user_id e) (ev_event_type e)
       (decimal_str (ev_amount_delta e)) (ev_metadata e) (ev_recorded_at e) prev_hash"

abbreviation event_chain :: "host \<Rightarrow> string \<Rightarrow> event list \<Rightarrow> bool" where
  "event_chain h \<equiv> chained (event_digest h) ev_prev_hash ev_row_hash"

text \<open>
  The state of the table that appending maintains: ids ascend and stay below the next
  id of the sequence, and the rows form one chain from the genesis hash.
\<close>

definition chain_ok :: "host \<Rightarrow> db \<Rightarrow> bool" where
  "chain_ok h d =
     (has_row_hash d \<and> sorted_wrt (<) (map ev_event_id (ledger_events d))
      \<and> (\<forall>e \<in> set (ledger_events d). 0 < ev_event_id e \<and> ev_event_id e < next_event_id d)
      \<and> 0 < next_event_id d
      \<and> event_chain h GENESIS_HASH (ledger_events d))"

text \<open>
  What the code relies on of SHA-256: a hex digest is not empty, and no payload has the
  all-zero digest that stands for the genesis row.
\<close>

definition digest_ok :: "host \<Rightarrow> bool" where
  "digest_ok h = (\<forall>x. sha256_hexdigest h x \<noteq> [] \<and> sha256_hexdigest h x \<noteq> GENESIS_HASH)"

definition sealed_event ::
  "host \<Rightarrow> int \<Rightarrow> string \<Rightarrow> string \<Rightarrow> string \<Rightarrow> money \<Rightarrow> jobject \<Rightarrow> db \<Rightarrow> event" where
  "sealed_event h now idempotency_key user_id event_type amount_delta metadata d =
     (let prev_hash = chain_head (event_digest h) GENESIS_HASH (ledger_events d)
      in \<lparr>ev_event_id = next_event_id d, ev_idempotency_key = idempotency_key, ev_user_id = user_id,
          ev_event_type = event_type, ev_amount_delta = amount_delta, ev_metadata = metadata,
          ev_recorded_at = timestamp_text h now, ev_prev_hash = Some prev_hash,
          ev_row_hash = Some (compute_row_hash h (next_event_id d) idempotency_key user_id event_type
            (decimal_str amount_delta) metadata (timestamp_text h now) prev_hash)\<rparr>)"

definition add_sealed_event ::
  "host \<Rightarrow> int \<Rightarrow> string \<Rightarrow> string \<Rightarrow> string \<Rightarrow> money \<Rightarrow> jobject \<Rightarrow> db \<Rightarrow> db" where
  "add_sealed_event h now idempotency_key user_id event_type amount_delta metadata d =
     d\<lparr>ledger_events := ledger_events d @
         [sealed_event h now idempotency_key user_id event_type amount_delta metadata d],
       next_event_id := next_event_id d + 1\<rparr>"

lemma row_payload_inj:
  assumes "row_payload i k u t a m r g = row_payload i' k' u' t' a' m' r' g'"
  shows "(i, k, u, t, a, sort_keys (JObj m), r, g) = (i', k', u', t', a', sort_keys (JObj m'), r', g')"
  using dumps_inj [where sep = "[]", OF assms [unfolded row_payload_def dumps_compact_def]]
  by simp

lemma event_digest_payload: "event_digest h e g = sha256_hexdigest h (event_payload e g)"
  by (simp add: event_digest_def event_payload_def compute_row_hash_def)

interpretation lc: hash_chain "sha256_hexdigest h" event_payload event_content for h
  by unfold_locales
    (auto simp: event_payload_def event_content_def dest!: row_payload_inj decimal_str_inj)

lemma latest_ordered:
  assumes "sorted_wrt (<) (map ev_event_id rows)"
  shows "latest p rows = (if filter p rows = [] then None else Some (last (filter p rows)))"
proof -
  have "sorted (map ev_event_id (filter p rows))"
    using assms by (simp add: sorted_filter strict_sorted_iff)
  then show ?thesis
    by (simp add: latest_def sort_key_id_if_sorted split: list.split)
qed

lemma chained_hashes:
  assumes "digest_ok h" "event_chain h g rows" "e \<in> set rows"
  obtains x where "ev_row_hash e = Some x" "x \<noteq> []" "x \<noteq> GENESIS_HASH"
  using assms(2,3)
proof (induction rows arbitrary: g thesis)
  case Nil
  then show ?case by simp
next
  case (Cons r rs)
  then show ?case
    using assms(1) by (auto simp: digest_ok_def event_digest_payload)
qed

lemma previous_hash_chain:
  assumes "digest_ok h" "event_chain h GENESIS_HASH rows"
    and "sorted_wrt (<) (map ev_event_id rows)" "\<forall>e \<in> set rows. ev_event_id e < i"
    and "ev_event_id x = i"
  shows "previous_hash i (rows @ [x]) = chain_head (event_digest h) GENESIS_HASH rows"
proof -
  let ?p = "\<lambda>e. ev_row_hash e \<noteq> None \<and> ev_row_hash e \<noteq> Some GENESIS_HASH \<and> ev_event_id e < i"
  have p: "?p e" if e: "e \<in> set rows" for e
  proof -
    obtain y where "ev_row_hash e = Some y" "y \<noteq> GENESIS_HASH"
      by (rule chained_hashes [OF assms(1,2) e])
    then show ?thesis using assms(4) e by simp
  qed
  have "filter ?p (rows @ [x]) = rows" using p assms(5) by simp
  moreover have "sorted_wrt (<) (map ev_event_id (rows @ [x]))"
    using assms(3-5) by (simp add: sorted_wrt_append)
  ultimately have l: "latest ?p (rows @ [x]) = (if rows = [] then None else Some (last rows))"
    by (simp only: latest_ordered)
  show ?thesis
  proof (cases "rows = []")
    case True
    with l show ?thesis by (simp add: previous_hash_def)
  next
    case False
    obtain y where y: "ev_row_hash (last rows) = Some y" "y \<noteq> []"
      using chained_hashes [OF assms(1,2), of "last rows"] False by auto
    with l False chain_head_last [OF assms(2) False] show ?thesis
      by (simp add: previous_hash_def str_or_def)
  qed
qed

text \<open>Appending to a well-formed chain adds one row, sealed onto the head, and nothing else changes.\<close>

lemma append_sealed_run:
  assumes ok: "chain_ok h (db s)" and h: "digest_ok h"
  shows "append_sealed_ledger_event h k u t a m s
    = (increment ''ledger_event_sealed_total''
         (on_db (add_sealed_event h (clock s) k u t a m) s), Inr ())"
proof -
  define d where "d = db s"
  let ?x = "\<lparr>ev_event_id = next_event_id d, ev_idempotency_key = k, ev_user_id = u,
     ev_event_type = t, ev_amount_delta = a, ev_metadata = m,
     ev_recorded_at = timestamp_text h (clock s), ev_prev_hash = None, ev_row_hash = None\<rparr>"
  let ?rows = "ledger_events d"
  have c: "sorted_wrt (<) (map ev_event_id ?rows)" "\<forall>e \<in> set ?rows. ev_event_id e < next_event_id d"
    "event_chain h GENESIS_HASH ?rows" "has_row_hash d"
    using ok by (auto simp: chain_ok_def d_def)
  have sorted: "sorted_wrt (<) (map ev_event_id (?rows @ [?x]))"
    using c by (simp add: sorted_wrt_append)
  have latest: "latest (\<lambda>e. ev_idempotency_key e = k) (?rows @ [?x]) = Some ?x"
    by (simp add: latest_ordered [OF sorted])
  have prev: "previous_hash (next_event_id d) (?rows @ [?x])
      = chain_head (event_digest h) GENESIS_HASH ?rows"
    by (rule previous_hash_chain) (use h c in auto)
  have upd: "update_where (\<lambda>e. ev_event_id e = next_event_id d) f ?rows = ?rows" for f
    using c(2) by (intro update_where_none) auto
  have ins: "insert_event h (clock s) k u t a m d
      = d\<lparr>ledger_events := ?rows @ [?x], next_event_id := next_event_id d + 1\<rparr>"
    by (simp add: insert_event_def)
  have seal: "seal_ledger_event h (next_event_id d) k u t (decimal_str a) m (timestamp_text h (clock s))
       (insert_event h (clock s) k u t a m d) = add_sealed_event h (clock s) k u t a m d"
    by (simp add: ins seal_ledger_event_def prev upd add_sealed_event_def sealed_event_def Let_def)
  define s' where "s' = on_db (insert_event h (clock s) k u t a m) s"
  have s': "db s' = insert_event h (clock s) k u t a m d" "has_row_hash (db s')"
    "ledger_events (db s') = ?rows @ [?x]"
    using c(4) by (simp_all add: s'_def d_def [symmetric] ins)
  have "seal_last_event h k u t m s'
      = (increment ''ledger_event_sealed_total'' (on_db (add_sealed_event h (clock s) k u t a m) s), Inr ())"
    using s' seal latest
    by (simp add: seal_last_event_def getsE_def seqE_def bindE_def modifyE_def ret_def on_db_def)
      (cases "m = []", simp_all add: s'_def on_db_def d_def)
  then show ?thesis
    by (simp add: append_sealed_ledger_event_def getsE_def seqE_def bindE_def modifyE_def ret_def
        s'_def)
qed

lemma wp_append_sealed:
  assumes "chain_ok h (db s)" "digest_ok h"
  shows "wp (append_sealed_ledger_event h k u t a m) Q E s
    = Q () (increment ''ledger_event_sealed_total''
         (on_db (add_sealed_event h (clock s) k u t a m) s))"
  by (simp add: wp_def append_sealed_run [OF assms])

lemma GENESIS_HASH_nonempty [simp]: "GENESIS_HASH \<noteq> []"
  by (simp add: GENESIS_HASH_def)

lemma chain_head_nonempty: "digest_ok h \<Longrightarrow> g \<noteq> [] \<Longrightarrow> chain_head (event_digest h) g rows \<noteq> []"
  by (induction rows arbitrary: g) (auto simp: digest_ok_def event_digest_payload)

lemma add_sealed_event_chain:
  assumes "chain_ok h d" "digest_ok h"
  shows "chain_ok h (add_sealed_event h now k u t a m d)"
  using assms chain_head_nonempty [OF assms(2), of GENESIS_HASH "ledger_events d"]
  by (auto simp: chain_ok_def add_sealed_event_def sealed_event_def Let_def sorted_wrt_append
      chained_append event_digest_def str_or_def dest: order.strict_trans)

section \<open>What verification decides\<close>

lemma verify_loop_chained:
  "event_chain h g rows \<Longrightarrow> verify_loop h rows (Some g) head n u i
     = \<lparr>vs_valid = (u = 0), vs_sealed_count = n + length rows, vs_unsealed_count = u,
        vs_head_hash = (if rows = [] then head else Some (chain_head (event_digest h) g rows)),
        vs_first_break = None, vs_last_event_id = (if rows = [] then i else ev_event_id (last rows))\<rparr>"
  by (induction rows arbitrary: g head n i) (simp_all add: Let_def)

lemma verify_loop_unsealed: "0 < u \<Longrightarrow> \<not> vs_valid (verify_loop h rows g head n u i)"
  by (induction rows arbitrary: g head n u i) (auto simp: Let_def split: option.split)

lemma verify_loop_valid:
  "vs_valid (verify_loop h rows (Some g) head n u i) \<longleftrightarrow> u = 0 \<and> event_chain h g rows"
proof (induction rows arbitrary: g head n u i)
  case Nil
  then show ?case by simp
next
  case (Cons r rs)
  then show ?case
    by (cases "ev_row_hash r") (auto simp: Let_def verify_loop_unsealed)
qed

lemma verify_full_rows:
  "verify_ledger_rows h d 0 0
     = verify_loop h (sort_key ev_event_id (ledger_events d)) (Some GENESIS_HASH) None 0 0 0"
  by (simp add: verify_ledger_rows_def)

lemma sort_events: "chain_ok h d \<Longrightarrow> sort_key ev_event_id (ledger_events d) = ledger_events d"
  by (rule sort_key_id_if_sorted) (simp add: chain_ok_def strict_sorted_iff)

lemma verify_nonincremental:
  "has_row_hash d \<Longrightarrow> snd (verify_ledger_chain h False d s)
     = (let v = verify_ledger_rows h d 0 0
        in \<lparr>vr_valid = vs_valid v, vr_sealed_count = vs_sealed_count v,
            vr_unsealed_count = vs_unsealed_count v, vr_total_events = count_events d,
            vr_head_hash = vs_head_hash v, vr_first_break = vs_first_break v, vr_incremental = False\<rparr>)"
  by (auto simp: verify_ledger_chain_def verify_full_def Let_def verify_full_rows count_events_def)

lemma verify_nonincremental_valid:
  "vr_valid (snd (verify_ledger_chain h False d s)) \<longleftrightarrow>
     has_row_hash d \<and> event_chain h GENESIS_HASH (sort_key ev_event_id (ledger_events d))"
proof (cases "has_row_hash d")
  case True
  then show ?thesis
    by (simp add: verify_nonincremental Let_def verify_full_rows verify_loop_valid)
next
  case False
  then show ?thesis by (simp add: verify_ledger_chain_def)
qed

lemma verify_nonincremental_result:
  assumes "vr_valid (snd (verify_ledger_chain h False d s))"
  shows "vr_sealed_count (snd (verify_ledger_chain h False d s)) = length (ledger_events d)"
    and "vr_head_hash (snd (verify_ledger_chain h False d s))
      = (if ledger_events d = [] then None
         else Some (chain_head (event_digest h) GENESIS_HASH (sort_key ev_event_id (ledger_events d))))"
  using assms
  by (simp_all add: verify_nonincremental_valid verify_nonincremental Let_def verify_full_rows
      verify_loop_chained length_0_conv [symmetric] del: length_0_conv)

lemma head_hash_chain:
  assumes "chain_ok h d" "digest_ok h"
  shows "head_hash d = (if ledger_events d = [] then None
     else Some (chain_head (event_digest h) GENESIS_HASH (ledger_events d)))"
proof -
  let ?p = "\<lambda>e. ev_row_hash e \<noteq> None \<and> ev_row_hash e \<noteq> Some GENESIS_HASH"
  have c: "event_chain h GENESIS_HASH (ledger_events d)" "sorted_wrt (<) (map ev_event_id (ledger_events d))"
    "has_row_hash d"
    using assms(1) by (simp_all add: chain_ok_def)
  have "filter ?p (ledger_events d) = ledger_events d"
  proof (rule filter_True, rule ballI)
    fix e assume e: "e \<in> set (ledger_events d)"
    show "?p e" by (rule chained_hashes [OF assms(2) c(1) e]) simp
  qed
  then show ?thesis
    using c chain_head_last [OF c(1)] by (simp add: head_hash_def latest_ordered)
qed

text \<open>A checkpoint that an earlier verification of the same table wrote.\<close>

definition checkpoint_ok :: "host \<Rightarrow> db \<Rightarrow> verify_checkpoint \<Rightarrow> bool" where
  "checkpoint_ok h d c =
     (\<exists>n. 0 < n \<and> n \<le> length (ledger_events d)
          \<and> last_verified_event_id c = ev_event_id (ledger_events d ! (n - 1))
          \<and> verified_head_hash c = chain_head (event_digest h) GENESIS_HASH (take n (ledger_events d))
          \<and> cp_sealed_count c = n \<and> cp_total_events c = n)"

lemma checkpoint_ok_append:
  "checkpoint_ok h d c \<Longrightarrow> checkpoint_ok h (add_sealed_event h now k u t a m d) c"
  by (force simp: checkpoint_ok_def add_sealed_event_def nth_append)

lemma filter_after:
  fixes f :: "'r \<Rightarrow> int"
  assumes "sorted_wrt (<) (map f (xs @ ys))" "xs \<noteq> []"
  shows "filter (\<lambda>e. f (last xs) < f e) (xs @ ys) = ys"
    and "row_where (\<lambda>e. f e = f (last xs)) (xs @ ys) = Some (last xs)"
proof -
  obtain zs z where xs: "xs = zs @ [z]" using assms(2) by (metis rev_exhaust)
  show "filter (\<lambda>e. f (last xs) < f e) (xs @ ys) = ys"
    using assms(1) by (auto simp: xs sorted_wrt_append filter_empty_conv dest: order.strict_trans
        intro: filter_True)
  have "row_where (\<lambda>e. f e = f z) zs = None"
    using assms(1) by (auto simp: row_where_None xs sorted_wrt_append)
  then show "row_where (\<lambda>e. f e = f (last xs)) (xs @ ys) = Some (last xs)" by (simp add: xs)
qed

lemma verify_tail:
  assumes ok: "chain_ok h d" "digest_ok h" and c: "checkpoint_ok h d c"
  shows "verify_ledger_rows h d (last_verified_event_id c) (cp_sealed_count c)
    = \<lparr>vs_valid = True, vs_sealed_count = length (ledger_events d), vs_unsealed_count = 0,
       vs_head_hash = Some (chain_head (event_digest h) GENESIS_HASH (ledger_events d)),
       vs_first_break = None, vs_last_event_id = ev_event_id (last (ledger_events d))\<rparr>"
proof -
  from c obtain n where n: "0 < n" "n \<le> length (ledger_events d)"
    "last_verified_event_id c = ev_event_id (ledger_events d ! (n - 1))" "cp_sealed_count c = n"
    by (auto simp: checkpoint_ok_def)
  define xs ys where "xs = take n (ledger_events d)" and "ys = drop n (ledger_events d)"
  have d: "ledger_events d = xs @ ys" "xs \<noteq> []" "length xs = n"
    using n by (auto simp: xs_def ys_def)
  have last: "last_verified_event_id c = ev_event_id (last xs)"
    using n d by (metis last_conv_nth nth_append length_greater_0_conv diff_less zero_less_one)
  have sorted: "sorted_wrt (<) (map ev_event_id (xs @ ys))"
    and chain: "event_chain h GENESIS_HASH xs" "event_chain h (chain_head (event_digest h) GENESIS_HASH xs) ys"
    and pos: "0 < ev_event_id (last xs)"
    using ok d by (auto simp: chain_ok_def chained_append)
  have hash: "ev_row_hash (last xs) = Some (chain_head (event_digest h) GENESIS_HASH xs)"
    by (rule chain_head_last [OF chain(1) d(2)])
  have "sorted_wrt (<) (map ev_event_id ys)" using sorted by (simp add: sorted_wrt_append)
  then have ys: "sort_key ev_event_id ys = ys"
    by (intro sort_key_id_if_sorted) (simp add: strict_sorted_iff)
  have ng: "chain_head (event_digest h) GENESIS_HASH xs \<noteq> GENESIS_HASH"
    using chained_hashes [OF ok(2) chain(1), of "last xs"] hash d(2) by (metis last_in_set option.inject)
  have sel: "filter (\<lambda>e. ev_event_id (last xs) < ev_event_id e) (ledger_events d) = ys"
    "row_where (\<lambda>e. ev_event_id e = ev_event_id (last xs)) (ledger_events d) = Some (last xs)"
    unfolding d(1) by (rule filter_after [OF sorted d(2)])+
  have "verify_ledger_rows h d (last_verified_event_id c) (cp_sealed_count c)
      = verify_loop h ys (Some (chain_head (event_digest h) GENESIS_HASH xs))
          (Some (chain_head (event_digest h) GENESIS_HASH xs)) n 0 (ev_event_id (last xs))"
    using pos hash ng n(4) by (simp add: verify_ledger_rows_def last sel ys Let_def)
  then show ?thesis
    using d by (simp add: verify_loop_chained [OF chain(2)] chain_head_append)
qed

lemma sample_digest_ok: "digest_ok sample_host"
  by (simp add: digest_ok_def sample_host_def GENESIS_HASH_def numeral_eq_Suc)

lemma empty_chain_ok: "chain_ok h empty_db"
  by (simp add: chain_ok_def empty_db_def)

lemma verify_incremental_ok:
  assumes ok: "chain_ok h d" "digest_ok h" and ne: "ledger_events d \<noteq> []"
    and cp: "\<forall>c. verify_checkpoints d = Some c \<longrightarrow> checkpoint_ok h d c"
  defines "head \<equiv> chain_head (event_digest h) GENESIS_HASH (ledger_events d)"
  shows "\<exists>inc. snd (verify_ledger_chain h True d s)
    = \<lparr>vr_valid = True, vr_sealed_count = length (ledger_events d), vr_unsealed_count = 0,
       vr_total_events = length (ledger_events d), vr_head_hash = Some head, vr_first_break = None,
       vr_incremental = inc\<rparr>"
    and "fst (verify_ledger_chain h True d s) = s
       \<or> fst (verify_ledger_chain h True d s) = persist_checkpoint
           \<lparr>last_verified_event_id = ev_event_id (last (ledger_events d)), verified_head_hash = head,
            cp_sealed_count = length (ledger_events d), cp_total_events = length (ledger_events d)\<rparr> s"
proof -
  have chain: "event_chain h GENESIS_HASH (ledger_events d)" and hash: "has_row_hash d"
    using ok(1) by (auto simp: chain_ok_def)
  have head_ne: "head \<noteq> []"
    unfolding head_def by (rule chain_head_nonempty [OF ok(2)]) simp
  have hh: "head_hash d = Some head"
    using head_hash_chain [OF ok] ne by (simp add: head_def)
  have full: "verify_ledger_rows h d 0 0
      = \<lparr>vs_valid = True, vs_sealed_count = length (ledger_events d), vs_unsealed_count = 0,
         vs_head_hash = Some head, vs_first_break = None,
         vs_last_event_id = ev_event_id (last (ledger_events d))\<rparr>"
    using ne by (simp add: verify_full_rows sort_events [OF ok(1)] verify_loop_chained [OF chain] head_def)
  have cpc: "checkpoint_of \<lparr>vs_valid = True, vs_sealed_count = length (ledger_events d),
         vs_unsealed_count = 0, vs_head_hash = Some head, vs_first_break = None,
         vs_last_event_id = ev_event_id (last (ledger_events d))\<rparr> (length (ledger_events d))
      = \<lparr>last_verified_event_id = ev_event_id (last (ledger_events d)), verified_head_hash = head,
         cp_sealed_count = length (ledger_events d), cp_total_events = length (ledger_events d)\<rparr>"
    using head_ne by (simp add: checkpoint_of_def str_or_def)
  have tl: "tail_verified \<lparr>vs_valid = True, vs_sealed_count = length (ledger_events d),
         vs_unsealed_count = 0, vs_head_hash = Some head, vs_first_break = None,
         vs_last_event_id = ev_event_id (last (ledger_events d))\<rparr>"
    using head_ne by (simp add: tail_verified_def truthy_def)
  show "\<exists>inc. snd (verify_ledger_chain h True d s)
    = \<lparr>vr_valid = True, vr_sealed_count = length (ledger_events d), vr_unsealed_count = 0,
       vr_total_events = length (ledger_events d), vr_head_hash = Some head, vr_first_break = None,
       vr_incremental = inc\<rparr>"
    using hash ne hh head_ne tl cp verify_tail [OF ok]
    by (auto simp: verify_ledger_chain_def count_events_def verify_full_def full load_checkpoint_def
        Let_def checkpoint_is_current_def head_def split: option.split)
  show "fst (verify_ledger_chain h True d s) = s
       \<or> fst (verify_ledger_chain h True d s) = persist_checkpoint
           \<lparr>last_verified_event_id = ev_event_id (last (ledger_events d)), verified_head_hash = head,
            cp_sealed_count = length (ledger_events d), cp_total_events = length (ledger_events d)\<rparr> s"
    using hash ne hh head_ne tl cp verify_tail [OF ok] cpc
    by (auto simp: verify_ledger_chain_def count_events_def verify_full_def full load_checkpoint_def
        Let_def checkpoint_is_current_def head_def split: option.split)
qed

section \<open>Properties\<close>

text \<open>C32: a full verification accepts exactly the tables whose rows, in id order, form one hash
  chain from the genesis hash, and then it reports every row as sealed and the hash of the last
  row as the head.\<close>

theorem verify_ledger_chain_decides:
  "(vr_valid (snd (verify_ledger_chain h False d s)) \<longleftrightarrow>
      has_row_hash d \<and> chained (event_digest h) ev_prev_hash ev_row_hash GENESIS_HASH
        (sort_key ev_event_id (ledger_events d)))
   \<and> (\<not> vr_valid (snd (verify_ledger_chain h False d s))
      \<or> vr_sealed_count (snd (verify_ledger_chain h False d s)) = length (ledger_events d)
        \<and> vr_head_hash (snd (verify_ledger_chain h False d s))
            = (if ledger_events d = [] then None
               else ev_row_hash (last (sort_key ev_event_id (ledger_events d)))))"
proof (cases "vr_valid (snd (verify_ledger_chain h False d s))")
  case True
  let ?rows = "sort_key ev_event_id (ledger_events d)"
  have "?rows \<noteq> []" if "ledger_events d \<noteq> []"
    using that by (metis length_0_conv length_sort)
  then have "ev_row_hash (last ?rows) = Some (chain_head (event_digest h) GENESIS_HASH ?rows)"
    if "ledger_events d \<noteq> []"
    using that True chain_head_last [of _ _ _ GENESIS_HASH ?rows] verify_nonincremental_valid by blast
  then show ?thesis
    using True verify_nonincremental_result [OF True] verify_nonincremental_valid by auto
next
  case False
  then show ?thesis using verify_nonincremental_valid by blast
qed

text \<open>A table with one appended event, for the instances below.\<close>

definition one_event_db :: db where
  "one_event_db = add_sealed_event sample_host 1000 ''op-1'' ''alice'' ''HOLD'' (- 5) [] empty_db"

lemma one_event_chain_ok: "chain_ok sample_host one_event_db"
  unfolding one_event_db_def by (intro add_sealed_event_chain empty_chain_ok sample_digest_ok)

lemma one_event_fields [simp]:
  "length (ledger_events one_event_db) = 1" "ledger_events one_event_db \<noteq> []"
  "verify_checkpoints one_event_db = None" "has_checkpoint_table one_event_db"
  by (simp_all add: one_event_db_def add_sealed_event_def empty_db_def)

lemma one_event_valid: "vr_valid (snd (verify_ledger_chain sample_host False one_event_db s))"
  using one_event_chain_ok sort_events [OF one_event_chain_ok]
  by (simp add: verify_nonincremental_valid chain_ok_def)

theorem verify_ledger_chain_decides_witness:
  "vr_valid (snd (verify_ledger_chain sample_host False one_event_db (idle_sys one_event_db)))
   \<and> vr_sealed_count (snd (verify_ledger_chain sample_host False one_event_db (idle_sys one_event_db))) = 1"
  using verify_ledger_chain_decides [of sample_host one_event_db "idle_sys one_event_db"]
    one_event_valid by simp



text \<open>Appending. On a well-formed table \<open>append_sealed_ledger_event\<close> returns, adds exactly one
  row with the given key, user, type, amount and metadata, sealed onto the previous head, changes no
  other row, and leaves a table that a full verification accepts.\<close>

theorem append_sealed_extends_chain:
  assumes "chain_ok h (db s)" "digest_ok h"
  shows "\<exists>t e. append_sealed_ledger_event h k u ty a m s = (t, Inr ())
    \<and> ledger_events (db t) = ledger_events (db s) @ [e]
    \<and> ev_idempotency_key e = k \<and> ev_user_id e = u \<and> ev_event_type e = ty \<and> ev_amount_delta e = a
    \<and> ev_metadata e = m \<and> ev_prev_hash e = Some (str_or (head_hash (db s)) GENESIS_HASH)
    \<and> chain_ok h (db t) \<and> vr_valid (snd (verify_ledger_chain h False (db t) t))"
proof -
  let ?t = "increment ''ledger_event_sealed_total'' (on_db (add_sealed_event h (clock s) k u ty a m) s)"
  let ?e = "sealed_event h (clock s) k u ty a m (db s)"
  have "chain_ok h (db ?t)" using add_sealed_event_chain [OF assms] by simp
  moreover from this have "vr_valid (snd (verify_ledger_chain h False (db ?t) ?t))"
    using sort_events [of h "db ?t"] by (simp add: verify_nonincremental_valid chain_ok_def)
  moreover have "ev_prev_hash ?e = Some (str_or (head_hash (db s)) GENESIS_HASH)"
    using head_hash_chain [OF assms] chain_head_nonempty [OF assms(2), of GENESIS_HASH "ledger_events (db s)"]
    by (auto simp: sealed_event_def Let_def str_or_def)
  moreover have "ledger_events (db ?t) = ledger_events (db s) @ [?e]"
    by (simp add: add_sealed_event_def)
  moreover have "ev_idempotency_key ?e = k" "ev_user_id ?e = u" "ev_event_type ?e = ty"
    "ev_amount_delta ?e = a" "ev_metadata ?e = m"
    by (simp_all add: sealed_event_def Let_def)
  ultimately show ?thesis using append_sealed_run [OF assms] by blast
qed

theorem append_sealed_extends_chain_witness:
  "\<exists>t e. append_sealed_ledger_event sample_host ''op-1'' ''alice'' ''SETTLE'' 3 [] (idle_sys one_event_db) = (t, Inr ())
    \<and> ledger_events (db t) = ledger_events one_event_db @ [e] \<and> ev_amount_delta e = 3"
  using append_sealed_extends_chain [of sample_host "idle_sys one_event_db"] one_event_chain_ok
    sample_digest_ok by fastforce

text \<open>Incremental verification. On a well-formed table whose stored checkpoint was written by an
  earlier verification of it, the incremental verification accepts and reports the same counts and
  head as a full one, whatever path it takes, and the checkpoint it leaves is again one of this
  table, also after further events were appended.\<close>

theorem incremental_verify_agrees:
  assumes "chain_ok h d" "digest_ok h" "ledger_events d \<noteq> []" "db s = d"
    and "\<forall>c. verify_checkpoints d = Some c \<longrightarrow> checkpoint_ok h d c"
  shows "vr_valid (snd (verify_ledger_chain h True d s))
    \<and> vr_sealed_count (snd (verify_ledger_chain h True d s))
       = vr_sealed_count (snd (verify_ledger_chain h False d s))
    \<and> vr_head_hash (snd (verify_ledger_chain h True d s))
       = vr_head_hash (snd (verify_ledger_chain h False d s))
    \<and> (\<forall>c. verify_checkpoints (db (fst (verify_ledger_chain h True d s))) = Some c
       \<longrightarrow> checkpoint_ok h d c \<and> checkpoint_ok h (add_sealed_event h now k u ty a m d) c)"
proof -
  have v: "vr_valid (snd (verify_ledger_chain h False d s))"
    using assms(1) sort_events [OF assms(1)] by (simp add: verify_nonincremental_valid chain_ok_def)
  obtain inc where r: "snd (verify_ledger_chain h True d s)
    = \<lparr>vr_valid = True, vr_sealed_count = length (ledger_events d), vr_unsealed_count = 0,
       vr_total_events = length (ledger_events d),
       vr_head_hash = Some (chain_head (event_digest h) GENESIS_HASH (ledger_events d)),
       vr_first_break = None, vr_incremental = inc\<rparr>"
    using verify_incremental_ok(1) [OF assms(1-3,5)] by blast
  have "checkpoint_ok h d c"
    if "verify_checkpoints (db (fst (verify_ledger_chain h True d s))) = Some c" for c
    using that verify_incremental_ok(2) [OF assms(1-3,5), of s] assms(3-5)
    by (auto simp: persist_checkpoint_def save_checkpoint_def checkpoint_ok_def last_conv_nth
        split: if_splits)
  then show ?thesis
    using r verify_nonincremental_result [OF v] assms(3) sort_events [OF assms(1)] checkpoint_ok_append
    by simp
qed

theorem incremental_verify_agrees_witness:
  "vr_valid (snd (verify_ledger_chain sample_host True one_event_db (idle_sys one_event_db)))"
  using incremental_verify_agrees [OF one_event_chain_ok sample_digest_ok, of "idle_sys one_event_db"]
  by simp

text \<open>The table with the amount of one event rewritten in place, its hash columns untouched.\<close>

definition rewrite_amount :: "int \<Rightarrow> money \<Rightarrow> db \<Rightarrow> db" where
  "rewrite_amount i a d =
     d\<lparr>ledger_events := update_where (\<lambda>e. ev_event_id e = i) (\<lambda>e. e\<lparr>ev_amount_delta := a\<rparr>) (ledger_events d)\<rparr>"

lemma rewrite_amount_ids [simp]:
  "map ev_event_id (ledger_events (rewrite_amount i a d)) = map ev_event_id (ledger_events d)"
  "map ev_row_hash (ledger_events (rewrite_amount i a d)) = map ev_row_hash (ledger_events d)"
  "length (ledger_events (rewrite_amount i a d)) = length (ledger_events d)"
  "ledger_events (rewrite_amount i a d) = [] \<longleftrightarrow> ledger_events d = []"
  by (simp_all add: rewrite_amount_def map_update_where update_where_def)

lemma rewrite_amount_fields [simp]:
  "has_row_hash (rewrite_amount i a d) = has_row_hash d"
  "has_checkpoint_table (rewrite_amount i a d) = has_checkpoint_table d"
  "verify_checkpoints (rewrite_amount i a d) = verify_checkpoints d"
  by (simp_all add: rewrite_amount_def)

lemma last_row_hash:
  assumes "map ev_row_hash xs = map ev_row_hash ys" "ys \<noteq> []"
  shows "ev_row_hash (last xs) = ev_row_hash (last ys)"
  using assms by (metis last_map list.map_disc_iff)

lemma head_hash_rewrite:
  assumes "chain_ok h d"
  shows "head_hash (rewrite_amount i a d) = head_hash d"
proof -
  define q where "q = (\<lambda>x. x \<noteq> None \<and> x \<noteq> Some GENESIS_HASH)"
  define xs ys where "xs = filter (\<lambda>e. q (ev_row_hash e)) (ledger_events (rewrite_amount i a d))"
    and "ys = filter (\<lambda>e. q (ev_row_hash e)) (ledger_events d)"
  have s: "sorted_wrt (<) (map ev_event_id (ledger_events d))"
    using assms by (simp add: chain_ok_def)
  have eq: "map ev_row_hash (filter (\<lambda>e. q (ev_row_hash e)) zs) = filter q (map ev_row_hash zs)" for zs
    by (induction zs) auto
  have m: "map ev_row_hash xs = map ev_row_hash ys"
    unfolding xs_def ys_def by (simp only: eq rewrite_amount_ids)
  then have ne: "xs = [] \<longleftrightarrow> ys = []" by (metis map_is_Nil_conv)
  have l: "latest (\<lambda>e. q (ev_row_hash e)) (ledger_events (rewrite_amount i a d))
        = (if xs = [] then None else Some (last xs))"
    "latest (\<lambda>e. q (ev_row_hash e)) (ledger_events d) = (if ys = [] then None else Some (last ys))"
    unfolding xs_def ys_def by (rule latest_ordered, simp add: s)+
  have hd: "head_hash x = (if \<not> has_row_hash x then None
      else case latest (\<lambda>e. q (ev_row_hash e)) (ledger_events x) of None \<Rightarrow> None | Some e \<Rightarrow> ev_row_hash e)" for x
    by (simp add: head_hash_def q_def)
  show ?thesis
  proof (cases "ys = []")
    case True
    then show ?thesis using ne by (simp add: hd l)
  next
    case False
    then show ?thesis using ne last_row_hash [OF m False] by (simp add: hd l)
  qed
qed

text \<open>The incremental verification that the admin endpoint, the regulatory pack and the
  anchor run does not see a rewritten row at or before its checkpoint: once a checkpoint covers
  the table, rewriting the amount of any event in place leaves its verdict unchanged, while a
  full verification of the rewritten table rejects it unless two row payloads collide.\<close>

theorem incremental_verify_misses_rewrite:
  assumes "chain_ok h d" "digest_ok h" "has_checkpoint_table d" "verify_checkpoints d = Some c"
    and "checkpoint_ok h d c" "cp_total_events c = length (ledger_events d)"
    and "e \<in> set (ledger_events d)" "ev_amount_delta e \<noteq> a"
  shows "vr_valid (snd (verify_ledger_chain h True (rewrite_amount (ev_event_id e) a d) s))
    \<and> (\<not> vr_valid (snd (verify_ledger_chain h False (rewrite_amount (ev_event_id e) a d) s))
       \<or> collision (sha256_hexdigest h)
          (chain_payloads event_payload (event_digest h) GENESIS_HASH (ledger_events d))
          (chain_payloads event_payload (event_digest h) GENESIS_HASH
             (ledger_events (rewrite_amount (ev_event_id e) a d))))"
proof -
  let ?d = "rewrite_amount (ev_event_id e) a d"
  let ?rows = "ledger_events d" and ?rows' = "ledger_events ?d"
  let ?col = "collision (sha256_hexdigest h)
          (chain_payloads event_payload (event_digest h) GENESIS_HASH ?rows)
          (chain_payloads event_payload (event_digest h) GENESIS_HASH ?rows')"
  have ne: "?rows \<noteq> []" using assms(7) by auto
  have hh: "head_hash ?d = Some (chain_head (event_digest h) GENESIS_HASH ?rows)"
    using head_hash_rewrite [OF assms(1)] head_hash_chain [OF assms(1,2)] ne by simp
  have cp: "verified_head_hash c = chain_head (event_digest h) GENESIS_HASH ?rows"
    "cp_sealed_count c = length ?rows"
    using assms(5,6) by (auto simp: checkpoint_ok_def)
  have "vr_valid (snd (verify_ledger_chain h True ?d s))"
    using assms(1,3,4,6) hh cp ne chain_head_nonempty [OF assms(2), of GENESIS_HASH ?rows]
    by (simp add: verify_ledger_chain_def load_checkpoint_def checkpoint_is_current_def count_events_def
        chain_ok_def)
  moreover have ?col if "vr_valid (snd (verify_ledger_chain h False ?d s))"
  proof -
    have srt: "sort_key ev_event_id ?rows' = ?rows'"
      by (rule sort_key_id_if_sorted) (use assms(1) in \<open>simp add: chain_ok_def strict_sorted_iff\<close>)
    have chain: "event_chain h GENESIS_HASH ?rows'" "event_chain h GENESIS_HASH ?rows"
      using that assms(1) by (simp_all add: verify_nonincremental_valid srt chain_ok_def)
    have "chain_head (event_digest h) GENESIS_HASH ?rows' = chain_head (event_digest h) GENESIS_HASH ?rows"
      using chain_head_last [OF chain(1)] chain_head_last [OF chain(2) ne] ne
        last_row_hash [of ?rows' ?rows] by simp
    moreover have dig: "event_digest h = (\<lambda>e g. sha256_hexdigest h (event_payload e g))"
      by (simp add: event_digest_payload fun_eq_iff)
    moreover have "map event_content ?rows \<noteq> map event_content ?rows'"
    proof
      assume "map event_content ?rows = map event_content ?rows'"
      from arg_cong [OF this, of "map (\<lambda>c. fst (snd (snd (snd (snd c)))))"]
      have "map ev_amount_delta ?rows
          = map (\<lambda>x. if ev_event_id x = ev_event_id e then a else ev_amount_delta x) ?rows"
        by (simp add: event_content_def rewrite_amount_def update_where_def if_distrib cong: if_cong)
      then have "\<forall>x \<in> set ?rows. ev_amount_delta x
          = (if ev_event_id x = ev_event_id e then a else ev_amount_delta x)"
        by (simp only: map_eq_conv)
      from bspec [OF this assms(7)] have "ev_amount_delta e = a" by (simp only: if_True simp_thms)
      with assms(8) show False by simp
    qed
    ultimately show ?thesis
      using lc.head_determines [of ?rows ?rows' h GENESIS_HASH GENESIS_HASH] by simp
  qed
  ultimately show ?thesis by blast
qed

definition checkpointed_db :: db where
  "checkpointed_db =
     one_event_db\<lparr>verify_checkpoints := Some
       \<lparr>last_verified_event_id = 1,
        verified_head_hash = chain_head (event_digest sample_host) GENESIS_HASH (ledger_events one_event_db),
        cp_sealed_count = 1, cp_total_events = 1\<rparr>\<rparr>"

theorem incremental_verify_misses_rewrite_witness:
  "vr_valid (snd (verify_ledger_chain sample_host True
     (rewrite_amount 1 7 checkpointed_db) (idle_sys checkpointed_db)))"
proof -
  let ?e = "hd (ledger_events one_event_db)"
  let ?c = "\<lparr>last_verified_event_id = 1,
        verified_head_hash = chain_head (event_digest sample_host) GENESIS_HASH (ledger_events one_event_db),
        cp_sealed_count = 1, cp_total_events = 1\<rparr>"
  have e: "ledger_events one_event_db = [?e]" "ev_event_id ?e = 1" "ev_amount_delta ?e = - 5"
    by (simp_all add: one_event_db_def add_sealed_event_def empty_db_def sealed_event_def Let_def)
  have "chain_ok sample_host checkpointed_db"
    using one_event_chain_ok by (simp add: checkpointed_db_def chain_ok_def)
  moreover have "checkpoint_ok sample_host checkpointed_db ?c"
    unfolding checkpoint_ok_def checkpointed_db_def using e by (intro exI [of _ 1]) (simp add: hd_conv_nth)
  ultimately show ?thesis
    using incremental_verify_misses_rewrite [of sample_host checkpointed_db ?c ?e 7 "idle_sys checkpointed_db"]
      sample_digest_ok e by (simp add: checkpointed_db_def)
qed

end
