(* ===== verification/Attribution.thy ===== *)
theory Attribution
  imports Samples
begin

text \<open>
  \<^verbatim>\<open>sidecar/app/attribution.py\<close>: execution identities, the manual approval gate, the
  spending scopes (run, session, user, tenant), the agent loop guardrail, incidents and
  lineage. The dialect branches of the source insert the same rows; metadata objects are
  stored as they are (\<open>json.dumps\<close> followed by \<open>jsonb\<close>).
\<close>

section \<open>Identities\<close>

definition default_identity :: identity where
  "default_identity =
     \<lparr>id_tenant_id = ''default-tenant'', id_session_id = ''default-session'',
      id_agent_run_id = ''default-agent-run'', id_workflow_step = ''default-workflow-step''\<rparr>"

definition identity_from_reserve :: "reserve_request \<Rightarrow> identity" where
  "identity_from_reserve r =
     \<lparr>id_tenant_id = str_or (rq_tenant_id r) (id_tenant_id default_identity),
      id_session_id = str_or (rq_session_id r) (id_session_id default_identity),
      id_agent_run_id = str_or (rq_agent_run_id r) (id_agent_run_id default_identity),
      id_workflow_step = str_or (rq_workflow_step r) (id_workflow_step default_identity)\<rparr>"

definition identity_from_operation :: "escrow \<Rightarrow> identity" where
  "identity_from_operation p =
     \<lparr>id_tenant_id = str_or (Some (e_tenant_id p)) (id_tenant_id default_identity),
      id_session_id = str_or (Some (e_session_id p)) (id_session_id default_identity),
      id_agent_run_id = str_or (Some (e_agent_run_id p)) (id_agent_run_id default_identity),
      id_workflow_step = str_or (Some (e_workflow_step p)) (id_workflow_step default_identity)\<rparr>"

definition identity_mismatch :: "string option \<Rightarrow> string \<Rightarrow> bool" where
  "identity_mismatch incoming stored =
     (truthy incoming \<and> stored \<noteq> [] \<and> incoming \<noteq> Some stored)"

fun validate_identity_checks :: "(string \<times> string option \<times> string) list \<Rightarrow> unit handler" where
  "validate_identity_checks [] = ret ()"
| "validate_identity_checks ((field, incoming, stored) # checks) =
     (if identity_mismatch incoming stored
      then seqE (modifyE (increment ''attribution_identity_mismatch_total''))
             (throw (AttributionPolicyError (field @ '' does not match reserved operation identity'')))
      else validate_identity_checks checks)"

definition validate_settlement_identity :: "escrow \<Rightarrow> settle_request \<Rightarrow> unit handler" where
  "validate_settlement_identity p r =
     validate_identity_checks
       [(''tenant_id'', st_tenant_id r, e_tenant_id p),
        (''session_id'', st_session_id r, e_session_id p),
        (''agent_run_id'', st_agent_run_id r, e_agent_run_id p),
        (''workflow_step'', st_workflow_step r, e_workflow_step p)]"

section \<open>Incidents and lineage\<close>

definition append_guardrail_incident ::
  "string \<Rightarrow> string option \<Rightarrow> string option \<Rightarrow> identity \<Rightarrow> jobject \<Rightarrow> int \<Rightarrow> db \<Rightarrow> db" where
  "append_guardrail_incident incident_type idempotency_key user_id ident details now d =
     d\<lparr>guardrail_incidents := guardrail_incidents d @
        [\<lparr>i_idempotency_key = idempotency_key, i_user_id = user_id, i_identity = ident,
          i_incident_type = incident_type, i_details = details, i_recorded_at = now\<rparr>]\<rparr>"

text \<open>\<open>record_lineage\<close>; a reserve request has none of the optional attributes.\<close>

definition record_lineage ::
  "string \<Rightarrow> identity \<Rightarrow> string \<Rightarrow> string \<Rightarrow> settle_request option \<Rightarrow> string option \<Rightarrow> jobject
     \<Rightarrow> int \<Rightarrow> db \<Rightarrow> db" where
  "record_lineage idempotency_key ident user_id event_type request provider_request_id state_snapshot now d =
     d\<lparr>execution_lineage := execution_lineage d @
        [\<lparr>n_idempotency_key = idempotency_key, n_identity = ident, n_user_id = user_id,
          n_event_type = event_type,
          n_prompt_template_version = Option.bind request st_prompt_template_version,
          n_system_context_hash = Option.bind request st_system_context_hash,
          n_tool_name = Option.bind request st_tool_name,
          n_tool_input = Option.bind request st_tool_input,
          n_raw_tool_output = Option.bind request st_raw_tool_output,
          n_provider_request_id = provider_request_id, n_state_snapshot = state_snapshot,
          n_recorded_at = now\<rparr>]\<rparr>"

definition json_of_opt :: "string option \<Rightarrow> json" where
  "json_of_opt x = (case x of None \<Rightarrow> JNull | Some v \<Rightarrow> JStr v)"

section \<open>Manual approval\<close>

definition needs_approval :: "settings \<Rightarrow> reserve_request \<Rightarrow> bool" where
  "needs_approval cfg r =
     (rq_requires_manual_approval r
      \<or> quantize_money (Some (manual_approval_cost_threshold cfg)) < quantize_money (Some (rq_estimated_cost r)))"

definition approval_incident :: "reserve_request \<Rightarrow> identity \<Rightarrow> int \<Rightarrow> db \<Rightarrow> db" where
  "approval_incident r ident now =
     append_guardrail_incident ''APPROVAL_REQUIRED'' (Some (rq_idempotency_key r)) (Some (rq_user_id r)) ident
       [(''reason'', JStr (if rq_requires_manual_approval r then ''manual_approval_missing''
                           else ''cost_threshold_exceeded'')),
        (''estimated_cost'', JStr (decimal_str (quantize_money (Some (rq_estimated_cost r))))),
        (''high_cost_tool'', json_of_opt (rq_high_cost_tool r))] now"

definition enforce_manual_approval ::
  "settings \<Rightarrow> reserve_request \<Rightarrow> identity \<Rightarrow> int \<Rightarrow> unit handler" where
  "enforce_manual_approval cfg r ident now =
     (if \<not> needs_approval cfg r then ret ()
      else if truthy (rq_manual_approval_id r) then ret ()
      else stepsE
        [modifyE (on_db (approval_incident r ident now)),
         modifyE (increment ''guardrail_approval_required_total''),
         modifyE commit,
         throw (AttributionPolicyError ''manual approval is required for this operation'')])"

section \<open>Budget scopes\<close>

record caps =
  cap_run :: money
  cap_session :: money
  cap_user :: money
  cap_tenant :: money

definition budget_caps :: "reserve_request \<Rightarrow> settings \<Rightarrow> caps" where
  "budget_caps r cfg =
     \<lparr>cap_run = quantize_money (Some (decimal_or (rq_run_budget r) (default_run_budget_amount cfg))),
      cap_session = quantize_money (Some (decimal_or (rq_session_budget r) (default_session_budget_amount cfg))),
      cap_user = quantize_money (Some (decimal_or (rq_user_budget r) (default_user_budget_amount cfg))),
      cap_tenant = quantize_money (Some (decimal_or (rq_tenant_budget r) (default_tenant_budget_amount cfg)))\<rparr>"

definition budget_caps_from_operation :: "escrow \<Rightarrow> settings \<Rightarrow> caps" where
  "budget_caps_from_operation p cfg =
     \<lparr>cap_run = quantize_money (Some (default_run_budget_amount cfg)),
      cap_session = quantize_money (Some (default_session_budget_amount cfg)),
      cap_user = quantize_money (Some (default_user_budget_amount cfg)),
      cap_tenant = quantize_money (Some (default_tenant_budget_amount cfg))\<rparr>"

abbreviation scope_is :: "string \<Rightarrow> string \<Rightarrow> budget_scope \<Rightarrow> bool" where
  "scope_is ty k b \<equiv> (b_scope_type b, b_scope_key b) = (ty, k)"

definition ensure_scope :: "string \<Rightarrow> string \<Rightarrow> money \<Rightarrow> int \<Rightarrow> db \<Rightarrow> db" where
  "ensure_scope ty k cap now d =
     (if row_where (scope_is ty k) (budget_scope_state d) = None
      then d\<lparr>budget_scope_state := budget_scope_state d @
             [\<lparr>b_scope_type = ty, b_scope_key = k, b_cap_amount = cap, b_consumed_amount = 0,
               b_updated_at = now\<rparr>]\<rparr>
      else d)"

definition consume_scope :: "string \<Rightarrow> string \<Rightarrow> money \<Rightarrow> int \<Rightarrow> db \<Rightarrow> db" where
  "consume_scope ty k delta now d =
     d\<lparr>budget_scope_state := update_where (scope_is ty k)
         (\<lambda>b. b\<lparr>b_consumed_amount := b_consumed_amount b + delta, b_updated_at := now\<rparr>)
         (budget_scope_state d)\<rparr>"

definition apply_budget_delta :: "string \<Rightarrow> string \<Rightarrow> money \<Rightarrow> money \<Rightarrow> int \<Rightarrow> unit handler" where
  "apply_budget_delta ty k cap delta now =
     stepsE
       [modifyE (on_db (ensure_scope ty k cap now)),
        getsE (\<lambda>s. row_where (scope_is ty k) (budget_scope_state (db s))) (\<lambda>row.
          case row of
            Some b \<Rightarrow>
              (if b_consumed_amount b + delta \<le> b_cap_amount b
               then modifyE (on_db (consume_scope ty k delta now))
               else seqE (modifyE (increment ''budget_scope_exceeded_total''))
                      (throw (BudgetScopeExceededError (ty @ '' budget scope exceeded''))))
          | None \<Rightarrow> seqE (modifyE (increment ''budget_scope_exceeded_total''))
                      (throw (BudgetScopeExceededError (ty @ '' budget scope exceeded''))))]"

fun apply_scopes :: "(string \<times> string \<times> money) list \<Rightarrow> money \<Rightarrow> int \<Rightarrow> unit handler" where
  "apply_scopes [] delta now = ret ()"
| "apply_scopes ((ty, k, cap) # scopes) delta now =
     seqE (apply_budget_delta ty k cap delta now) (apply_scopes scopes delta now)"

definition reserve_scopes :: "settings \<Rightarrow> reserve_request \<Rightarrow> identity \<Rightarrow> (string \<times> string \<times> money) list" where
  "reserve_scopes cfg r ident =
     (let c = budget_caps r cfg
      in [(''run'', id_agent_run_id ident, cap_run c),
          (''session'', id_session_id ident, cap_session c),
          (''user'', rq_user_id r, cap_user c),
          (''tenant'', id_tenant_id ident, cap_tenant c)])"

definition apply_reserve_budget_scopes ::
  "settings \<Rightarrow> reserve_request \<Rightarrow> identity \<Rightarrow> money \<Rightarrow> int \<Rightarrow> unit handler" where
  "apply_reserve_budget_scopes cfg r ident reserved_amount now =
     apply_scopes (reserve_scopes cfg r ident) reserved_amount now"

definition settlement_scopes :: "settings \<Rightarrow> escrow \<Rightarrow> (string \<times> string \<times> money) list" where
  "settlement_scopes cfg p =
     (let c = budget_caps_from_operation p cfg
      in [(''run'', e_agent_run_id p, cap_run c),
          (''session'', e_session_id p, cap_session c),
          (''user'', e_user_id p, cap_user c),
          (''tenant'', e_tenant_id p, cap_tenant c)])"

definition apply_settlement_budget_scopes ::
  "settings \<Rightarrow> escrow \<Rightarrow> money \<Rightarrow> int \<Rightarrow> unit handler" where
  "apply_settlement_budget_scopes cfg p budget_delta now =
     (if budget_delta = 0 then ret ()
      else apply_scopes (settlement_scopes cfg p) budget_delta now)"

section \<open>Loop guardrail\<close>

definition loop_scope_key :: "escrow \<Rightarrow> string \<Rightarrow> string" where
  "loop_scope_key p signature = e_agent_run_id p @ '':'' @ e_workflow_step p @ '':'' @ signature"

definition bump_loop :: "string \<Rightarrow> int \<Rightarrow> db \<Rightarrow> db" where
  "bump_loop k now d =
     d\<lparr>execution_loop_state := update_where (\<lambda>l. l_scope_key l = k)
         (\<lambda>l. l\<lparr>l_consecutive_count := l_consecutive_count l + 1, l_updated_at := now\<rparr>)
         (execution_loop_state d)\<rparr>"

definition insert_loop :: "string \<Rightarrow> string \<Rightarrow> int \<Rightarrow> db \<Rightarrow> db" where
  "insert_loop k signature now d =
     d\<lparr>execution_loop_state := execution_loop_state d @
         [\<lparr>l_scope_key = k, l_last_signature = signature, l_consecutive_count = 1, l_updated_at = now\<rparr>]\<rparr>"

definition loop_row :: "escrow \<Rightarrow> string \<Rightarrow> db \<Rightarrow> loop_state option" where
  "loop_row p signature d =
     row_where (\<lambda>l. l_scope_key l = loop_scope_key p signature) (execution_loop_state d)"

definition loop_incident :: "escrow \<Rightarrow> string \<Rightarrow> loop_state \<Rightarrow> int \<Rightarrow> db \<Rightarrow> db" where
  "loop_incident p signature l now =
     append_guardrail_incident ''AGENT_LOOP_DETECTED'' (Some (e_idempotency_key p)) (Some (e_user_id p))
       (identity_from_operation p)
       [(''loop_signature'', JStr signature), (''consecutive_count'', JInt (l_consecutive_count l))] now"

definition enforce_loop_guardrail ::
  "escrow \<Rightarrow> settle_request \<Rightarrow> settings \<Rightarrow> int \<Rightarrow> unit handler" where
  "enforce_loop_guardrail p r cfg now =
     (case st_loop_signature r of
        None \<Rightarrow> ret ()
      | Some signature \<Rightarrow>
          if signature = [] then ret ()
          else getsE (\<lambda>s. loop_row p signature (db s)) (\<lambda>row.
            case row of
              None \<Rightarrow> modifyE (on_db (insert_loop (loop_scope_key p signature) signature now))
            | Some l \<Rightarrow>
                (if max_loop_repeats cfg \<le> l_consecutive_count l
                 then stepsE
                   [modifyE (on_db (loop_incident p signature l now)),
                    modifyE (increment ''agent_loop_detected_total''),
                    modifyE commit,
                    throw (AttributionPolicyError ''agent loop guardrail triggered'')]
                 else modifyE (on_db (bump_loop (loop_scope_key p signature) now)))))"

definition schema_supports_attribution :: "db \<Rightarrow> bool" where
  "schema_supports_attribution d = has_tenant_id d"

section \<open>What a scope update does\<close>

text \<open>The consumption of one scope; a scope without a row has consumed nothing.\<close>

definition scope_consumed :: "string \<times> string \<Rightarrow> db \<Rightarrow> money" where
  "scope_consumed k d =
     column_sum (\<lambda>b. if (b_scope_type b, b_scope_key b) = k then b_consumed_amount b else 0)
       (budget_scope_state d)"

text \<open>The rows of \<open>budget_scope_state\<close>: one per scope, each within its cap.\<close>

definition scopes_ok :: "db \<Rightarrow> bool" where
  "scopes_ok d =
     (distinct (map (\<lambda>b. (b_scope_type b, b_scope_key b)) (budget_scope_state d))
      \<and> (\<forall>b \<in> set (budget_scope_state d). b_consumed_amount b \<le> b_cap_amount b))"

interpretation scope_upd: keyed_update "\<lambda>b. (b_scope_type b, b_scope_key b)"
  "\<lambda>b. b\<lparr>b_consumed_amount := b_consumed_amount b + delta, b_updated_at := now\<rparr>" for delta now
  by unfold_locales simp

interpretation loop_upd: keyed_update l_scope_key
  "\<lambda>l. l\<lparr>l_consecutive_count := l_consecutive_count l + 1, l_updated_at := now\<rparr>" for now
  by unfold_locales simp

end
