(* ===== verification/Circuit_Breaker.thy ===== *)
theory Circuit_Breaker
  imports Samples
begin

text \<open>
  \<^verbatim>\<open>sidecar/app/circuit_breaker.py\<close>: the provider circuit breaker, on Redis when it
  answers and on the process-wide \<open>_LOCAL_FALLBACK\<close> otherwise. The flag \<open>_degraded\<close> of an
  instance is an argument and a result of its methods; the cached instance of
  \<open>get_circuit_breaker\<close> keeps it in \<open>breaker_degraded\<close>.
\<close>

section \<open>Redis\<close>

text \<open>One client call: the command is sent, then the reply is returned or the error raised.\<close>

definition redis_call :: "host \<Rightarrow> redis_cmd \<Rightarrow> int handler" where
  "redis_call h c =
     getsE (\<lambda>s. redis_reply h (redis_log s) c) (\<lambda>reply.
       seqE (modifyE (send c)) (case reply of None \<Rightarrow> throw RedisError | Some n \<Rightarrow> ret n))"

section \<open>The local fallback\<close>

definition local_assert_closed :: "string \<Rightarrow> unit handler" where
  "local_assert_closed provider_name =
     getsE (\<lambda>s. (case open_until (breaker s) provider_name of None \<Rightarrow> 0 | Some t \<Rightarrow> t) > monotonic s)
       (\<lambda>is_open. if is_open
          then seqE (modifyE (increment ''provider_circuit_open_total''))
                 (throw (CircuitOpenError (''local circuit open for provider '' @ provider_name)))
          else ret ())"

text \<open>The sliding window after a failure at \<open>now\<close>.\<close>

definition failure_window :: "settings \<Rightarrow> rat \<Rightarrow> rat list \<Rightarrow> rat list" where
  "failure_window cfg now window =
     dropWhile (\<lambda>t. t < now - of_int (circuit_breaker_window_seconds cfg)) (window @ [now])"

definition note_failure :: "settings \<Rightarrow> string \<Rightarrow> sys \<Rightarrow> sys" where
  "note_failure cfg provider_name s =
     s\<lparr>breaker := (breaker s)\<lparr>failures := (failures (breaker s))
         (provider_name := failure_window cfg (monotonic s) (failures (breaker s) provider_name))\<rparr>\<rparr>"

definition open_circuit :: "settings \<Rightarrow> string \<Rightarrow> sys \<Rightarrow> sys" where
  "open_circuit cfg provider_name s =
     s\<lparr>breaker := (breaker s)\<lparr>open_until := (open_until (breaker s))
         (provider_name := Some (monotonic s + of_int (circuit_breaker_open_seconds cfg)))\<rparr>\<rparr>"

definition local_record_failure :: "settings \<Rightarrow> string \<Rightarrow> unit handler" where
  "local_record_failure cfg provider_name =
     stepsE
       [modifyE (note_failure cfg provider_name),
        getsE (\<lambda>s. circuit_breaker_failure_threshold cfg \<le> int (length (failures (breaker s) provider_name)))
          (\<lambda>trip. whenE trip (stepsE
             [modifyE (open_circuit cfg provider_name),
              modifyE (increment ''provider_circuit_open_total''),
              modifyE (increment ''provider_circuit_local_fallback_open_total'')]))]"

definition local_record_success :: "string \<Rightarrow> unit handler" where
  "local_record_success provider_name =
     modifyE (\<lambda>s. s\<lparr>breaker := (breaker s)
       \<lparr>failures := (failures (breaker s))(provider_name := []),
        open_until := (open_until (breaker s))(provider_name := None)\<rparr>\<rparr>)"

section \<open>ProviderCircuitBreaker\<close>

definition breaker_connect :: "host \<Rightarrow> bool handler" where
  "breaker_connect h =
     catchE (seqE (redis_call h PING) (ret False))
       (\<lambda>_. seqE (modifyE (increment ''provider_circuit_local_fallback_total'')) (ret True))"

definition breaker_init :: "host \<Rightarrow> settings \<Rightarrow> bool handler" where
  "breaker_init h cfg = (if circuit_breaker_enabled cfg then breaker_connect h else ret True)"

definition open_key :: "string \<Rightarrow> string" where
  "open_key provider_name = ''mg:circuit:'' @ provider_name @ '':open''"

definition failures_key :: "string \<Rightarrow> string" where
  "failures_key provider_name = ''mg:circuit:'' @ provider_name @ '':failures''"

definition breaker_assert_closed :: "host \<Rightarrow> string \<Rightarrow> bool \<Rightarrow> unit handler" where
  "breaker_assert_closed h provider_name degraded =
     (if degraded then local_assert_closed provider_name
      else catchE
        (bindE (redis_call h (EXISTS (open_key provider_name))) (\<lambda>n.
           if n \<noteq> 0
           then seqE (modifyE (increment ''provider_circuit_open_total''))
                  (throw (CircuitOpenError (''circuit open for provider '' @ provider_name)))
           else ret ()))
        (\<lambda>e. case e of
           CircuitOpenError m \<Rightarrow> throw e
         | _ \<Rightarrow> seqE (modifyE (increment ''provider_circuit_local_fallback_total''))
                  (local_assert_closed provider_name)))"

definition redis_record_failure :: "host \<Rightarrow> settings \<Rightarrow> string \<Rightarrow> unit handler" where
  "redis_record_failure h cfg provider_name =
     bindE (redis_call h (INCR (failures_key provider_name))) (\<lambda>count. stepsE
       [whenE (count = 1)
          (seqE (redis_call h (EXPIRE (failures_key provider_name) (circuit_breaker_window_seconds cfg)))
                (ret ())),
        whenE (circuit_breaker_failure_threshold cfg \<le> count)
          (seqE (redis_call h (SETEX (open_key provider_name) ''1'' (circuit_breaker_open_seconds cfg)))
                (modifyE (increment ''provider_circuit_open_total'')))])"

definition breaker_record_failure :: "host \<Rightarrow> settings \<Rightarrow> string \<Rightarrow> bool \<Rightarrow> bool handler" where
  "breaker_record_failure h cfg provider_name degraded =
     (if degraded then seqE (local_record_failure cfg provider_name) (ret True)
      else catchE
        (seqE (redis_record_failure h cfg provider_name) (ret False))
        (\<lambda>_. seqE (modifyE (increment ''provider_circuit_local_fallback_total''))
                (seqE (local_record_failure cfg provider_name) (ret True))))"

definition breaker_record_success :: "host \<Rightarrow> string \<Rightarrow> bool \<Rightarrow> unit handler" where
  "breaker_record_success h provider_name degraded =
     seqE (local_record_success provider_name)
       (if degraded then ret ()
        else catchE
          (seqE (redis_call h (DEL [failures_key provider_name, open_key provider_name])) (ret ()))
          (\<lambda>_. ret ()))"

text \<open>\<open>get_circuit_breaker()\<close>: the flag of the cached instance, which the first call constructs.\<close>

definition set_breaker_degraded :: "bool \<Rightarrow> sys \<Rightarrow> sys" where
  "set_breaker_degraded degraded s = s\<lparr>breaker := (breaker s)\<lparr>breaker_degraded := Some degraded\<rparr>\<rparr>"

definition get_circuit_breaker :: "host \<Rightarrow> settings \<Rightarrow> bool handler" where
  "get_circuit_breaker h cfg =
     getsE (\<lambda>s. breaker_degraded (breaker s)) (\<lambda>cached. case cached of
        Some degraded \<Rightarrow> ret degraded
      | None \<Rightarrow> bindE (breaker_init h cfg) (\<lambda>degraded.
          seqE (modifyE (set_breaker_degraded degraded)) (ret degraded)))"

end
