(* ===== verification/Guardrails.thy ===== *)
theory Guardrails
  imports Circuit_Breaker
begin

text \<open>
  \<^verbatim>\<open>sidecar/app/fallback_limiter.py\<close>, \<^verbatim>\<open>sidecar/app/guardrails.py\<close> and
  \<^verbatim>\<open>sidecar/app/diagnostic_mode.py\<close>: the admission limits of a reserve (global token
  bucket, requests per minute, operations per trace, operations in flight), on Redis or
  in the process, and the switch that halts writes. \<open>time.time()\<close> is \<open>clock\<close>,
  \<open>time.monotonic()\<close> is \<open>monotonic\<close>; floats are rationals.
\<close>

section \<open>LocalFallbackLimiter\<close>

definition refill_tokens :: "settings \<Rightarrow> rat \<Rightarrow> limiter \<Rightarrow> limiter" where
  "refill_tokens cfg now l =
     (let elapsed = max 0 (now - last_refill l)
      in if elapsed \<le> 0 then l
         else l\<lparr>tokens := min (fallback_token_bucket_capacity cfg)
                     (tokens l + elapsed * fallback_global_tokens_per_second cfg),
                last_refill := now\<rparr>)"

definition prime_bucket :: "settings \<Rightarrow> limiter \<Rightarrow> limiter" where
  "prime_bucket cfg l =
     (if initialized l then l
      else l\<lparr>tokens := fallback_token_bucket_capacity cfg, initialized := True\<rparr>)"

definition rate_count :: "limiter \<Rightarrow> string \<Rightarrow> int \<Rightarrow> int" where
  "rate_count l user_id window =
     (case rate_windows l user_id of
        None \<Rightarrow> 1
      | Some (w, n) \<Rightarrow> if w \<noteq> window then 1 else n + 1)"

text \<open>
  \<open>LocalFallbackLimiter.check_reserve\<close> as a function of the limiter: the new limiter, the
  counter that is incremented and the error, if any. The set of a trace's operations is
  the list of its members.
\<close>

definition limiter_check ::
  "settings \<Rightarrow> int \<Rightarrow> rat \<Rightarrow> string \<Rightarrow> string \<Rightarrow> string \<Rightarrow> limiter \<Rightarrow> limiter \<times> string \<times> exn option" where
  "limiter_check cfg now tick user_id trace_id idempotency_key l =
     (let l1 = refill_tokens cfg tick (prime_bucket cfg l)
      in if tokens l1 < 1
         then (l1, ''local_fallback_rate_limit_total'',
               Some (RateLimitExceeded ''local fallback global token bucket exhausted''))
         else let window = now div 60;
                  count = rate_count l1 user_id window;
                  l2 = l1\<lparr>rate_windows := (rate_windows l1)(user_id := Some (window, count))\<rparr>
              in if fallback_rate_limit_per_minute cfg < count
                 then (l2, ''local_fallback_rate_limit_total'',
                       Some (RateLimitExceeded (''local fallback rate limit for user '' @ user_id)))
                 else let l3 = l2\<lparr>trace_depth := (trace_depth l2)
                                 (trace_id := List.insert idempotency_key (trace_depth l2 trace_id))\<rparr>
                      in if fallback_max_trace_depth cfg < int (length (trace_depth l3 trace_id))
                         then (l3, ''local_fallback_trace_depth_total'',
                               Some (TraceDepthExceeded (''local fallback trace depth for '' @ trace_id)))
                         else if fallback_max_user_inflight cfg < inflight l3 user_id + 1
                         then (l3, ''local_fallback_inflight_total'',
                               Some (InflightLimitExceeded (''local fallback in-flight limit for user '' @ user_id)))
                         else (l3\<lparr>inflight := (inflight l3)(user_id := inflight l3 user_id + 1),
                                   tokens := tokens l3 - 1\<rparr>,
                               ''local_fallback_reserve_total'', None))"

definition limiter_check_reserve :: "settings \<Rightarrow> string \<Rightarrow> string \<Rightarrow> string \<Rightarrow> unit handler" where
  "limiter_check_reserve cfg user_id trace_id idempotency_key s =
     (case limiter_check cfg (clock s) (monotonic s) user_id trace_id idempotency_key (limiter s) of
        (l, counter, err) \<Rightarrow>
          (increment counter (s\<lparr>limiter := l\<rparr>),
           case err of None \<Rightarrow> Inr () | Some e \<Rightarrow> Inl e))"

definition limiter_release :: "string \<Rightarrow> limiter \<Rightarrow> limiter" where
  "limiter_release user_id l =
     (if 0 < inflight l user_id
      then l\<lparr>inflight := (inflight l)(user_id := inflight l user_id - 1)\<rparr> else l)"

definition limiter_release_reserve :: "string \<Rightarrow> unit handler" where
  "limiter_release_reserve user_id = modifyE (\<lambda>s. s\<lparr>limiter := limiter_release user_id (limiter s)\<rparr>)"

section \<open>GuardrailService\<close>

definition guardrails_connect :: "host \<Rightarrow> bool handler" where
  "guardrails_connect h = catchE (seqE (redis_call h PING) (ret False)) (\<lambda>_. ret True)"

definition guardrails_init :: "host \<Rightarrow> settings \<Rightarrow> bool handler" where
  "guardrails_init h cfg = (if guardrails_enabled cfg then guardrails_connect h else ret True)"

text \<open>\<open>get_guardrails()\<close>: the flag of the cached instance, which the first call constructs.\<close>

definition get_guardrails :: "host \<Rightarrow> settings \<Rightarrow> bool handler" where
  "get_guardrails h cfg =
     getsE guardrails_degraded (\<lambda>cached. case cached of
        Some degraded \<Rightarrow> ret degraded
      | None \<Rightarrow> bindE (guardrails_init h cfg) (\<lambda>degraded.
          seqE (modifyE (\<lambda>s. s\<lparr>guardrails_degraded := Some degraded\<rparr>)) (ret degraded)))"

definition mark_degraded :: "unit handler" where
  "mark_degraded =
     getsE guardrails_degraded (\<lambda>f. whenE (f \<noteq> Some True) (stepsE
       [modifyE (\<lambda>s. s\<lparr>guardrails_degraded := Some True\<rparr>),
        modifyE (increment ''guardrail_degraded_total'')]))"

definition rate_key :: "string \<Rightarrow> int \<Rightarrow> string" where
  "rate_key user_id window = ''mg:rate:'' @ user_id @ '':'' @ int_str window"

definition trace_key :: "string \<Rightarrow> string" where
  "trace_key trace_id = ''mg:trace:'' @ trace_id @ '':ops''"

definition inflight_key :: "string \<Rightarrow> string" where
  "inflight_key user_id = ''mg:inflight:'' @ user_id"

definition check_redis :: "host \<Rightarrow> settings \<Rightarrow> string \<Rightarrow> string \<Rightarrow> string \<Rightarrow> unit handler" where
  "check_redis h cfg user_id trace_id idempotency_key =
     getsE (\<lambda>s. clock s div 60) (\<lambda>window.
     bindE (redis_call h (INCR (rate_key user_id window))) (\<lambda>count.
     seqE (whenE (count = 1) (seqE (redis_call h (EXPIRE (rate_key user_id window) 120)) (ret ())))
     (if rate_limit_per_minute cfg < count
      then seqE (modifyE (increment ''rate_limit_exceeded_total''))
             (throw (RateLimitExceeded (''rate limit exceeded for user '' @ user_id)))
      else
     seqE (redis_call h (SADD (trace_key trace_id) idempotency_key))
     (seqE (redis_call h (EXPIRE (trace_key trace_id) 3600))
     (bindE (redis_call h (SCARD (trace_key trace_id))) (\<lambda>depth.
      if max_trace_depth cfg < depth
      then seqE (modifyE (increment ''trace_depth_exceeded_total''))
             (throw (TraceDepthExceeded (''trace depth exceeded for '' @ trace_id)))
      else
     bindE (redis_call h (INCR (inflight_key user_id))) (\<lambda>n.
     seqE (whenE (n = 1)
             (seqE (redis_call h (EXPIRE (inflight_key user_id) (reserve_ttl_seconds cfg + 120))) (ret ())))
     (if max_user_inflight cfg < n
      then seqE (redis_call h (DECR (inflight_key user_id)))
             (seqE (modifyE (increment ''user_inflight_exceeded_total''))
               (throw (InflightLimitExceeded (''in-flight limit exceeded for user '' @ user_id))))
      else ret ()))))))))"

definition is_guardrail_error :: "exn \<Rightarrow> bool" where
  "is_guardrail_error e =
     (case e of RateLimitExceeded _ \<Rightarrow> True | TraceDepthExceeded _ \<Rightarrow> True
      | InflightLimitExceeded _ \<Rightarrow> True | _ \<Rightarrow> False)"

definition check_reserve_local :: "settings \<Rightarrow> string \<Rightarrow> string \<Rightarrow> string \<Rightarrow> unit handler" where
  "check_reserve_local cfg user_id trace_id idempotency_key =
     seqE (modifyE (increment ''guardrail_degraded_total''))
       (limiter_check_reserve cfg user_id trace_id idempotency_key)"

definition check_reserve :: "host \<Rightarrow> settings \<Rightarrow> string \<Rightarrow> string \<Rightarrow> string \<Rightarrow> unit handler" where
  "check_reserve h cfg user_id trace_id idempotency_key =
     bindE (get_guardrails h cfg) (\<lambda>degraded.
       if degraded then check_reserve_local cfg user_id trace_id idempotency_key
       else catchE (check_redis h cfg user_id trace_id idempotency_key)
         (\<lambda>e. if is_guardrail_error e then throw e
              else seqE mark_degraded (check_reserve_local cfg user_id trace_id idempotency_key)))"

definition release_redis :: "host \<Rightarrow> settings \<Rightarrow> string \<Rightarrow> unit handler" where
  "release_redis h cfg user_id =
     bindE (redis_call h (DECR (inflight_key user_id))) (\<lambda>remaining.
       whenE (remaining < 0)
         (seqE (redis_call h (SETEX (inflight_key user_id) ''0'' (reserve_ttl_seconds cfg + 120))) (ret ())))"

definition release_reserve :: "host \<Rightarrow> settings \<Rightarrow> string \<Rightarrow> unit handler" where
  "release_reserve h cfg user_id =
     bindE (get_guardrails h cfg) (\<lambda>degraded.
       if degraded then limiter_release_reserve user_id
       else catchE (release_redis h cfg user_id)
         (\<lambda>_. seqE mark_degraded (limiter_release_reserve user_id)))"

section \<open>Diagnostic mode\<close>

text \<open>\<open>_redis_client\<close>: a client that answered a ping, or none.\<close>

definition redis_client :: "host \<Rightarrow> bool handler" where
  "redis_client h = catchE (seqE (redis_call h PING) (ret True)) (\<lambda>_. ret False)"

definition diagnostic_key :: string where
  "diagnostic_key = ''mg:diagnostic_mode''"

definition enter_local :: "string \<Rightarrow> string \<Rightarrow> sys \<Rightarrow> sys" where
  "enter_local component reason s =
     (let s' = s\<lparr>diagnostic := \<lparr>diag_active = True, diag_reason = Some reason, diag_component = Some component\<rparr>\<rparr>
      in if diag_active (diagnostic s) then s'
         else increment ''finance_audit_diagnostic_entered_total'' s')"

definition enter_diagnostic_mode :: "host \<Rightarrow> string \<Rightarrow> string \<Rightarrow> unit handler" where
  "enter_diagnostic_mode h component reason =
     seqE (modifyE (enter_local component reason))
       (bindE (redis_client h) (\<lambda>client. whenE client
          (catchE
            (seqE (redis_call h (HSET diagnostic_key
               [(''active'', ''1''), (''component'', component), (''reason'', reason)])) (ret ()))
            (\<lambda>_. ret ()))))"

definition clear_diagnostic_mode :: "host \<Rightarrow> unit handler" where
  "clear_diagnostic_mode h =
     seqE (modifyE (\<lambda>s. s\<lparr>diagnostic := \<lparr>diag_active = False, diag_reason = None, diag_component = None\<rparr>\<rparr>))
       (bindE (redis_client h) (\<lambda>client. whenE client
          (catchE (seqE (redis_call h (DEL [diagnostic_key])) (ret ())) (\<lambda>_. ret ()))))"

text \<open>\<open>is_diagnostic_mode\<close>; the reply to \<open>HGET\<close> is the number in the field (any other number when the field is missing).\<close>

definition is_diagnostic_mode :: "host \<Rightarrow> bool handler" where
  "is_diagnostic_mode h =
     bindE (redis_client h) (\<lambda>client.
     bindE (if client
            then catchE (bindE (redis_call h (HGET diagnostic_key ''active'')) (\<lambda>active. ret (active = 1)))
                   (\<lambda>_. ret False)
            else ret False) (\<lambda>remote.
       if remote then ret True else getsE (\<lambda>s. diag_active (diagnostic s)) ret))"

end
