(* ===== verification/Ledger.thy ===== *)
theory Ledger
  imports Ledger_Seal Attribution Guardrails
begin

text \<open>
  \<^verbatim>\<open>sidecar/app/ledger.py\<close>: the reserve, settle and expire operations on the wallet, trace
  budget, escrow, dispatch attempt and event tables. Every SQL statement is a function on
  \<open>db\<close>; every handler runs the statements, the counters, the event appends, the guardrail
  calls and the commits in the order of the source.
\<close>

section \<open>Statements\<close>

definition find_operation :: "string \<Rightarrow> db \<Rightarrow> escrow option" where
  "find_operation k d = row_where (\<lambda>p. e_idempotency_key p = k) (escrow_ledger d)"

definition find_wallet :: "string \<Rightarrow> db \<Rightarrow> wallet option" where
  "find_wallet u d = row_where (\<lambda>w. w_user_id w = u) (user_wallets d)"

definition find_trace :: "string \<Rightarrow> db \<Rightarrow> trace_budget option" where
  "find_trace t d = row_where (\<lambda>b. t_trace_id b = t) (trace_budget_state d)"

definition credit_wallet :: "string \<Rightarrow> money \<Rightarrow> int \<Rightarrow> db \<Rightarrow> db" where
  "credit_wallet u amount now d =
     d\<lparr>user_wallets := update_where (\<lambda>w. w_user_id w = u)
         (\<lambda>w. w\<lparr>w_balance := w_balance w + amount, w_updated_at := now\<rparr>) (user_wallets d)\<rparr>"

definition lock_wallet :: "string \<Rightarrow> string \<Rightarrow> int \<Rightarrow> db \<Rightarrow> db" where
  "lock_wallet u reason now d =
     d\<lparr>user_wallets := update_where (\<lambda>w. w_user_id w = u)
         (\<lambda>w. w\<lparr>w_active := False, w_locked_at := Some now, w_lock_reason := Some reason,
                w_updated_at := now\<rparr>) (user_wallets d)\<rparr>"

definition ensure_trace :: "string \<Rightarrow> money \<Rightarrow> int \<Rightarrow> db \<Rightarrow> db" where
  "ensure_trace t cap now d =
     (if find_trace t d = None
      then d\<lparr>trace_budget_state := trace_budget_state d @
             [\<lparr>t_trace_id = t, t_cap_amount = cap, t_reserved_total = 0, t_settled_total = 0,
               t_updated_at = now\<rparr>]\<rparr>
      else d)"

definition move_trace :: "string \<Rightarrow> money \<Rightarrow> money \<Rightarrow> int \<Rightarrow> db \<Rightarrow> db" where
  "move_trace t reserved settled now d =
     d\<lparr>trace_budget_state := update_where (\<lambda>b. t_trace_id b = t)
         (\<lambda>b. b\<lparr>t_reserved_total := t_reserved_total b + reserved,
                t_settled_total := t_settled_total b + settled, t_updated_at := now\<rparr>)
         (trace_budget_state d)\<rparr>"

definition change_operation :: "string \<Rightarrow> (escrow \<Rightarrow> escrow) \<Rightarrow> db \<Rightarrow> db" where
  "change_operation k f d =
     d\<lparr>escrow_ledger := update_where (\<lambda>p. e_idempotency_key p = k) f (escrow_ledger d)\<rparr>"

definition insert_operation :: "escrow \<Rightarrow> db \<Rightarrow> db" where
  "insert_operation p d = d\<lparr>escrow_ledger := escrow_ledger d @ [p]\<rparr>"

text \<open>The unique index on \<open>escrow_ledger.provider_request_id\<close>, for an update of operation \<open>k\<close>.\<close>

definition provider_id_taken :: "string \<Rightarrow> string option \<Rightarrow> db \<Rightarrow> bool" where
  "provider_id_taken k x d =
     (x \<noteq> None \<and> (\<exists>p \<in> set (escrow_ledger d). e_idempotency_key p \<noteq> k \<and> e_provider_request_id p = x))"

section \<open>Collaborators\<close>

definition append_event :: "host \<Rightarrow> string \<Rightarrow> string \<Rightarrow> string \<Rightarrow> money \<Rightarrow> jobject \<Rightarrow> unit handler" where
  "append_event h k u ty amount md = append_sealed_ledger_event h k u ty amount md"

text \<open>A handler whose errors \<open>except Exception: pass\<close> swallows.\<close>

definition ignoring_errors :: "unit handler \<Rightarrow> unit handler" where
  "ignoring_errors m = catchE m (\<lambda>_. ret ())"

definition assert_circuit_closed :: "host \<Rightarrow> settings \<Rightarrow> string \<Rightarrow> unit handler" where
  "assert_circuit_closed h cfg provider_key =
     bindE (breaker_init h cfg) (\<lambda>degraded.
       catchE (breaker_assert_closed h provider_key degraded)
         (\<lambda>e. case e of
            CircuitOpenError _ \<Rightarrow> throw (PolicyStateError (''provider circuit open for '' @ provider_key))
          | _ \<Rightarrow> throw (PolicyStateError (''circuit breaker unavailable for '' @ provider_key))))"

definition record_provider_failure :: "host \<Rightarrow> settings \<Rightarrow> string \<Rightarrow> unit handler" where
  "record_provider_failure h cfg provider_name =
     ignoring_errors (bindE (get_circuit_breaker h cfg) (\<lambda>degraded.
       bindE (breaker_record_failure h cfg provider_name degraded) (\<lambda>degraded'.
         modifyE (set_breaker_degraded degraded'))))"

definition record_provider_success :: "host \<Rightarrow> settings \<Rightarrow> string \<Rightarrow> unit handler" where
  "record_provider_success h cfg provider_name =
     ignoring_errors (bindE (get_circuit_breaker h cfg) (\<lambda>degraded.
       breaker_record_success h provider_name degraded))"

definition release_inflight_guardrail :: "host \<Rightarrow> settings \<Rightarrow> string \<Rightarrow> unit handler" where
  "release_inflight_guardrail h cfg user_id = ignoring_errors (release_reserve h cfg user_id)"

section \<open>Reserve\<close>

record op_result =
  or_idempotency_key :: string
  or_status :: status
  or_actual_amount :: money

definition fingerprint_reserve_request :: "host \<Rightarrow> reserve_request \<Rightarrow> string" where
  "fingerprint_reserve_request h r =
     sha256_hexdigest h (dumps_sorted
       (JObj [(''estimated_cost'', JStr (decimal_str (quantize_money (Some (rq_estimated_cost r))))),
              (''model'', JStr (rq_model r)),
              (''trace_cap'', case rq_trace_cap r of None \<Rightarrow> JNull
                              | Some c \<Rightarrow> JStr (decimal_str (quantize_money (Some c)))),
              (''trace_id'', JStr (rq_trace_id r)),
              (''user_id'', JStr (rq_user_id r))]))"

definition reserve_replay :: "string \<Rightarrow> escrow \<Rightarrow> op_result handler" where
  "reserve_replay fingerprint existing =
     (if e_request_fingerprint existing \<noteq> fingerprint
      then throw (ConflictError ''idempotency key replay does not match original reserve request'')
      else seqE (modifyE (increment ''reserve_idempotent_replay_total''))
        (ret \<lparr>or_idempotency_key = e_idempotency_key existing, or_status = e_status existing,
              or_actual_amount =
                (if e_status existing \<noteq> SETTLED
                    \<and> quantize_money (Some (of_column (e_actual_amount existing))) = 0
                 then quantize_money (Some (of_column (e_reserved_amount existing)))
                 else quantize_money (Some (of_column (e_actual_amount existing))))\<rparr>))"

definition reserve_attribution ::
  "settings \<Rightarrow> reserve_request \<Rightarrow> identity \<Rightarrow> int \<Rightarrow> unit handler" where
  "reserve_attribution cfg r ident now =
     catchE
       (seqE (enforce_manual_approval cfg r ident now)
             (apply_reserve_budget_scopes cfg r ident (quantize_money (Some (rq_estimated_cost r))) now))
       (\<lambda>e. case e of
          BudgetScopeExceededError m \<Rightarrow>
            seqE (modifyE (increment ''reserve_denied_trace_cap_total'')) (throw (TraceCapExceededError m))
        | AttributionPolicyError m \<Rightarrow> throw (PolicyStateError m)
        | _ \<Rightarrow> throw e)"

definition claim_trace :: "string \<Rightarrow> money \<Rightarrow> money \<Rightarrow> int \<Rightarrow> unit handler" where
  "claim_trace t trace_cap reserved_amount now =
     stepsE
       [modifyE (on_db (ensure_trace t trace_cap now)),
        getsE (\<lambda>s. find_trace t (db s)) (\<lambda>current_trace.
          case current_trace of
            Some b \<Rightarrow> (if quantize_money (Some (of_column (t_cap_amount b))) \<noteq> trace_cap
                       then throw (ConflictError ''trace cap mismatch for existing trace budget state'')
                       else ret ())
          | None \<Rightarrow> ret ()),
        getsE (\<lambda>s. find_trace t (db s)) (\<lambda>row.
          if (case row of None \<Rightarrow> False
              | Some b \<Rightarrow> t_reserved_total b + reserved_amount \<le> t_cap_amount b)
          then modifyE (on_db (move_trace t reserved_amount 0 now))
          else stepsE
            [modifyE (increment ''trace_cap_overrun_detected_total''),
             modifyE (increment ''reserve_denied_trace_cap_total''),
             throw (TraceCapExceededError ''trace cap exceeded'')])]"

definition debit_wallet :: "string \<Rightarrow> money \<Rightarrow> int \<Rightarrow> unit handler" where
  "debit_wallet u reserved_amount now =
     getsE (\<lambda>s. find_wallet u (db s)) (\<lambda>row.
       if (case row of None \<Rightarrow> False | Some w \<Rightarrow> w_active w \<and> reserved_amount \<le> w_balance w)
       then modifyE (on_db (credit_wallet u (- reserved_amount) now))
       else seqE (modifyE (increment ''reserve_denied_balance_total''))
              (throw (InsufficientFundsError ''wallet inactive or insufficient balance'')))"

text \<open>The inserted row; without the attribution columns they take their column defaults.\<close>

definition new_operation ::
  "reserve_request \<Rightarrow> identity option \<Rightarrow> string \<Rightarrow> money \<Rightarrow> money \<Rightarrow> int \<Rightarrow> int \<Rightarrow> escrow" where
  "new_operation r ident fingerprint reserved_amount trace_cap now expires_at =
     (let i = (case ident of None \<Rightarrow> default_identity | Some i \<Rightarrow> i)
      in \<lparr>e_idempotency_key = rq_idempotency_key r, e_user_id = rq_user_id r, e_trace_id = rq_trace_id r,
          e_model = rq_model r, e_request_fingerprint = fingerprint, e_reserved_amount = reserved_amount,
          e_actual_amount = 0, e_status = RESERVED, e_provider_request_id = None,
          e_terminal_reason = ''RESERVE_CREATED'', e_trace_cap_amount = trace_cap, e_drift_amount = 0,
          e_created_at = now, e_expires_at = expires_at, e_dispatch_started_at = None,
          e_settled_at = None, e_expired_at = None,
          e_tenant_id = id_tenant_id i, e_session_id = id_session_id i,
          e_agent_run_id = id_agent_run_id i, e_workflow_step = id_workflow_step i,
          e_policy_version = (case ident of None \<Rightarrow> ''v1'' | Some _ \<Rightarrow> rq_policy_version r),
          e_input_tokens = 0, e_output_tokens = 0, e_cached_input_tokens = 0, e_cached_output_tokens = 0\<rparr>)"

definition insert_escrow :: "escrow \<Rightarrow> unit handler" where
  "insert_escrow p =
     catchE
       (getsE (\<lambda>s. find_operation (e_idempotency_key p) (db s) \<noteq> None
                   \<or> e_model p \<notin> set (model_policy_registry (db s)))
         (\<lambda>violates. if violates then throw IntegrityError else modifyE (on_db (insert_operation p))))
       (\<lambda>e. case e of
          IntegrityError \<Rightarrow> throw (ConflictError ''idempotency key already exists'')
        | _ \<Rightarrow> throw e)"

definition identity_items :: "identity \<Rightarrow> jobject" where
  "identity_items i =
     [(''tenant_id'', JStr (id_tenant_id i)), (''session_id'', JStr (id_session_id i)),
      (''agent_run_id'', JStr (id_agent_run_id i)), (''workflow_step'', JStr (id_workflow_step i))]"

definition reserve_event_metadata :: "reserve_request \<Rightarrow> identity option \<Rightarrow> money \<Rightarrow> jobject" where
  "reserve_event_metadata r ident trace_cap =
     [(''trace_id'', JStr (rq_trace_id r)), (''model'', JStr (rq_model r)),
      (''trace_cap_amount'', JStr (decimal_str trace_cap))]
     @ (case ident of None \<Rightarrow> []
        | Some i \<Rightarrow> identity_items i @ [(''policy_version'', JStr (rq_policy_version r))])"

definition trace_cap_of :: "settings \<Rightarrow> reserve_request \<Rightarrow> money" where
  "trace_cap_of cfg r = quantize_money (Some (decimal_or (rq_trace_cap r) (default_trace_cap_amount cfg)))"

definition reserve_new :: "host \<Rightarrow> settings \<Rightarrow> reserve_request \<Rightarrow> string \<Rightarrow> int \<Rightarrow> identity option \<Rightarrow> op_result handler" where
  "reserve_new h cfg r fingerprint now ident =
     (let expires_at = now + reserve_ttl_seconds cfg;
          trace_cap = trace_cap_of cfg r;
          reserved_amount = quantize_money (Some (rq_estimated_cost r))
      in seqE (stepsE
        [(case ident of None \<Rightarrow> ret () | Some i \<Rightarrow> reserve_attribution cfg r i now),
         claim_trace (rq_trace_id r) trace_cap reserved_amount now,
         debit_wallet (rq_user_id r) reserved_amount now,
         insert_escrow (new_operation r ident fingerprint reserved_amount trace_cap now expires_at),
         append_event h (rq_idempotency_key r) (rq_user_id r) ''RESERVE_CREATED'' (- reserved_amount)
           (reserve_event_metadata r ident trace_cap),
         (case ident of None \<Rightarrow> ret ()
          | Some i \<Rightarrow> modifyE (on_db (record_lineage (rq_idempotency_key r) i (rq_user_id r)
              ''RESERVE_CREATED'' None None
              [(''status'', JStr ''RESERVED''), (''reserved_amount'', JStr (decimal_str reserved_amount))] now))),
         modifyE commit,
         modifyE (increment ''reserve_success_total'')])
        (ret \<lparr>or_idempotency_key = rq_idempotency_key r, or_status = RESERVED,
              or_actual_amount = reserved_amount\<rparr>))"

definition reserve_operation :: "host \<Rightarrow> settings \<Rightarrow> reserve_request \<Rightarrow> op_result handler" where
  "reserve_operation h cfg r =
     (let fingerprint = fingerprint_reserve_request h r
      in getsE (\<lambda>s. find_operation (rq_idempotency_key r) (db s)) (\<lambda>existing.
        case existing of
          Some p \<Rightarrow> reserve_replay fingerprint p
        | None \<Rightarrow>
            getsE clock (\<lambda>now.
            seqE (assert_circuit_closed h cfg (rq_model r))
            (getsE (\<lambda>s. schema_supports_attribution (db s)) (\<lambda>supported.
              reserve_new h cfg r fingerprint now
                (if supported then Some (identity_from_reserve r) else None))))))"

section \<open>Settle\<close>

definition load_operation_for_update :: "string option \<Rightarrow> string option \<Rightarrow> db \<Rightarrow> escrow option" where
  "load_operation_for_update idempotency_key provider_request_id d =
     (if truthy idempotency_key then find_operation (the idempotency_key) d
      else if truthy provider_request_id
      then (case row_where (\<lambda>a. a_provider_request_id a = provider_request_id) (provider_dispatch_attempts d) of
              None \<Rightarrow> None
            | Some a \<Rightarrow> find_operation (a_idempotency_key a) d)
      else None)"

definition attempt_of :: "string \<Rightarrow> string \<Rightarrow> settle_request \<Rightarrow> int \<Rightarrow> attempt" where
  "attempt_of attempt_key idempotency_key r now =
     \<lparr>a_attempt_key = attempt_key, a_idempotency_key = idempotency_key,
      a_provider_name = st_provider_name r, a_model_name = st_model r,
      a_provider_request_id = st_provider_request_id r, a_status = status_of (st_outcome r),
      a_terminal_reason = str_or (st_reason r) (outcome_name (st_outcome r)),
      a_created_at = now, a_updated_at = now\<rparr>"

text \<open>\<open>INSERT ... ON CONFLICT (attempt_key) DO UPDATE\<close>: the conflicting row keeps its operation.\<close>

definition merge_attempt :: "attempt \<Rightarrow> attempt \<Rightarrow> attempt" where
  "merge_attempt new old =
     old\<lparr>a_provider_name := a_provider_name new, a_model_name := a_model_name new,
         a_provider_request_id := coalesce (a_provider_request_id new) (a_provider_request_id old),
         a_status := a_status new, a_terminal_reason := a_terminal_reason new,
         a_updated_at := a_updated_at new\<rparr>"

definition put_attempt :: "attempt \<Rightarrow> db \<Rightarrow> db" where
  "put_attempt new d =
     (if row_where (\<lambda>a. a_attempt_key a = a_attempt_key new) (provider_dispatch_attempts d) = None
      then d\<lparr>provider_dispatch_attempts := provider_dispatch_attempts d @ [new]\<rparr>
      else d\<lparr>provider_dispatch_attempts := update_where (\<lambda>a. a_attempt_key a = a_attempt_key new)
               (merge_attempt new) (provider_dispatch_attempts d)\<rparr>)"

definition attempt_id_taken :: "string \<Rightarrow> string option \<Rightarrow> db \<Rightarrow> bool" where
  "attempt_id_taken attempt_key x d =
     (x \<noteq> None \<and> (\<exists>a \<in> set (provider_dispatch_attempts d).
        a_attempt_key a \<noteq> attempt_key \<and> a_provider_request_id a = x))"

definition upsert_attempt :: "string \<Rightarrow> string \<Rightarrow> settle_request \<Rightarrow> int \<Rightarrow> unit handler" where
  "upsert_attempt attempt_key idempotency_key r now =
     catchE
       (getsE (\<lambda>s. attempt_id_taken attempt_key (st_provider_request_id r) (db s)) (\<lambda>taken.
          if taken then throw IntegrityError
          else modifyE (on_db (put_attempt (attempt_of attempt_key idempotency_key r now)))))
       (\<lambda>e. case e of
          IntegrityError \<Rightarrow>
            throw (ConflictError ''provider_request_id is already attached to a different dispatch attempt'')
        | _ \<Rightarrow> throw e)"

text \<open>An update of an escrow row that sets \<open>provider_request_id\<close>; its unique index may refuse it.\<close>

definition update_operation :: "string \<Rightarrow> string option \<Rightarrow> (escrow \<Rightarrow> escrow) \<Rightarrow> unit handler" where
  "update_operation k provider_request_id f =
     getsE (\<lambda>s. provider_id_taken k provider_request_id (db s)) (\<lambda>taken.
       if taken then throw IntegrityError else modifyE (on_db (change_operation k f)))"

definition attempt_reason :: "settle_request \<Rightarrow> string" where
  "attempt_reason r = str_or (st_reason r) (outcome_name (st_outcome r))"

definition dispatched_row :: "settle_request \<Rightarrow> int \<Rightarrow> escrow \<Rightarrow> escrow" where
  "dispatched_row r now x =
     x\<lparr>e_status := status_of (st_outcome r),
       e_dispatch_started_at := coalesce (e_dispatch_started_at x) (Some now),
       e_provider_request_id := coalesce (st_provider_request_id r) (e_provider_request_id x),
       e_terminal_reason := attempt_reason r\<rparr>"

definition attempt_event_type :: "settle_request \<Rightarrow> string" where
  "attempt_event_type r =
     (if st_outcome r = O_IN_FLIGHT then ''DISPATCH_STARTED'' else ''PROVIDER_TIMEOUT_RECORDED'')"

definition attempt_event_metadata :: "settle_request \<Rightarrow> jobject" where
  "attempt_event_metadata r =
     [(''dispatch_attempt_key'', json_of_opt (st_dispatch_attempt_key r)),
      (''provider_name'', json_of_opt (st_provider_name r)),
      (''provider_request_id'', json_of_opt (st_provider_request_id r)),
      (''reason'', JStr (attempt_reason r))]"

definition check_loop :: "settings \<Rightarrow> escrow \<Rightarrow> settle_request \<Rightarrow> int \<Rightarrow> unit handler" where
  "check_loop cfg p r now =
     getsE (\<lambda>s. schema_supports_attribution (db s)) (\<lambda>supported. whenE supported
       (catchE (enforce_loop_guardrail p r cfg now)
          (\<lambda>e. case e of AttributionPolicyError m \<Rightarrow> throw (PolicyStateError m) | _ \<Rightarrow> throw e)))"

definition record_attempt_state :: "host \<Rightarrow> settings \<Rightarrow> escrow \<Rightarrow> settle_request \<Rightarrow> op_result handler" where
  "record_attempt_state h cfg p r =
     (if e_status p = SETTLED \<or> e_status p = EXPIRED
      then throw (PolicyStateError ''cannot record dispatch activity for a terminal operation'')
      else if \<not> truthy (st_dispatch_attempt_key r)
      then throw (PolicyStateError ''dispatch_attempt_key is required for non-terminal execution updates'')
      else getsE clock (\<lambda>now. seqE (stepsE
          [check_loop cfg p r now,
           upsert_attempt (the (st_dispatch_attempt_key r)) (e_idempotency_key p) r now,
           update_operation (e_idempotency_key p) (st_provider_request_id r) (dispatched_row r now),
           append_event h (e_idempotency_key p) (e_user_id p) (attempt_event_type r) 0
             (attempt_event_metadata r)])
          (ret \<lparr>or_idempotency_key = e_idempotency_key p, or_status = status_of (st_outcome r),
                or_actual_amount = quantize_money (Some (of_column (e_actual_amount p)))\<rparr>)))"

subsection \<open>Final settlement\<close>

definition finalize_replay :: "escrow \<Rightarrow> settle_request \<Rightarrow> money \<Rightarrow> op_result handler" where
  "finalize_replay p r actual_amount =
     (if (\<not> truthy (st_provider_request_id r) \<or> st_provider_request_id r = e_provider_request_id p)
         \<and> quantize_money (Some (of_column (e_actual_amount p))) = actual_amount
      then ret \<lparr>or_idempotency_key = e_idempotency_key p, or_status = SETTLED, or_actual_amount = actual_amount\<rparr>
      else throw (ConflictError ''settlement replay does not match the recorded terminal state''))"

definition reserved_still_held :: "status \<Rightarrow> bool" where
  "reserved_still_held previous_status = (previous_status \<noteq> EXPIRED)"

definition late_after_expiry :: "status \<Rightarrow> bool" where
  "late_after_expiry previous_status = (previous_status = EXPIRED \<or> previous_status = STRANDED)"

definition refund_amount :: "status \<Rightarrow> money \<Rightarrow> money \<Rightarrow> money" where
  "refund_amount previous_status reserved_amount actual_amount =
     (if reserved_still_held previous_status \<and> actual_amount \<le> reserved_amount
      then reserved_amount - actual_amount else 0)"

definition correction_debit :: "status \<Rightarrow> money \<Rightarrow> money \<Rightarrow> money" where
  "correction_debit previous_status reserved_amount actual_amount =
     (if reserved_still_held previous_status
      then (if actual_amount \<le> reserved_amount then 0 else actual_amount - reserved_amount)
      else actual_amount)"

definition settle_wallet :: "host \<Rightarrow> escrow \<Rightarrow> money \<Rightarrow> money \<Rightarrow> int \<Rightarrow> unit handler" where
  "settle_wallet h p refund correction now =
     stepsE
       [whenE (refund \<noteq> 0) (stepsE
          [modifyE (on_db (credit_wallet (e_user_id p) refund now)),
           append_event h (e_idempotency_key p) (e_user_id p) ''SETTLEMENT_REFUND'' refund
             [(''reason'', JStr ''unused_reserve_refund'')]]),
        whenE (correction \<noteq> 0) (stepsE
          [modifyE (on_db (credit_wallet (e_user_id p) (- correction) now)),
           append_event h (e_idempotency_key p) (e_user_id p) ''SETTLEMENT_CORRECTION_DEBIT'' (- correction)
             [(''reason'', JStr ''authoritative_provider_settlement''),
              (''late_after_expiry'', JBool (late_after_expiry (e_status p)))]])]"

definition settle_trace :: "escrow \<Rightarrow> money \<Rightarrow> money \<Rightarrow> int \<Rightarrow> unit handler" where
  "settle_trace p reserved_amount actual_amount now =
     modifyE (on_db (move_trace (e_trace_id p)
       (if reserved_still_held (e_status p) then - reserved_amount else 0) actual_amount now))"

definition budget_delta :: "status \<Rightarrow> money \<Rightarrow> money \<Rightarrow> money" where
  "budget_delta previous_status reserved_amount actual_amount =
     (if reserved_still_held previous_status then actual_amount - reserved_amount else actual_amount)"

definition settle_budget :: "settings \<Rightarrow> escrow \<Rightarrow> money \<Rightarrow> int \<Rightarrow> unit handler" where
  "settle_budget cfg p delta now =
     getsE (\<lambda>s. schema_supports_attribution (db s)) (\<lambda>supported.
       whenE (supported \<and> delta \<noteq> 0)
         (catchE (apply_settlement_budget_scopes cfg p delta now)
            (\<lambda>e. case e of BudgetScopeExceededError m \<Rightarrow> throw (TraceCapExceededError m) | _ \<Rightarrow> throw e)))"

definition settlement_reason :: "status \<Rightarrow> string" where
  "settlement_reason previous_status =
     (if late_after_expiry previous_status then ''RECONCILED_LATE_SETTLE'' else ''SETTLED_FINAL'')"

definition settled_row :: "settle_request \<Rightarrow> money \<Rightarrow> string \<Rightarrow> money \<Rightarrow> int \<Rightarrow> escrow \<Rightarrow> escrow" where
  "settled_row r actual_amount reason drift now x =
     x\<lparr>e_status := SETTLED, e_actual_amount := actual_amount,
       e_provider_request_id := coalesce (st_provider_request_id r) (e_provider_request_id x),
       e_terminal_reason := reason, e_settled_at := Some now, e_drift_amount := drift\<rparr>"

definition is_settle_event :: "string \<Rightarrow> event \<Rightarrow> bool" where
  "is_settle_event k e =
     (ev_idempotency_key e = k
      \<and> (ev_event_type e = ''SETTLED_FINAL'' \<or> ev_event_type e = ''RECONCILED_LATE_SETTLE''))"

definition detect_duplicate_settlement_events :: "string \<Rightarrow> unit handler" where
  "detect_duplicate_settlement_events k =
     getsE (\<lambda>s. count_where (is_settle_event k) (ledger_events (db s)))
       (\<lambda>cnt. whenE (1 < cnt) (modifyE (increment ''duplicate_settlement_anomaly_total'')))"

definition enforce_non_negative_wallet_balance :: "string \<Rightarrow> unit handler" where
  "enforce_non_negative_wallet_balance u =
     getsE (\<lambda>s. find_wallet u (db s)) (\<lambda>row.
       if (case row of None \<Rightarrow> False | Some w \<Rightarrow> quantize_money (Some (of_column (w_balance w))) < 0)
       then seqE (modifyE (increment ''negative_wallet_detected_total''))
              (throw (LedgerError ''wallet balance invariant violated: negative balance detected''))
       else ret ())"

text \<open>\<open>drift / reserved > ratio\<close>, with the exact quotient.\<close>

definition drift_exceeds_tolerance :: "money \<Rightarrow> money \<Rightarrow> settings \<Rightarrow> bool" where
  "drift_exceeds_tolerance drift_amount reserved_amount cfg =
     (let absolute_threshold = quantize_money (Some (drift_absolute_tolerance cfg));
          ratio_threshold = quantize_money (Some (drift_ratio_tolerance cfg))
      in if drift_amount \<le> absolute_threshold then False
         else if reserved_amount \<le> 0 then True
         else ratio_threshold * reserved_amount < drift_amount * 10 ^ MONEY_DB_PRECISION)"

definition enforce_drift :: "host \<Rightarrow> settings \<Rightarrow> escrow \<Rightarrow> money \<Rightarrow> money \<Rightarrow> int \<Rightarrow> unit handler" where
  "enforce_drift h cfg p drift_amount reserved_amount now =
     (let drift_excess = max 0 drift_amount
      in whenE (drift_excess \<noteq> 0)
        (if drift_exceeds_tolerance drift_excess reserved_amount cfg
         then stepsE
           [modifyE (on_db (lock_wallet (e_user_id p) ''DRIFT_THRESHOLD_EXCEEDED'' now)),
            append_event h (e_idempotency_key p) (e_user_id p) ''DRIFT_ENFORCED'' 0
              [(''drift_amount'', JStr (decimal_str drift_excess)),
               (''threshold_absolute'', JStr (decimal_str (quantize_money (Some (drift_absolute_tolerance cfg))))),
               (''threshold_ratio'', JStr (decimal_str (quantize_money (Some (drift_ratio_tolerance cfg)))))],
            modifyE (increment ''drift_enforced_total'')]
         else stepsE
           [append_event h (e_idempotency_key p) (e_user_id p) ''DRIFT_TOLERATED'' 0
              [(''drift_amount'', JStr (decimal_str drift_excess))],
            modifyE (increment ''drift_tolerated_total'')]))"

definition settle_lineage :: "escrow \<Rightarrow> settle_request \<Rightarrow> string \<Rightarrow> money \<Rightarrow> money \<Rightarrow> int \<Rightarrow> unit handler" where
  "settle_lineage p r reason actual_amount reserved_amount now =
     getsE (\<lambda>s. schema_supports_attribution (db s)) (\<lambda>supported. whenE supported
       (modifyE (on_db (record_lineage (e_idempotency_key p) (identity_from_operation p) (e_user_id p)
          reason (Some r) (st_provider_request_id r)
          [(''status'', JStr ''SETTLED''), (''actual_amount'', JStr (decimal_str actual_amount)),
           (''reserved_amount'', JStr (decimal_str reserved_amount))] now))))"

definition settle_balances :: "host \<Rightarrow> settings \<Rightarrow> escrow \<Rightarrow> money \<Rightarrow> money \<Rightarrow> int \<Rightarrow> unit handler" where
  "settle_balances h cfg p actual_amount reserved_amount now =
     stepsE
       [settle_wallet h p (refund_amount (e_status p) reserved_amount actual_amount)
          (correction_debit (e_status p) reserved_amount actual_amount) now,
        settle_trace p reserved_amount actual_amount now,
        settle_budget cfg p (budget_delta (e_status p) reserved_amount actual_amount) now]"

definition settle_event_metadata :: "escrow \<Rightarrow> settle_request \<Rightarrow> jobject" where
  "settle_event_metadata p r =
     [(''provider_request_id'', json_of_opt (st_provider_request_id r)),
      (''dispatch_attempt_key'', json_of_opt (st_dispatch_attempt_key r)),
      (''previous_status'', JStr (status_name (e_status p)))]"

definition settle_close ::
  "host \<Rightarrow> settings \<Rightarrow> escrow \<Rightarrow> settle_request \<Rightarrow> money \<Rightarrow> money \<Rightarrow> int \<Rightarrow> unit handler" where
  "settle_close h cfg p r actual_amount reserved_amount now =
     stepsE
       [append_event h (e_idempotency_key p) (e_user_id p) (settlement_reason (e_status p)) 0
          (settle_event_metadata p r),
        detect_duplicate_settlement_events (e_idempotency_key p),
        enforce_non_negative_wallet_balance (e_user_id p),
        record_provider_success h cfg (str_or (st_provider_name r) (str_or (Some (e_model p)) ''unknown'')),
        settle_lineage p r (settlement_reason (e_status p)) actual_amount reserved_amount now,
        enforce_drift h cfg p (actual_amount - reserved_amount) reserved_amount now]"

definition finalize_settlement :: "host \<Rightarrow> settings \<Rightarrow> escrow \<Rightarrow> settle_request \<Rightarrow> op_result handler" where
  "finalize_settlement h cfg p r =
     (let actual_amount = quantize_money (Some (st_actual_cost r));
          reserved_amount = quantize_money (Some (of_column (e_reserved_amount p)))
      in if e_status p = SETTLED then finalize_replay p r actual_amount
         else getsE clock (\<lambda>now. seqE (stepsE
           [whenE (truthy (st_dispatch_attempt_key r))
              (upsert_attempt (the (st_dispatch_attempt_key r)) (e_idempotency_key p) r now),
            settle_balances h cfg p actual_amount reserved_amount now,
            update_operation (e_idempotency_key p) (st_provider_request_id r)
              (settled_row r actual_amount (settlement_reason (e_status p))
                 (actual_amount - reserved_amount) now),
            settle_close h cfg p r actual_amount reserved_amount now])
           (ret \<lparr>or_idempotency_key = e_idempotency_key p, or_status = SETTLED,
                 or_actual_amount = actual_amount\<rparr>)))"

definition check_settlement_identity :: "escrow \<Rightarrow> settle_request \<Rightarrow> unit handler" where
  "check_settlement_identity p r =
     getsE (\<lambda>s. schema_supports_attribution (db s)) (\<lambda>supported. whenE supported
       (catchE (validate_settlement_identity p r)
          (\<lambda>e. case e of AttributionPolicyError m \<Rightarrow> throw (PolicyStateError m) | _ \<Rightarrow> throw e)))"

definition apply_outcome :: "host \<Rightarrow> settings \<Rightarrow> escrow \<Rightarrow> settle_request \<Rightarrow> op_result handler" where
  "apply_outcome h cfg p r =
     (if st_outcome r = O_SETTLED
      then bindE (finalize_settlement h cfg p r) (\<lambda>result.
             seqE (stepsE [modifyE commit, release_inflight_guardrail h cfg (e_user_id p)]) (ret result))
      else bindE (record_attempt_state h cfg p r) (\<lambda>result.
             seqE (stepsE
               [whenE (st_outcome r = O_PROVIDER_TIMEOUT \<and> truthy (st_provider_name r))
                  (record_provider_failure h cfg (the (st_provider_name r))),
                modifyE commit])
               (ret result)))"

definition apply_settlement :: "host \<Rightarrow> settings \<Rightarrow> settle_request \<Rightarrow> op_result handler" where
  "apply_settlement h cfg r =
     getsE (\<lambda>s. load_operation_for_update (st_idempotency_key r) (st_provider_request_id r) (db s))
       (\<lambda>operation. case operation of
          None \<Rightarrow> throw (NotFoundError ''reservation not found'')
        | Some p \<Rightarrow>
            if truthy (st_idempotency_key r) \<and> st_idempotency_key r \<noteq> Some (e_idempotency_key p)
            then throw (ConflictError ''provider request id resolves to a different logical operation'')
            else seqE (check_settlement_identity p r) (apply_outcome h cfg p r))"

section \<open>Expiry\<close>

definition has_open_attempts :: "string \<Rightarrow> db \<Rightarrow> bool" where
  "has_open_attempts k d =
     (\<exists>a \<in> set (provider_dispatch_attempts d).
        a_idempotency_key a = k \<and> (a_status a = IN_FLIGHT \<or> a_status a = PROVIDER_TIMEOUT))"

definition must_strand :: "escrow \<Rightarrow> db \<Rightarrow> bool" where
  "must_strand p d =
     (e_status p = IN_FLIGHT \<or> e_status p = PROVIDER_TIMEOUT \<or> has_open_attempts (e_idempotency_key p) d)"

definition strand_operation :: "host \<Rightarrow> escrow \<Rightarrow> string \<Rightarrow> int \<Rightarrow> unit handler" where
  "strand_operation h p reason now =
     stepsE
       [modifyE (on_db (change_operation (e_idempotency_key p)
          (\<lambda>x. x\<lparr>e_status := STRANDED, e_expired_at := Some now,
                 e_terminal_reason := ''STRANDED_HOLD_PENDING_RECONCILIATION''\<rparr>))),
        append_event h (e_idempotency_key p) (e_user_id p) ''STRANDED_HOLD'' 0 [(''reason'', JStr reason)]]"

definition refund_expired :: "host \<Rightarrow> escrow \<Rightarrow> string \<Rightarrow> string \<Rightarrow> int \<Rightarrow> unit handler" where
  "refund_expired h p terminal_reason reason now =
     (let reserved_amount = quantize_money (Some (of_column (e_reserved_amount p)))
      in stepsE
       [modifyE (on_db (credit_wallet (e_user_id p) reserved_amount now)),
        modifyE (on_db (move_trace (e_trace_id p) (- reserved_amount) 0 now)),
        modifyE (on_db (change_operation (e_idempotency_key p)
          (\<lambda>x. x\<lparr>e_status := EXPIRED, e_expired_at := Some now, e_terminal_reason := terminal_reason\<rparr>))),
        append_event h (e_idempotency_key p) (e_user_id p) ''EXPIRED_SWEEP'' reserved_amount
          [(''reason'', JStr reason)]])"

definition expire_operation :: "host \<Rightarrow> escrow \<Rightarrow> string \<Rightarrow> unit handler" where
  "expire_operation h p reason =
     getsE clock (\<lambda>now. getsE (\<lambda>s. must_strand p (db s)) (\<lambda>strand.
       if strand then strand_operation h p reason now
       else refund_expired h p reason reason now))"

end
