(* ===== verification/Ledger_Frame.thy ===== *)
theory Ledger_Frame
  imports Ledger
begin

text \<open>
  What each statement of the ledger leaves alone: the tables it does not name, the hash chain
  unless it appends an event, and the database for the calls that only talk to Redis, the
  breaker and the limiter.
\<close>

section \<open>Statements and tables\<close>

lemma credit_wallet_frame [simp]:
  "trace_budget_state (credit_wallet u a now d) = trace_budget_state d"
  "escrow_ledger (credit_wallet u a now d) = escrow_ledger d"
  "provider_dispatch_attempts (credit_wallet u a now d) = provider_dispatch_attempts d"
  "ledger_events (credit_wallet u a now d) = ledger_events d"
  "next_event_id (credit_wallet u a now d) = next_event_id d"
  "budget_scope_state (credit_wallet u a now d) = budget_scope_state d"
  "execution_loop_state (credit_wallet u a now d) = execution_loop_state d"
  "guardrail_incidents (credit_wallet u a now d) = guardrail_incidents d"
  "execution_lineage (credit_wallet u a now d) = execution_lineage d"
  "model_policy_registry (credit_wallet u a now d) = model_policy_registry d"
  "verify_checkpoints (credit_wallet u a now d) = verify_checkpoints d"
  "has_tenant_id (credit_wallet u a now d) = has_tenant_id d"
  "has_row_hash (credit_wallet u a now d) = has_row_hash d"
  "has_checkpoint_table (credit_wallet u a now d) = has_checkpoint_table d"
  by (simp_all add: credit_wallet_def)

lemma lock_wallet_frame [simp]:
  "trace_budget_state (lock_wallet u r now d) = trace_budget_state d"
  "escrow_ledger (lock_wallet u r now d) = escrow_ledger d"
  "provider_dispatch_attempts (lock_wallet u r now d) = provider_dispatch_attempts d"
  "ledger_events (lock_wallet u r now d) = ledger_events d"
  "next_event_id (lock_wallet u r now d) = next_event_id d"
  "budget_scope_state (lock_wallet u r now d) = budget_scope_state d"
  "execution_loop_state (lock_wallet u r now d) = execution_loop_state d"
  "guardrail_incidents (lock_wallet u r now d) = guardrail_incidents d"
  "execution_lineage (lock_wallet u r now d) = execution_lineage d"
  "model_policy_registry (lock_wallet u r now d) = model_policy_registry d"
  "verify_checkpoints (lock_wallet u r now d) = verify_checkpoints d"
  "has_tenant_id (lock_wallet u r now d) = has_tenant_id d"
  "has_row_hash (lock_wallet u r now d) = has_row_hash d"
  "has_checkpoint_table (lock_wallet u r now d) = has_checkpoint_table d"
  by (simp_all add: lock_wallet_def)

lemma ensure_trace_frame [simp]:
  "user_wallets (ensure_trace t c now d) = user_wallets d"
  "escrow_ledger (ensure_trace t c now d) = escrow_ledger d"
  "provider_dispatch_attempts (ensure_trace t c now d) = provider_dispatch_attempts d"
  "ledger_events (ensure_trace t c now d) = ledger_events d"
  "next_event_id (ensure_trace t c now d) = next_event_id d"
  "budget_scope_state (ensure_trace t c now d) = budget_scope_state d"
  "execution_loop_state (ensure_trace t c now d) = execution_loop_state d"
  "guardrail_incidents (ensure_trace t c now d) = guardrail_incidents d"
  "execution_lineage (ensure_trace t c now d) = execution_lineage d"
  "model_policy_registry (ensure_trace t c now d) = model_policy_registry d"
  "verify_checkpoints (ensure_trace t c now d) = verify_checkpoints d"
  "has_tenant_id (ensure_trace t c now d) = has_tenant_id d"
  "has_row_hash (ensure_trace t c now d) = has_row_hash d"
  "has_checkpoint_table (ensure_trace t c now d) = has_checkpoint_table d"
  by (simp_all add: ensure_trace_def)

lemma move_trace_frame [simp]:
  "user_wallets (move_trace t a b now d) = user_wallets d"
  "escrow_ledger (move_trace t a b now d) = escrow_ledger d"
  "provider_dispatch_attempts (move_trace t a b now d) = provider_dispatch_attempts d"
  "ledger_events (move_trace t a b now d) = ledger_events d"
  "next_event_id (move_trace t a b now d) = next_event_id d"
  "budget_scope_state (move_trace t a b now d) = budget_scope_state d"
  "execution_loop_state (move_trace t a b now d) = execution_loop_state d"
  "guardrail_incidents (move_trace t a b now d) = guardrail_incidents d"
  "execution_lineage (move_trace t a b now d) = execution_lineage d"
  "model_policy_registry (move_trace t a b now d) = model_policy_registry d"
  "verify_checkpoints (move_trace t a b now d) = verify_checkpoints d"
  "has_tenant_id (move_trace t a b now d) = has_tenant_id d"
  "has_row_hash (move_trace t a b now d) = has_row_hash d"
  "has_checkpoint_table (move_trace t a b now d) = has_checkpoint_table d"
  by (simp_all add: move_trace_def)

lemma change_operation_frame [simp]:
  "user_wallets (change_operation k f d) = user_wallets d"
  "trace_budget_state (change_operation k f d) = trace_budget_state d"
  "provider_dispatch_attempts (change_operation k f d) = provider_dispatch_attempts d"
  "ledger_events (change_operation k f d) = ledger_events d"
  "next_event_id (change_operation k f d) = next_event_id d"
  "budget_scope_state (change_operation k f d) = budget_scope_state d"
  "execution_loop_state (change_operation k f d) = execution_loop_state d"
  "guardrail_incidents (change_operation k f d) = guardrail_incidents d"
  "execution_lineage (change_operation k f d) = execution_lineage d"
  "model_policy_registry (change_operation k f d) = model_policy_registry d"
  "verify_checkpoints (change_operation k f d) = verify_checkpoints d"
  "has_tenant_id (change_operation k f d) = has_tenant_id d"
  "has_row_hash (change_operation k f d) = has_row_hash d"
  "has_checkpoint_table (change_operation k f d) = has_checkpoint_table d"
  by (simp_all add: change_operation_def)

lemma insert_operation_frame [simp]:
  "user_wallets (insert_operation p d) = user_wallets d"
  "trace_budget_state (insert_operation p d) = trace_budget_state d"
  "provider_dispatch_attempts (insert_operation p d) = provider_dispatch_attempts d"
  "ledger_events (insert_operation p d) = ledger_events d"
  "next_event_id (insert_operation p d) = next_event_id d"
  "budget_scope_state (insert_operation p d) = budget_scope_state d"
  "execution_loop_state (insert_operation p d) = execution_loop_state d"
  "guardrail_incidents (insert_operation p d) = guardrail_incidents d"
  "execution_lineage (insert_operation p d) = execution_lineage d"
  "model_policy_registry (insert_operation p d) = model_policy_registry d"
  "verify_checkpoints (insert_operation p d) = verify_checkpoints d"
  "has_tenant_id (insert_operation p d) = has_tenant_id d"
  "has_row_hash (insert_operation p d) = has_row_hash d"
  "has_checkpoint_table (insert_operation p d) = has_checkpoint_table d"
  by (simp_all add: insert_operation_def)

lemma put_attempt_frame [simp]:
  "user_wallets (put_attempt a d) = user_wallets d"
  "trace_budget_state (put_attempt a d) = trace_budget_state d"
  "escrow_ledger (put_attempt a d) = escrow_ledger d"
  "ledger_events (put_attempt a d) = ledger_events d"
  "next_event_id (put_attempt a d) = next_event_id d"
  "budget_scope_state (put_attempt a d) = budget_scope_state d"
  "execution_loop_state (put_attempt a d) = execution_loop_state d"
  "guardrail_incidents (put_attempt a d) = guardrail_incidents d"
  "execution_lineage (put_attempt a d) = execution_lineage d"
  "model_policy_registry (put_attempt a d) = model_policy_registry d"
  "verify_checkpoints (put_attempt a d) = verify_checkpoints d"
  "has_tenant_id (put_attempt a d) = has_tenant_id d"
  "has_row_hash (put_attempt a d) = has_row_hash d"
  "has_checkpoint_table (put_attempt a d) = has_checkpoint_table d"
  by (simp_all add: put_attempt_def)

lemma add_sealed_event_frame [simp]:
  "user_wallets (add_sealed_event h now k u ty a m d) = user_wallets d"
  "trace_budget_state (add_sealed_event h now k u ty a m d) = trace_budget_state d"
  "escrow_ledger (add_sealed_event h now k u ty a m d) = escrow_ledger d"
  "provider_dispatch_attempts (add_sealed_event h now k u ty a m d) = provider_dispatch_attempts d"
  "budget_scope_state (add_sealed_event h now k u ty a m d) = budget_scope_state d"
  "execution_loop_state (add_sealed_event h now k u ty a m d) = execution_loop_state d"
  "guardrail_incidents (add_sealed_event h now k u ty a m d) = guardrail_incidents d"
  "execution_lineage (add_sealed_event h now k u ty a m d) = execution_lineage d"
  "model_policy_registry (add_sealed_event h now k u ty a m d) = model_policy_registry d"
  "verify_checkpoints (add_sealed_event h now k u ty a m d) = verify_checkpoints d"
  "has_tenant_id (add_sealed_event h now k u ty a m d) = has_tenant_id d"
  "has_row_hash (add_sealed_event h now k u ty a m d) = has_row_hash d"
  "has_checkpoint_table (add_sealed_event h now k u ty a m d) = has_checkpoint_table d"
  by (simp_all add: add_sealed_event_def)

lemma record_lineage_frame [simp]:
  "user_wallets (record_lineage k i u ty r q st now d) = user_wallets d"
  "trace_budget_state (record_lineage k i u ty r q st now d) = trace_budget_state d"
  "escrow_ledger (record_lineage k i u ty r q st now d) = escrow_ledger d"
  "provider_dispatch_attempts (record_lineage k i u ty r q st now d) = provider_dispatch_attempts d"
  "ledger_events (record_lineage k i u ty r q st now d) = ledger_events d"
  "next_event_id (record_lineage k i u ty r q st now d) = next_event_id d"
  "budget_scope_state (record_lineage k i u ty r q st now d) = budget_scope_state d"
  "execution_loop_state (record_lineage k i u ty r q st now d) = execution_loop_state d"
  "guardrail_incidents (record_lineage k i u ty r q st now d) = guardrail_incidents d"
  "model_policy_registry (record_lineage k i u ty r q st now d) = model_policy_registry d"
  "verify_checkpoints (record_lineage k i u ty r q st now d) = verify_checkpoints d"
  "has_tenant_id (record_lineage k i u ty r q st now d) = has_tenant_id d"
  "has_row_hash (record_lineage k i u ty r q st now d) = has_row_hash d"
  "has_checkpoint_table (record_lineage k i u ty r q st now d) = has_checkpoint_table d"
  by (simp_all add: record_lineage_def)

lemma append_guardrail_incident_frame [simp]:
  "user_wallets (append_guardrail_incident ty k u i m now d) = user_wallets d"
  "trace_budget_state (append_guardrail_incident ty k u i m now d) = trace_budget_state d"
  "escrow_ledger (append_guardrail_incident ty k u i m now d) = escrow_ledger d"
  "provider_dispatch_attempts (append_guardrail_incident ty k u i m now d) = provider_dispatch_attempts d"
  "ledger_events (append_guardrail_incident ty k u i m now d) = ledger_events d"
  "next_event_id (append_guardrail_incident ty k u i m now d) = next_event_id d"
  "budget_scope_state (append_guardrail_incident ty k u i m now d) = budget_scope_state d"
  "execution_loop_state (append_guardrail_incident ty k u i m now d) = execution_loop_state d"
  "execution_lineage (append_guardrail_incident ty k u i m now d) = execution_lineage d"
  "model_policy_registry (append_guardrail_incident ty k u i m now d) = model_policy_registry d"
  "verify_checkpoints (append_guardrail_incident ty k u i m now d) = verify_checkpoints d"
  "has_tenant_id (append_guardrail_incident ty k u i m now d) = has_tenant_id d"
  "has_row_hash (append_guardrail_incident ty k u i m now d) = has_row_hash d"
  "has_checkpoint_table (append_guardrail_incident ty k u i m now d) = has_checkpoint_table d"
  by (simp_all add: append_guardrail_incident_def)

lemma ensure_scope_frame [simp]:
  "user_wallets (ensure_scope ty k c now d) = user_wallets d"
  "trace_budget_state (ensure_scope ty k c now d) = trace_budget_state d"
  "escrow_ledger (ensure_scope ty k c now d) = escrow_ledger d"
  "provider_dispatch_attempts (ensure_scope ty k c now d) = provider_dispatch_attempts d"
  "ledger_events (ensure_scope ty k c now d) = ledger_events d"
  "next_event_id (ensure_scope ty k c now d) = next_event_id d"
  "execution_loop_state (ensure_scope ty k c now d) = execution_loop_state d"
  "guardrail_incidents (ensure_scope ty k c now d) = guardrail_incidents d"
  "execution_lineage (ensure_scope ty k c now d) = execution_lineage d"
  "model_policy_registry (ensure_scope ty k c now d) = model_policy_registry d"
  "verify_checkpoints (ensure_scope ty k c now d) = verify_checkpoints d"
  "has_tenant_id (ensure_scope ty k c now d) = has_tenant_id d"
  "has_row_hash (ensure_scope ty k c now d) = has_row_hash d"
  "has_checkpoint_table (ensure_scope ty k c now d) = has_checkpoint_table d"
  by (simp_all add: ensure_scope_def)

lemma consume_scope_frame [simp]:
  "user_wallets (consume_scope ty k c now d) = user_wallets d"
  "trace_budget_state (consume_scope ty k c now d) = trace_budget_state d"
  "escrow_ledger (consume_scope ty k c now d) = escrow_ledger d"
  "provider_dispatch_attempts (consume_scope ty k c now d) = provider_dispatch_attempts d"
  "ledger_events (consume_scope ty k c now d) = ledger_events d"
  "next_event_id (consume_scope ty k c now d) = next_event_id d"
  "execution_loop_state (consume_scope ty k c now d) = execution_loop_state d"
  "guardrail_incidents (consume_scope ty k c now d) = guardrail_incidents d"
  "execution_lineage (consume_scope ty k c now d) = execution_lineage d"
  "model_policy_registry (consume_scope ty k c now d) = model_policy_registry d"
  "verify_checkpoints (consume_scope ty k c now d) = verify_checkpoints d"
  "has_tenant_id (consume_scope ty k c now d) = has_tenant_id d"
  "has_row_hash (consume_scope ty k c now d) = has_row_hash d"
  "has_checkpoint_table (consume_scope ty k c now d) = has_checkpoint_table d"
  by (simp_all add: consume_scope_def)

lemma bump_loop_frame [simp]:
  "user_wallets (bump_loop k now d) = user_wallets d"
  "trace_budget_state (bump_loop k now d) = trace_budget_state d"
  "escrow_ledger (bump_loop k now d) = escrow_ledger d"
  "provider_dispatch_attempts (bump_loop k now d) = provider_dispatch_attempts d"
  "ledger_events (bump_loop k now d) = ledger_events d"
  "next_event_id (bump_loop k now d) = next_event_id d"
  "budget_scope_state (bump_loop k now d) = budget_scope_state d"
  "guardrail_incidents (bump_loop k now d) = guardrail_incidents d"
  "execution_lineage (bump_loop k now d) = execution_lineage d"
  "model_policy_registry (bump_loop k now d) = model_policy_registry d"
  "verify_checkpoints (bump_loop k now d) = verify_checkpoints d"
  "has_tenant_id (bump_loop k now d) = has_tenant_id d"
  "has_row_hash (bump_loop k now d) = has_row_hash d"
  "has_checkpoint_table (bump_loop k now d) = has_checkpoint_table d"
  by (simp_all add: bump_loop_def)

lemma insert_loop_frame [simp]:
  "user_wallets (insert_loop k g now d) = user_wallets d"
  "trace_budget_state (insert_loop k g now d) = trace_budget_state d"
  "escrow_ledger (insert_loop k g now d) = escrow_ledger d"
  "provider_dispatch_attempts (insert_loop k g now d) = provider_dispatch_attempts d"
  "ledger_events (insert_loop k g now d) = ledger_events d"
  "next_event_id (insert_loop k g now d) = next_event_id d"
  "budget_scope_state (insert_loop k g now d) = budget_scope_state d"
  "guardrail_incidents (insert_loop k g now d) = guardrail_incidents d"
  "execution_lineage (insert_loop k g now d) = execution_lineage d"
  "model_policy_registry (insert_loop k g now d) = model_policy_registry d"
  "verify_checkpoints (insert_loop k g now d) = verify_checkpoints d"
  "has_tenant_id (insert_loop k g now d) = has_tenant_id d"
  "has_row_hash (insert_loop k g now d) = has_row_hash d"
  "has_checkpoint_table (insert_loop k g now d) = has_checkpoint_table d"
  by (simp_all add: insert_loop_def)

section \<open>Updates by primary key\<close>

interpretation wallet_upd: keyed_update w_user_id
  "\<lambda>w. w\<lparr>w_balance := w_balance w + amount, w_updated_at := now\<rparr>" for amount now
  by unfold_locales simp

interpretation lock_upd: keyed_update w_user_id
  "\<lambda>w. w\<lparr>w_active := False, w_locked_at := Some now, w_lock_reason := Some reason, w_updated_at := now\<rparr>"
  for now reason
  by unfold_locales simp

interpretation trace_upd: keyed_update t_trace_id
  "\<lambda>b. b\<lparr>t_reserved_total := t_reserved_total b + reserved,
         t_settled_total := t_settled_total b + settled, t_updated_at := now\<rparr>" for reserved settled now
  by unfold_locales simp

interpretation settled_upd: keyed_update e_idempotency_key "settled_row r actual reason drift now"
  for r actual reason drift now
  by unfold_locales (simp add: settled_row_def)

interpretation dispatched_upd: keyed_update e_idempotency_key "dispatched_row r now" for r now
  by unfold_locales (simp add: dispatched_row_def)

interpretation strand_upd: keyed_update e_idempotency_key
  "\<lambda>x. x\<lparr>e_status := STRANDED, e_expired_at := Some now,
         e_terminal_reason := ''STRANDED_HOLD_PENDING_RECONCILIATION''\<rparr>" for now
  by unfold_locales simp

interpretation expire_upd: keyed_update e_idempotency_key
  "\<lambda>x. x\<lparr>e_status := EXPIRED, e_expired_at := Some now, e_terminal_reason := reason\<rparr>" for now reason
  by unfold_locales simp

interpretation attempt_upd: keyed_update a_attempt_key "merge_attempt new" for new
  by unfold_locales (simp add: merge_attempt_def)

section \<open>Statements and the hash chain\<close>

lemma chain_ok_cong:
  "ledger_events d' = ledger_events d \<Longrightarrow> next_event_id d' = next_event_id d
     \<Longrightarrow> has_row_hash d' = has_row_hash d \<Longrightarrow> chain_ok h d' = chain_ok h d"
  by (simp add: chain_ok_def)

lemma chain_ok_frame [simp]:
  "chain_ok h (credit_wallet u a now d) = chain_ok h d"
  "chain_ok h (lock_wallet u rs now d) = chain_ok h d"
  "chain_ok h (ensure_trace t c now d) = chain_ok h d"
  "chain_ok h (move_trace t a b now d) = chain_ok h d"
  "chain_ok h (change_operation k f d) = chain_ok h d"
  "chain_ok h (insert_operation e d) = chain_ok h d"
  "chain_ok h (put_attempt x d) = chain_ok h d"
  "chain_ok h (record_lineage k i u ty r q st now d) = chain_ok h d"
  "chain_ok h (append_guardrail_incident ty ko uo i m now d) = chain_ok h d"
  "chain_ok h (ensure_scope ty k c now d) = chain_ok h d"
  "chain_ok h (consume_scope ty k c now d) = chain_ok h d"
  "chain_ok h (bump_loop k now d) = chain_ok h d"
  "chain_ok h (insert_loop k g now d) = chain_ok h d"
  by (rule chain_ok_cong; simp)+

section \<open>Calls that do not touch the database\<close>

definition same_db :: "sys \<Rightarrow> sys \<Rightarrow> bool" where
  "same_db s t = (db t = db s \<and> committed t = committed s \<and> clock t = clock s \<and> monotonic t = monotonic s)"

definition same_committed :: "sys \<Rightarrow> sys \<Rightarrow> bool" where
  "same_committed s t = (committed t = committed s \<and> clock t = clock s)"

interpretation sd: effect_frame same_db
  by unfold_locales (simp_all add: same_db_def)

interpretation sc: effect_frame same_committed
  by unfold_locales (simp_all add: same_committed_def)

lemma same_db_increment [simp]: "same_db s (increment n s)"
  by (simp add: same_db_def)

lemma keeps_increment: "keeps same_db (modifyE (increment n))"
  by (rule sd.keeps_modifyE) simp

lemma keeps_redis_call: "keeps same_db (redis_call h c)"
  unfolding redis_call_def
  by (intro sd.keeps_rules sd.keeps_modifyE) (simp_all add: same_db_def)

lemma keeps_local_assert_closed: "keeps same_db (local_assert_closed n)"
  unfolding local_assert_closed_def by (intro sd.keeps_rules keeps_increment)

lemma keeps_local_record_failure: "keeps same_db (local_record_failure cfg n)"
  unfolding local_record_failure_def
  by (auto intro!: sd.keeps_rules keeps_increment sd.keeps_modifyE
      simp: same_db_def note_failure_def open_circuit_def)

lemma keeps_local_record_success: "keeps same_db (local_record_success n)"
  unfolding local_record_success_def by (rule sd.keeps_modifyE) (simp add: same_db_def)

lemma keeps_breaker_init: "keeps same_db (breaker_init h cfg)"
  unfolding breaker_init_def breaker_connect_def
  by (intro sd.keeps_rules keeps_increment keeps_redis_call)

lemma keeps_breaker_assert_closed: "keeps same_db (breaker_assert_closed h n b)"
proof -
  have "keeps same_db (case e of CircuitOpenError m \<Rightarrow> throw e
         | _ \<Rightarrow> seqE (modifyE (increment ''provider_circuit_local_fallback_total'')) (local_assert_closed n))" for e
    by (cases e; simp add: sd.keeps_throw sd.keeps_seqE keeps_increment keeps_local_assert_closed)
  then show ?thesis
    unfolding breaker_assert_closed_def
    by (intro sd.keeps_rules keeps_increment keeps_redis_call keeps_local_assert_closed) simp
qed

lemma keeps_breaker_record_failure: "keeps same_db (breaker_record_failure h cfg n b)"
  unfolding breaker_record_failure_def redis_record_failure_def
  by (auto intro!: sd.keeps_rules keeps_increment keeps_redis_call keeps_local_record_failure)

lemma keeps_get_circuit_breaker: "keeps same_db (get_circuit_breaker h cfg)"
  unfolding get_circuit_breaker_def
  by (intro sd.keeps_rules keeps_breaker_init sd.keeps_modifyE) (simp add: same_db_def set_breaker_degraded_def)

lemma keeps_assert_circuit_closed: "keeps same_db (assert_circuit_closed h cfg n)"
proof -
  have "keeps same_db (case e of
            CircuitOpenError _ \<Rightarrow> throw (PolicyStateError (''provider circuit open for '' @ n))
          | _ \<Rightarrow> throw (PolicyStateError (''circuit breaker unavailable for '' @ n)))" for e
    by (cases e; simp add: sd.keeps_throw)
  then show ?thesis
    unfolding assert_circuit_closed_def
    by (intro sd.keeps_rules keeps_breaker_init keeps_breaker_assert_closed) simp
qed

lemma keeps_record_provider_failure: "keeps same_db (record_provider_failure h cfg n)"
  unfolding record_provider_failure_def ignoring_errors_def
  by (intro sd.keeps_rules keeps_get_circuit_breaker keeps_breaker_record_failure sd.keeps_modifyE)
    (simp add: same_db_def set_breaker_degraded_def)

lemma keeps_record_provider_success: "keeps same_db (record_provider_success h cfg n)"
  unfolding record_provider_success_def ignoring_errors_def breaker_record_success_def
  by (intro sd.keeps_rules keeps_get_circuit_breaker keeps_local_record_success keeps_redis_call)

lemma keeps_get_guardrails: "keeps same_db (get_guardrails h cfg)"
  unfolding get_guardrails_def guardrails_init_def guardrails_connect_def
  by (intro sd.keeps_rules keeps_redis_call sd.keeps_modifyE) (simp add: same_db_def)

lemma keeps_mark_degraded: "keeps same_db mark_degraded"
  unfolding mark_degraded_def
  by (auto intro!: sd.keeps_rules keeps_increment sd.keeps_modifyE simp: same_db_def)

lemma keeps_limiter_release_reserve: "keeps same_db (limiter_release_reserve u)"
  unfolding limiter_release_reserve_def by (rule sd.keeps_modifyE) (simp add: same_db_def)

lemma keeps_release_reserve: "keeps same_db (release_reserve h cfg u)"
  unfolding release_reserve_def release_redis_def
  by (intro sd.keeps_rules keeps_get_guardrails keeps_limiter_release_reserve keeps_redis_call
      keeps_mark_degraded)

lemma keeps_release_inflight_guardrail: "keeps same_db (release_inflight_guardrail h cfg u)"
  unfolding release_inflight_guardrail_def ignoring_errors_def
  by (intro sd.keeps_rules keeps_release_reserve)

lemma keeps_limiter_check_reserve: "keeps same_db (limiter_check_reserve cfg u t k)"
  by (auto simp: keeps_def limiter_check_reserve_def same_db_def split: prod.split)

lemma keeps_check_redis: "keeps same_db (check_redis h cfg u t k)"
  unfolding check_redis_def
  by (intro sd.keeps_rules keeps_redis_call keeps_increment)

lemma keeps_check_reserve: "keeps same_db (check_reserve h cfg u t k)"
  unfolding check_reserve_def check_reserve_local_def
  by (intro sd.keeps_rules keeps_get_guardrails keeps_check_redis keeps_limiter_check_reserve
      keeps_increment keeps_mark_degraded)

lemma wp_same_db:
  assumes "keeps same_db m" "\<And>x t. same_db s t \<Longrightarrow> Q x t" "\<And>e t. same_db s t \<Longrightarrow> E e t"
  shows "wp m Q E s"
  by (rule wp_conseq [OF keeps_wp [OF assms(1)]]) (use assms(2,3) in auto)

text \<open>The calls whose errors the caller ignores always return.\<close>

lemma wp_ignoring_errors:
  assumes "keeps same_db m" "\<And>t. same_db s t \<Longrightarrow> Q () t"
  shows "wp (ignoring_errors m) Q E s"
  unfolding ignoring_errors_def wp_catchE
  by (rule wp_same_db [OF assms(1)]) (simp_all add: wp_ret assms(2))

end
