(* ===== verification/Ledger_Spec.thy ===== *)
theory Ledger_Spec
  imports Ledger_Frame
begin

text \<open>
  The abstract specification of the ledger: each operation as a guarded function from
  databases to databases, without exceptions, counters, Redis or sessions; and the
  refinement of it by the handlers of \<open>Ledger\<close>. A handler that succeeds commits exactly
  the specified database; a handler that raises commits nothing, the two incident records
  excepted that the source commits before it raises.
\<close>

section \<open>Specification\<close>

fun charge_scopes :: "(string \<times> string \<times> money) list \<Rightarrow> money \<Rightarrow> int \<Rightarrow> db \<Rightarrow> db option" where
  "charge_scopes [] delta now d = Some d"
| "charge_scopes ((ty, k, cap) # scopes) delta now d =
     (case row_where (scope_is ty k) (budget_scope_state (ensure_scope ty k cap now d)) of
        None \<Rightarrow> None
      | Some b \<Rightarrow>
          if b_consumed_amount b + delta \<le> b_cap_amount b
          then charge_scopes scopes delta now (consume_scope ty k delta now (ensure_scope ty k cap now d))
          else None)"

definition spec_claim :: "string \<Rightarrow> money \<Rightarrow> money \<Rightarrow> int \<Rightarrow> db \<Rightarrow> db option" where
  "spec_claim t cap amount now d =
     (case find_trace t (ensure_trace t cap now d) of
        None \<Rightarrow> None
      | Some b \<Rightarrow>
          if t_cap_amount b = cap \<and> t_reserved_total b + amount \<le> t_cap_amount b
          then Some (move_trace t amount 0 now (ensure_trace t cap now d)) else None)"

definition spec_debit :: "string \<Rightarrow> money \<Rightarrow> int \<Rightarrow> db \<Rightarrow> db option" where
  "spec_debit u amount now d =
     (case find_wallet u d of
        None \<Rightarrow> None
      | Some w \<Rightarrow> if w_active w \<and> amount \<le> w_balance w then Some (credit_wallet u (- amount) now d) else None)"

definition spec_insert :: "escrow \<Rightarrow> db \<Rightarrow> db option" where
  "spec_insert p d =
     (if find_operation (e_idempotency_key p) d = None \<and> e_model p \<in> set (model_policy_registry d)
      then Some (insert_operation p d) else None)"

definition reserve_identity :: "reserve_request \<Rightarrow> db \<Rightarrow> identity option" where
  "reserve_identity r d = (if has_tenant_id d then Some (identity_from_reserve r) else None)"

definition spec_reserve_scopes :: "settings \<Rightarrow> reserve_request \<Rightarrow> int \<Rightarrow> db \<Rightarrow> db option" where
  "spec_reserve_scopes cfg r now d =
     (case reserve_identity r d of
        None \<Rightarrow> Some d
      | Some i \<Rightarrow> charge_scopes (reserve_scopes cfg r i) (quantize_money (Some (rq_estimated_cost r))) now d)"

text \<open>The reserved operation, its event and its lineage, once the guards have passed.\<close>

definition reserve_row :: "host \<Rightarrow> settings \<Rightarrow> reserve_request \<Rightarrow> int \<Rightarrow> identity option \<Rightarrow> escrow" where
  "reserve_row h cfg r now ident =
     new_operation r ident (fingerprint_reserve_request h r) (quantize_money (Some (rq_estimated_cost r)))
       (trace_cap_of cfg r) now (now + reserve_ttl_seconds cfg)"

definition spec_reserve_log :: "host \<Rightarrow> settings \<Rightarrow> reserve_request \<Rightarrow> int \<Rightarrow> identity option \<Rightarrow> db \<Rightarrow> db" where
  "spec_reserve_log h cfg r now ident d =
     (let amount = quantize_money (Some (rq_estimated_cost r));
          d' = add_sealed_event h now (rq_idempotency_key r) (rq_user_id r) ''RESERVE_CREATED'' (- amount)
                 (reserve_event_metadata r ident (trace_cap_of cfg r)) d
      in case ident of None \<Rightarrow> d'
         | Some i \<Rightarrow> record_lineage (rq_idempotency_key r) i (rq_user_id r) ''RESERVE_CREATED'' None None
             [(''status'', JStr ''RESERVED''), (''reserved_amount'', JStr (decimal_str amount))] now d')"

definition spec_reserve :: "host \<Rightarrow> settings \<Rightarrow> reserve_request \<Rightarrow> int \<Rightarrow> db \<Rightarrow> db option" where
  "spec_reserve h cfg r now d =
     (let amount = quantize_money (Some (rq_estimated_cost r)); ident = reserve_identity r d
      in Option.bind (spec_reserve_scopes cfg r now d) (\<lambda>d1.
         Option.bind (spec_claim (rq_trace_id r) (trace_cap_of cfg r) amount now d1) (\<lambda>d2.
         Option.bind (spec_debit (rq_user_id r) amount now d2) (\<lambda>d3.
         Option.bind (spec_insert (reserve_row h cfg r now ident) d3) (\<lambda>d4.
           Some (spec_reserve_log h cfg r now ident d4))))))"

section \<open>Reserve refines its specification\<close>

definition denial :: "exn \<Rightarrow> bool" where
  "denial e =
     (case e of ConflictError _ \<Rightarrow> True | TraceCapExceededError _ \<Rightarrow> True
      | InsufficientFundsError _ \<Rightarrow> True | _ \<Rightarrow> False)"

lemma same_committed_refl [simp]: "same_committed s s"
  by (rule sc.refl)

lemma same_committed_step [simp]:
  "same_committed s (increment n t) = same_committed s t"
  "same_committed s (on_db f t) = same_committed s t"
  "same_committed s (t\<lparr>db := d\<rparr>) = same_committed s t"
  "same_committed (increment n s) t = same_committed s t"
  "same_committed (on_db f s) t = same_committed s t"
  "same_committed (s\<lparr>db := d\<rparr>) t = same_committed s t"
  by (simp_all add: same_committed_def)

lemma same_db_committed: "same_db s t \<Longrightarrow> same_committed s t"
  by (simp add: same_db_def same_committed_def)

lemma wp_apply_scopes:
  assumes "\<And>d. charge_scopes sc delta now (db s) = Some d \<Longrightarrow> Q () (s\<lparr>db := d\<rparr>)"
    and "\<And>t m. charge_scopes sc delta now (db s) = None \<Longrightarrow> same_committed s t
           \<Longrightarrow> E (BudgetScopeExceededError m) t"
  shows "wp (apply_scopes sc delta now) Q E s"
  using assms
proof (induction sc arbitrary: s)
  case Nil
  then show ?case by (simp add: wp_ret)
next
  case (Cons a sc)
  obtain ty k cap where a: "a = (ty, k, cap)" by (cases a)
  let ?d = "ensure_scope ty k cap now (db s)"
  show ?case
  proof (cases "row_where (scope_is ty k) (budget_scope_state ?d)")
    case None
    then show ?thesis using Cons.prems(2)
      by (simp add: a wp_simps apply_budget_delta_def)
  next
    case (Some b)
    show ?thesis
    proof (cases "b_consumed_amount b + delta \<le> b_cap_amount b")
      case True
      let ?s = "on_db (consume_scope ty k delta now) (on_db (ensure_scope ty k cap now) s)"
      have "wp (apply_scopes sc delta now) Q E ?s"
      proof (rule Cons.IH)
        fix d assume "charge_scopes sc delta now (db ?s) = Some d"
        then have "Q () (s\<lparr>db := d\<rparr>)" using Cons.prems(1) Some True by (simp add: a)
        then show "Q () (?s\<lparr>db := d\<rparr>)" by (simp add: on_db_def)
      next
        fix t m assume "charge_scopes sc delta now (db ?s) = None" "same_committed ?s t"
        then show "E (BudgetScopeExceededError m) t"
          using Cons.prems(2) Some True by (simp add: a same_committed_def)
      qed
      then show ?thesis using Some True
        by (simp add: a wp_simps apply_budget_delta_def)
    next
      case False
      then show ?thesis using Some Cons.prems(2)
        by (simp add: a wp_simps apply_budget_delta_def)
    qed
  qed
qed

lemma wp_claim_trace:
  assumes "\<And>d. spec_claim t cap amount now (db s) = Some d \<Longrightarrow> Q () (s\<lparr>db := d\<rparr>)"
    and "\<And>e u. spec_claim t cap amount now (db s) = None \<Longrightarrow> same_committed s u \<Longrightarrow> denial e \<Longrightarrow> E e u"
  shows "wp (claim_trace t cap amount now) Q E s"
proof -
  let ?d = "ensure_trace t cap now (db s)"
  have "find_trace t ?d \<noteq> None"
    by (auto simp: ensure_trace_def find_trace_def)
  then obtain b where b: "find_trace t ?d = Some b" by blast
  show ?thesis
    using assms b
    by (auto simp: claim_trace_def wp_simps spec_claim_def on_db_def denial_def)
qed

lemma wp_debit_wallet:
  assumes "\<And>d. spec_debit u amount now (db s) = Some d \<Longrightarrow> Q () (s\<lparr>db := d\<rparr>)"
    and "\<And>e t. spec_debit u amount now (db s) = None \<Longrightarrow> same_committed s t \<Longrightarrow> denial e \<Longrightarrow> E e t"
  shows "wp (debit_wallet u amount now) Q E s"
  using assms
  by (auto simp: debit_wallet_def wp_simps spec_debit_def on_db_def denial_def split: option.splits)

lemma wp_insert_escrow:
  assumes "\<And>d. spec_insert p (db s) = Some d \<Longrightarrow> Q () (s\<lparr>db := d\<rparr>)"
    and "\<And>e t. spec_insert p (db s) = None \<Longrightarrow> same_committed s t \<Longrightarrow> denial e \<Longrightarrow> E e t"
  shows "wp (insert_escrow p) Q E s"
  using assms
  by (auto simp: insert_escrow_def wp_simps spec_insert_def on_db_def denial_def)

lemma wp_reserve_attribution:
  assumes "\<And>d. charge_scopes (reserve_scopes cfg r i) (quantize_money (Some (rq_estimated_cost r))) now (db s) = Some d
      \<Longrightarrow> \<not> (needs_approval cfg r \<and> \<not> truthy (rq_manual_approval_id r)) \<Longrightarrow> Q () (s\<lparr>db := d\<rparr>)"
    and "\<And>e t. charge_scopes (reserve_scopes cfg r i) (quantize_money (Some (rq_estimated_cost r))) now (db s) = None
      \<Longrightarrow> same_committed s t \<Longrightarrow> denial e \<Longrightarrow> E e t"
    and "\<And>m t. needs_approval cfg r \<Longrightarrow> \<not> truthy (rq_manual_approval_id r)
      \<Longrightarrow> committed t = approval_incident r i now (db s) \<Longrightarrow> clock t = clock s
      \<Longrightarrow> E (PolicyStateError m) t"
  shows "wp (reserve_attribution cfg r i now) Q E s"
proof (cases "needs_approval cfg r \<and> \<not> truthy (rq_manual_approval_id r)")
  case True
  then show ?thesis
    using assms(3) by (simp add: reserve_attribution_def enforce_manual_approval_def wp_simps)
next
  case False
  have "wp (apply_scopes (reserve_scopes cfg r i) (quantize_money (Some (rq_estimated_cost r))) now) Q
      (\<lambda>e. wp (case e of
          BudgetScopeExceededError m \<Rightarrow>
            seqE (modifyE (increment ''reserve_denied_trace_cap_total'')) (throw (TraceCapExceededError m))
        | AttributionPolicyError m \<Rightarrow> throw (PolicyStateError m)
        | _ \<Rightarrow> throw e) Q E) s"
    by (rule wp_apply_scopes) (use assms(1,2) False in \<open>simp_all add: wp_simps denial_def\<close>)
  with False show ?thesis
    by (auto simp: reserve_attribution_def enforce_manual_approval_def apply_reserve_budget_scopes_def
        wp_simps)
qed

text \<open>
  The handler after its circuit check, from a state whose hash chain is well formed: it
  commits the specified database, or raises a denial that the specification shares, or
  raises for a missing approval, with the incident as the only committed change.
\<close>

lemma wp_reserve_new:
  assumes ok: "chain_ok h (db s)" "digest_ok h"
    and now: "now = clock s" and ident: "ident = reserve_identity r (db s)"
    and Q: "\<And>d t. spec_reserve h cfg r now (db s) = Some d \<Longrightarrow> committed t = d \<Longrightarrow> db t = d
        \<Longrightarrow> Q \<lparr>or_idempotency_key = rq_idempotency_key r, or_status = RESERVED,
              or_actual_amount = quantize_money (Some (rq_estimated_cost r))\<rparr> t"
    and E: "\<And>e t. spec_reserve h cfg r now (db s) = None \<Longrightarrow> same_committed s t \<Longrightarrow> denial e \<Longrightarrow> E e t"
    and A: "\<And>m t i. ident = Some i \<Longrightarrow> needs_approval cfg r \<Longrightarrow> \<not> truthy (rq_manual_approval_id r)
        \<Longrightarrow> committed t = approval_incident r i now (db s) \<Longrightarrow> clock t = clock s
        \<Longrightarrow> E (PolicyStateError m) t"
  shows "wp (reserve_new h cfg r (fingerprint_reserve_request h r) now ident) Q E s"
proof -
  define amount cap where "amount = quantize_money (Some (rq_estimated_cost r))" and "cap = trace_cap_of cfg r"
  define row where "row = reserve_row h cfg r now ident"
  have spec: "spec_reserve h cfg r now (db s) =
      Option.bind (spec_reserve_scopes cfg r now (db s)) (\<lambda>d1.
      Option.bind (spec_claim (rq_trace_id r) cap amount now d1) (\<lambda>d2.
      Option.bind (spec_debit (rq_user_id r) amount now d2) (\<lambda>d3.
      Option.bind (spec_insert row d3) (\<lambda>d4. Some (spec_reserve_log h cfg r now ident d4)))))"
    by (simp add: spec_reserve_def amount_def cap_def row_def ident Let_def)
  have tail: "wp (stepsE
        [claim_trace (rq_trace_id r) cap amount now,
         debit_wallet (rq_user_id r) amount now,
         insert_escrow row,
         append_event h (rq_idempotency_key r) (rq_user_id r) ''RESERVE_CREATED'' (- amount)
           (reserve_event_metadata r ident cap),
         (case ident of None \<Rightarrow> ret ()
          | Some i \<Rightarrow> modifyE (on_db (record_lineage (rq_idempotency_key r) i (rq_user_id r)
              ''RESERVE_CREATED'' None None
              [(''status'', JStr ''RESERVED''), (''reserved_amount'', JStr (decimal_str amount))] now))),
         modifyE commit,
         modifyE (increment ''reserve_success_total'')])
        (\<lambda>_. Q \<lparr>or_idempotency_key = rq_idempotency_key r, or_status = RESERVED, or_actual_amount = amount\<rparr>)
        E (s\<lparr>db := d1\<rparr>)"
    if d1: "spec_reserve_scopes cfg r now (db s) = Some d1" and c1: "chain_ok h d1" for d1
    unfolding wp_stepsE
  proof (rule wp_claim_trace, goal_cases)
    case (2 e u)
    then show ?case by (intro E) (simp_all add: spec d1)
  next
    case (1 d2)
    then have s2: "spec_claim (rq_trace_id r) cap amount now d1 = Some d2" by simp
    then have c2: "chain_ok h d2" using c1 by (auto simp: spec_claim_def split: option.splits if_splits)
    show ?case
    proof (rule wp_debit_wallet, goal_cases)
      case (2 e u)
      then show ?case by (intro E) (simp_all add: spec d1 s2)
    next
      case (1 d3)
      then have s3: "spec_debit (rq_user_id r) amount now d2 = Some d3" by simp
      then have c3: "chain_ok h d3" using c2 by (auto simp: spec_debit_def split: option.splits if_splits)
      show ?case
      proof (rule wp_insert_escrow, goal_cases)
        case (2 e u)
        then show ?case by (intro E) (simp_all add: spec d1 s2 s3)
      next
        case (1 d4)
        then have s4: "spec_insert row d3 = Some d4" by simp
        then have c4: "chain_ok h d4" using c3 by (auto simp: spec_insert_def split: if_splits)
        have "spec_reserve h cfg r now (db s) = Some (spec_reserve_log h cfg r now ident d4)"
          by (simp add: spec d1 s2 s3 s4)
        then show ?case
          using Q c4 ok(2) now
          by (cases ident) (simp_all add: wp_simps append_event_def wp_append_sealed spec_reserve_log_def
              amount_def cap_def Let_def)
      qed
    qed
  qed
  show ?thesis
  proof (cases ident)
    case None
    then have "spec_reserve_scopes cfg r now (db s) = Some (db s)"
      using ident by (simp add: spec_reserve_scopes_def)
    from tail [OF this ok(1)] None show ?thesis
      by (simp add: reserve_new_def Let_def wp_simps amount_def cap_def row_def reserve_row_def)
  next
    case (Some i)
    have sc: "spec_reserve_scopes cfg r now (db s) = charge_scopes (reserve_scopes cfg r i) amount now (db s)"
      using Some ident by (simp add: spec_reserve_scopes_def amount_def)
    have chain: "chain_ok h d1" if "charge_scopes sc delta now d = Some d1" "chain_ok h d" for sc delta d d1
      using that by (induction sc arbitrary: d) (auto split: option.splits if_splits)
    have "wp (reserve_attribution cfg r i now) (\<lambda>_. wp (stepsE
        [claim_trace (rq_trace_id r) cap amount now,
         debit_wallet (rq_user_id r) amount now,
         insert_escrow row,
         append_event h (rq_idempotency_key r) (rq_user_id r) ''RESERVE_CREATED'' (- amount)
           (reserve_event_metadata r ident cap),
         (case ident of None \<Rightarrow> ret ()
          | Some i \<Rightarrow> modifyE (on_db (record_lineage (rq_idempotency_key r) i (rq_user_id r)
              ''RESERVE_CREATED'' None None
              [(''status'', JStr ''RESERVED''), (''reserved_amount'', JStr (decimal_str amount))] now))),
         modifyE commit,
         modifyE (increment ''reserve_success_total'')])
        (\<lambda>_. Q \<lparr>or_idempotency_key = rq_idempotency_key r, or_status = RESERVED, or_actual_amount = amount\<rparr>)
        E) E s"
    proof (rule wp_reserve_attribution, goal_cases)
      case (1 d)
      then have "spec_reserve_scopes cfg r now (db s) = Some d" by (simp add: sc amount_def)
      from tail [OF this] chain [OF 1(1) ok(1)] show ?case by blast
    next
      case (2 e t)
      then show ?case by (intro E) (simp_all add: spec sc amount_def)
    next
      case (3 m t)
      then show ?case using A [OF Some] by blast
    qed
    then show ?thesis
      using Some
      by (simp add: reserve_new_def Let_def wp_simps amount_def cap_def row_def reserve_row_def)
  qed
qed

definition replay_result :: "escrow \<Rightarrow> op_result" where
  "replay_result p =
     \<lparr>or_idempotency_key = e_idempotency_key p, or_status = e_status p,
      or_actual_amount = (if e_status p \<noteq> SETTLED \<and> e_actual_amount p = 0 then e_reserved_amount p
                          else e_actual_amount p)\<rparr>"

definition reserved_result :: "reserve_request \<Rightarrow> op_result" where
  "reserved_result r =
     \<lparr>or_idempotency_key = rq_idempotency_key r, or_status = RESERVED,
      or_actual_amount = quantize_money (Some (rq_estimated_cost r))\<rparr>"

lemma breaker_init_returns: "wp (breaker_init h cfg) (\<lambda>_ _. True) (\<lambda>_ _. False) s"
  by (simp add: breaker_init_def breaker_connect_def redis_call_def wp_simps split: option.split)

lemma assert_circuit_closed_errors:
  "wp (assert_circuit_closed h cfg n) (\<lambda>_ _. True) (\<lambda>e _. \<exists>m. e = PolicyStateError m) s"
  unfolding assert_circuit_closed_def wp_bindE
proof (rule wp_conseq [OF breaker_init_returns])
  fix b t
  show "wp (catchE (breaker_assert_closed h n b)
         (\<lambda>e. case e of
            CircuitOpenError _ \<Rightarrow> throw (PolicyStateError (''provider circuit open for '' @ n))
          | _ \<Rightarrow> throw (PolicyStateError (''circuit breaker unavailable for '' @ n))))
         (\<lambda>_ _. True) (\<lambda>e _. \<exists>m. e = PolicyStateError m) t"
    unfolding wp_catchE
  proof (rule wp_any)
    fix e u
    show "wp (case e of
            CircuitOpenError _ \<Rightarrow> throw (PolicyStateError (''provider circuit open for '' @ n))
          | _ \<Rightarrow> throw (PolicyStateError (''circuit breaker unavailable for '' @ n)))
         (\<lambda>_ _. True) (\<lambda>e _. \<exists>m. e = PolicyStateError m) u"
      by (cases e) (simp_all add: wp_simps)
  qed simp
qed simp

lemma wp_reserve_operation:
  assumes ok: "chain_ok h (db s)" "digest_ok h"
    and R: "\<And>p t. find_operation (rq_idempotency_key r) (db s) = Some p
        \<Longrightarrow> e_request_fingerprint p = fingerprint_reserve_request h r \<Longrightarrow> same_db s t
        \<Longrightarrow> Q (replay_result p) t"
    and Q: "\<And>d t. find_operation (rq_idempotency_key r) (db s) = None
        \<Longrightarrow> spec_reserve h cfg r (clock s) (db s) = Some d \<Longrightarrow> committed t = d \<Longrightarrow> db t = d
        \<Longrightarrow> Q (reserved_result r) t"
    and E: "\<And>e t. same_committed s t
        \<Longrightarrow> (\<exists>m. e = PolicyStateError m) \<or> denial e \<and> (find_operation (rq_idempotency_key r) (db s) = None
              \<longrightarrow> spec_reserve h cfg r (clock s) (db s) = None) \<Longrightarrow> E e t"
    and A: "\<And>m t i. find_operation (rq_idempotency_key r) (db s) = None
        \<Longrightarrow> needs_approval cfg r \<Longrightarrow> \<not> truthy (rq_manual_approval_id r)
        \<Longrightarrow> committed t = approval_incident r i (clock s) (db s) \<Longrightarrow> E (PolicyStateError m) t"
  shows "wp (reserve_operation h cfg r) Q E s"
proof (cases "find_operation (rq_idempotency_key r) (db s)")
  case (Some p)
  then show ?thesis
    using R [OF Some] E
    by (auto simp: reserve_operation_def Let_def wp_simps reserve_replay_def replay_result_def denial_def)
next
  case None
  have new: "wp (reserve_new h cfg r (fingerprint_reserve_request h r) (clock s)
      (if schema_supports_attribution (db t) then Some (identity_from_reserve r) else None)) Q E t"
    if t: "same_db s t" for t
  proof (rule wp_reserve_new [OF _ ok(2)], goal_cases)
    case 1
    then show ?case using t ok by (simp add: same_db_def)
  next
    case 2
    then show ?case using t by (simp add: same_db_def)
  next
    case 3
    then show ?case by (simp add: reserve_identity_def schema_supports_attribution_def)
  next
    case (4 d u)
    then show ?case using Q [OF None] t by (simp add: same_db_def reserved_result_def)
  next
    case (5 e u)
    then show ?case
      using E [of u e] t sc.trans [OF same_db_committed [OF t]] by (simp add: same_db_def)
  next
    case (6 m u i)
    then show ?case using A [OF None] t by (simp add: same_db_def)
  qed
  have closed: "wp (assert_circuit_closed h cfg (rq_model r)) Q' E s" if "\<And>t. same_db s t \<Longrightarrow> Q' () t" for Q'
    by (rule wp_conseq [OF wp_conj [OF assert_circuit_closed_errors keeps_wp [OF keeps_assert_circuit_closed]]])
      (use that E same_db_committed in auto)
  have "wp (seqE (assert_circuit_closed h cfg (rq_model r))
            (getsE (\<lambda>s. schema_supports_attribution (db s)) (\<lambda>supported.
              reserve_new h cfg r (fingerprint_reserve_request h r) (clock s)
                (if supported then Some (identity_from_reserve r) else None)))) Q E s"
    unfolding wp_seqE by (rule closed) (simp add: wp_getsE new)
  then show ?thesis using None by (simp add: reserve_operation_def Let_def wp_getsE)
qed

section \<open>Settlement\<close>

definition spec_upsert :: "string \<Rightarrow> string \<Rightarrow> settle_request \<Rightarrow> int \<Rightarrow> db \<Rightarrow> db option" where
  "spec_upsert attempt_key k r now d =
     (if attempt_id_taken attempt_key (st_provider_request_id r) d then None
      else Some (put_attempt (attempt_of attempt_key k r now) d))"

definition spec_change :: "string \<Rightarrow> string option \<Rightarrow> (escrow \<Rightarrow> escrow) \<Rightarrow> db \<Rightarrow> db option" where
  "spec_change k x f d = (if provider_id_taken k x d then None else Some (change_operation k f d))"

definition spec_settle_wallet :: "host \<Rightarrow> escrow \<Rightarrow> money \<Rightarrow> money \<Rightarrow> int \<Rightarrow> db \<Rightarrow> db" where
  "spec_settle_wallet h p refund correction now d =
     (let k = e_idempotency_key p; u = e_user_id p;
          d1 = (if refund = 0 then d
                else add_sealed_event h now k u ''SETTLEMENT_REFUND'' refund
                       [(''reason'', JStr ''unused_reserve_refund'')] (credit_wallet u refund now d))
      in if correction = 0 then d1
         else add_sealed_event h now k u ''SETTLEMENT_CORRECTION_DEBIT'' (- correction)
                [(''reason'', JStr ''authoritative_provider_settlement''),
                 (''late_after_expiry'', JBool (late_after_expiry (e_status p)))]
                (credit_wallet u (- correction) now d1))"

definition spec_settle_budget :: "settings \<Rightarrow> escrow \<Rightarrow> money \<Rightarrow> int \<Rightarrow> db \<Rightarrow> db option" where
  "spec_settle_budget cfg p delta now d =
     (if has_tenant_id d \<and> delta \<noteq> 0 then charge_scopes (settlement_scopes cfg p) delta now d else Some d)"

definition overdrawn :: "string \<Rightarrow> db \<Rightarrow> bool" where
  "overdrawn u d = (case find_wallet u d of None \<Rightarrow> False | Some w \<Rightarrow> w_balance w < 0)"

definition spec_drift :: "host \<Rightarrow> settings \<Rightarrow> escrow \<Rightarrow> money \<Rightarrow> money \<Rightarrow> int \<Rightarrow> db \<Rightarrow> db" where
  "spec_drift h cfg p drift reserved now d =
     (let k = e_idempotency_key p; u = e_user_id p
      in if drift \<le> 0 then d
         else if drift_exceeds_tolerance drift reserved cfg
         then add_sealed_event h now k u ''DRIFT_ENFORCED'' 0
                [(''drift_amount'', JStr (decimal_str drift)),
                 (''threshold_absolute'', JStr (decimal_str (quantize_money (Some (drift_absolute_tolerance cfg))))),
                 (''threshold_ratio'', JStr (decimal_str (quantize_money (Some (drift_ratio_tolerance cfg)))))]
                (lock_wallet u ''DRIFT_THRESHOLD_EXCEEDED'' now d)
         else add_sealed_event h now k u ''DRIFT_TOLERATED'' 0
                [(''drift_amount'', JStr (decimal_str drift))] d)"

text \<open>The terminal event and the lineage record of a settlement.\<close>

definition spec_settle_log ::
  "host \<Rightarrow> escrow \<Rightarrow> settle_request \<Rightarrow> money \<Rightarrow> money \<Rightarrow> int \<Rightarrow> db \<Rightarrow> db" where
  "spec_settle_log h p r actual reserved now d =
     (let k = e_idempotency_key p; u = e_user_id p; reason = settlement_reason (e_status p);
          d' = add_sealed_event h now k u reason 0 (settle_event_metadata p r) d
      in if has_tenant_id d
         then record_lineage k (identity_from_operation p) u reason (Some r) (st_provider_request_id r)
                [(''status'', JStr ''SETTLED''), (''actual_amount'', JStr (decimal_str actual)),
                 (''reserved_amount'', JStr (decimal_str reserved))] now d'
         else d')"

definition spec_settle_balances ::
  "host \<Rightarrow> settings \<Rightarrow> escrow \<Rightarrow> money \<Rightarrow> money \<Rightarrow> int \<Rightarrow> db \<Rightarrow> db option" where
  "spec_settle_balances h cfg p actual reserved now d =
     spec_settle_budget cfg p (budget_delta (e_status p) reserved actual) now
       (move_trace (e_trace_id p) (if reserved_still_held (e_status p) then - reserved else 0) actual now
          (spec_settle_wallet h p (refund_amount (e_status p) reserved actual)
             (correction_debit (e_status p) reserved actual) now d))"

definition spec_settle_close ::
  "host \<Rightarrow> settings \<Rightarrow> escrow \<Rightarrow> settle_request \<Rightarrow> money \<Rightarrow> money \<Rightarrow> int \<Rightarrow> db \<Rightarrow> db option" where
  "spec_settle_close h cfg p r actual reserved now d =
     (if overdrawn (e_user_id p) d then None
      else Some (spec_drift h cfg p (actual - reserved) reserved now
             (spec_settle_log h p r actual reserved now d)))"

definition spec_settle_attempt :: "escrow \<Rightarrow> settle_request \<Rightarrow> int \<Rightarrow> db \<Rightarrow> db option" where
  "spec_settle_attempt p r now d =
     (if truthy (st_dispatch_attempt_key r)
      then spec_upsert (the (st_dispatch_attempt_key r)) (e_idempotency_key p) r now d else Some d)"

definition spec_settle :: "host \<Rightarrow> settings \<Rightarrow> escrow \<Rightarrow> settle_request \<Rightarrow> int \<Rightarrow> db \<Rightarrow> db option" where
  "spec_settle h cfg p r now d =
     (let actual = quantize_money (Some (st_actual_cost r)); reserved = e_reserved_amount p
      in Option.bind (spec_settle_attempt p r now d) (\<lambda>d1.
         Option.bind (spec_settle_balances h cfg p actual reserved now d1) (\<lambda>d2.
         Option.bind (spec_change (e_idempotency_key p) (st_provider_request_id r)
              (settled_row r actual (settlement_reason (e_status p)) (actual - reserved) now) d2) (\<lambda>d3.
           spec_settle_close h cfg p r actual reserved now d3))))"

definition spec_loop :: "escrow \<Rightarrow> settle_request \<Rightarrow> settings \<Rightarrow> int \<Rightarrow> db \<Rightarrow> db option" where
  "spec_loop p r cfg now d =
     (if \<not> has_tenant_id d \<or> \<not> truthy (st_loop_signature r) then Some d
      else let signature = the (st_loop_signature r)
           in case loop_row p signature d of
                None \<Rightarrow> Some (insert_loop (loop_scope_key p signature) signature now d)
              | Some l \<Rightarrow> if max_loop_repeats cfg \<le> l_consecutive_count l then None
                          else Some (bump_loop (loop_scope_key p signature) now d))"

definition spec_record :: "host \<Rightarrow> settings \<Rightarrow> escrow \<Rightarrow> settle_request \<Rightarrow> int \<Rightarrow> db \<Rightarrow> db option" where
  "spec_record h cfg p r now d =
     (let k = e_idempotency_key p
      in if e_status p = SETTLED \<or> e_status p = EXPIRED \<or> \<not> truthy (st_dispatch_attempt_key r) then None
         else Option.bind (spec_loop p r cfg now d) (\<lambda>d1.
              Option.bind (spec_upsert (the (st_dispatch_attempt_key r)) k r now d1) (\<lambda>d2.
              Option.bind (spec_change k (st_provider_request_id r) (dispatched_row r now) d2) (\<lambda>d3.
                Some (add_sealed_event h now k (e_user_id p) (attempt_event_type r) 0
                  (attempt_event_metadata r) d3)))))"

section \<open>Settlement refines its specification\<close>

lemma chain_ok_add [simp]: "digest_ok h \<Longrightarrow> chain_ok h d \<Longrightarrow> chain_ok h (add_sealed_event h now k u ty a m d)"
  by (rule add_sealed_event_chain)

lemma charge_scopes_chain:
  "charge_scopes sc delta now d = Some d' \<Longrightarrow> chain_ok h d \<Longrightarrow> chain_ok h d'"
  by (induction sc arbitrary: d) (auto split: option.splits if_splits)

lemma charge_scopes_tables:
  assumes "charge_scopes sc delta now d = Some d'"
  shows "d' = d\<lparr>budget_scope_state := budget_scope_state d'\<rparr>"
  using assms
proof (induction sc arbitrary: d)
  case Nil
  then show ?case by simp
next
  case (Cons x sc)
  then show ?case
    by (cases x) (fastforce simp: ensure_scope_def consume_scope_def split: option.splits if_splits)
qed

lemma wp_upsert_attempt:
  assumes "\<And>d. spec_upsert ak k r now (db s) = Some d \<Longrightarrow> Q () (s\<lparr>db := d\<rparr>)"
    and "\<And>m t. spec_upsert ak k r now (db s) = None \<Longrightarrow> same_committed s t \<Longrightarrow> E (ConflictError m) t"
  shows "wp (upsert_attempt ak k r now) Q E s"
  using assms by (auto simp: upsert_attempt_def wp_simps spec_upsert_def on_db_def)

lemma wp_update_operation:
  assumes "\<And>d. spec_change k x f (db s) = Some d \<Longrightarrow> Q () (s\<lparr>db := d\<rparr>)"
    and "\<And>t. spec_change k x f (db s) = None \<Longrightarrow> same_committed s t \<Longrightarrow> E IntegrityError t"
  shows "wp (update_operation k x f) Q E s"
  using assms by (auto simp: update_operation_def wp_simps spec_change_def on_db_def)

lemma wp_settle_wallet:
  assumes "chain_ok h (db s)" "digest_ok h" "now = clock s"
    and "\<And>t. db t = spec_settle_wallet h p refund correction now (db s) \<Longrightarrow> same_committed s t \<Longrightarrow> Q () t"
  shows "wp (settle_wallet h p refund correction now) Q E s"
  using assms
  by (auto simp: settle_wallet_def wp_simps append_event_def wp_append_sealed spec_settle_wallet_def Let_def)

lemma wp_settle_budget:
  assumes "\<And>d. spec_settle_budget cfg p delta now (db s) = Some d \<Longrightarrow> Q () (s\<lparr>db := d\<rparr>)"
    and "\<And>m t. spec_settle_budget cfg p delta now (db s) = None \<Longrightarrow> same_committed s t
       \<Longrightarrow> E (TraceCapExceededError m) t"
  shows "wp (settle_budget cfg p delta now) Q E s"
proof (cases "has_tenant_id (db s) \<and> delta \<noteq> 0")
  case True
  have "wp (apply_scopes (settlement_scopes cfg p) delta now) Q
      (\<lambda>e. wp (case e of BudgetScopeExceededError m \<Rightarrow> throw (TraceCapExceededError m) | _ \<Rightarrow> throw e) Q E) s"
    by (rule wp_apply_scopes) (use assms True in \<open>simp_all add: wp_simps spec_settle_budget_def\<close>)
  with True show ?thesis
    by (simp add: settle_budget_def wp_simps schema_supports_attribution_def
        apply_settlement_budget_scopes_def)
next
  case False
  then show ?thesis
    using assms(1) [of "db s"]
    by (auto simp: settle_budget_def wp_simps schema_supports_attribution_def spec_settle_budget_def)
qed

lemma wp_enforce_drift:
  assumes "chain_ok h (db s)" "digest_ok h" "now = clock s"
    and "\<And>t. db t = spec_drift h cfg p drift reserved now (db s) \<Longrightarrow> same_committed s t \<Longrightarrow> Q () t"
  shows "wp (enforce_drift h cfg p drift reserved now) Q E s"
  using assms
  by (auto simp: enforce_drift_def wp_simps append_event_def wp_append_sealed spec_drift_def Let_def
      max_def)

lemma keeps_breaker_record_success: "keeps same_db (breaker_record_success h n b)"
  unfolding breaker_record_success_def
  by (intro sd.keeps_rules keeps_local_record_success keeps_redis_call)

lemma wp_record_provider_success:
  assumes "\<And>t. same_db s t \<Longrightarrow> Q () t"
  shows "wp (record_provider_success h cfg n) Q E s"
  unfolding record_provider_success_def
  by (rule wp_ignoring_errors)
    (simp_all add: assms sd.keeps_bindE keeps_get_circuit_breaker keeps_breaker_record_success)

lemma wp_record_provider_failure:
  assumes "\<And>t. same_db s t \<Longrightarrow> Q () t"
  shows "wp (record_provider_failure h cfg n) Q E s"
  unfolding record_provider_failure_def
proof (rule wp_ignoring_errors)
  have "keeps same_db (modifyE (set_breaker_degraded b))" for b
    by (rule sd.keeps_modifyE) (simp add: same_db_def set_breaker_degraded_def)
  then show "keeps same_db (bindE (get_circuit_breaker h cfg) (\<lambda>degraded.
       bindE (breaker_record_failure h cfg n degraded) (\<lambda>degraded'.
         modifyE (set_breaker_degraded degraded'))))"
    by (intro sd.keeps_bindE keeps_get_circuit_breaker keeps_breaker_record_failure)
qed (rule assms)

lemma wp_release_inflight_guardrail:
  assumes "\<And>t. same_db s t \<Longrightarrow> Q () t"
  shows "wp (release_inflight_guardrail h cfg u) Q E s"
  unfolding release_inflight_guardrail_def
  by (rule wp_ignoring_errors) (simp_all add: assms keeps_release_reserve)

lemma wp_settle_balances:
  assumes ok: "chain_ok h (db s)" "digest_ok h" "now = clock s"
    and Q: "\<And>d t. spec_settle_balances h cfg p actual reserved now (db s) = Some d \<Longrightarrow> db t = d
       \<Longrightarrow> same_committed s t \<Longrightarrow> Q () t"
    and E: "\<And>m t. spec_settle_balances h cfg p actual reserved now (db s) = None \<Longrightarrow> same_committed s t
       \<Longrightarrow> E (TraceCapExceededError m) t"
  shows "wp (settle_balances h cfg p actual reserved now) Q E s"
  unfolding settle_balances_def wp_ext
proof (rule wp_settle_wallet [OF ok])
  fix t assume t: "db t = spec_settle_wallet h p (refund_amount (e_status p) reserved actual)
      (correction_debit (e_status p) reserved actual) now (db s)" "same_committed s t"
  show "wp (settle_trace p reserved actual now)
      (\<lambda>_. wp (settle_budget cfg p (budget_delta (e_status p) reserved actual) now) (\<lambda>_. Q ()) E) E t"
    unfolding settle_trace_def wp_modifyE
  proof (rule wp_settle_budget, goal_cases)
    case (1 d)
    then show ?case using t by (intro Q) (simp_all add: spec_settle_balances_def)
  next
    case (2 e u)
    then show ?case using t sc.trans [OF t(2), of u] by (intro E) (simp_all add: spec_settle_balances_def)
  qed
qed

lemma wp_settle_close:
  assumes ok: "chain_ok h (db s)" "digest_ok h" "now = clock s"
    and Q: "\<And>d t. spec_settle_close h cfg p r actual reserved now (db s) = Some d \<Longrightarrow> db t = d
       \<Longrightarrow> same_committed s t \<Longrightarrow> Q () t"
    and E: "\<And>m t. spec_settle_close h cfg p r actual reserved now (db s) = None \<Longrightarrow> same_committed s t
       \<Longrightarrow> E (LedgerError m) t"
  shows "wp (settle_close h cfg p r actual reserved now) Q E s"
proof -
  let ?n = "str_or (st_provider_name r) (str_or (Some (e_model p)) ''unknown'')"
  let ?d = "add_sealed_event h now (e_idempotency_key p) (e_user_id p) (settlement_reason (e_status p)) 0
        (settle_event_metadata p r) (db s)"
  have over: "overdrawn (e_user_id p) ?d = overdrawn (e_user_id p) (db s)"
    by (simp add: overdrawn_def find_wallet_def)
  have drift: "wp (enforce_drift h cfg p (actual - reserved) reserved now) Q E u"
    if u: "db u = spec_settle_log h p r actual reserved now (db s)" "same_committed s u"
      and no: "\<not> overdrawn (e_user_id p) (db s)" for u
  proof (rule wp_enforce_drift [OF _ ok(2)])
    show "chain_ok h (db u)" using ok by (simp add: u spec_settle_log_def Let_def)
    show "now = clock u" using ok u by (simp add: same_committed_def)
    fix v assume v: "db v = spec_drift h cfg p (actual - reserved) reserved now (db u)" "same_committed u v"
    show "Q () v" by (rule Q [OF _ v(1) sc.trans [OF u(2) v(2)]]) (simp add: spec_settle_close_def no u)
  qed
  have main: "wp (record_provider_success h cfg ?n) (\<lambda>_. wp (stepsE
      [settle_lineage p r (settlement_reason (e_status p)) actual reserved now,
       enforce_drift h cfg p (actual - reserved) reserved now]) Q E) E t"
    if t: "db t = ?d" "same_committed s t" "\<not> overdrawn (e_user_id p) (db s)" for t
  proof (rule wp_record_provider_success)
    fix t' assume t': "same_db t t'"
    show "wp (stepsE [settle_lineage p r (settlement_reason (e_status p)) actual reserved now,
       enforce_drift h cfg p (actual - reserved) reserved now]) Q E t'"
      using t t' drift sc.trans [OF t(2) same_db_committed [OF t']]
      by (auto simp: settle_lineage_def wp_simps schema_supports_attribution_def spec_settle_log_def Let_def
          same_db_def)
  qed
  show ?thesis
    using ok main over E
    by (auto simp: settle_close_def spec_settle_close_def wp_simps append_event_def wp_append_sealed
        detect_duplicate_settlement_events_def enforce_non_negative_wallet_balance_def overdrawn_def
        find_wallet_def split: option.splits)
qed

lemma spec_attempt_chain:
  "spec_settle_attempt p r now d = Some d' \<Longrightarrow> chain_ok h d \<Longrightarrow> chain_ok h d'"
  by (auto simp: spec_settle_attempt_def spec_upsert_def split: if_splits)

lemma spec_balances_chain:
  "spec_settle_balances h cfg p actual reserved now d = Some d' \<Longrightarrow> digest_ok h \<Longrightarrow> chain_ok h d \<Longrightarrow> chain_ok h d'"
  by (auto simp: spec_settle_balances_def spec_settle_budget_def spec_settle_wallet_def Let_def
      elim!: charge_scopes_chain split: if_splits)

lemma spec_change_chain: "spec_change k x f d = Some d' \<Longrightarrow> chain_ok h d \<Longrightarrow> chain_ok h d'"
  by (auto simp: spec_change_def split: if_splits)

lemma wp_settle_attempt:
  assumes "\<And>d. spec_settle_attempt p r now (db s) = Some d \<Longrightarrow> Q () (s\<lparr>db := d\<rparr>)"
    and "\<And>m t. spec_settle_attempt p r now (db s) = None \<Longrightarrow> same_committed s t \<Longrightarrow> E (ConflictError m) t"
  shows "wp (whenE (truthy (st_dispatch_attempt_key r))
     (upsert_attempt (the (st_dispatch_attempt_key r)) (e_idempotency_key p) r now)) Q E s"
proof (cases "truthy (st_dispatch_attempt_key r)")
  case True
  then show ?thesis
    using assms by (auto simp: wp_whenE spec_settle_attempt_def intro!: wp_upsert_attempt)
next
  case False
  then show ?thesis using assms(1) [of "db s"] by (simp add: wp_whenE spec_settle_attempt_def)
qed

text \<open>The exception that the first failing stage of a settlement raises.\<close>

definition settle_error :: "host \<Rightarrow> settings \<Rightarrow> escrow \<Rightarrow> settle_request \<Rightarrow> int \<Rightarrow> db \<Rightarrow> exn \<Rightarrow> bool" where
  "settle_error h cfg p r now d e =
     (let actual = quantize_money (Some (st_actual_cost r)); reserved = e_reserved_amount p
      in case spec_settle_attempt p r now d of
           None \<Rightarrow> (\<exists>m. e = ConflictError m)
         | Some d1 \<Rightarrow>
             (case spec_settle_balances h cfg p actual reserved now d1 of
                None \<Rightarrow> (\<exists>m. e = TraceCapExceededError m)
              | Some d2 \<Rightarrow>
                  (case spec_change (e_idempotency_key p) (st_provider_request_id r)
                      (settled_row r actual (settlement_reason (e_status p)) (actual - reserved) now) d2 of
                     None \<Rightarrow> e = IntegrityError
                   | Some d3 \<Rightarrow> overdrawn (e_user_id p) d3 \<and> (\<exists>m. e = LedgerError m))))"

lemma wp_finalize_settlement:
  assumes ok: "chain_ok h (db s)" "digest_ok h" and open_op: "e_status p \<noteq> SETTLED"
    and Q: "\<And>d t. spec_settle h cfg p r (clock s) (db s) = Some d \<Longrightarrow> db t = d \<Longrightarrow> same_committed s t
       \<Longrightarrow> Q \<lparr>or_idempotency_key = e_idempotency_key p, or_status = SETTLED,
             or_actual_amount = quantize_money (Some (st_actual_cost r))\<rparr> t"
    and E: "\<And>e t. spec_settle h cfg p r (clock s) (db s) = None \<Longrightarrow> settle_error h cfg p r (clock s) (db s) e
       \<Longrightarrow> same_committed s t \<Longrightarrow> E e t"
  shows "wp (finalize_settlement h cfg p r) Q E s"
proof -
  define now where "now = clock s"
  define actual reserved where "actual = quantize_money (Some (st_actual_cost r))" and "reserved = e_reserved_amount p"
  define f where "f = settled_row r actual (settlement_reason (e_status p)) (actual - reserved) now"
  have spec: "spec_settle h cfg p r now (db s) =
      Option.bind (spec_settle_attempt p r now (db s)) (\<lambda>d1.
      Option.bind (spec_settle_balances h cfg p actual reserved now d1) (\<lambda>d2.
      Option.bind (spec_change (e_idempotency_key p) (st_provider_request_id r) f d2) (\<lambda>d3.
        spec_settle_close h cfg p r actual reserved now d3)))"
    by (simp add: spec_settle_def f_def actual_def reserved_def Let_def)
  have err: "settle_error h cfg p r now (db s) e = (case spec_settle_attempt p r now (db s) of
      None \<Rightarrow> (\<exists>m. e = ConflictError m)
    | Some d1 \<Rightarrow> (case spec_settle_balances h cfg p actual reserved now d1 of
        None \<Rightarrow> (\<exists>m. e = TraceCapExceededError m)
      | Some d2 \<Rightarrow> (case spec_change (e_idempotency_key p) (st_provider_request_id r) f d2 of
          None \<Rightarrow> e = IntegrityError
        | Some d3 \<Rightarrow> overdrawn (e_user_id p) d3 \<and> (\<exists>m. e = LedgerError m))))" for e
    unfolding settle_error_def f_def actual_def reserved_def Let_def by (rule refl)
  note E' = E [unfolded now_def [symmetric] spec err] and Q' = Q [unfolded now_def [symmetric] actual_def [symmetric] spec]
  have "wp (stepsE
      [whenE (truthy (st_dispatch_attempt_key r))
         (upsert_attempt (the (st_dispatch_attempt_key r)) (e_idempotency_key p) r now),
       settle_balances h cfg p actual reserved now,
       update_operation (e_idempotency_key p) (st_provider_request_id r) f,
       settle_close h cfg p r actual reserved now])
      (\<lambda>_. Q \<lparr>or_idempotency_key = e_idempotency_key p, or_status = SETTLED, or_actual_amount = actual\<rparr>) E s"
    unfolding wp_ext
  proof (rule wp_settle_attempt, goal_cases)
    case (2 e t)
    then show ?case by (intro E') simp_all
  next
    case (1 d1)
    show ?case
    proof (rule wp_settle_balances [OF _ ok(2)], goal_cases)
      case 1
      then show ?case using spec_attempt_chain [OF \<open>spec_settle_attempt p r now (db s) = Some d1\<close> ok(1)] by simp
    next
      case 2
      then show ?case by (simp add: now_def)
    next
      case (4 e t)
      then show ?case using 1 by (intro E') simp_all
    next
      case (3 d2 t2)
      then have s2: "spec_settle_balances h cfg p actual reserved now d1 = Some d2" by simp
      show ?case
      proof (rule wp_update_operation, goal_cases)
        case (2 t)
        then show ?case using 1 3 sc.trans [of s t2 t] by (intro E') (simp_all add: s2)
      next
        case (1 d3)
        then have s3: "spec_change (e_idempotency_key p) (st_provider_request_id r) f d2 = Some d3"
          using 3 by simp
        have c3: "chain_ok h d3"
          by (intro spec_change_chain [OF s3] spec_balances_chain [OF s2 ok(2)]
              spec_attempt_chain [OF \<open>spec_settle_attempt p r now (db s) = Some d1\<close> ok(1)])
        have t2: "same_committed s t2" using 3(3) by simp
        show ?case
        proof (rule wp_settle_close [OF _ ok(2)], goal_cases)
          case 1
          then show ?case using c3 by simp
        next
          case 2
          then show ?case using t2 by (simp add: now_def same_committed_def)
        next
          case (3 d t)
          then show ?case
            using \<open>spec_settle_attempt p r now (db s) = Some d1\<close> s2 s3 sc.trans [OF t2, of t]
            by (intro Q') simp_all
        next
          case (4 e t)
          then show ?case
            using \<open>spec_settle_attempt p r now (db s) = Some d1\<close> s2 s3 sc.trans [OF t2, of t]
            by (intro E') (simp_all add: spec_settle_close_def split: if_splits)
        qed
      qed
    qed
  qed
  then show ?thesis
    using open_op
    by (simp add: finalize_settlement_def Let_def wp_simps now_def actual_def reserved_def f_def)
qed

lemma wp_check_loop:
  assumes "\<And>d. spec_loop p r cfg now (db s) = Some d \<Longrightarrow> Q () (s\<lparr>db := d\<rparr>)"
    and "\<And>m t g l. spec_loop p r cfg now (db s) = None \<Longrightarrow> committed t = loop_incident p g l now (db s)
        \<Longrightarrow> clock t = clock s \<Longrightarrow> E (PolicyStateError m) t"
  shows "wp (check_loop cfg p r now) Q E s"
  using assms
  by (auto simp: check_loop_def enforce_loop_guardrail_def spec_loop_def truthy_def wp_simps Let_def
      schema_supports_attribution_def on_db_def split: option.splits)

lemma spec_loop_chain: "spec_loop p r cfg now d = Some d' \<Longrightarrow> chain_ok h d \<Longrightarrow> chain_ok h d'"
  by (auto simp: spec_loop_def Let_def split: if_splits option.splits)

lemma wp_record_attempt_state:
  assumes ok: "chain_ok h (db s)" "digest_ok h"
    and Q: "\<And>d t. spec_record h cfg p r (clock s) (db s) = Some d \<Longrightarrow> db t = d \<Longrightarrow> same_committed s t
       \<Longrightarrow> Q \<lparr>or_idempotency_key = e_idempotency_key p, or_status = status_of (st_outcome r),
             or_actual_amount = e_actual_amount p\<rparr> t"
    and E: "\<And>e t. spec_record h cfg p r (clock s) (db s) = None \<Longrightarrow> same_committed s t \<Longrightarrow> E e t"
    and L: "\<And>m t g l. committed t = loop_incident p g l (clock s) (db s) \<Longrightarrow> clock t = clock s
       \<Longrightarrow> E (PolicyStateError m) t"
  shows "wp (record_attempt_state h cfg p r) Q E s"
proof (cases "e_status p = SETTLED \<or> e_status p = EXPIRED \<or> \<not> truthy (st_dispatch_attempt_key r)")
  case True
  then show ?thesis
    using E by (auto simp: record_attempt_state_def spec_record_def wp_simps)
next
  case False
  define now where "now = clock s"
  have spec: "spec_record h cfg p r now (db s) =
      Option.bind (spec_loop p r cfg now (db s)) (\<lambda>d1.
      Option.bind (spec_upsert (the (st_dispatch_attempt_key r)) (e_idempotency_key p) r now d1) (\<lambda>d2.
      Option.bind (spec_change (e_idempotency_key p) (st_provider_request_id r) (dispatched_row r now) d2) (\<lambda>d3.
        Some (add_sealed_event h now (e_idempotency_key p) (e_user_id p) (attempt_event_type r) 0
                  (attempt_event_metadata r) d3))))"
    using False by (simp add: spec_record_def Let_def)
  note E' = E [unfolded now_def [symmetric] spec] and Q' = Q [unfolded now_def [symmetric] spec]
  have "wp (stepsE
      [check_loop cfg p r now,
       upsert_attempt (the (st_dispatch_attempt_key r)) (e_idempotency_key p) r now,
       update_operation (e_idempotency_key p) (st_provider_request_id r) (dispatched_row r now),
       append_event h (e_idempotency_key p) (e_user_id p) (attempt_event_type r) 0 (attempt_event_metadata r)])
      (\<lambda>_. Q \<lparr>or_idempotency_key = e_idempotency_key p, or_status = status_of (st_outcome r),
             or_actual_amount = e_actual_amount p\<rparr>) E s"
    unfolding wp_ext
  proof (rule wp_check_loop, goal_cases)
    case (2 m t g l)
    then show ?case by (intro L) (simp_all add: now_def)
  next
    case (1 d1)
    note s1 = 1
    show ?case
    proof (rule wp_upsert_attempt, goal_cases)
      case (2 e t)
      then show ?case using s1 by (intro E') simp_all
    next
      case (1 d2)
      then have s2: "spec_upsert (the (st_dispatch_attempt_key r)) (e_idempotency_key p) r now d1 = Some d2"
        by simp
      show ?case
      proof (rule wp_update_operation, goal_cases)
        case (2 t)
        then show ?case using s1 s2 by (intro E') simp_all
      next
        case (1 d3)
        then have s3: "spec_change (e_idempotency_key p) (st_provider_request_id r) (dispatched_row r now) d2 = Some d3"
          by simp
        have "chain_ok h d2"
          using s2 spec_loop_chain [OF s1 ok(1)] by (auto simp: spec_upsert_def split: if_splits)
        then have c3: "chain_ok h d3" by (rule spec_change_chain [OF s3])
        show ?case
          by (simp add: append_event_def wp_append_sealed c3 ok(2) now_def [symmetric])
            (rule Q', simp_all add: s1 s2 s3)
      qed
    qed
  qed
  then show ?thesis
    using False by (simp add: record_attempt_state_def wp_simps now_def)
qed

lemma keeps_check_settlement_identity: "keeps same_db (check_settlement_identity p r)"
proof -
  have v: "keeps same_db (validate_identity_checks cs)" for cs
  proof (induction cs)
    case Nil
    then show ?case by (simp add: sd.keeps_ret)
  next
    case (Cons c cs)
    then show ?case
      by (cases c) (simp add: sd.keeps_if sd.keeps_seqE keeps_increment sd.keeps_throw)
  qed
  have "keeps same_db (case e of AttributionPolicyError m \<Rightarrow> throw (PolicyStateError m) | _ \<Rightarrow> throw e)" for e
    by (cases e; simp add: sd.keeps_throw)
  then show ?thesis
    unfolding check_settlement_identity_def validate_settlement_identity_def
    by (intro sd.keeps_getsE sd.keeps_whenE sd.keeps_catchE v) simp
qed

text \<open>
  The whole settle call on a well-formed chain, with nothing pending in the session: what is
  committed afterwards is the specified settlement or dispatch record of the loaded
  operation, or what was committed before, or that with a loop incident added.
\<close>

definition settle_target :: "settle_request \<Rightarrow> db \<Rightarrow> escrow option" where
  "settle_target r d = load_operation_for_update (st_idempotency_key r) (st_provider_request_id r) d"

definition spec_apply :: "host \<Rightarrow> settings \<Rightarrow> escrow \<Rightarrow> settle_request \<Rightarrow> int \<Rightarrow> db \<Rightarrow> db option" where
  "spec_apply h cfg p r now d =
     (if st_outcome r = O_SETTLED
      then (if e_status p = SETTLED then Some d else spec_settle h cfg p r now d)
      else spec_record h cfg p r now d)"

lemma wp_apply_settlement:
  assumes ok: "chain_ok h (db s)" "digest_ok h" and clean: "committed s = db s"
    and Q: "\<And>p d t. settle_target r (db s) = Some p \<Longrightarrow> spec_apply h cfg p r (clock s) (db s) = Some d
       \<Longrightarrow> committed t = d \<Longrightarrow> db t = d \<Longrightarrow> Q \<lparr>or_idempotency_key = e_idempotency_key p,
            or_status = status_of (st_outcome r),
            or_actual_amount = (if st_outcome r = O_SETTLED then quantize_money (Some (st_actual_cost r))
                                else e_actual_amount p)\<rparr> t"
    and E: "\<And>e t. same_committed s t \<Longrightarrow> E e t"
    and L: "\<And>p m t g l. settle_target r (db s) = Some p
       \<Longrightarrow> committed t = loop_incident p g l (clock s) (db s) \<Longrightarrow> E (PolicyStateError m) t"
  shows "wp (apply_settlement h cfg r) Q E s"
proof (cases "settle_target r (db s)")
  case None
  then show ?thesis using E by (simp add: apply_settlement_def wp_simps settle_target_def)
next
  case (Some p)
  let ?res = "\<lambda>st a. \<lparr>or_idempotency_key = e_idempotency_key p, or_status = st, or_actual_amount = a\<rparr>"
  have main: "wp (apply_outcome h cfg p r) Q E t" if t: "same_db s t" for t
  proof (cases "st_outcome r = O_SETTLED")
    case True
    have rel: "wp (release_inflight_guardrail h cfg (e_user_id p)) (\<lambda>_. Q (?res SETTLED (quantize_money (Some (st_actual_cost r))))) E (commit u)"
      if "db u = d" "spec_apply h cfg p r (clock s) (db s) = Some d" for u d
      by (rule wp_release_inflight_guardrail)
        (use that Q [OF Some] True in \<open>auto simp: same_db_def\<close>)
    have "wp (finalize_settlement h cfg p r) (\<lambda>res u. wp (release_inflight_guardrail h cfg (e_user_id p)) (\<lambda>_. Q res) E (commit u)) E t"
    proof (cases "e_status p = SETTLED")
      case True
      then show ?thesis
        using rel [of t "db s"] t E same_db_committed [OF t] \<open>st_outcome r = O_SETTLED\<close>
        by (simp add: finalize_settlement_def finalize_replay_def wp_simps same_db_def spec_apply_def Let_def)
    next
      case False
      show ?thesis
      proof (rule wp_finalize_settlement [OF _ ok(2) False], goal_cases)
        case 1
        then show ?case using ok(1) t by (simp add: same_db_def)
      next
        case (2 d u)
        then show ?case
          using rel [of u d] t False True by (simp add: spec_apply_def same_db_def)
      next
        case (3 e u)
        then show ?case using E sc.trans [OF same_db_committed [OF t]] by blast
      qed
    qed
    then show ?thesis using True by (simp add: wp_simps apply_outcome_def)
  next
    case False
    have fin: "wp (whenE (st_outcome r = O_PROVIDER_TIMEOUT \<and> truthy (st_provider_name r))
           (record_provider_failure h cfg (the (st_provider_name r))))
          (\<lambda>_ v. Q (?res (status_of (st_outcome r)) (e_actual_amount p)) (commit v)) E u"
      if "db u = d" "spec_apply h cfg p r (clock s) (db s) = Some d" for u d
      using that Q [OF Some] False
      by (auto simp: wp_whenE same_db_def intro!: wp_record_provider_failure)
    have "wp (record_attempt_state h cfg p r) (\<lambda>res u. wp (whenE (st_outcome r = O_PROVIDER_TIMEOUT \<and> truthy (st_provider_name r))
           (record_provider_failure h cfg (the (st_provider_name r))))
          (\<lambda>_ v. Q res (commit v)) E u) E t"
    proof (rule wp_record_attempt_state [OF _ ok(2)], goal_cases)
      case 1
      then show ?case using ok(1) t by (simp add: same_db_def)
    next
      case (2 d u)
      then show ?case using fin [of u d] t False by (simp add: spec_apply_def same_db_def)
    next
      case (3 e u)
      then show ?case using E sc.trans [OF same_db_committed [OF t]] by blast
    next
      case (4 m u g l)
      then show ?case using L [OF Some] t by (simp add: same_db_def)
    qed
    then show ?thesis using False by (simp add: wp_simps apply_outcome_def)
  qed
  have "wp (check_settlement_identity p r) (\<lambda>_. wp (apply_outcome h cfg p r) Q E) E s"
    by (rule wp_same_db [OF keeps_check_settlement_identity main]) (simp_all add: E same_db_committed)
  then show ?thesis
    using Some E by (simp add: apply_settlement_def settle_target_def wp_seqE wp_getsE wp_throw)
qed

text \<open>A final settlement whose identity matches and which its specification refuses.\<close>

definition identity_ok :: "escrow \<Rightarrow> settle_request \<Rightarrow> bool" where
  "identity_ok p r =
     (\<not> identity_mismatch (st_tenant_id r) (e_tenant_id p) \<and> \<not> identity_mismatch (st_session_id r) (e_session_id p)
      \<and> \<not> identity_mismatch (st_agent_run_id r) (e_agent_run_id p)
      \<and> \<not> identity_mismatch (st_workflow_step r) (e_workflow_step p))"

lemma settle_target_key: "settle_target r d = Some p \<Longrightarrow> truthy (st_idempotency_key r) \<Longrightarrow> st_idempotency_key r = Some (e_idempotency_key p)"
  using row_where_keyD [of e_idempotency_key "the (st_idempotency_key r)" "escrow_ledger d" p]
  by (auto simp: settle_target_def load_operation_for_update_def find_operation_def truthy_def split: option.splits)

lemma wp_apply_refused:
  assumes "chain_ok h (db s)" "digest_ok h" "settle_target r (db s) = Some p" "e_status p \<noteq> SETTLED"
    and "st_outcome r = O_SETTLED" "identity_ok p r" "spec_settle h cfg p r (clock s) (db s) = None"
    and E: "\<And>e t. settle_error h cfg p r (clock s) (db s) e \<Longrightarrow> same_committed s t \<Longrightarrow> E e t"
  shows "wp (apply_settlement h cfg r) Q E s"
proof -
  have "wp (finalize_settlement h cfg p r) Q' E s" for Q'
    by (rule wp_finalize_settlement [OF assms(1,2,4)]) (use assms(7) E in auto)
  then show ?thesis
    using assms(3,5,6) settle_target_key [OF assms(3)]
    by (auto simp: apply_settlement_def settle_target_def check_settlement_identity_def validate_settlement_identity_def
        identity_ok_def apply_outcome_def wp_simps)
qed

end
