(* ===== verification/Sweeper.thy ===== *)
theory Sweeper
  imports Ledger_Spec
begin

text \<open>
  \<^verbatim>\<open>reconciler/app/sweeper.py\<close>, \<^verbatim>\<open>sidecar/app/finance_ops.py\<close> and the run functions of
  \<^verbatim>\<open>reconciler/app/main.py\<close>: the sweep over expired reservations, the audit that follows it
  and the diagnostic switch it may throw. Whether the process holds the advisory lock of
  \<^verbatim>\<open>reconciler/app/leader.py\<close> is an argument.
\<close>

section \<open>The sweep\<close>

definition sweepable :: "int \<Rightarrow> escrow \<Rightarrow> bool" where
  "sweepable now p =
     ((e_status p = RESERVED \<or> e_status p = IN_FLIGHT \<or> e_status p = PROVIDER_TIMEOUT)
      \<and> e_expires_at p \<le> now)"

definition due_rows :: "nat \<Rightarrow> int \<Rightarrow> db \<Rightarrow> escrow list" where
  "due_rows batch_size now d =
     take batch_size (sort_key e_expires_at (filter (sweepable now) (escrow_ledger d)))"

definition is_refund_event :: "string \<Rightarrow> event \<Rightarrow> bool" where
  "is_refund_event k e = (ev_idempotency_key e = k \<and> ev_event_type e = ''EXPIRED_SWEEP'')"

definition detect_duplicate_refund_events :: "string \<Rightarrow> unit handler" where
  "detect_duplicate_refund_events k =
     getsE (\<lambda>s. count_where (is_refund_event k) (ledger_events (db s)))
       (\<lambda>cnt. whenE (1 < cnt) (modifyE (increment ''duplicate_refund_anomaly_total'')))"

definition sweep_row :: "host \<Rightarrow> escrow \<Rightarrow> unit handler" where
  "sweep_row h row =
     getsE clock (\<lambda>now. getsE (\<lambda>s. must_strand row (db s)) (\<lambda>strand.
       if strand
       then stepsE
         [strand_operation h row ''reconciler_expiry_claim'' now,
          modifyE (increment ''reconciler_stranded_total'')]
       else stepsE
         [refund_expired h row ''TTL_EXPIRED'' ''reconciler_expiry_claim'' now,
          detect_duplicate_refund_events (e_idempotency_key row),
          modifyE (increment ''reconciler_expired_total'')]))"

definition sweep_expired_reservations :: "host \<Rightarrow> nat \<Rightarrow> nat handler" where
  "sweep_expired_reservations h batch_size =
     getsE (\<lambda>s. due_rows batch_size (clock s) (db s)) (\<lambda>rows.
       seqE (stepsE (map (sweep_row h) rows))
         (seqE (stepsE [modifyE commit,
                        modifyE (increment_by ''reconciler_claimed_total'' (int (length rows)))])
           (ret (length rows))))"

section \<open>The finance audit\<close>

record violations =
  negative_wallets :: nat
  trace_cap_overruns :: nat
  duplicate_refunds :: nat
  duplicate_settlements :: nat
  stranded_without_hold_event :: nat

text \<open>\<open>SELECT COUNT(*) FROM (... GROUP BY idempotency_key HAVING COUNT(*) > 1)\<close>.\<close>

definition duplicate_keys :: "(event \<Rightarrow> bool) \<Rightarrow> event list \<Rightarrow> nat" where
  "duplicate_keys p rows =
     length (filter (\<lambda>k. 1 < count_where (\<lambda>e. ev_idempotency_key e = k \<and> p e) rows)
       (remdups (map ev_idempotency_key (filter p rows))))"

definition finance_violations :: "db \<Rightarrow> violations" where
  "finance_violations d =
     \<lparr>negative_wallets = count_where (\<lambda>w. w_balance w < 0) (user_wallets d),
      trace_cap_overruns = count_where (\<lambda>t. t_cap_amount t < t_reserved_total t) (trace_budget_state d),
      duplicate_refunds = duplicate_keys (\<lambda>e. ev_event_type e = ''EXPIRED_SWEEP'') (ledger_events d),
      duplicate_settlements =
        duplicate_keys (\<lambda>e. ev_event_type e = ''SETTLED_FINAL'' \<or> ev_event_type e = ''RECONCILED_LATE_SETTLE'')
          (ledger_events d),
      stranded_without_hold_event =
        count_where (\<lambda>p. e_status p = STRANDED
          \<and> \<not> (\<exists>e \<in> set (ledger_events d). ev_idempotency_key e = e_idempotency_key p
                  \<and> ev_event_type e = ''STRANDED_HOLD'')) (escrow_ledger d)\<rparr>"

definition violation_total :: "violations \<Rightarrow> nat" where
  "violation_total v =
     negative_wallets v + trace_cap_overruns v + duplicate_refunds v + duplicate_settlements v
     + stranded_without_hold_event v"

text \<open>Python's \<open>str\<close> of the dictionary of counts, as the error message embeds it.\<close>

definition dict_item :: "string \<Rightarrow> nat \<Rightarrow> string" where
  "dict_item name n = [CHR 0x27] @ name @ [CHR 0x27] @ '': '' @ nat_str n"

definition violations_str :: "violations \<Rightarrow> string" where
  "violations_str v =
     ''{'' @ join '', ''
       [dict_item ''negative_wallets'' (negative_wallets v),
        dict_item ''trace_cap_overruns'' (trace_cap_overruns v),
        dict_item ''duplicate_refunds'' (duplicate_refunds v),
        dict_item ''duplicate_settlements'' (duplicate_settlements v),
        dict_item ''stranded_without_hold_event'' (stranded_without_hold_event v)] @ ''}''"

definition count_violation :: "string \<Rightarrow> nat \<Rightarrow> unit handler" where
  "count_violation name n = whenE (n \<noteq> 0) (modifyE (increment_by name (int n)))"

definition assert_finance_ops_invariants :: "violations handler" where
  "assert_finance_ops_invariants =
     getsE (\<lambda>s. finance_violations (db s)) (\<lambda>v.
       seqE (stepsE
         [count_violation ''negative_wallet_detected_total'' (negative_wallets v),
          count_violation ''trace_cap_overrun_detected_total'' (trace_cap_overruns v),
          count_violation ''duplicate_refund_anomaly_total'' (duplicate_refunds v),
          count_violation ''duplicate_settlement_anomaly_total'' (duplicate_settlements v)])
       (if violation_total v \<noteq> 0 then throw (FinanceOpsInvariantError (''finance ops invariant violations: '' @ violations_str v))
        else ret v))"

section \<open>The reconciler\<close>

definition run_finance_audit :: "host \<Rightarrow> bool handler" where
  "run_finance_audit h =
     catchE (seqE assert_finance_ops_invariants (ret True))
       (\<lambda>e. case e of
          FinanceOpsInvariantError msg \<Rightarrow>
            seqE (modifyE (increment ''finance_audit_violation_total''))
              (seqE (enter_diagnostic_mode h ''reconciler'' msg) (ret False))
        | _ \<Rightarrow> throw e)"

definition sweep_as_leader :: "host \<Rightarrow> bool \<Rightarrow> nat handler" where
  "sweep_as_leader h is_leader =
     get_db_session
       (if \<not> is_leader then ret 0
        else bindE (sweep_expired_reservations h 100) (\<lambda>swept. seqE (run_finance_audit h) (ret swept)))"

definition run_once :: "host \<Rightarrow> bool \<Rightarrow> nat handler" where
  "run_once h is_leader =
     bindE (is_diagnostic_mode h) (\<lambda>diag. if diag then ret 0 else sweep_as_leader h is_leader)"

text \<open>One turn of the loop of \<open>run_daemon\<close>, which logs and swallows every error.\<close>

definition daemon_turn :: "host \<Rightarrow> bool \<Rightarrow> unit handler" where
  "daemon_turn h is_leader =
     catchE
       (bindE (is_diagnostic_mode h) (\<lambda>diag.
          if diag then ret () else seqE (sweep_as_leader h is_leader) (ret ())))
       (\<lambda>_. ret ())"

section \<open>The sweep as a function on databases\<close>

definition spec_strand :: "host \<Rightarrow> string \<Rightarrow> int \<Rightarrow> escrow \<Rightarrow> db \<Rightarrow> db" where
  "spec_strand h reason now p d =
     add_sealed_event h now (e_idempotency_key p) (e_user_id p) ''STRANDED_HOLD'' 0 [(''reason'', JStr reason)]
       (change_operation (e_idempotency_key p)
          (\<lambda>x. x\<lparr>e_status := STRANDED, e_expired_at := Some now,
                 e_terminal_reason := ''STRANDED_HOLD_PENDING_RECONCILIATION''\<rparr>) d)"

definition spec_refund :: "host \<Rightarrow> string \<Rightarrow> string \<Rightarrow> int \<Rightarrow> escrow \<Rightarrow> db \<Rightarrow> db" where
  "spec_refund h terminal_reason reason now p d =
     add_sealed_event h now (e_idempotency_key p) (e_user_id p) ''EXPIRED_SWEEP'' (e_reserved_amount p)
       [(''reason'', JStr reason)]
       (change_operation (e_idempotency_key p)
          (\<lambda>x. x\<lparr>e_status := EXPIRED, e_expired_at := Some now, e_terminal_reason := terminal_reason\<rparr>)
          (move_trace (e_trace_id p) (- e_reserved_amount p) 0 now
             (credit_wallet (e_user_id p) (e_reserved_amount p) now d)))"

definition spec_expire :: "host \<Rightarrow> string \<Rightarrow> string \<Rightarrow> int \<Rightarrow> escrow \<Rightarrow> db \<Rightarrow> db" where
  "spec_expire h terminal_reason reason now p d =
     (if must_strand p d then spec_strand h reason now p d else spec_refund h terminal_reason reason now p d)"

fun spec_sweep :: "host \<Rightarrow> int \<Rightarrow> escrow list \<Rightarrow> db \<Rightarrow> db" where
  "spec_sweep h now [] d = d"
| "spec_sweep h now (p # ps) d =
     spec_sweep h now ps (spec_expire h ''TTL_EXPIRED'' ''reconciler_expiry_claim'' now p d)"

lemma spec_expire_chain: "digest_ok h \<Longrightarrow> chain_ok h d \<Longrightarrow> chain_ok h (spec_expire h tr reason now p d)"
  by (simp add: spec_expire_def spec_strand_def spec_refund_def)

lemma wp_expire_operation:
  assumes "chain_ok h (db s)" "digest_ok h"
    and "\<And>t. db t = spec_expire h reason reason (clock s) p (db s) \<Longrightarrow> same_committed s t \<Longrightarrow> Q () t"
  shows "wp (expire_operation h p reason) Q E s"
  using assms
  by (auto simp: expire_operation_def strand_operation_def refund_expired_def wp_simps append_event_def
      wp_append_sealed spec_expire_def spec_strand_def spec_refund_def Let_def)

lemma wp_sweep_row:
  assumes "chain_ok h (db s)" "digest_ok h"
    and "\<And>t. db t = spec_expire h ''TTL_EXPIRED'' ''reconciler_expiry_claim'' (clock s) p (db s)
       \<Longrightarrow> same_committed s t \<Longrightarrow> Q () t"
  shows "wp (sweep_row h p) Q E s"
  using assms
  by (auto simp: sweep_row_def strand_operation_def refund_expired_def wp_simps append_event_def
      wp_append_sealed spec_expire_def spec_strand_def spec_refund_def Let_def
      detect_duplicate_refund_events_def)

lemma wp_sweep_rows:
  assumes "chain_ok h (db s)" "digest_ok h"
    and "\<And>t. db t = spec_sweep h (clock s) ps (db s) \<Longrightarrow> same_committed s t \<Longrightarrow> Q () t"
  shows "wp (stepsE (map (sweep_row h) ps)) Q E s"
  using assms
proof (induction ps arbitrary: s)
  case Nil
  then show ?case by (simp add: wp_simps)
next
  case (Cons p ps)
  show ?case
    unfolding list.map wp_ext
  proof (rule wp_sweep_row [OF Cons.prems(1,2)])
    fix t assume t: "db t = spec_expire h ''TTL_EXPIRED'' ''reconciler_expiry_claim'' (clock s) p (db s)"
      "same_committed s t"
    show "wp (stepsE (map (sweep_row h) ps)) Q E t"
    proof (rule Cons.IH [OF _ Cons.prems(2)])
      show "chain_ok h (db t)" using spec_expire_chain Cons.prems t by simp
      fix u assume "db u = spec_sweep h (clock t) ps (db t)" "same_committed t u"
      then show "Q () u"
        using Cons.prems(3) [of u] t sc.trans [OF t(2), of u] by (simp add: same_committed_def)
    qed
  qed
qed

lemma wp_sweep:
  assumes "chain_ok h (db s)" "digest_ok h"
    and "\<And>t rows. rows = due_rows n (clock s) (db s) \<Longrightarrow> db t = spec_sweep h (clock s) rows (db s)
       \<Longrightarrow> committed t = db t \<Longrightarrow> Q (length rows) t"
  shows "wp (sweep_expired_reservations h n) Q E s"
  by (simp add: sweep_expired_reservations_def wp_simps)
    (rule wp_sweep_rows [OF assms(1,2)], simp add: assms(3))

end
