(* ===== verification/Routes.thy ===== *)
theory Routes
  imports Sweeper
begin

text \<open>
  \<^verbatim>\<open>sidecar/app/policy.py\<close>, \<^verbatim>\<open>sidecar/app/routes_reserve.py\<close> and
  \<^verbatim>\<open>sidecar/app/routes_settle.py\<close>: the HTTP handlers around the ledger. A raised
  \<open>HTTPException\<close> is the response FastAPI sends; any other exception becomes a 500.
  Authentication is in the theory \<open>Auth\<close>; tracing spans have no effect on the state.
\<close>

section \<open>Policy\<close>

definition validate_reserve_request :: "reserve_request \<Rightarrow> unit handler" where
  "validate_reserve_request r =
     (if negative (rq_estimated_cost r)
      then throw (PolicyDecisionError ''estimated_cost must be non-negative'')
      else case rq_trace_cap r of
        Some c \<Rightarrow> (if \<not> positive c then throw (PolicyDecisionError ''trace_cap must be positive when provided'')
                   else ret ())
      | None \<Rightarrow> ret ())"

definition validate_settle_request :: "settle_request \<Rightarrow> unit handler" where
  "validate_settle_request r =
     (if negative (st_actual_cost r) then throw (PolicyDecisionError ''actual_cost must be non-negative'')
      else if \<not> truthy (st_idempotency_key r) \<and> \<not> truthy (st_provider_request_id r)
      then throw (PolicyDecisionError ''either idempotency_key or provider_request_id is required'')
      else if st_outcome r \<noteq> O_SETTLED \<and> \<not> truthy (st_dispatch_attempt_key r)
      then throw (PolicyDecisionError ''dispatch_attempt_key is required for non-terminal updates'')
      else if st_outcome r = O_SETTLED \<and> negative (st_actual_cost r)
      then throw (PolicyDecisionError ''actual_cost must be non-negative'')
      else ret ())"

definition diagnostic_blocks :: "host \<Rightarrow> settings \<Rightarrow> bool handler" where
  "diagnostic_blocks h cfg =
     (if diagnostic_mode_blocks_writes cfg then is_diagnostic_mode h else ret False)"

section \<open>POST /reserve\<close>

record reserve_response =
  rr_idempotency_key :: string
  rr_status :: status
  rr_reserved_amount :: decimal
  rr_expires_in_seconds :: int

definition idempotency_exists :: "string \<Rightarrow> bool handler" where
  "idempotency_exists k = get_db_session (getsE (\<lambda>s. find_operation k (db s) \<noteq> None) ret)"

text \<open>The \<open>except\<close> clauses of \<open>reserve\<close>, in order.\<close>

definition reserve_except :: "host \<Rightarrow> settings \<Rightarrow> string \<Rightarrow> bool \<Rightarrow> exn \<Rightarrow> 'a handler" where
  "reserve_except h cfg user_id guardrail_bumped e =
     (let release = whenE guardrail_bumped (release_reserve h cfg user_id)
      in case e of
           PolicyDecisionError m \<Rightarrow> seqE release (throw (HTTPException 400 m))
         | RateLimitExceeded m \<Rightarrow> throw (HTTPException 429 m)
         | TraceDepthExceeded m \<Rightarrow> throw (HTTPException 429 m)
         | InflightLimitExceeded m \<Rightarrow> throw (HTTPException 429 m)
         | ConflictError m \<Rightarrow> seqE release (throw (HTTPException 409 m))
         | TraceCapExceededError m \<Rightarrow> seqE release (throw (HTTPException 409 m))
         | InsufficientFundsError m \<Rightarrow> seqE release (throw (HTTPException 409 m))
         | PolicyStateError m \<Rightarrow> seqE release (throw (HTTPException 409 m))
         | _ \<Rightarrow> seqE release (throw e))"

text \<open>Validation and admission; the result is \<open>guardrail_bumped\<close>.\<close>

definition reserve_admission :: "host \<Rightarrow> settings \<Rightarrow> reserve_request \<Rightarrow> bool handler" where
  "reserve_admission h cfg r =
     seqE (validate_reserve_request r)
       (bindE (idempotency_exists (rq_idempotency_key r)) (\<lambda>known.
          if known then ret False
          else seqE (check_reserve h cfg (rq_user_id r) (rq_trace_id r) (rq_idempotency_key r)) (ret True)))"

definition reserve_route :: "host \<Rightarrow> settings \<Rightarrow> reserve_request \<Rightarrow> reserve_response handler" where
  "reserve_route h cfg r =
     bindE (diagnostic_blocks h cfg) (\<lambda>blocked.
       if blocked
       then throw (HTTPException 503 ''diagnostic mode: reserve writes halted; admin read APIs remain available'')
       else
       bindE (catchE (reserve_admission h cfg r) (reserve_except h cfg (rq_user_id r) False)) (\<lambda>bumped.
       bindE (catchE (get_db_session (reserve_operation h cfg r)) (reserve_except h cfg (rq_user_id r) bumped))
         (\<lambda>result. ret
           \<lparr>rr_idempotency_key = or_idempotency_key result, rr_status = or_status result,
            rr_reserved_amount = rq_estimated_cost r, rr_expires_in_seconds = reserve_ttl_seconds cfg\<rparr>)))"

section \<open>POST /settle\<close>

definition settle_except :: "exn \<Rightarrow> 'a handler" where
  "settle_except e =
     (case e of
        PolicyDecisionError m \<Rightarrow> throw (HTTPException 400 m)
      | NotFoundError m \<Rightarrow> throw (HTTPException 404 m)
      | ConflictError m \<Rightarrow> throw (HTTPException 409 m)
      | PolicyStateError m \<Rightarrow> throw (HTTPException 409 m)
      | _ \<Rightarrow> throw e)"

definition settle_route :: "host \<Rightarrow> settings \<Rightarrow> settle_request \<Rightarrow> op_result handler" where
  "settle_route h cfg r =
     bindE (diagnostic_blocks h cfg) (\<lambda>blocked.
       if blocked
       then throw (HTTPException 503 ''diagnostic mode: settle writes halted; admin read APIs remain available'')
       else catchE
         (seqE (validate_settle_request r) (get_db_session (apply_settlement h cfg r)))
         settle_except)"

text \<open>What the client sees: the status code of a raised exception.\<close>

definition http_status :: "exn \<Rightarrow> int" where
  "http_status e = (case e of HTTPException code _ \<Rightarrow> code | _ \<Rightarrow> 500)"

section \<open>Frames\<close>

lemma keeps_is_diagnostic_mode: "keeps same_db (is_diagnostic_mode h)"
  unfolding is_diagnostic_mode_def redis_client_def
  by (intro sd.keeps_rules keeps_redis_call)

lemma keeps_diagnostic_blocks: "keeps same_db (diagnostic_blocks h cfg)"
  unfolding diagnostic_blocks_def by (intro sd.keeps_rules keeps_is_diagnostic_mode)

lemma keeps_reserve_except: "keeps same_db (reserve_except h cfg u b e)"
proof -
  have "keeps same_db (seqE (whenE b (release_reserve h cfg u)) (throw e'))" for e'
    by (intro sd.keeps_rules keeps_release_reserve)
  then show ?thesis
    unfolding reserve_except_def Let_def by (cases e) (simp_all add: sd.keeps_throw)
qed

lemma keeps_settle_except: "keeps same_db (settle_except e)"
  unfolding settle_except_def by (cases e) (simp_all add: sd.keeps_throw)

lemma keeps_validate_settle: "keeps same_db (validate_settle_request r)"
  unfolding validate_settle_request_def by (intro sd.keeps_rules)

lemma keeps_validate_reserve: "keeps same_db (validate_reserve_request r)"
  unfolding validate_reserve_request_def by (intro sd.keeps_rules)

text \<open>Between requests a process has no open transaction.\<close>

definition at_rest :: "sys \<Rightarrow> bool" where
  "at_rest s = (db s = committed s)"

lemma same_db_rest: "same_db s t \<Longrightarrow> at_rest s \<Longrightarrow> at_rest t \<and> committed t = committed s"
  by (simp add: same_db_def at_rest_def)

lemma keeps_reserve_admission: "at_rest s \<Longrightarrow> wp (reserve_admission h cfg r) (\<lambda>_. same_db s) (\<lambda>_. same_db s) s"
proof -
  assume rest: "at_rest s"
  have ex: "wp (idempotency_exists k) (\<lambda>x t. t = s \<and> x = (find_operation k (committed s) \<noteq> None)) (\<lambda>_ _. False) s" for k
    using rest by (simp add: idempotency_exists_def wp_simps at_rest_def)
  have "wp (if known then ret False else seqE (check_reserve h cfg u t k) (ret True)) (\<lambda>_. same_db s) (\<lambda>_. same_db s) s"
    for known u t k
    by (rule keeps_wp) (intro sd.keeps_rules keeps_check_reserve)
  then have "wp (bindE (idempotency_exists (rq_idempotency_key r)) (\<lambda>known.
          if known then ret False
          else seqE (check_reserve h cfg (rq_user_id r) (rq_trace_id r) (rq_idempotency_key r)) (ret True)))
        (\<lambda>_. same_db s) (\<lambda>_. same_db s) s"
    unfolding wp_bindE by (intro wp_conseq [OF ex]) auto
  moreover have "wp (validate_reserve_request r) (\<lambda>_ t. t = s) (\<lambda>_ t. t = s) s"
    by (simp add: validate_reserve_request_def wp_simps split: option.split)
  ultimately show ?thesis
    unfolding reserve_admission_def wp_seqE by (auto elim!: wp_conseq simp: same_db_def)
qed

end
