(* ===== verification/Gateway.thy ===== *)
theory Gateway
  imports Pricing Routes
begin

text \<open>
  The governance gateway: \<^verbatim>\<open>gateway/app/providers\<close>, \<^verbatim>\<open>gateway/app/governance.py\<close>,
  \<^verbatim>\<open>gateway/app/openai_compat.py\<close> and the dispatch route of \<^verbatim>\<open>gateway/app/main.py\<close>. The SDKs of the
  providers, \<open>uuid4\<close> and measured latencies are parameters. The sidecar is the model of its own routes, called
  over HTTP: its credential check and schema validation come first, a request or an answer may get lost, and
  while the provider works the rest of the system may take any number of steps.
\<close>

section \<open>Providers\<close>

record provider_result =
  pr_provider_request_id :: string
  pr_provider_name :: string
  pr_model :: string
  pr_response_text :: string
  pr_input_tokens :: int
  pr_output_tokens :: int
  pr_cached_input_tokens :: int
  pr_cached_output_tokens :: int
  pr_latency_ms :: int
  pr_actual_cost :: decimal

text \<open>What the SDKs answer; \<open>None\<close> is an exception of the SDK.\<close>

record openai_response =
  oai_id :: "string option"
  oai_usage :: "(int \<times> int) option"
  oai_content :: "string option"

record anthropic_response =
  ar_id :: "string option"
  ar_input_tokens :: int
  ar_output_tokens :: int
  ar_blocks :: "(string \<times> string) list"

record vertex_response =
  vx_usage :: "(int option \<times> int option) option"
  vx_text :: "string option"

datatype delivery = Answered | Request_Lost | Answer_Lost

record provider_call =
  pc_provider :: string
  pc_model :: string
  pc_messages :: "chat_message list"

text \<open>The state of the gateway process: the sidecar behind it, and the calls that went to a provider.\<close>

record gateway =
  sidecar :: sys
  calls :: "provider_call list"

record gateway_env =
  openai_create :: "provider_call list \<Rightarrow> string \<Rightarrow> chat_message list \<Rightarrow> openai_response option"
  anthropic_create :: "provider_call list \<Rightarrow> string \<Rightarrow> int \<Rightarrow> chat_message list \<Rightarrow> anthropic_response option"
  vertex_generate :: "provider_call list \<Rightarrow> string \<Rightarrow> string \<Rightarrow> vertex_response option"
  uuid16 :: "nat \<Rightarrow> string"
  latency :: int
  meanwhile :: "sys \<Rightarrow> sys"
  reserve_delivery :: delivery
  settle_delivery :: delivery

type_synonym 'a gexec = "(gateway, exn, 'a) exec"

definition resolve_provider_name :: "string \<Rightarrow> exn + string" where
  "resolve_provider_name model =
     (let normalized = lower (strip model)
      in if startswith normalized ''openai/'' then Inr ''openai''
         else if startswith normalized ''anthropic/'' then Inr ''anthropic''
         else if startswith normalized ''vertex/'' \<or> startswith normalized ''google/'' then Inr ''vertex''
         else if startswith normalized ''claude'' then Inr ''anthropic''
         else if startswith normalized ''gemini'' then Inr ''vertex''
         else if startswith normalized ''gpt'' then Inr ''openai''
         else Inl (HTTPException 400 (''unsupported provider model: '' @ model)))"

definition user_message :: "string option \<Rightarrow> chat_message" where
  "user_message prompt = \<lparr>cm_role = ''user'', cm_content = str_or prompt []\<rparr>"

definition no_messages :: "chat_message list option \<Rightarrow> bool" where
  "no_messages messages = (case messages of None \<Rightarrow> True | Some ms \<Rightarrow> ms = [])"

text \<open>\<open>prompt or (messages[-1]["content"] if messages else default)\<close>.\<close>

definition prompt_content :: "string option \<Rightarrow> chat_message list option \<Rightarrow> string \<Rightarrow> string" where
  "prompt_content prompt messages default_text =
     (if truthy prompt then the prompt
      else if no_messages messages then default_text else cm_content (last (the messages)))"

definition record_call :: "string \<Rightarrow> string \<Rightarrow> chat_message list \<Rightarrow> unit gexec" where
  "record_call provider model ms =
     modifyE (\<lambda>g. g\<lparr>calls := calls g @ [\<lparr>pc_provider = provider, pc_model = model, pc_messages = ms\<rparr>]\<rparr>)"

definition result_of ::
  "gateway_env \<Rightarrow> string \<Rightarrow> string \<Rightarrow> string \<Rightarrow> string \<Rightarrow> int \<Rightarrow> int \<Rightarrow> decimal \<Rightarrow> provider_result" where
  "result_of env request_id name model response input_tokens output_tokens cost =
     \<lparr>pr_provider_request_id = request_id, pr_provider_name = name, pr_model = model, pr_response_text = response,
      pr_input_tokens = input_tokens, pr_output_tokens = output_tokens, pr_cached_input_tokens = 0,
      pr_cached_output_tokens = 0, pr_latency_ms = latency env, pr_actual_cost = cost\<rparr>"

definition mock_dispatch ::
  "gateway_env \<Rightarrow> gateway_settings \<Rightarrow> string \<Rightarrow> string option \<Rightarrow> chat_message list option \<Rightarrow> provider_result gexec" where
  "mock_dispatch env cfg model prompt messages =
     (let content = prompt_content prompt messages ''mock-response'';
          input_tokens = max (int (length content) div 4) 1;
          output_tokens = max (mock_output_tokens cfg) 1;
          actual_cost = py_min (compute_token_cost model input_tokens output_tokens 0) (mock_dispatch_cost cfg)
      in getsE calls (\<lambda>seen.
         seqE (record_call ''mock'' model [user_message (Some content)])
         (ret (result_of env (''mock-'' @ uuid16 env (length seen)) ''mock'' model (''mock:'' @ take 120 content)
            input_tokens output_tokens actual_cost))))"

definition openai_dispatch ::
  "gateway_env \<Rightarrow> gateway_settings \<Rightarrow> string \<Rightarrow> string option \<Rightarrow> chat_message list option \<Rightarrow> provider_result gexec" where
  "openai_dispatch env cfg model prompt messages =
     (if \<not> truthy (openai_api_key cfg) then throw (HTTPException 503 ''OPENAI_API_KEY is not configured'')
      else let model_name = last_part (CHR ''/'') model;
               chat_messages = (if no_messages messages then [user_message prompt] else the messages)
      in getsE calls (\<lambda>seen.
         seqE (record_call ''openai'' model_name chat_messages)
         (case openai_create env seen model_name chat_messages of
            None \<Rightarrow> throw (RuntimeError ''openai'')
          | Some response \<Rightarrow>
              let (input_tokens, output_tokens) = (case oai_usage response of None \<Rightarrow> (0, 0) | Some u \<Rightarrow> u)
              in ret (result_of env (str_or (oai_id response) (''openai-'' @ uuid16 env (length seen))) ''openai'' model_name
                   (str_or (oai_content response) []) input_tokens output_tokens
                   (compute_token_cost model_name input_tokens output_tokens 0)))))"

definition anthropic_dispatch ::
  "gateway_env \<Rightarrow> gateway_settings \<Rightarrow> string \<Rightarrow> string option \<Rightarrow> chat_message list option \<Rightarrow> provider_result gexec" where
  "anthropic_dispatch env cfg model prompt messages =
     (if \<not> truthy (anthropic_api_key cfg) then throw (HTTPException 503 ''ANTHROPIC_API_KEY is not configured'')
      else let model_name = last_part (CHR ''/'') model;
               chat_messages = (if no_messages messages then [user_message prompt] else the messages)
      in getsE calls (\<lambda>seen.
         seqE (record_call ''anthropic'' model_name chat_messages)
         (case anthropic_create env seen model_name (provider_max_output_tokens cfg) chat_messages of
            None \<Rightarrow> throw (RuntimeError ''anthropic'')
          | Some response \<Rightarrow>
              ret (result_of env (str_or (ar_id response) (''anthropic-'' @ uuid16 env (length seen))) ''anthropic'' model_name
                (concat (map snd (filter (\<lambda>(kind, _). kind = ''text'') (ar_blocks response))))
                (ar_input_tokens response) (ar_output_tokens response)
                (compute_token_cost model_name (ar_input_tokens response) (ar_output_tokens response) 0)))))"

definition counted :: "int option \<Rightarrow> string \<Rightarrow> int" where
  "counted n text_read =
     (case n of None \<Rightarrow> max (int (length text_read) div 4) 1
      | Some i \<Rightarrow> if i = 0 then max (int (length text_read) div 4) 1 else i)"

definition vertex_dispatch ::
  "gateway_env \<Rightarrow> gateway_settings \<Rightarrow> string \<Rightarrow> string option \<Rightarrow> chat_message list option \<Rightarrow> provider_result gexec" where
  "vertex_dispatch env cfg model prompt messages =
     (if \<not> truthy (vertex_project_id cfg) then throw (HTTPException 503 ''VERTEX_PROJECT_ID is not configured'')
      else let model_name = last_part (CHR ''/'') model;
               content = prompt_content prompt messages []
      in getsE calls (\<lambda>seen.
         seqE (record_call ''vertex'' model_name [user_message (Some content)])
         (case vertex_generate env seen model_name content of
            None \<Rightarrow> throw (RuntimeError ''vertex'')
          | Some response \<Rightarrow>
              let response_text = str_or (vx_text response) [];
                  input_tokens = counted (Option.bind (vx_usage response) fst) content;
                  output_tokens = counted (Option.bind (vx_usage response) snd) response_text
              in ret (result_of env (''vertex-'' @ uuid16 env (length seen)) ''vertex'' model_name response_text
                   input_tokens output_tokens (compute_token_cost model_name input_tokens output_tokens 0)))))"

definition router_dispatch ::
  "gateway_env \<Rightarrow> gateway_settings \<Rightarrow> string \<Rightarrow> string option \<Rightarrow> chat_message list option \<Rightarrow> provider_result gexec" where
  "router_dispatch env cfg model prompt messages =
     (if provider_mode cfg = ''mock'' then mock_dispatch env cfg model prompt messages
      else if \<not> truthy prompt \<and> no_messages messages
      then throw (HTTPException 400 ''prompt or messages required for live provider dispatch'')
      else case resolve_provider_name model of
        Inl e \<Rightarrow> throw e
      | Inr name \<Rightarrow>
          if name = ''openai'' then openai_dispatch env cfg model prompt messages
          else if name = ''anthropic'' then anthropic_dispatch env cfg model prompt messages
          else vertex_dispatch env cfg model prompt messages)"

section \<open>Calls to the sidecar\<close>

text \<open>The sidecar that the gateway talks to: its host, its settings and its credential check.\<close>

record deployment =
  dp_host :: host
  dp_settings :: settings
  dp_auth :: auth_settings
  dp_idp :: identity_provider

text \<open>The body of an error response; an exception other than \<open>HTTPException\<close> is answered by the server itself.\<close>

definition error_text :: "exn \<Rightarrow> string" where
  "error_text e =
     (case e of HTTPException _ detail \<Rightarrow> dumps '','' '':'' (JObj [(''detail'', JStr detail)])
      | _ \<Rightarrow> ''Internal Server Error'')"

definition on_sidecar :: "'a handler \<Rightarrow> 'a gexec" where
  "on_sidecar m g = (case m (sidecar g) of (s, r) \<Rightarrow> (g\<lparr>sidecar := s\<rparr>, r))"

text \<open>A route behind \<open>require_internal_auth\<close> and the validation of its body.\<close>

definition guarded :: "deployment \<Rightarrow> string \<Rightarrow> bool \<Rightarrow> 'a handler \<Rightarrow> 'a handler" where
  "guarded dp token body_ok route =
     getsE clock (\<lambda>now.
       case require_internal_auth (dp_idp dp) now (dp_auth dp) None (Some token) of
         Inl e \<Rightarrow> throw e
       | Inr _ \<Rightarrow> if body_ok then route else throw (HTTPException 422 ''Unprocessable Entity''))"

text \<open>\<open>client.post\<close> and the check of its status: an error status is raised again with the body as its detail.\<close>

definition post :: "delivery \<Rightarrow> 'a handler \<Rightarrow> 'a gexec" where
  "post d m =
     (let served = catchE (on_sidecar m) (\<lambda>e. throw (HTTPException (http_status e) (error_text e)))
      in case d of
           Answered \<Rightarrow> served
         | Request_Lost \<Rightarrow> throw (RuntimeError ''httpx'')
         | Answer_Lost \<Rightarrow> (\<lambda>g. (fst (served g), Inl (RuntimeError ''httpx''))))"

definition gateway_reserve :: "string \<Rightarrow> string \<Rightarrow> string \<Rightarrow> string \<Rightarrow> decimal \<Rightarrow> reserve_request" where
  "gateway_reserve user_id trace_id op_key model estimated_cost =
     \<lparr>rq_user_id = user_id, rq_trace_id = trace_id, rq_idempotency_key = op_key, rq_model = model,
      rq_estimated_cost = estimated_cost, rq_trace_cap = None, rq_tenant_id = None, rq_session_id = None,
      rq_agent_run_id = None, rq_workflow_step = None, rq_policy_version = ''v1'', rq_run_budget = None,
      rq_session_budget = None, rq_tenant_budget = None, rq_user_budget = None,
      rq_requires_manual_approval = False, rq_manual_approval_id = None, rq_high_cost_tool = None\<rparr>"

definition gateway_settle :: "string \<Rightarrow> decimal \<Rightarrow> provider_result \<Rightarrow> settle_request" where
  "gateway_settle op_key actual_cost p =
     \<lparr>st_idempotency_key = Some op_key, st_outcome = O_SETTLED, st_actual_cost = actual_cost,
      st_dispatch_attempt_key = None, st_provider_name = Some (pr_provider_name p), st_model = Some (pr_model p),
      st_provider_request_id = Some (pr_provider_request_id p), st_reason = None, st_tenant_id = None,
      st_user_id = None, st_session_id = None, st_agent_run_id = None, st_workflow_step = None,
      st_policy_version = ''v1'', st_input_tokens = pr_input_tokens p, st_output_tokens = pr_output_tokens p,
      st_cached_input_tokens = pr_cached_input_tokens p, st_cached_output_tokens = pr_cached_output_tokens p,
      st_latency_ms = pr_latency_ms p, st_retry_count = 0, st_failover_count = 0, st_loop_signature = None,
      st_prompt_template_version = None, st_system_context_hash = None, st_tool_name = None,
      st_tool_input = None, st_raw_tool_output = None, st_state_snapshot = None\<rparr>"

section \<open>Governed dispatch\<close>

record dispatch_outcome =
  do_idempotency_key :: string
  do_reserve_status :: string
  do_settle_status :: string
  do_actual_cost :: decimal
  do_provider :: provider_result

definition op_key_of :: "gateway_env \<Rightarrow> string option \<Rightarrow> gateway \<Rightarrow> string" where
  "op_key_of env idempotency_key g = str_or idempotency_key (''gw-'' @ uuid16 env (length (calls g)))"

definition dispatch_and_settle ::
  "deployment \<Rightarrow> gateway_env \<Rightarrow> gateway_settings \<Rightarrow> string \<Rightarrow> string \<Rightarrow> decimal \<Rightarrow> string option
     \<Rightarrow> chat_message list option \<Rightarrow> reserve_response \<Rightarrow> dispatch_outcome gexec" where
  "dispatch_and_settle dp env cfg op_key model estimated_cost prompt messages reserve_body =
     bindE (router_dispatch env cfg model prompt messages) (\<lambda>provider_result.
       let actual_cost = py_min (pr_actual_cost provider_result) estimated_cost;
           settle_payload = gateway_settle op_key actual_cost provider_result
       in seqE (modifyE (\<lambda>g. g\<lparr>sidecar := meanwhile env (sidecar g)\<rparr>))
          (bindE (post (settle_delivery env)
              (guarded dp (sidecar_internal_token cfg) (settle_request_ok settle_payload)
                (settle_route (dp_host dp) (dp_settings dp) settle_payload))) (\<lambda>settle_body.
            ret \<lparr>do_idempotency_key = op_key, do_reserve_status = status_name (rr_status reserve_body),
                 do_settle_status = status_name (or_status settle_body), do_actual_cost = actual_cost,
                 do_provider = provider_result\<rparr>)))"

definition execute_governed_dispatch ::
  "deployment \<Rightarrow> gateway_env \<Rightarrow> gateway_settings \<Rightarrow> string \<Rightarrow> string \<Rightarrow> string \<Rightarrow> decimal \<Rightarrow> string option
     \<Rightarrow> string option \<Rightarrow> chat_message list option \<Rightarrow> dispatch_outcome gexec" where
  "execute_governed_dispatch dp env cfg user_id trace_id model estimated_cost idempotency_key prompt messages =
     getsE (op_key_of env idempotency_key) (\<lambda>op_key.
       let reserve_payload = gateway_reserve user_id trace_id op_key model estimated_cost
       in bindE (post (reserve_delivery env)
              (guarded dp (sidecar_internal_token cfg) (reserve_request_ok reserve_payload)
                (reserve_route (dp_host dp) (dp_settings dp) reserve_payload)))
            (dispatch_and_settle dp env cfg op_key model estimated_cost prompt messages))"

text \<open>\<open>POST /governed/dispatch\<close>.\<close>

record dispatch_request =
  dr_user_id :: string
  dr_trace_id :: string
  dr_model :: string
  dr_estimated_cost :: decimal
  dr_idempotency_key :: "string option"
  dr_prompt :: "string option"
  dr_messages :: "chat_message list option"

definition dispatch_request_ok :: "dispatch_request \<Rightarrow> bool" where
  "dispatch_request_ok r =
     (bounded_str 1 255 (dr_user_id r) \<and> bounded_str 1 255 (dr_trace_id r) \<and> bounded_str 1 255 (dr_model r)
      \<and> \<not> negative (dr_estimated_cost r) \<and> (case dr_prompt r of None \<Rightarrow> True | Some p \<Rightarrow> p \<noteq> []))"

definition governed_dispatch ::
  "deployment \<Rightarrow> gateway_env \<Rightarrow> gateway_settings \<Rightarrow> string option \<Rightarrow> string option \<Rightarrow> dispatch_request
     \<Rightarrow> (string \<times> dispatch_outcome) gexec" where
  "governed_dispatch dp env cfg authorization x_internal_token r =
     getsE (\<lambda>g. clock (sidecar g)) (\<lambda>now.
       case require_dispatch_auth (dp_idp dp) now cfg authorization x_internal_token of
         Inl e \<Rightarrow> throw e
       | Inr ctx \<Rightarrow>
           if \<not> dispatch_request_ok r then throw (HTTPException 422 ''Unprocessable Entity'')
           else bindE (execute_governed_dispatch dp env cfg (dr_user_id r) (dr_trace_id r) (dr_model r)
                   (dr_estimated_cost r) (dr_idempotency_key r) (dr_prompt r) (dr_messages r))
                 (\<lambda>outcome. ret (ac_subject ctx, outcome)))"

section \<open>The OpenAI-compatible API\<close>

record catalog_entry =
  ce_id :: string
  ce_created :: int
  ce_owned_by :: string

definition OPENAI_MODEL_CATALOG :: "catalog_entry list" where
  "OPENAI_MODEL_CATALOG =
     [\<lparr>ce_id = ''gpt-4o-mini'', ce_created = 1686935002, ce_owned_by = ''openai''\<rparr>,
      \<lparr>ce_id = ''gpt-4.1-mini'', ce_created = 1715443200, ce_owned_by = ''openai''\<rparr>,
      \<lparr>ce_id = ''anthropic/claude-3-5-haiku-latest'', ce_created = 1715443200, ce_owned_by = ''anthropic''\<rparr>,
      \<lparr>ce_id = ''vertex/gemini-1.5-flash'', ce_created = 1715443200, ce_owned_by = ''google''\<rparr>]"

definition retrieve_model :: "string \<Rightarrow> exn + catalog_entry" where
  "retrieve_model model_id =
     (case List.find (\<lambda>entry. ce_id entry = model_id) OPENAI_MODEL_CATALOG of
        Some entry \<Rightarrow> Inr entry
      | None \<Rightarrow> Inl (HTTPException 404 (''The model '' @ [CHR 0x27] @ model_id @ [CHR 0x27] @ '' does not exist.'')))"

record completion_request =
  cr_model :: string
  cr_messages :: "(string \<times> json) list"
  cr_max_tokens :: "int option"
  cr_user :: "string option"
  cr_stream :: bool

definition completion_request_ok :: "completion_request \<Rightarrow> bool" where
  "completion_request_ok r =
     (bounded_str 1 255 (cr_model r) \<and> cr_messages r \<noteq> []
      \<and> (\<forall>(role, content) \<in> set (cr_messages r).
           role \<in> {''system'', ''user'', ''assistant'', ''tool'', ''developer''}
           \<and> (case content of JNull \<Rightarrow> True | JStr _ \<Rightarrow> True | JArr _ \<Rightarrow> True | _ \<Rightarrow> False))
      \<and> (case cr_max_tokens r of None \<Rightarrow> True | Some n \<Rightarrow> 1 \<le> n)
      \<and> opt_ok (bounded_str 0 255) (cr_user r))"

definition content_part :: "identity_provider \<Rightarrow> json \<Rightarrow> string list" where
  "content_part idp item =
     (case item of
        JObj kvs \<Rightarrow> (if json_truthy (claim ''text'' kvs) then [py_str idp (claim ''text'' kvs)] else [])
      | _ \<Rightarrow> [py_str idp item])"

definition message_content_to_str :: "identity_provider \<Rightarrow> json \<Rightarrow> string" where
  "message_content_to_str idp content =
     (case content of
        JStr s \<Rightarrow> s
      | JArr items \<Rightarrow> join '' '' (concat (map (content_part idp) items))
      | _ \<Rightarrow> [])"

definition messages_to_provider :: "identity_provider \<Rightarrow> (string \<times> json) list \<Rightarrow> chat_message list" where
  "messages_to_provider idp messages =
     map (\<lambda>(role, content). \<lparr>cm_role = role, cm_content = message_content_to_str idp content\<rparr>) messages"

definition stripped :: "string option \<Rightarrow> string option" where
  "stripped x = (if truthy x \<and> strip (the x) \<noteq> [] then Some (strip (the x)) else None)"

definition resolve_user_id :: "completion_request \<Rightarrow> string option \<Rightarrow> gateway_settings \<Rightarrow> string" where
  "resolve_user_id r x_mg_user_id cfg =
     (case stripped x_mg_user_id of
        Some u \<Rightarrow> u
      | None \<Rightarrow> (case stripped (cr_user r) of Some u \<Rightarrow> u | None \<Rightarrow> openai_compat_default_user_id cfg))"

definition resolve_trace_id :: "string option \<Rightarrow> string \<Rightarrow> string" where
  "resolve_trace_id x_mg_trace_id user_id =
     (case stripped x_mg_trace_id of Some t \<Rightarrow> t | None \<Rightarrow> ''openai-'' @ user_id)"

record completion_response =
  co_id :: string
  co_model :: string
  co_content :: string
  co_prompt_tokens :: int
  co_completion_tokens :: int
  co_total_tokens :: int

definition chat_completion_response :: "string \<Rightarrow> provider_result \<Rightarrow> completion_response" where
  "chat_completion_response uuid24 p =
     \<lparr>co_id = (if startswith (pr_provider_request_id p) ''chatcmpl-'' then pr_provider_request_id p
               else ''chatcmpl-'' @ uuid24),
      co_model = pr_model p, co_content = pr_response_text p, co_prompt_tokens = pr_input_tokens p,
      co_completion_tokens = pr_output_tokens p, co_total_tokens = pr_input_tokens p + pr_output_tokens p\<rparr>"

text \<open>\<open>POST /v1/chat/completions\<close> for an admitted caller, with the governance headers.\<close>

definition chat_completions ::
  "deployment \<Rightarrow> gateway_env \<Rightarrow> gateway_settings \<Rightarrow> string \<Rightarrow> completion_request \<Rightarrow> string option \<Rightarrow> string option
     \<Rightarrow> string option \<Rightarrow> completion_response gexec" where
  "chat_completions dp env cfg uuid24 r x_mg_user_id x_mg_trace_id x_mg_idempotency_key =
     (if cr_stream r then throw (HTTPException 400 ''Streaming is not supported yet. Set stream=false.'')
      else if \<not> openai_compat_enabled cfg then throw (HTTPException 404 ''OpenAI-compatible API is disabled'')
      else let provider_messages = messages_to_provider (dp_idp dp) (cr_messages r);
               user_id = resolve_user_id r x_mg_user_id cfg;
               trace_id = resolve_trace_id x_mg_trace_id user_id;
               estimated_cost = estimate_chat_reserve_cost (cr_model r) provider_messages (cr_max_tokens r) cfg
           in bindE (execute_governed_dispatch dp env cfg user_id trace_id (cr_model r) estimated_cost
                 x_mg_idempotency_key None (Some provider_messages))
               (\<lambda>outcome. ret (chat_completion_response uuid24 (do_provider outcome))))"

definition chat_completions_route ::
  "deployment \<Rightarrow> gateway_env \<Rightarrow> gateway_settings \<Rightarrow> string \<Rightarrow> string option \<Rightarrow> string option \<Rightarrow> completion_request
     \<Rightarrow> string option \<Rightarrow> string option \<Rightarrow> string option \<Rightarrow> completion_response gexec" where
  "chat_completions_route dp env cfg uuid24 authorization x_internal_token r x_mg_user_id x_mg_trace_id x_mg_idempotency_key =
     getsE (\<lambda>g. clock (sidecar g)) (\<lambda>now.
       case require_openai_compat_auth (dp_idp dp) now cfg authorization x_internal_token of
         Inl e \<Rightarrow> throw e
       | Inr _ \<Rightarrow>
           if \<not> completion_request_ok r then throw (HTTPException 422 ''Unprocessable Entity'')
           else chat_completions dp env cfg uuid24 r x_mg_user_id x_mg_trace_id x_mg_idempotency_key)"

end
