(* ===== verification/Console.thy ===== *)
theory Console
  imports Routes Auth
begin

text \<open>
  The privileged routes of \<^verbatim>\<open>sidecar/app/routes_admin.py\<close> that change state, with the audit log they write
  (\<^verbatim>\<open>sidecar/app/admin_audit.py\<close>) and the anchors of the ledger head (\<^verbatim>\<open>sidecar/app/ledger_anchor.py\<close>,
  \<^verbatim>\<open>sidecar/app/ledger_anchor_s3.py\<close>). The S3 client and the webhook are parameters: whether a put succeeds, and the
  status a POST gets. The read-only routes select from the tables of the model.
\<close>

section \<open>The audit log\<close>

text \<open>\<open>{"actor_roles": actor_roles, **details}\<close>: a key of \<open>details\<close> overrides.\<close>

definition audit_metadata :: "string \<Rightarrow> jobject \<Rightarrow> jobject" where
  "audit_metadata actor_roles details =
     (if ''actor_roles'' \<in> fst ` set details then details else (''actor_roles'', JStr actor_roles) # details)"

definition audit_digest :: "host \<Rightarrow> audit_row \<Rightarrow> string \<Rightarrow> string" where
  "audit_digest h a prev_hash =
     compute_row_hash h (au_audit_id a) (au_resource a) (au_actor_subject a) (au_action a) (au_actor_method a)
       (audit_metadata (au_actor_roles a) (au_details a)) (au_recorded_at a) prev_hash"

definition audit_previous_hash :: "audit_row list \<Rightarrow> string" where
  "audit_previous_hash rows =
     (case sort_key au_audit_id (filter (\<lambda>a. au_row_hash a \<noteq> None) rows) of
        [] \<Rightarrow> GENESIS_HASH
      | a # as \<Rightarrow> str_or (au_row_hash (last (a # as))) GENESIS_HASH)"

definition seal_admin_audit_row :: "host \<Rightarrow> audit_row \<Rightarrow> db \<Rightarrow> db" where
  "seal_admin_audit_row h a d =
     (let prev_hash = audit_previous_hash (admin_audit_log d); row_hash = audit_digest h a prev_hash
      in d\<lparr>admin_audit_log := update_where (\<lambda>b. au_audit_id b = au_audit_id a)
             (\<lambda>b. b\<lparr>au_prev_hash := Some prev_hash, au_row_hash := Some row_hash\<rparr>) (admin_audit_log d)\<rparr>)"

fun method_name :: "auth_method \<Rightarrow> string" where
  "method_name Oidc = ''oidc''"
| "method_name Internal_Token = ''internal_token''"

text \<open>The row of an action as it is inserted.\<close>

definition audit_entry :: "host \<Rightarrow> int \<Rightarrow> auth_context \<Rightarrow> string \<Rightarrow> string \<Rightarrow> jobject \<Rightarrow> db \<Rightarrow> audit_row" where
  "audit_entry h now ctx action resource details d =
     \<lparr>au_audit_id = next_audit_id d, au_actor_subject = ac_subject ctx, au_actor_method = method_name (ac_method ctx),
      au_actor_roles = join '','' (sorted_list_of_set (ac_roles ctx)), au_action = action, au_resource = resource,
      au_details = details, au_recorded_at = timestamp_text h now, au_prev_hash = None, au_row_hash = None\<rparr>"

definition insert_audit_row :: "audit_row \<Rightarrow> db \<Rightarrow> db" where
  "insert_audit_row a d = d\<lparr>admin_audit_log := admin_audit_log d @ [a], next_audit_id := next_audit_id d + 1\<rparr>"

definition log_action :: "host \<Rightarrow> int \<Rightarrow> auth_context \<Rightarrow> string \<Rightarrow> string \<Rightarrow> jobject \<Rightarrow> db \<Rightarrow> db" where
  "log_action h now ctx action resource details d =
     (let a = audit_entry h now ctx action resource details d
      in seal_admin_audit_row h a (insert_audit_row a d))"

definition record_admin_action :: "host \<Rightarrow> auth_context \<Rightarrow> string \<Rightarrow> string \<Rightarrow> jobject \<Rightarrow> int option handler" where
  "record_admin_action h ctx action resource details =
     getsE (\<lambda>s. (has_admin_audit (db s), next_audit_id (db s), clock s)) (\<lambda>(supported, audit_id, now).
       if \<not> supported then ret None
       else seqE (modifyE (on_db (log_action h now ctx action resource details))) (ret (Some audit_id)))"

section \<open>Diagnostic mode\<close>

definition json_opt :: "string option \<Rightarrow> json" where
  "json_opt x = (case x of None \<Rightarrow> JNull | Some v \<Rightarrow> JStr v)"

definition local_snapshot :: "sys \<Rightarrow> jobject" where
  "local_snapshot s =
     [(''diagnostic_mode'', JBool (diag_active (diagnostic s))),
      (''diagnostic_component'', json_opt (diag_component (diagnostic s))),
      (''diagnostic_reason'', json_opt (diag_reason (diagnostic s)))]"

definition diagnostic_snapshot :: "host \<Rightarrow> jobject handler" where
  "diagnostic_snapshot h =
     bindE (redis_client h) (\<lambda>client.
       getsE (\<lambda>s. (local_snapshot s, if client then redis_hash h (redis_log s) diagnostic_key else None)) (\<lambda>(snap, reply).
         seqE (whenE client (modifyE (send (HGETALL diagnostic_key))))
           (ret (case reply of
              None \<Rightarrow> snap
            | Some data \<Rightarrow>
                if map_of data ''active'' = Some ''1''
                then [(''diagnostic_mode'', JBool True), (''diagnostic_component'', json_opt (map_of data ''component'')),
                      (''diagnostic_reason'', json_opt (map_of data ''reason''))]
                else snap))))"

definition post_clear_diagnostic_mode :: "host \<Rightarrow> auth_context \<Rightarrow> jobject handler" where
  "post_clear_diagnostic_mode h ctx =
     seqE (get_db_session (bindE (diagnostic_snapshot h) (\<lambda>snap.
        seqE (record_admin_action h ctx ''diagnostic.clear'' ''/internal/diagnostic/clear'' snap) (modifyE commit))))
     (seqE (clear_diagnostic_mode h)
     (seqE (modifyE (increment ''finance_audit_diagnostic_cleared_total'')) (diagnostic_snapshot h)))"

section \<open>Chain verification and anchors\<close>

text \<open>The reason of a break; of the result that the verification route puts into its error, only the reason is kept.\<close>

definition break_reason :: "verification_result \<Rightarrow> string" where
  "break_reason v = (case vr_first_break v of None \<Rightarrow> ''ledger chain invalid'' | Some b \<Rightarrow> br_reason b)"

definition get_ledger_verify_chain :: "host \<Rightarrow> verification_result handler" where
  "get_ledger_verify_chain h =
     bindE (get_db_session (\<lambda>s. case verify_ledger_chain h True (committed s) s of (t, v) \<Rightarrow> (t, Inr v))) (\<lambda>v.
       if \<not> vr_valid v
       then seqE (modifyE (increment ''ledger_chain_verification_failed_total'')) (throw (HTTPException 422 (break_reason v)))
       else seqE (modifyE (increment ''ledger_chain_verification_ok_total'')) (ret v))"

text \<open>The settings of the anchors and what the outside answers.\<close>

record anchor_settings =
  on_sqlite :: bool
  anchor_s3_bucket :: "string option"
  anchor_s3_prefix :: string
  boto3_installed :: bool
  s3_put_ok :: "string \<Rightarrow> bool"
  anchor_webhook_url :: "string option"
  webhook_status :: "int option"

definition s3_key :: "anchor_settings \<Rightarrow> string \<Rightarrow> string" where
  "s3_key cfg head = rstrip (\<lambda>c. c = CHR ''/'') (anchor_s3_prefix cfg) @ ''/'' @ head @ ''.json''"

definition anchor_head_to_s3 :: "anchor_settings \<Rightarrow> string \<Rightarrow> bool handler" where
  "anchor_head_to_s3 cfg head =
     (if \<not> truthy (anchor_s3_bucket cfg) then ret False
      else if \<not> boto3_installed cfg \<or> \<not> s3_put_ok cfg (s3_key cfg head)
      then seqE (modifyE (increment ''ledger_chain_anchor_s3_failed_total'')) (ret False)
      else seqE (modifyE (increment ''ledger_chain_anchor_s3_ok_total'')) (ret True))"

definition emit_external_anchor :: "anchor_settings \<Rightarrow> string \<Rightarrow> bool handler" where
  "emit_external_anchor cfg head =
     bindE (anchor_head_to_s3 cfg head) (\<lambda>s3.
       seqE (whenE (truthy (anchor_webhook_url cfg))
          (case webhook_status cfg of
             None \<Rightarrow> modifyE (increment ''ledger_chain_anchor_webhook_failed_total'')
           | Some code \<Rightarrow> whenE (code < 400) (modifyE (increment ''ledger_chain_anchor_webhook_ok_total''))))
        (ret s3))"

definition insert_anchor :: "string \<Rightarrow> nat \<Rightarrow> nat \<Rightarrow> string \<Rightarrow> db \<Rightarrow> db" where
  "insert_anchor head sealed total_events source d =
     (if \<exists>a \<in> set (ledger_chain_anchors d). an_head_hash a = head then d
      else d\<lparr>ledger_chain_anchors := ledger_chain_anchors d @
               [\<lparr>an_anchor_id = next_anchor_id d, an_head_hash = head, an_sealed_count = sealed,
                 an_total_events = total_events, an_source = source\<rparr>],
             next_anchor_id := next_anchor_id d + 1\<rparr>)"

text \<open>The id that the statement yields: SQLite selects the row of the head, PostgreSQL returns an inserted row only.\<close>

definition inserted_anchor :: "bool \<Rightarrow> string \<Rightarrow> db \<Rightarrow> int option" where
  "inserted_anchor sqlite head d =
     (case row_where (\<lambda>a. an_head_hash a = head) (ledger_chain_anchors d) of
        Some a \<Rightarrow> if sqlite then Some (an_anchor_id a) else None
      | None \<Rightarrow> Some (next_anchor_id d))"

record anchor_response =
  ar_anchored :: bool
  ar_anchor_id :: "int option"
  ar_head_hash :: "string option"
  ar_sealed_count :: nat
  ar_s3_anchored :: bool

definition anchor_verified_chain_head :: "host \<Rightarrow> anchor_settings \<Rightarrow> string \<Rightarrow> anchor_response handler" where
  "anchor_verified_chain_head h cfg source =
     bindE (\<lambda>s. case verify_ledger_chain h True (db s) s of (t, v) \<Rightarrow> (t, Inr v)) (\<lambda>v.
       if \<not> vr_valid v
       then seqE (modifyE (increment ''ledger_chain_anchor_failed_total'')) (throw (ValueError (break_reason v)))
       else if \<not> truthy (vr_head_hash v)
       then ret \<lparr>ar_anchored = False, ar_anchor_id = None, ar_head_hash = None, ar_sealed_count = vr_sealed_count v,
                 ar_s3_anchored = False\<rparr>
       else let head = the (vr_head_hash v)
       in getsE (\<lambda>s. (has_anchor_table (db s), inserted_anchor (on_sqlite cfg) head (db s))) (\<lambda>(supported, inserted).
            seqE (whenE supported (modifyE (on_db (insert_anchor head (vr_sealed_count v) (vr_total_events v) source))))
            (seqE (whenE (supported \<and> inserted \<noteq> None) (modifyE (increment ''ledger_chain_anchor_recorded_total'')))
            (bindE (emit_external_anchor cfg head) (\<lambda>s3.
              ret \<lparr>ar_anchored = (supported \<and> inserted \<noteq> None), ar_anchor_id = (if supported then inserted else None),
                   ar_head_hash = Some head, ar_sealed_count = vr_sealed_count v, ar_s3_anchored = s3\<rparr>)))))"

definition post_ledger_anchor_head :: "host \<Rightarrow> anchor_settings \<Rightarrow> auth_context \<Rightarrow> anchor_response handler" where
  "post_ledger_anchor_head h cfg ctx =
     get_db_session
       (seqE (record_admin_action h ctx ''ledger.anchor_head'' ''/internal/ledger/anchor-head'' [])
       (bindE (catchE (anchor_verified_chain_head h cfg ''admin_api'')
           (\<lambda>e. case e of ValueError m \<Rightarrow> throw (HTTPException 422 m) | _ \<Rightarrow> throw e)) (\<lambda>payload.
         seqE (modifyE commit) (ret payload))))"

section \<open>The audit log is a hash chain\<close>

definition audit_content :: "audit_row \<Rightarrow> int \<times> string \<times> string \<times> string \<times> string \<times> json \<times> string" where
  "audit_content a =
     (au_audit_id a, au_resource a, au_actor_subject a, au_action a, au_actor_method a,
      sort_keys (JObj (audit_metadata (au_actor_roles a) (au_details a))), au_recorded_at a)"

definition audit_payload :: "audit_row \<Rightarrow> string \<Rightarrow> string" where
  "audit_payload a prev_hash =
     row_payload (au_audit_id a) (au_resource a) (au_actor_subject a) (au_action a) (au_actor_method a)
       (audit_metadata (au_actor_roles a) (au_details a)) (au_recorded_at a) prev_hash"

lemma audit_digest_payload: "audit_digest h a g = sha256_hexdigest h (audit_payload a g)"
  by (simp add: audit_digest_def audit_payload_def compute_row_hash_def)

interpretation audit: hash_chain "sha256_hexdigest h" audit_payload audit_content for h
  by unfold_locales (auto simp: audit_payload_def audit_content_def dest!: row_payload_inj)

text \<open>One chain of rows with ascending ids.\<close>

definition audit_ok :: "host \<Rightarrow> db \<Rightarrow> bool" where
  "audit_ok h d =
     (chained (audit_digest h) au_prev_hash au_row_hash GENESIS_HASH (admin_audit_log d)
      \<and> sorted_wrt (<) (map au_audit_id (admin_audit_log d))
      \<and> (\<forall>a \<in> set (admin_audit_log d). au_audit_id a < next_audit_id d \<and> au_row_hash a \<noteq> Some []))"

lemma audit_last_hash:
  assumes "audit_ok h d"
  shows "audit_previous_hash (admin_audit_log d) = chain_head (audit_digest h) GENESIS_HASH (admin_audit_log d)"
proof (cases "admin_audit_log d = []")
  case True
  then show ?thesis by (simp add: audit_previous_hash_def)
next
  case False
  have all: "filter (\<lambda>a. au_row_hash a \<noteq> None) (admin_audit_log d) = admin_audit_log d"
    using chained_sealed assms by (fastforce simp: audit_ok_def intro!: filter_True)
  have "sort_key au_audit_id (admin_audit_log d) = admin_audit_log d"
    using assms by (simp add: audit_ok_def strict_sorted_iff sort_key_id_if_sorted)
  moreover have "au_row_hash (last (admin_audit_log d)) = Some (chain_head (audit_digest h) GENESIS_HASH (admin_audit_log d))"
    using assms False by (auto simp: audit_ok_def intro!: chain_head_last)
  moreover have "au_row_hash (last (admin_audit_log d)) \<noteq> Some []"
    using assms False by (simp add: audit_ok_def)
  ultimately show ?thesis
    using False all by (auto simp: audit_previous_hash_def str_or_def split: list.split)
qed

text \<open>An action appends one sealed row.\<close>

lemma log_action_appends:
  fixes ctx action resource details now
  assumes "audit_ok h d" "digest_ok h"
  defines "a \<equiv> audit_entry h now ctx action resource details d"
    and "head \<equiv> chain_head (audit_digest h) GENESIS_HASH (admin_audit_log d)"
  shows "admin_audit_log (log_action h now ctx action resource details d)
      = admin_audit_log d @ [a\<lparr>au_prev_hash := Some head, au_row_hash := Some (audit_digest h a head)\<rparr>]"
    and "audit_ok h (log_action h now ctx action resource details d)"
proof -
  have id: "au_audit_id a = next_audit_id d" "au_row_hash a = None" by (simp_all add: a_def audit_entry_def)
  have old: "au_audit_id b \<noteq> next_audit_id d" if "b \<in> set (admin_audit_log d)" for b
    using assms(1) that by (fastforce simp: audit_ok_def)
  have prev: "audit_previous_hash (admin_audit_log d @ [a]) = head"
    using audit_last_hash [OF assms(1)] id(2) by (simp add: audit_previous_hash_def head_def)
  have keep: "update_where (\<lambda>b. au_audit_id b = next_audit_id d) f (admin_audit_log d) = admin_audit_log d" for f
    by (rule update_where_none) (use old in blast)
  show log: "admin_audit_log (log_action h now ctx action resource details d)
      = admin_audit_log d @ [a\<lparr>au_prev_hash := Some head, au_row_hash := Some (audit_digest h a head)\<rparr>]"
    using prev keep by (simp add: log_action_def Let_def a_def [symmetric] seal_admin_audit_row_def insert_audit_row_def id(1))
  have nid: "next_audit_id (log_action h now ctx action resource details d) = next_audit_id d + 1"
    by (simp add: log_action_def Let_def seal_admin_audit_row_def insert_audit_row_def)
  have dg: "audit_digest h (a\<lparr>au_prev_hash := p, au_row_hash := q\<rparr>) g = audit_digest h a g" for p q g
    by (simp add: audit_digest_def)
  have ne: "audit_digest h a g \<noteq> []" for g using assms(2) by (simp add: audit_digest_payload digest_ok_def)
  have hd: "head \<noteq> []"
  proof (cases "admin_audit_log d" rule: rev_cases)
    case (snoc as b)
    then show ?thesis using assms(2) by (simp add: head_def chain_head_append audit_digest_payload digest_ok_def)
  qed (simp add: head_def GENESIS_HASH_def)
  show "audit_ok h (log_action h now ctx action resource details d)"
    using assms(1) ne hd
    by (auto simp: audit_ok_def log nid chained_append dg id(1) head_def [symmetric] sorted_wrt_append str_or_def dest: bspec)
qed

lemma log_action_tables [simp]:
  "ledger_events (log_action h now ctx action resource details d) = ledger_events d"
  "escrow_ledger (log_action h now ctx action resource details d) = escrow_ledger d"
  "verify_checkpoints (log_action h now ctx action resource details d) = verify_checkpoints d"
  "ledger_chain_anchors (log_action h now ctx action resource details d) = ledger_chain_anchors d"
  by (simp_all add: log_action_def Let_def seal_admin_audit_row_def insert_audit_row_def)

lemma insert_anchor_tables [simp]:
  "ledger_events (insert_anchor head n m source d) = ledger_events d"
  "escrow_ledger (insert_anchor head n m source d) = escrow_ledger d"
  "verify_checkpoints (insert_anchor head n m source d) = verify_checkpoints d"
  "admin_audit_log (insert_anchor head n m source d) = admin_audit_log d"
  "next_audit_id (insert_anchor head n m source d) = next_audit_id d"
  by (simp_all add: insert_anchor_def)

section \<open>Anchors certify a prefix of the ledger\<close>

definition anchor_ok :: "host \<Rightarrow> event list \<Rightarrow> chain_anchor \<Rightarrow> bool" where
  "anchor_ok h rows a =
     (0 < an_sealed_count a \<and> an_sealed_count a \<le> length rows \<and> an_total_events a = an_sealed_count a
      \<and> an_head_hash a = chain_head (event_digest h) GENESIS_HASH (take (an_sealed_count a) rows))"

lemma anchor_ok_append: "anchor_ok h rows a \<Longrightarrow> anchor_ok h (rows @ later) a"
  by (simp add: anchor_ok_def)

definition anchors_ok :: "host \<Rightarrow> db \<Rightarrow> bool" where
  "anchors_ok h d = (\<forall>a \<in> set (ledger_chain_anchors d). anchor_ok h (ledger_events d) a)"

text \<open>The anchor of the head of the event table.\<close>

abbreviation anchor_head :: "host \<Rightarrow> string \<Rightarrow> db \<Rightarrow> db" where
  "anchor_head h source d \<equiv> insert_anchor (chain_head (event_digest h) GENESIS_HASH (ledger_events d))
     (length (ledger_events d)) (length (ledger_events d)) source d"

lemma anchor_head_ok: "anchors_ok h d \<Longrightarrow> ledger_events d \<noteq> [] \<Longrightarrow> anchors_ok h (anchor_head h source d)"
  by (auto simp: anchors_ok_def insert_anchor_def anchor_ok_def)

end
