(* ===== verification/Ledger_Inv.thy ===== *)
theory Ledger_Inv
  imports Sweeper
begin

text \<open>
  The accounting invariant of the ledger, and its preservation by any change of one
  operation that has the shape the transactions share. The invariant ties the wallets, the trace budgets, the budget scopes and the event log to the
  operations of \<open>escrow_ledger\<close>; \<open>base\<close> gives the balance each wallet was opened with.
\<close>

section \<open>The invariant\<close>

definition held :: "status \<Rightarrow> bool" where
  "held st = (st = RESERVED \<or> st = IN_FLIGHT \<or> st = PROVIDER_TIMEOUT \<or> st = STRANDED)"

text \<open>What an operation currently costs its user.\<close>

definition charge :: "escrow \<Rightarrow> money" where
  "charge p = (if held (e_status p) then e_reserved_amount p
               else if e_status p = SETTLED then e_actual_amount p else 0)"

definition event_total :: "(event \<Rightarrow> bool) \<Rightarrow> event list \<Rightarrow> money" where
  "event_total q evs = column_sum (\<lambda>e. if q e then ev_amount_delta e else 0) evs"

abbreviation key_is :: "string \<Rightarrow> event \<Rightarrow> bool" where
  "key_is k e \<equiv> ev_idempotency_key e = k"

definition settle_count :: "string \<Rightarrow> event list \<Rightarrow> nat" where
  "settle_count k evs = count_where (is_settle_event k) evs"

definition refund_count :: "string \<Rightarrow> event list \<Rightarrow> nat" where
  "refund_count k evs = count_where (is_refund_event k) evs"

text \<open>\<open>escrow_status_timestamp_consistency\<close> of migration 0004.\<close>

definition row_times :: "escrow \<Rightarrow> bool" where
  "row_times p =
     (e_status p = RESERVED \<and> e_settled_at p = None \<and> e_expired_at p = None
      \<or> e_status p = IN_FLIGHT \<and> e_dispatch_started_at p \<noteq> None \<and> e_settled_at p = None
      \<or> e_status p = PROVIDER_TIMEOUT \<and> e_dispatch_started_at p \<noteq> None \<and> e_settled_at p = None
      \<or> e_status p = STRANDED \<and> e_dispatch_started_at p \<noteq> None \<and> e_expired_at p \<noteq> None
      \<or> e_status p = SETTLED \<and> e_settled_at p \<noteq> None
      \<or> e_status p = EXPIRED \<and> e_expired_at p \<noteq> None \<and> e_settled_at p = None
      \<or> e_status p = REFUNDED)"

definition row_amounts :: "escrow \<Rightarrow> bool" where
  "row_amounts p =
     (0 \<le> e_reserved_amount p \<and> 0 \<le> e_actual_amount p \<and> e_status p \<noteq> REFUNDED
      \<and> (if e_status p = SETTLED then e_drift_amount p = e_actual_amount p - e_reserved_amount p
         else e_actual_amount p = 0 \<and> e_drift_amount p = 0)
      \<and> (e_status p \<noteq> SETTLED \<longrightarrow> e_settled_at p = None))"

definition row_events :: "event list \<Rightarrow> escrow \<Rightarrow> bool" where
  "row_events evs p =
     (let k = e_idempotency_key p
      in event_total (key_is k) evs = - charge p
         \<and> event_total (is_refund_event k) evs = e_reserved_amount p * int (refund_count k evs)
         \<and> settle_count k evs = (if e_status p = SETTLED then 1 else 0)
         \<and> refund_count k evs \<le> 1
         \<and> (e_status p = EXPIRED \<longrightarrow> refund_count k evs = 1)
         \<and> (held (e_status p) \<longrightarrow> refund_count k evs = 0)
         \<and> (e_status p = STRANDED \<longrightarrow> (\<exists>e \<in> set evs. key_is k e \<and> ev_event_type e = ''STRANDED_HOLD'')))"

definition row_refs :: "attempt list \<Rightarrow> string list \<Rightarrow> (string \<times> money) list \<Rightarrow> escrow \<Rightarrow> bool" where
  "row_refs ats us ts p =
     (e_user_id p \<in> set us \<and> (e_trace_id p, e_trace_cap_amount p) \<in> set ts
      \<and> (e_status p = RESERVED \<longrightarrow> (\<forall>a \<in> set ats. a_idempotency_key a \<noteq> e_idempotency_key p)))"

definition wallet_ok :: "(string \<Rightarrow> money) \<Rightarrow> event list \<Rightarrow> escrow list \<Rightarrow> wallet \<Rightarrow> bool" where
  "wallet_ok base evs ops w =
     (0 \<le> w_balance w
      \<and> w_balance w = base (w_user_id w) + event_total (\<lambda>e. ev_user_id e = w_user_id w) evs
      \<and> w_balance w = base (w_user_id w)
          - column_sum (\<lambda>p. if e_user_id p = w_user_id w then charge p else 0) ops)"

definition trace_ok :: "escrow list \<Rightarrow> trace_budget \<Rightarrow> bool" where
  "trace_ok ops t =
     (t_reserved_total t \<le> t_cap_amount t
      \<and> t_reserved_total t = column_sum (\<lambda>p. if e_trace_id p = t_trace_id t \<and> held (e_status p)
                                            then e_reserved_amount p else 0) ops
      \<and> t_settled_total t = column_sum (\<lambda>p. if e_trace_id p = t_trace_id t \<and> e_status p = SETTLED
                                           then e_actual_amount p else 0) ops)"

definition scope_keys :: "escrow \<Rightarrow> (string \<times> string) list" where
  "scope_keys p =
     [(''run'', e_agent_run_id p), (''session'', e_session_id p), (''user'', e_user_id p),
      (''tenant'', e_tenant_id p)]"

text \<open>What an operation has consumed of its scopes: its charge and every refund of an expiry.\<close>

definition scope_spend :: "event list \<Rightarrow> escrow \<Rightarrow> money" where
  "scope_spend evs p = charge p + e_reserved_amount p * int (refund_count (e_idempotency_key p) evs)"

definition scope_total :: "event list \<Rightarrow> escrow list \<Rightarrow> string \<times> string \<Rightarrow> money" where
  "scope_total evs ops k = column_sum (\<lambda>p. if k \<in> set (scope_keys p) then scope_spend evs p else 0) ops"

definition scopes_inv :: "db \<Rightarrow> bool" where
  "scopes_inv d =
     (scopes_ok d \<and> (\<forall>k. scope_consumed k d = scope_total (ledger_events d) (escrow_ledger d) k))"

abbreviation trace_caps :: "db \<Rightarrow> (string \<times> money) list" where
  "trace_caps d \<equiv> map (\<lambda>t. (t_trace_id t, t_cap_amount t)) (trace_budget_state d)"

definition ops_inv :: "db \<Rightarrow> bool" where
  "ops_inv d =
     (\<forall>p \<in> set (escrow_ledger d).
        row_amounts p \<and> row_times p \<and> row_events (ledger_events d) p
        \<and> row_refs (provider_dispatch_attempts d) (map w_user_id (user_wallets d)) (trace_caps d) p)"

definition refs_inv :: "db \<Rightarrow> bool" where
  "refs_inv d =
     ((\<forall>e \<in> set (ledger_events d). \<exists>p \<in> set (escrow_ledger d).
         ev_idempotency_key e = e_idempotency_key p \<and> ev_user_id e = e_user_id p)
      \<and> (\<forall>a \<in> set (provider_dispatch_attempts d). \<exists>p \<in> set (escrow_ledger d).
         a_idempotency_key a = e_idempotency_key p))"

definition keys_inv :: "db \<Rightarrow> bool" where
  "keys_inv d =
     (distinct (map w_user_id (user_wallets d)) \<and> distinct (map t_trace_id (trace_budget_state d))
      \<and> distinct (map e_idempotency_key (escrow_ledger d)))"

definition ledger_inv :: "host \<Rightarrow> (string \<Rightarrow> money) \<Rightarrow> db \<Rightarrow> bool" where
  "ledger_inv h base d =
     (chain_ok h d \<and> keys_inv d \<and> ops_inv d \<and> refs_inv d
      \<and> (\<forall>w \<in> set (user_wallets d). wallet_ok base (ledger_events d) (escrow_ledger d) w)
      \<and> (\<forall>t \<in> set (trace_budget_state d). trace_ok (escrow_ledger d) t)
      \<and> (has_tenant_id d \<longrightarrow> scopes_inv d))"

section \<open>Events of one operation\<close>

lemma event_total_simps [simp]:
  "event_total q [] = 0"
  "event_total q (e # evs) = (if q e then ev_amount_delta e else 0) + event_total q evs"
  "event_total q (xs @ ys) = event_total q xs + event_total q ys"
  by (simp_all add: event_total_def)

lemma event_total_none: "\<forall>e \<in> set evs. \<not> q e \<Longrightarrow> event_total q evs = 0"
  by (induction evs) auto

lemma settle_count_append [simp]: "settle_count k (xs @ ys) = settle_count k xs + settle_count k ys"
  by (simp add: settle_count_def)

lemma refund_count_append [simp]: "refund_count k (xs @ ys) = refund_count k xs + refund_count k ys"
  by (simp add: refund_count_def)

text \<open>Events of one key and user, and what they say of other keys and users.\<close>

definition events_of :: "string \<Rightarrow> string \<Rightarrow> event list \<Rightarrow> bool" where
  "events_of k u es = (\<forall>e \<in> set es. ev_idempotency_key e = k \<and> ev_user_id e = u)"

lemma events_of_other:
  assumes "events_of k u es" "k' \<noteq> k"
  shows "event_total (key_is k') es = 0" "event_total (is_refund_event k') es = 0"
    "settle_count k' es = 0" "refund_count k' es = 0"
  using assms
  by (auto simp: events_of_def is_refund_event_def is_settle_event_def settle_count_def refund_count_def
      count_where_0 intro!: event_total_none)

lemma events_of_user:
  assumes "events_of k u es"
  shows "event_total (\<lambda>e. ev_user_id e = u') es = (if u' = u then event_total (key_is k) es else 0)"
  using assms unfolding events_of_def by (induction es) auto

lemma row_events_other:
  assumes "row_events evs p" "events_of k u es" "e_idempotency_key p \<noteq> k"
  shows "row_events (evs @ es) p"
  using assms(1) events_of_other [OF assms(2,3)] unfolding row_events_def Let_def by auto

lemma scope_spend_other:
  assumes "events_of k u es" "e_idempotency_key p \<noteq> k"
  shows "scope_spend (evs @ es) p = scope_spend evs p"
  using events_of_other(4) [OF assms] by (simp add: scope_spend_def)

section \<open>A transaction on one operation\<close>

text \<open>
  The shape that settling, recording a dispatch, stranding and refunding have in common:
  operation \<open>p\<close> becomes \<open>f p\<close>, events \<open>es\<close> of \<open>p\<close> are appended, the wallet of its user moves by
  their sum, its trace budget by the change of what it holds and has settled, and its
  scopes by the change of what it has spent.
\<close>

definition reserved_of :: "escrow \<Rightarrow> money" where
  "reserved_of p = (if held (e_status p) then e_reserved_amount p else 0)"

definition settled_of :: "escrow \<Rightarrow> money" where
  "settled_of p = (if e_status p = SETTLED then e_actual_amount p else 0)"

definition same_identity :: "escrow \<Rightarrow> escrow \<Rightarrow> bool" where
  "same_identity p q =
     (e_idempotency_key q = e_idempotency_key p \<and> e_user_id q = e_user_id p \<and> e_trace_id q = e_trace_id p
      \<and> e_reserved_amount q = e_reserved_amount p \<and> e_trace_cap_amount q = e_trace_cap_amount p
      \<and> e_tenant_id q = e_tenant_id p \<and> e_session_id q = e_session_id p
      \<and> e_agent_run_id q = e_agent_run_id p)"

definition wallets_shift :: "string \<Rightarrow> money \<Rightarrow> wallet list \<Rightarrow> wallet list \<Rightarrow> bool" where
  "wallets_shift u delta ws ws' =
     (map w_user_id ws' = map w_user_id ws
      \<and> (\<forall>w' \<in> set ws'. \<exists>w \<in> set ws. w_user_id w' = w_user_id w
           \<and> w_balance w' = w_balance w + (if w_user_id w = u then delta else 0)))"

definition wallets_moved :: "string \<Rightarrow> money \<Rightarrow> db \<Rightarrow> db \<Rightarrow> bool" where
  "wallets_moved u delta d d' =
     (wallets_shift u delta (user_wallets d) (user_wallets d')
      \<and> (\<forall>w' \<in> set (user_wallets d'). 0 \<le> w_balance w'))"

definition traces_shift :: "string \<Rightarrow> money \<Rightarrow> money \<Rightarrow> trace_budget list \<Rightarrow> trace_budget list \<Rightarrow> bool" where
  "traces_shift x dr ds ts ts' =
     (map (\<lambda>t. (t_trace_id t, t_cap_amount t)) ts' = map (\<lambda>t. (t_trace_id t, t_cap_amount t)) ts
      \<and> (\<forall>t' \<in> set ts'. \<exists>t \<in> set ts. t_trace_id t' = t_trace_id t \<and> t_cap_amount t' = t_cap_amount t
           \<and> t_reserved_total t' = t_reserved_total t + (if t_trace_id t = x then dr else 0)
           \<and> t_settled_total t' = t_settled_total t + (if t_trace_id t = x then ds else 0)))"

definition scopes_moved :: "(string \<times> string) list \<Rightarrow> money \<Rightarrow> db \<Rightarrow> db \<Rightarrow> bool" where
  "scopes_moved ks delta d d' =
     ((scopes_ok d \<longrightarrow> scopes_ok d')
      \<and> (\<forall>k. scope_consumed k d' = scope_consumed k d + (if k \<in> set ks then delta else 0)))"

definition op_moved :: "host \<Rightarrow> escrow \<Rightarrow> (escrow \<Rightarrow> escrow) \<Rightarrow> event list \<Rightarrow> db \<Rightarrow> db \<Rightarrow> bool" where
  "op_moved h p f es d d' =
     (find_operation (e_idempotency_key p) d = Some p \<and> same_identity p (f p)
      \<and> escrow_ledger d' = escrow_ledger (change_operation (e_idempotency_key p) f d)
      \<and> ledger_events d' = ledger_events d @ es \<and> events_of (e_idempotency_key p) (e_user_id p) es
      \<and> wallets_moved (e_user_id p) (event_total (key_is (e_idempotency_key p)) es) d d'
      \<and> traces_shift (e_trace_id p) (reserved_of (f p) - reserved_of p)
           (settled_of (f p) - settled_of p) (trace_budget_state d) (trace_budget_state d')
      \<and> reserved_of (f p) \<le> reserved_of p
      \<and> (\<forall>a' \<in> set (provider_dispatch_attempts d'). a_idempotency_key a' = e_idempotency_key p
           \<or> (\<exists>a \<in> set (provider_dispatch_attempts d). a_idempotency_key a = a_idempotency_key a'))
      \<and> has_tenant_id d' = has_tenant_id d
      \<and> (has_tenant_id d \<longrightarrow> scopes_moved (scope_keys p)
           (scope_spend (ledger_events d') (f p) - scope_spend (ledger_events d) p) d d')
      \<and> chain_ok h d'
      \<and> row_amounts (f p) \<and> row_times (f p) \<and> row_events (ledger_events d') (f p)
      \<and> e_status (f p) \<noteq> RESERVED)"

lemma find_operation_in: "find_operation k d = Some p \<Longrightarrow> p \<in> set (escrow_ledger d) \<and> e_idempotency_key p = k"
  by (auto simp: find_operation_def dest: row_where_keyD)

lemma change_operation_set:
  assumes "keys_inv d" "find_operation k d = Some p"
  shows "set (escrow_ledger (change_operation k f d)) = insert (f p) (set (escrow_ledger d) - {p})"
  using assms unfolding keys_inv_def find_operation_def change_operation_def
  by (simp add: set_update_key)

lemma other_key:
  assumes "keys_inv d" "p \<in> set (escrow_ledger d)" "q \<in> set (escrow_ledger d)" "q \<noteq> p"
  shows "e_idempotency_key q \<noteq> e_idempotency_key p"
  using assms unfolding keys_inv_def distinct_map inj_on_def by blast

lemma op_moved_sum:
  assumes "keys_inv d" "find_operation (e_idempotency_key p) d = Some p"
    and "\<And>q. q \<in> set (escrow_ledger d) \<Longrightarrow> e_idempotency_key q \<noteq> e_idempotency_key p \<Longrightarrow> g' q = g q"
  shows "column_sum g' (escrow_ledger (change_operation (e_idempotency_key p) f d))
    = column_sum g (escrow_ledger d) - g p + g' (f p)"
  using column_sum_change [of e_idempotency_key "escrow_ledger d" "e_idempotency_key p" p g' g f] assms
  by (simp add: keys_inv_def find_operation_def change_operation_def)

lemma op_movedD:
  assumes "op_moved h p f es d d'"
  shows moved_found: "find_operation (e_idempotency_key p) d = Some p"
    and moved_ident: "same_identity p (f p)"
    and moved_ops: "escrow_ledger d' = escrow_ledger (change_operation (e_idempotency_key p) f d)"
    and moved_log: "ledger_events d' = ledger_events d @ es"
    and moved_log_of: "events_of (e_idempotency_key p) (e_user_id p) es"
    and moved_wallets: "wallets_moved (e_user_id p) (event_total (key_is (e_idempotency_key p)) es) d d'"
    and moved_traces: "traces_shift (e_trace_id p) (reserved_of (f p) - reserved_of p)
           (settled_of (f p) - settled_of p) (trace_budget_state d) (trace_budget_state d')"
    and moved_less: "reserved_of (f p) \<le> reserved_of p"
    and moved_attempts: "\<forall>a' \<in> set (provider_dispatch_attempts d'). a_idempotency_key a' = e_idempotency_key p
           \<or> (\<exists>a \<in> set (provider_dispatch_attempts d). a_idempotency_key a = a_idempotency_key a')"
    and moved_tenant: "has_tenant_id d' = has_tenant_id d"
    and moved_scopes: "has_tenant_id d \<Longrightarrow> scopes_moved (scope_keys p)
           (scope_spend (ledger_events d') (f p) - scope_spend (ledger_events d) p) d d'"
    and moved_chain: "chain_ok h d'"
    and moved_row: "row_amounts (f p)" "row_times (f p)" "row_events (ledger_events d') (f p)"
    and moved_dispatched: "e_status (f p) \<noteq> RESERVED"
  using assms unfolding op_moved_def by blast+

lemma op_moved_set:
  assumes "op_moved h p f es d d'" "keys_inv d"
  shows "p \<in> set (escrow_ledger d)"
    and "set (escrow_ledger d') = insert (f p) (set (escrow_ledger d) - {p})"
  using find_operation_in [OF moved_found [OF assms(1)]] change_operation_set [OF assms(2) moved_found [OF assms(1)]]
    moved_ops [OF assms(1)] by simp_all

lemma op_moved_tables:
  assumes "op_moved h p f es d d'"
  shows "trace_caps d' = trace_caps d" "map t_trace_id (trace_budget_state d') = map t_trace_id (trace_budget_state d)"
    "map w_user_id (user_wallets d') = map w_user_id (user_wallets d)"
proof -
  show caps: "trace_caps d' = trace_caps d" using moved_traces [OF assms] by (simp add: traces_shift_def)
  show "map t_trace_id (trace_budget_state d') = map t_trace_id (trace_budget_state d)"
    using arg_cong [OF caps, of "map fst"] by (simp add: comp_def)
  show "map w_user_id (user_wallets d') = map w_user_id (user_wallets d)"
    using moved_wallets [OF assms] by (simp add: wallets_moved_def wallets_shift_def)
qed

lemma op_moved_keys:
  assumes m: "op_moved h p f es d d'" and k: "keys_inv d"
  shows "keys_inv d'"
proof -
  have only: "q = p" if "q \<in> set (escrow_ledger d)" "e_idempotency_key q = e_idempotency_key p" for q
    using other_key [OF k op_moved_set(1) [OF m k]] that by blast
  have "map e_idempotency_key (update_where (\<lambda>q. e_idempotency_key q = e_idempotency_key p) f (escrow_ledger d))
      = map e_idempotency_key (escrow_ledger d)"
    unfolding update_where_def map_map
    by (rule map_cong [OF HOL.refl]) (use only moved_ident [OF m] in \<open>auto simp: same_identity_def\<close>)
  then have "map e_idempotency_key (escrow_ledger d') = map e_idempotency_key (escrow_ledger d)"
    using moved_ops [OF m] by (simp add: change_operation_def)
  then show ?thesis
    using k op_moved_tables(2,3) [OF m] by (simp add: keys_inv_def)
qed

lemma op_moved_ops:
  assumes m: "op_moved h p f es d d'" and k: "keys_inv d" and o: "ops_inv d"
  shows "ops_inv d'"
  unfolding ops_inv_def op_moved_tables [OF m]
proof
  fix q assume "q \<in> set (escrow_ledger d')"
  then consider (new) "q = f p" | (old) "q \<in> set (escrow_ledger d)" "q \<noteq> p"
    using op_moved_set(2) [OF m k] by blast
  then show "row_amounts q \<and> row_times q \<and> row_events (ledger_events d') q
      \<and> row_refs (provider_dispatch_attempts d') (map w_user_id (user_wallets d)) (trace_caps d) q"
  proof cases
    case new
    have "row_refs (provider_dispatch_attempts d) (map w_user_id (user_wallets d)) (trace_caps d) p"
      using o op_moved_set(1) [OF m k] by (simp add: ops_inv_def)
    then have "row_refs (provider_dispatch_attempts d') (map w_user_id (user_wallets d)) (trace_caps d) (f p)"
      using moved_ident [OF m] moved_dispatched [OF m] by (simp add: row_refs_def same_identity_def)
    then show ?thesis using new moved_row [OF m] by simp
  next
    case old
    then have ne: "e_idempotency_key q \<noteq> e_idempotency_key p"
      using other_key [OF k op_moved_set(1) [OF m k]] by blast
    have oq: "row_amounts q" "row_times q" "row_events (ledger_events d) q"
      "row_refs (provider_dispatch_attempts d) (map w_user_id (user_wallets d)) (trace_caps d) q"
      using o old by (auto simp: ops_inv_def)
    have "row_events (ledger_events d') q"
      using row_events_other [OF oq(3) moved_log_of [OF m] ne] by (simp add: moved_log [OF m])
    moreover have "row_refs (provider_dispatch_attempts d') (map w_user_id (user_wallets d)) (trace_caps d) q"
      using oq(4) moved_attempts [OF m] ne unfolding row_refs_def by metis
    ultimately show ?thesis using oq by blast
  qed
qed

lemma op_moved_refs:
  assumes m: "op_moved h p f es d d'" and k: "keys_inv d" and r: "refs_inv d"
  shows "refs_inv d'"
proof -
  have lift: "\<exists>q' \<in> set (escrow_ledger d'). e_idempotency_key q' = e_idempotency_key q \<and> e_user_id q' = e_user_id q"
    if "q \<in> set (escrow_ledger d)" for q
  proof (cases "q = p")
    case True
    have "f p \<in> set (escrow_ledger d')" by (simp add: op_moved_set(2) [OF m k])
    then show ?thesis using moved_ident [OF m] True unfolding same_identity_def by blast
  next
    case False
    then have "q \<in> set (escrow_ledger d')" using that by (simp add: op_moved_set(2) [OF m k])
    then show ?thesis by blast
  qed
  have "\<exists>q' \<in> set (escrow_ledger d'). ev_idempotency_key e = e_idempotency_key q' \<and> ev_user_id e = e_user_id q'"
    if "e \<in> set (ledger_events d')" for e
  proof (cases "e \<in> set (ledger_events d)")
    case True
    then show ?thesis using r lift unfolding refs_inv_def by metis
  next
    case False
    then have "ev_idempotency_key e = e_idempotency_key p \<and> ev_user_id e = e_user_id p"
      using that moved_log_of [OF m] by (simp add: moved_log [OF m] events_of_def)
    then show ?thesis using lift [OF op_moved_set(1) [OF m k]] by metis
  qed
  moreover have "\<exists>q' \<in> set (escrow_ledger d'). a_idempotency_key a = e_idempotency_key q'"
    if "a \<in> set (provider_dispatch_attempts d')" for a
  proof -
    from moved_attempts [OF m] that consider "a_idempotency_key a = e_idempotency_key p"
      | a0 where "a0 \<in> set (provider_dispatch_attempts d)" "a_idempotency_key a0 = a_idempotency_key a"
      by blast
    then show ?thesis using lift op_moved_set(1) [OF m k] r unfolding refs_inv_def by metis
  qed
  ultimately show ?thesis by (simp add: refs_inv_def)
qed

lemma op_moved_charge:
  assumes m: "op_moved h p f es d d'" and k: "keys_inv d" and o: "ops_inv d"
  shows "event_total (key_is (e_idempotency_key p)) es = charge p - charge (f p)"
proof -
  have "row_events (ledger_events d) p" using o op_moved_set(1) [OF m k] by (simp add: ops_inv_def)
  with moved_row(3) [OF m] moved_ident [OF m] show ?thesis
    by (simp add: row_events_def Let_def moved_log [OF m] same_identity_def)
qed

lemma op_moved_wallets:
  assumes m: "op_moved h p f es d d'" and k: "keys_inv d" and o: "ops_inv d"
    and w: "\<forall>w \<in> set (user_wallets d). wallet_ok base (ledger_events d) (escrow_ledger d) w"
  shows "\<forall>w \<in> set (user_wallets d'). wallet_ok base (ledger_events d') (escrow_ledger d') w"
proof
  fix w' assume w': "w' \<in> set (user_wallets d')"
  obtain w0 where w0: "w0 \<in> set (user_wallets d)" "w_user_id w' = w_user_id w0"
    "w_balance w' = w_balance w0 + (if w_user_id w0 = e_user_id p
        then event_total (key_is (e_idempotency_key p)) es else 0)" "0 \<le> w_balance w'"
    using moved_wallets [OF m] w' unfolding wallets_moved_def wallets_shift_def by blast
  have ok: "wallet_ok base (ledger_events d) (escrow_ledger d) w0" using w w0(1) by blast
  have "column_sum (\<lambda>q. if e_user_id q = u then charge q else 0) (escrow_ledger d')
      = column_sum (\<lambda>q. if e_user_id q = u then charge q else 0) (escrow_ledger d)
        + (if u = e_user_id p then charge (f p) - charge p else 0)" for u
    using op_moved_sum [OF k moved_found [OF m], of "\<lambda>q. if e_user_id q = u then charge q else 0"
        "\<lambda>q. if e_user_id q = u then charge q else 0" f] moved_ident [OF m]
    by (auto simp: moved_ops [OF m] same_identity_def)
  then show "wallet_ok base (ledger_events d') (escrow_ledger d') w'"
    using ok w0 events_of_user [OF moved_log_of [OF m]] op_moved_charge [OF m k o]
    by (auto simp: wallet_ok_def moved_log [OF m])
qed

lemma op_moved_traces:
  assumes m: "op_moved h p f es d d'" and k: "keys_inv d" and o: "ops_inv d"
    and t: "\<forall>t \<in> set (trace_budget_state d). trace_ok (escrow_ledger d) t"
  shows "\<forall>t \<in> set (trace_budget_state d'). trace_ok (escrow_ledger d') t"
proof
  fix t' assume t': "t' \<in> set (trace_budget_state d')"
  let ?dr = "reserved_of (f p) - reserved_of p" and ?ds = "settled_of (f p) - settled_of p"
  obtain t0 where t0: "t0 \<in> set (trace_budget_state d)"
    "t_trace_id t' = t_trace_id t0" "t_cap_amount t' = t_cap_amount t0"
    "t_reserved_total t' = t_reserved_total t0 + (if t_trace_id t0 = e_trace_id p then ?dr else 0)"
    "t_settled_total t' = t_settled_total t0 + (if t_trace_id t0 = e_trace_id p then ?ds else 0)"
    using t' moved_traces [OF m] unfolding traces_shift_def by blast
  have sums: "column_sum (\<lambda>q. if e_trace_id q = x \<and> held (e_status q) then e_reserved_amount q else 0) (escrow_ledger d')
      = column_sum (\<lambda>q. if e_trace_id q = x \<and> held (e_status q) then e_reserved_amount q else 0) (escrow_ledger d)
        + (if x = e_trace_id p then ?dr else 0)"
    "column_sum (\<lambda>q. if e_trace_id q = x \<and> e_status q = SETTLED then e_actual_amount q else 0) (escrow_ledger d')
      = column_sum (\<lambda>q. if e_trace_id q = x \<and> e_status q = SETTLED then e_actual_amount q else 0) (escrow_ledger d)
        + (if x = e_trace_id p then ?ds else 0)" for x
    unfolding moved_ops [OF m]
    using op_moved_sum [OF k moved_found [OF m], of "\<lambda>q. if e_trace_id q = x \<and> held (e_status q) then e_reserved_amount q else 0"
        "\<lambda>q. if e_trace_id q = x \<and> held (e_status q) then e_reserved_amount q else 0" f]
      op_moved_sum [OF k moved_found [OF m], of "\<lambda>q. if e_trace_id q = x \<and> e_status q = SETTLED then e_actual_amount q else 0"
        "\<lambda>q. if e_trace_id q = x \<and> e_status q = SETTLED then e_actual_amount q else 0" f] moved_ident [OF m]
    by (simp_all add: same_identity_def reserved_of_def settled_of_def)
  have ok: "trace_ok (escrow_ledger d) t0" using t t0(1) by blast
  then have "t_reserved_total t' \<le> t_cap_amount t'"
    using t0(3,4) moved_less [OF m] by (auto simp: trace_ok_def)
  moreover have "t_reserved_total t'
      = column_sum (\<lambda>q. if e_trace_id q = t_trace_id t' \<and> held (e_status q) then e_reserved_amount q else 0) (escrow_ledger d')"
    using ok t0(2,4) sums(1) [of "t_trace_id t0"] by (simp add: trace_ok_def)
  moreover have "t_settled_total t'
      = column_sum (\<lambda>q. if e_trace_id q = t_trace_id t' \<and> e_status q = SETTLED then e_actual_amount q else 0) (escrow_ledger d')"
    using ok t0(2,5) sums(2) [of "t_trace_id t0"] by (simp add: trace_ok_def)
  ultimately show "trace_ok (escrow_ledger d') t'" by (simp add: trace_ok_def)
qed

lemma op_moved_scopes:
  assumes m: "op_moved h p f es d d'" and k: "keys_inv d" and te: "has_tenant_id d" and s: "scopes_inv d"
  shows "scopes_inv d'"
proof -
  have keys: "scope_keys (f p) = scope_keys p"
    using moved_ident [OF m] by (simp add: scope_keys_def same_identity_def)
  have "scope_total (ledger_events d') (escrow_ledger d') x = scope_total (ledger_events d) (escrow_ledger d) x
      + (if x \<in> set (scope_keys p)
         then scope_spend (ledger_events d') (f p) - scope_spend (ledger_events d) p else 0)" for x
    unfolding scope_total_def moved_ops [OF m]
    using op_moved_sum [OF k moved_found [OF m], of
        "\<lambda>q. if x \<in> set (scope_keys q) then scope_spend (ledger_events d') q else 0"
        "\<lambda>q. if x \<in> set (scope_keys q) then scope_spend (ledger_events d) q else 0" f]
      scope_spend_other [OF moved_log_of [OF m]]
    by (simp add: keys moved_log [OF m])
  then show ?thesis
    using s moved_scopes [OF m te] by (simp add: scopes_inv_def scopes_moved_def)
qed

lemma op_moved_inv:
  assumes m: "op_moved h p f es d d'" and i: "ledger_inv h base d"
  shows "ledger_inv h base d'"
proof -
  have k: "keys_inv d" and o: "ops_inv d" and r: "refs_inv d"
    using i by (auto simp: ledger_inv_def)
  show ?thesis
    using i moved_chain [OF m] moved_tenant [OF m] op_moved_keys [OF m k] op_moved_ops [OF m k o] op_moved_refs [OF m k r]
      op_moved_wallets [OF m k o] op_moved_traces [OF m k o] op_moved_scopes [OF m k]
    unfolding ledger_inv_def by blast
qed

end
