(* ===== verification/Ledger_Preserve.thy ===== *)
theory Ledger_Preserve
  imports Ledger_Inv
begin

text \<open>
  Every specified transaction has the shape of \<open>Ledger_Inv\<close>: reserving, recording a dispatch,
  settling, stranding, refunding and the sweep preserve the accounting invariant.
\<close>

section \<open>Building blocks of the transactions\<close>

lemma shift_refl: "wallets_shift u 0 ws ws"
  by (auto simp: wallets_shift_def)

lemma shift_trans:
  "wallets_shift u a ws ws' \<Longrightarrow> wallets_shift u b ws' ws'' \<Longrightarrow> wallets_shift u (a + b) ws ws''"
proof -
  assume a: "wallets_shift u a ws ws'" and b: "wallets_shift u b ws' ws''"
  have "\<exists>w \<in> set ws. w_user_id w'' = w_user_id w
      \<and> w_balance w'' = w_balance w + (if w_user_id w = u then a + b else 0)" if "w'' \<in> set ws''" for w''
  proof -
    from b that obtain w' where w': "w' \<in> set ws'" "w_user_id w'' = w_user_id w'"
      "w_balance w'' = w_balance w' + (if w_user_id w' = u then b else 0)"
      unfolding wallets_shift_def by blast
    from a w'(1) obtain w where "w \<in> set ws" "w_user_id w' = w_user_id w"
      "w_balance w' = w_balance w + (if w_user_id w = u then a else 0)"
      unfolding wallets_shift_def by blast
    with w' show ?thesis by (intro bexI [of _ w]) auto
  qed
  with a b show ?thesis unfolding wallets_shift_def by simp
qed

lemma shift_credit: "wallets_shift u a (user_wallets d) (user_wallets (credit_wallet u a now d))"
  by (auto simp: wallets_shift_def credit_wallet_def map_update_where set_update_where)

lemma shift_lock: "wallets_shift u 0 (user_wallets d) (user_wallets (lock_wallet v r now d))"
  by (auto simp: wallets_shift_def lock_wallet_def map_update_where set_update_where)

lemma traces_shift_move:
  "traces_shift x dr ds (trace_budget_state d) (trace_budget_state (move_trace x dr ds now d))"
  by (auto simp: traces_shift_def move_trace_def map_update_where set_update_where)

lemma traces_shift_refl: "traces_shift x 0 0 ts ts"
  by (auto simp: traces_shift_def)

lemma moved_nonneg:
  assumes "wallets_shift u a (user_wallets d) (user_wallets d')" "0 \<le> a"
    and "\<forall>w \<in> set (user_wallets d). 0 \<le> w_balance w"
  shows "wallets_moved u a d d'"
  using assms unfolding wallets_moved_def wallets_shift_def by fastforce

lemma inv_nonneg: "ledger_inv h base d \<Longrightarrow> \<forall>w \<in> set (user_wallets d). 0 \<le> w_balance w"
  by (auto simp: ledger_inv_def wallet_ok_def)

lemma scopes_cong:
  "budget_scope_state d' = budget_scope_state d \<Longrightarrow> scopes_ok d' = scopes_ok d"
  "budget_scope_state d' = budget_scope_state d \<Longrightarrow> scope_consumed k d' = scope_consumed k d"
  by (simp_all add: scopes_ok_def scope_consumed_def)

lemma scopes_moved_cong:
  "budget_scope_state d0 = budget_scope_state d \<Longrightarrow> budget_scope_state d1 = budget_scope_state d'
     \<Longrightarrow> scopes_moved ks a d d' \<Longrightarrow> scopes_moved ks a d0 d1"
proof -
  assume "budget_scope_state d0 = budget_scope_state d" "budget_scope_state d1 = budget_scope_state d'"
    "scopes_moved ks a d d'"
  then show ?thesis
    using scopes_cong [of d0 d] scopes_cong [of d1 d'] by (simp add: scopes_moved_def)
qed

lemma scopes_unmoved: "budget_scope_state d' = budget_scope_state d \<Longrightarrow> scopes_moved ks 0 d d'"
  by (simp add: scopes_moved_def scopes_ok_def scope_consumed_def)

lemma ensure_scope_facts:
  assumes "scopes_ok d"
  shows "distinct (map (\<lambda>b. (b_scope_type b, b_scope_key b)) (budget_scope_state (ensure_scope ty k cap now d)))"
    and "scope_consumed x (ensure_scope ty k cap now d) = scope_consumed x d"
    and "\<forall>b \<in> set (budget_scope_state (ensure_scope ty k cap now d)). b \<in> set (budget_scope_state d)
         \<or> scope_is ty k b"
proof -
  show "distinct (map (\<lambda>b. (b_scope_type b, b_scope_key b)) (budget_scope_state (ensure_scope ty k cap now d)))"
  proof (cases "row_where (scope_is ty k) (budget_scope_state d)")
    case None
    then have "(ty, k) \<notin> set (map (\<lambda>b. (b_scope_type b, b_scope_key b)) (budget_scope_state d))"
      by (auto simp: row_where_None)
    with None assms show ?thesis by (simp add: ensure_scope_def scopes_ok_def)
  next
    case (Some b)
    with assms show ?thesis by (simp add: ensure_scope_def scopes_ok_def)
  qed
qed (simp_all add: ensure_scope_def scope_consumed_def)

lemma charge_one_scope:
  assumes ok: "scopes_ok d"
    and b: "row_where (scope_is ty k) (budget_scope_state (ensure_scope ty k cap now d)) = Some b"
    and fits: "b_consumed_amount b + delta \<le> b_cap_amount b"
  shows "scopes_moved [(ty, k)] delta d (consume_scope ty k delta now (ensure_scope ty k cap now d))"
proof -
  let ?d1 = "ensure_scope ty k cap now d" and ?d2 = "consume_scope ty k delta now (ensure_scope ty k cap now d)"
  let ?key = "\<lambda>b. (b_scope_type b, b_scope_key b)"
  note e = ensure_scope_facts [where d = d and ty = ty and k = k and cap = cap and now = now]
  have dist: "distinct (map ?key (budget_scope_state ?d1))" using e(1) ok by blast
  have bk: "?key b = (ty, k)" using row_where_Some [OF b] by blast
  have "map ?key (budget_scope_state ?d2) = map ?key (budget_scope_state ?d1)"
    using scope_upd.keys [of "(ty, k)" now delta "budget_scope_state ?d1"] by (simp add: consume_scope_def)
  then have "distinct (map ?key (budget_scope_state ?d2))" using dist by (simp only:)
  moreover have "b_consumed_amount x \<le> b_cap_amount x" if "x \<in> set (budget_scope_state ?d2)" for x
  proof -
    have "set (budget_scope_state ?d2) = insert (b\<lparr>b_consumed_amount := b_consumed_amount b + delta, b_updated_at := now\<rparr>)
        (set (budget_scope_state ?d1) - {b})"
      unfolding consume_scope_def using set_update_key [OF dist b] by simp
    then consider (this_row) "x = b\<lparr>b_consumed_amount := b_consumed_amount b + delta, b_updated_at := now\<rparr>"
      | (other) "x \<in> set (budget_scope_state ?d1)" "x \<noteq> b" using \<open>x \<in> _\<close> by blast
    then show ?thesis
    proof cases
      case this_row
      then show ?thesis using fits by simp
    next
      case other
      have "?key x \<noteq> (ty, k)"
      proof
        assume "?key x = (ty, k)"
        with row_where_key_in [OF dist other(1)] have "row_where (scope_is ty k) (budget_scope_state ?d1) = Some x"
          by (simp only:)
        with b other(2) show False by simp
      qed
      then have "x \<in> set (budget_scope_state d)" using e(3) ok other(1) by blast
      then show ?thesis using ok by (simp add: scopes_ok_def)
    qed
  qed
  moreover have "scope_consumed y ?d2 = scope_consumed y d + (if y \<in> set [(ty, k)] then delta else 0)" for y
  proof -
    have "scope_consumed y ?d2 = scope_consumed y ?d1 + (if y = (ty, k) then delta else 0)"
      unfolding scope_consumed_def consume_scope_def
      using column_sum_update_key [OF dist b, of "\<lambda>x. if ?key x = y then b_consumed_amount x else 0"
          "\<lambda>b. b\<lparr>b_consumed_amount := b_consumed_amount b + delta, b_updated_at := now\<rparr>"] bk
      by auto
    then show ?thesis using e(2) ok by simp
  qed
  ultimately show ?thesis by (simp add: scopes_moved_def scopes_ok_def)
qed

lemma charge_scopes_moved:
  assumes "charge_scopes sc delta now d = Some d'" "scopes_ok d"
    and "distinct (map (\<lambda>(ty, k, _). (ty, k)) sc)"
  shows "scopes_moved (map (\<lambda>(ty, k, _). (ty, k)) sc) delta d d'"
  using assms
proof (induction sc arbitrary: d)
  case Nil
  then show ?case by (simp add: scopes_moved_def)
next
  case (Cons x sc)
  obtain ty k cap where x: "x = (ty, k, cap)" by (cases x)
  let ?d = "consume_scope ty k delta now (ensure_scope ty k cap now d)"
  obtain b where b: "row_where (scope_is ty k) (budget_scope_state (ensure_scope ty k cap now d)) = Some b"
    "b_consumed_amount b + delta \<le> b_cap_amount b" "charge_scopes sc delta now ?d = Some d'"
    using Cons.prems(1) by (auto simp: x split: option.splits if_splits)
  have one: "scopes_moved [(ty, k)] delta d ?d" by (rule charge_one_scope [OF Cons.prems(2) b(1,2)])
  then have rest: "scopes_moved (map (\<lambda>(ty, k, _). (ty, k)) sc) delta ?d d'"
    using Cons.IH [OF b(3)] Cons.prems(2,3) by (simp add: scopes_moved_def)
  show ?case
    using one rest Cons.prems(3) by (auto simp: x scopes_moved_def)
qed

section \<open>Expiry\<close>

lemma row_of:
  assumes "ledger_inv h base d" "find_operation k d = Some p"
  shows "p \<in> set (escrow_ledger d)" "e_idempotency_key p = k" "row_amounts p" "row_times p"
    "row_events (ledger_events d) p"
    "row_refs (provider_dispatch_attempts d) (map w_user_id (user_wallets d)) (trace_caps d) p"
  using find_operation_in [OF assms(2)] assms(1) by (auto simp: ledger_inv_def ops_inv_def)

lemma sealed_event_fields [simp]:
  "ev_idempotency_key (sealed_event h now k u ty a m d) = k"
  "ev_user_id (sealed_event h now k u ty a m d) = u"
  "ev_event_type (sealed_event h now k u ty a m d) = ty"
  "ev_amount_delta (sealed_event h now k u ty a m d) = a"
  by (simp_all add: sealed_event_def Let_def)

lemma add_sealed_event_log:
  "ledger_events (add_sealed_event h now k u ty a m d)
     = ledger_events d @ [sealed_event h now k u ty a m d]"
  by (simp add: add_sealed_event_def)

lemma spec_strand_moved:
  assumes i: "ledger_inv h base d" "digest_ok h" and p: "find_operation (e_idempotency_key p) d = Some p"
    and st: "must_strand p d" "e_status p = RESERVED \<or> e_status p = IN_FLIGHT \<or> e_status p = PROVIDER_TIMEOUT"
  shows "\<exists>f es. op_moved h p f es d (spec_strand h reason now p d)"
proof -
  note r = row_of [OF i(1) p]
  have st': "e_status p \<noteq> RESERVED"
    using st(1) r(6) by (auto simp: must_strand_def has_open_attempts_def row_refs_def)
  then have disp: "e_dispatch_started_at p \<noteq> None" "held (e_status p)"
    using st(2) r(4) by (auto simp: row_times_def held_def)
  let ?f = "\<lambda>x. x\<lparr>e_status := STRANDED, e_expired_at := Some now,
                 e_terminal_reason := ''STRANDED_HOLD_PENDING_RECONCILIATION''\<rparr>"
  let ?d1 = "change_operation (e_idempotency_key p) ?f d"
  let ?e = "sealed_event h now (e_idempotency_key p) (e_user_id p) ''STRANDED_HOLD'' 0 [(''reason'', JStr reason)] ?d1"
  have none: "refund_count (e_idempotency_key p) (ledger_events d) = 0" "e_status p \<noteq> SETTLED"
    using r(5) disp(2) by (auto simp: row_events_def Let_def held_def)
  have ev: "row_events (ledger_events d @ [?e]) (?f p)"
    using r(5) disp(2) none
    by (auto simp: row_events_def Let_def charge_def held_def is_refund_event_def is_settle_event_def
        settle_count_def refund_count_def)
  have "op_moved h p ?f [?e] d (spec_strand h reason now p d)"
    unfolding op_moved_def
  proof (intro conjI impI)
    show "find_operation (e_idempotency_key p) d = Some p" by (rule p)
    show "wallets_moved (e_user_id p) (event_total (key_is (e_idempotency_key p)) [?e]) d (spec_strand h reason now p d)"
      using inv_nonneg [OF i(1)] by (intro moved_nonneg) (simp_all add: spec_strand_def shift_refl)
    show "traces_shift (e_trace_id p) (reserved_of (?f p) - reserved_of p) (settled_of (?f p) - settled_of p)
        (trace_budget_state d) (trace_budget_state (spec_strand h reason now p d))"
      using disp(2) none by (simp add: spec_strand_def reserved_of_def settled_of_def held_def traces_shift_refl)
    show "scopes_moved (scope_keys p) (scope_spend (ledger_events (spec_strand h reason now p d)) (?f p)
        - scope_spend (ledger_events d) p) d (spec_strand h reason now p d)"
      using disp(2) none
      by (simp add: spec_strand_def scope_spend_def charge_def held_def add_sealed_event_log
          is_refund_event_def refund_count_def scopes_unmoved)
    show "chain_ok h (spec_strand h reason now p d)" using i by (simp add: spec_strand_def ledger_inv_def)
    show "row_events (ledger_events (spec_strand h reason now p d)) (?f p)"
      using ev by (simp add: spec_strand_def add_sealed_event_log)
  qed (use r(3) disp none in \<open>auto simp: spec_strand_def add_sealed_event_log same_identity_def events_of_def
      reserved_of_def held_def row_amounts_def row_times_def\<close>)
  then show ?thesis by blast
qed

lemma spec_refund_moved:
  assumes i: "ledger_inv h base d" "digest_ok h" and p: "find_operation (e_idempotency_key p) d = Some p"
    and st: "e_status p = RESERVED \<or> e_status p = IN_FLIGHT \<or> e_status p = PROVIDER_TIMEOUT"
  shows "\<exists>f es. op_moved h p f es d (spec_refund h tr reason now p d)"
proof -
  note r = row_of [OF i(1) p]
  have st': "held (e_status p)" "e_status p \<noteq> SETTLED" "e_status p \<noteq> EXPIRED"
    using st by (auto simp: held_def)
  let ?f = "\<lambda>x. x\<lparr>e_status := EXPIRED, e_expired_at := Some now, e_terminal_reason := tr\<rparr>"
  let ?d' = "spec_refund h tr reason now p d"
  let ?e = "sealed_event h now (e_idempotency_key p) (e_user_id p) ''EXPIRED_SWEEP'' (e_reserved_amount p)
     [(''reason'', JStr reason)]
     (change_operation (e_idempotency_key p) ?f (move_trace (e_trace_id p) (- e_reserved_amount p) 0 now
        (credit_wallet (e_user_id p) (e_reserved_amount p) now d)))"
  have log: "ledger_events ?d' = ledger_events d @ [?e]"
    by (simp add: spec_refund_def add_sealed_event_log)
  have none: "refund_count (e_idempotency_key p) (ledger_events d) = 0"
    using r(5) st' by (simp add: row_events_def Let_def)
  have ev: "row_events (ledger_events d @ [?e]) (?f p)"
    using r(5) st' none
    by (simp add: row_events_def Let_def charge_def held_def is_refund_event_def is_settle_event_def
        settle_count_def refund_count_def)
  have "op_moved h p ?f [?e] d ?d'"
    unfolding op_moved_def log
  proof (intro conjI impI)
    show "find_operation (e_idempotency_key p) d = Some p" by (rule p)
    show "wallets_moved (e_user_id p) (event_total (key_is (e_idempotency_key p)) [?e]) d ?d'"
      using inv_nonneg [OF i(1)] r(3) shift_credit [of "e_user_id p" "e_reserved_amount p" d now]
      by (intro moved_nonneg) (simp_all add: spec_refund_def row_amounts_def)
    show "traces_shift (e_trace_id p) (reserved_of (?f p) - reserved_of p) (settled_of (?f p) - settled_of p)
        (trace_budget_state d) (trace_budget_state ?d')"
      using st' traces_shift_move [of "e_trace_id p" "- e_reserved_amount p" 0
          "credit_wallet (e_user_id p) (e_reserved_amount p) now d" now]
      by (simp add: spec_refund_def reserved_of_def settled_of_def held_def)
    show "scopes_moved (scope_keys p) (scope_spend (ledger_events d @ [?e]) (?f p)
        - scope_spend (ledger_events d) p) d ?d'"
      using st' none
      by (simp add: spec_refund_def scope_spend_def charge_def held_def is_refund_event_def
          refund_count_def scopes_unmoved)
    show "chain_ok h ?d'" using i by (simp add: spec_refund_def ledger_inv_def)
    show "row_events (ledger_events d @ [?e]) (?f p)" by (rule ev)
  qed (use r(3,4) st' in \<open>auto simp: spec_refund_def same_identity_def events_of_def change_operation_def
      reserved_of_def held_def row_amounts_def row_times_def\<close>)
  then show ?thesis by blast
qed

lemma spec_expire_inv:
  assumes i: "ledger_inv h base d" "digest_ok h" and p: "find_operation (e_idempotency_key p) d = Some p"
    and st: "e_status p = RESERVED \<or> e_status p = IN_FLIGHT \<or> e_status p = PROVIDER_TIMEOUT"
  shows "ledger_inv h base (spec_expire h tr reason now p d)"
proof (cases "must_strand p d")
  case True
  obtain f es where "op_moved h p f es d (spec_strand h reason now p d)"
    using spec_strand_moved [OF i p True st] by blast
  from op_moved_inv [OF this i(1)] True show ?thesis by (simp add: spec_expire_def)
next
  case False
  obtain f es where "op_moved h p f es d (spec_refund h tr reason now p d)"
    using spec_refund_moved [OF i p st] by blast
  from op_moved_inv [OF this i(1)] False show ?thesis by (simp add: spec_expire_def)
qed

lemma spec_expire_other:
  "k \<noteq> e_idempotency_key p \<Longrightarrow> find_operation k (spec_expire h tr reason now p d) = find_operation k d"
  by (simp add: find_operation_def spec_expire_def spec_strand_def spec_refund_def change_operation_def
      strand_upd.lookup_other expire_upd.lookup_other)

lemma spec_expire_rest:
  assumes "distinct (map e_idempotency_key (p # ps))"
    and "\<forall>q \<in> set ps. find_operation (e_idempotency_key q) d = Some q"
  shows "\<forall>q \<in> set ps. find_operation (e_idempotency_key q) (spec_expire h tr reason now p d) = Some q"
proof
  fix q assume q: "q \<in> set ps"
  then have "e_idempotency_key q \<noteq> e_idempotency_key p" using assms(1) by (force simp: image_iff)
  then show "find_operation (e_idempotency_key q) (spec_expire h tr reason now p d) = Some q"
    using assms(2) q by (simp add: spec_expire_other)
qed

lemma spec_sweep_inv:
  assumes "ledger_inv h base d" "digest_ok h" "distinct (map e_idempotency_key ps)"
    and "\<forall>p \<in> set ps. find_operation (e_idempotency_key p) d = Some p
       \<and> (e_status p = RESERVED \<or> e_status p = IN_FLIGHT \<or> e_status p = PROVIDER_TIMEOUT)"
  shows "ledger_inv h base (spec_sweep h now ps d)"
  using assms
proof (induction ps arbitrary: d)
  case Nil
  then show ?case by simp
next
  case (Cons p ps)
  let ?d = "spec_expire h ''TTL_EXPIRED'' ''reconciler_expiry_claim'' now p d"
  have "ledger_inv h base ?d" using Cons.prems by (intro spec_expire_inv) auto
  moreover have "\<forall>q \<in> set ps. find_operation (e_idempotency_key q) ?d = Some q"
    using Cons.prems(3,4) by (intro spec_expire_rest) auto
  ultimately show ?case using Cons by simp
qed

lemma find_operation_unique: "keys_inv d \<Longrightarrow> p \<in> set (escrow_ledger d) \<Longrightarrow> find_operation (e_idempotency_key p) d = Some p"
  by (simp add: find_operation_def keys_inv_def row_where_key_in)

lemma due_rows_facts:
  assumes "keys_inv d"
  shows "distinct (map e_idempotency_key (due_rows n now d))"
    and "p \<in> set (due_rows n now d) \<Longrightarrow> p \<in> set (escrow_ledger d) \<and> sweepable now p"
proof -
  let ?l = "sort_key e_expires_at (filter (sweepable now) (escrow_ledger d))"
  have "distinct (map e_idempotency_key (filter (sweepable now) (escrow_ledger d)))"
    using assms by (simp add: keys_inv_def distinct_map_filter)
  then have "distinct (map e_idempotency_key ?l)" by (simp add: distinct_map)
  then show "distinct (map e_idempotency_key (due_rows n now d))"
    unfolding due_rows_def by (simp add: take_map [symmetric])
  show "p \<in> set (due_rows n now d) \<Longrightarrow> p \<in> set (escrow_ledger d) \<and> sweepable now p"
    unfolding due_rows_def by (auto dest: in_set_takeD)
qed

lemma sweep_inv:
  assumes "ledger_inv h base d" "digest_ok h"
  shows "ledger_inv h base (spec_sweep h now (due_rows n now d) d)"
proof -
  have k: "keys_inv d" using assms(1) by (simp add: ledger_inv_def)
  show ?thesis
    using due_rows_facts [OF k] find_operation_unique [OF k]
    by (intro spec_sweep_inv assms) (auto simp: sweepable_def)
qed

section \<open>Dispatch records\<close>

text \<open>Events appended for one operation: their sum and how many of them are terminal.\<close>

definition log_step :: "string \<Rightarrow> string \<Rightarrow> money \<Rightarrow> nat \<Rightarrow> db \<Rightarrow> db \<Rightarrow> bool" where
  "log_step k u amount settles d d' =
     (\<exists>es. ledger_events d' = ledger_events d @ es \<and> events_of k u es
        \<and> event_total (key_is k) es = amount \<and> settle_count k es = settles
        \<and> event_total (is_refund_event k) es = 0 \<and> refund_count k es = 0)"

lemma log_step_frame: "ledger_events d' = ledger_events d \<Longrightarrow> log_step k u 0 0 d d'"
  unfolding log_step_def
  by (rule exI [of _ "[]"]) (simp add: events_of_def settle_count_def refund_count_def)

lemma log_step_trans:
  assumes "log_step k u a m d d'" "log_step k u b n d' d''"
  shows "log_step k u (a + b) (m + n) d d''"
proof -
  obtain xs ys where "ledger_events d' = ledger_events d @ xs" "ledger_events d'' = ledger_events d' @ ys"
    "events_of k u xs" "events_of k u ys"
    "event_total (key_is k) xs = a" "settle_count k xs = m" "event_total (is_refund_event k) xs = 0" "refund_count k xs = 0"
    "event_total (key_is k) ys = b" "settle_count k ys = n" "event_total (is_refund_event k) ys = 0" "refund_count k ys = 0"
    using assms unfolding log_step_def by blast
  then show ?thesis
    unfolding log_step_def by (intro exI [of _ "xs @ ys"]) (auto simp: events_of_def)
qed

lemma log_step_event:
  assumes "ty \<noteq> ''EXPIRED_SWEEP''"
  shows "log_step k u a (if ty = ''SETTLED_FINAL'' \<or> ty = ''RECONCILED_LATE_SETTLE'' then 1 else 0)
     d (add_sealed_event h now k u ty a m d)"
  unfolding log_step_def using assms
  by (intro exI [of _ "[sealed_event h now k u ty a m d]"])
    (auto simp: add_sealed_event_log events_of_def is_refund_event_def is_settle_event_def settle_count_def
      refund_count_def)

lemma row_events_step:
  assumes r: "row_events evs p" and e: "events_of k u es" "event_total (key_is k) es = charge p - charge q"
    "settle_count k es = (if e_status q = SETTLED then 1 else 0)" "event_total (is_refund_event k) es = 0"
    "refund_count k es = 0"
    and k: "k = e_idempotency_key p" "same_identity p q"
    and st: "e_status p \<noteq> SETTLED" "held (e_status q) \<Longrightarrow> held (e_status p)" "e_status q \<noteq> EXPIRED"
      "e_status q = STRANDED \<Longrightarrow> e_status p = STRANDED"
  shows "row_events (evs @ es) q"
  using assms unfolding row_events_def Let_def same_identity_def by auto

lemma put_attempt_ops:
  assumes "a' \<in> set (provider_dispatch_attempts (put_attempt new d))"
  shows "a_idempotency_key a' = a_idempotency_key new
    \<or> (\<exists>a \<in> set (provider_dispatch_attempts d). a_idempotency_key a = a_idempotency_key a')"
proof (cases "row_where (\<lambda>a. a_attempt_key a = a_attempt_key new) (provider_dispatch_attempts d)")
  case None
  then show ?thesis using assms by (auto simp: put_attempt_def)
next
  case (Some y)
  then obtain x where "x \<in> set (provider_dispatch_attempts d)" "a' = merge_attempt new x \<or> a' = x"
    using assms by (auto simp: put_attempt_def set_update_where)
  then show ?thesis by (auto simp: merge_attempt_def)
qed

lemma spec_record_tables:
  assumes "spec_record h cfg p r now d = Some d'"
  shows "escrow_ledger d' = escrow_ledger (change_operation (e_idempotency_key p) (dispatched_row r now) d)"
    "user_wallets d' = user_wallets d" "trace_budget_state d' = trace_budget_state d"
    "budget_scope_state d' = budget_scope_state d" "has_tenant_id d' = has_tenant_id d"
    "e_status p \<noteq> SETTLED" "e_status p \<noteq> EXPIRED"
    "\<forall>a' \<in> set (provider_dispatch_attempts d'). a_idempotency_key a' = e_idempotency_key p
        \<or> (\<exists>a \<in> set (provider_dispatch_attempts d). a_idempotency_key a = a_idempotency_key a')"
    "log_step (e_idempotency_key p) (e_user_id p) 0 0 d d'"
    "digest_ok h \<Longrightarrow> chain_ok h d \<Longrightarrow> chain_ok h d'"
proof -
  let ?k = "e_idempotency_key p"
  obtain d1 d2 d3 where s: "e_status p \<noteq> SETTLED" "e_status p \<noteq> EXPIRED"
    and s1: "spec_loop p r cfg now d = Some d1"
    and s2: "spec_upsert (the (st_dispatch_attempt_key r)) ?k r now d1 = Some d2"
    and s3: "spec_change ?k (st_provider_request_id r) (dispatched_row r now) d2 = Some d3"
    and d': "d' = add_sealed_event h now ?k (e_user_id p) (attempt_event_type r) 0 (attempt_event_metadata r) d3"
    using assms unfolding spec_record_def Let_def by (auto simp: bind_eq_Some_conv split: if_splits)
  have t1: "escrow_ledger d1 = escrow_ledger d" "user_wallets d1 = user_wallets d"
    "trace_budget_state d1 = trace_budget_state d" "budget_scope_state d1 = budget_scope_state d"
    "has_tenant_id d1 = has_tenant_id d" "provider_dispatch_attempts d1 = provider_dispatch_attempts d"
    "ledger_events d1 = ledger_events d"
    using s1 by (auto simp: spec_loop_def Let_def split: if_splits option.splits)
  have d2: "d2 = put_attempt (attempt_of (the (st_dispatch_attempt_key r)) ?k r now) d1"
    and d3: "d3 = change_operation ?k (dispatched_row r now) d2"
    using s2 s3 by (auto simp: spec_upsert_def spec_change_def split: if_splits)
  show "escrow_ledger d' = escrow_ledger (change_operation ?k (dispatched_row r now) d)"
    using t1 by (simp add: d' d3 d2 change_operation_def)
  show "user_wallets d' = user_wallets d" "trace_budget_state d' = trace_budget_state d"
    "budget_scope_state d' = budget_scope_state d" "has_tenant_id d' = has_tenant_id d"
    "e_status p \<noteq> SETTLED" "e_status p \<noteq> EXPIRED"
    using t1 s by (simp_all add: d' d3 d2)
  show "\<forall>a' \<in> set (provider_dispatch_attempts d'). a_idempotency_key a' = ?k
        \<or> (\<exists>a \<in> set (provider_dispatch_attempts d). a_idempotency_key a = a_idempotency_key a')"
    using put_attempt_ops [of _ "attempt_of (the (st_dispatch_attempt_key r)) ?k r now" d1] t1(6)
    by (simp add: d' d3 d2 attempt_of_def)
  have "attempt_event_type r \<noteq> ''EXPIRED_SWEEP''"
    "\<not> (attempt_event_type r = ''SETTLED_FINAL'' \<or> attempt_event_type r = ''RECONCILED_LATE_SETTLE'')"
    by (simp_all add: attempt_event_type_def)
  then have "log_step ?k (e_user_id p) 0 0 d3 d'"
    using log_step_event [of "attempt_event_type r" ?k "e_user_id p" 0 d3 h now] d' by (simp split: if_splits)
  then show "log_step ?k (e_user_id p) 0 0 d d'"
    using t1(7) by (simp add: log_step_def d3 d2)
  show "digest_ok h \<Longrightarrow> chain_ok h d \<Longrightarrow> chain_ok h d'"
    using spec_loop_chain [OF s1] by (simp add: d' d3 d2)
qed

lemma spec_record_moved:
  assumes i: "ledger_inv h base d" "digest_ok h" and p: "find_operation (e_idempotency_key p) d = Some p"
    and s: "spec_record h cfg p r now d = Some d'" and o: "st_outcome r \<noteq> O_SETTLED"
  shows "\<exists>f es. op_moved h p f es d d'"
proof -
  note r = row_of [OF i(1) p] and t = spec_record_tables [OF s]
  let ?f = "dispatched_row r now"
  obtain es where es: "ledger_events d' = ledger_events d @ es" "events_of (e_idempotency_key p) (e_user_id p) es"
    "event_total (key_is (e_idempotency_key p)) es = 0" "settle_count (e_idempotency_key p) es = 0"
    "event_total (is_refund_event (e_idempotency_key p)) es = 0" "refund_count (e_idempotency_key p) es = 0"
    using t(9) unfolding log_step_def by blast
  have st: "held (e_status p)" "e_status (?f p) = status_of (st_outcome r)" "held (e_status (?f p))"
    "e_status (?f p) \<noteq> SETTLED" "e_status (?f p) \<noteq> EXPIRED" "e_status (?f p) \<noteq> STRANDED"
    "e_status (?f p) \<noteq> RESERVED"
    using r(3) t(6,7) o
    by (cases "e_status p"; cases "st_outcome r"; simp add: row_amounts_def held_def dispatched_row_def)+
  have id: "same_identity p (?f p)" by (simp add: same_identity_def dispatched_row_def)
  have "op_moved h p ?f es d d'"
    unfolding op_moved_def es(1)
  proof (intro conjI impI)
    show "row_events (ledger_events d @ es) (?f p)"
      by (rule row_events_step [OF r(5) es(2)])
        (use es st id t(6) in \<open>simp_all add: charge_def same_identity_def\<close>)
    show "wallets_moved (e_user_id p) (event_total (key_is (e_idempotency_key p)) es) d d'"
      using inv_nonneg [OF i(1)] t(2) es(3) by (intro moved_nonneg) (simp_all add: shift_refl)
    show "traces_shift (e_trace_id p) (reserved_of (?f p) - reserved_of p) (settled_of (?f p) - settled_of p)
        (trace_budget_state d) (trace_budget_state d')"
      using st t(3,6) id by (simp add: reserved_of_def settled_of_def traces_shift_refl same_identity_def)
    show "scopes_moved (scope_keys p) (scope_spend (ledger_events d @ es) (?f p)
        - scope_spend (ledger_events d) p) d d'"
      using st es(6) id t(4) by (simp add: scope_spend_def charge_def same_identity_def scopes_unmoved)
    show "chain_ok h d'" using t(10) i by (simp add: ledger_inv_def)
  qed (use p id t(1,5,6,8) es(2) st r(3) in \<open>auto simp: reserved_of_def same_identity_def row_amounts_def
      row_times_def dispatched_row_def coalesce_def held_def split: option.splits\<close>)
  then show ?thesis by blast
qed

lemma spec_record_inv:
  assumes "ledger_inv h base d" "digest_ok h" "find_operation (e_idempotency_key p) d = Some p"
    and "spec_record h cfg p r now d = Some d'" "st_outcome r \<noteq> O_SETTLED"
  shows "ledger_inv h base d'"
  using spec_record_moved [OF assms] op_moved_inv assms(1) by blast

section \<open>Settlement\<close>

lemma settle_wallet_effect:
  "log_step (e_idempotency_key p) (e_user_id p) (refund - correction) 0 d
     (spec_settle_wallet h p refund correction now d)"
  "wallets_shift (e_user_id p) (refund - correction) (user_wallets d)
     (user_wallets (spec_settle_wallet h p refund correction now d))"
proof -
  define k u where "k = e_idempotency_key p" and "u = e_user_id p"
  define d1 where "d1 = (if refund = 0 then d
     else add_sealed_event h now k u ''SETTLEMENT_REFUND'' refund
            [(''reason'', JStr ''unused_reserve_refund'')] (credit_wallet u refund now d))"
  let ?d2 = "spec_settle_wallet h p refund correction now d"
  have d2: "?d2 = (if correction = 0 then d1
     else add_sealed_event h now k u ''SETTLEMENT_CORRECTION_DEBIT'' (- correction)
            [(''reason'', JStr ''authoritative_provider_settlement''),
             (''late_after_expiry'', JBool (late_after_expiry (e_status p)))]
            (credit_wallet u (- correction) now d1))"
    by (simp add: spec_settle_wallet_def d1_def k_def u_def Let_def)
  have l1: "log_step k u refund 0 d d1"
    using log_step_event [of "''SETTLEMENT_REFUND''" k u refund "credit_wallet u refund now d" h now]
    by (auto simp: d1_def log_step_frame) (simp add: log_step_def)
  have l2: "log_step k u (- correction) 0 d1 ?d2"
    using log_step_event [of "''SETTLEMENT_CORRECTION_DEBIT''" k u "- correction" "credit_wallet u (- correction) now d1" h now]
    by (auto simp: d2 log_step_frame) (simp add: log_step_def)
  have w1: "wallets_shift u refund (user_wallets d) (user_wallets d1)"
    using shift_credit [of u refund d now] by (auto simp: d1_def shift_refl)
  have w2: "wallets_shift u (- correction) (user_wallets d1) (user_wallets ?d2)"
    using shift_credit [of u "- correction" d1 now] by (auto simp: d2 shift_refl)
  show "log_step (e_idempotency_key p) (e_user_id p) (refund - correction) 0 d ?d2"
    using log_step_trans [OF l1 l2] by (simp add: k_def u_def)
  show "wallets_shift (e_user_id p) (refund - correction) (user_wallets d) (user_wallets ?d2)"
    using shift_trans [OF w1 w2] by (simp add: u_def)
qed

lemma settle_wallet_tables [simp]:
  "escrow_ledger (spec_settle_wallet h p a b now d) = escrow_ledger d"
  "trace_budget_state (spec_settle_wallet h p a b now d) = trace_budget_state d"
  "budget_scope_state (spec_settle_wallet h p a b now d) = budget_scope_state d"
  "provider_dispatch_attempts (spec_settle_wallet h p a b now d) = provider_dispatch_attempts d"
  "has_tenant_id (spec_settle_wallet h p a b now d) = has_tenant_id d"
  by (simp_all add: spec_settle_wallet_def Let_def)

lemma settle_log_tables [simp]:
  "user_wallets (spec_settle_log h p r a b now d) = user_wallets d"
  "escrow_ledger (spec_settle_log h p r a b now d) = escrow_ledger d"
  "trace_budget_state (spec_settle_log h p r a b now d) = trace_budget_state d"
  "budget_scope_state (spec_settle_log h p r a b now d) = budget_scope_state d"
  "provider_dispatch_attempts (spec_settle_log h p r a b now d) = provider_dispatch_attempts d"
  "has_tenant_id (spec_settle_log h p r a b now d) = has_tenant_id d"
  by (simp_all add: spec_settle_log_def Let_def)

lemma settle_end_effect:
  assumes "d' = spec_drift h cfg p drift reserved now (spec_settle_log h p r actual reserved now d)"
  shows "log_step (e_idempotency_key p) (e_user_id p) 0 1 d d'"
    "wallets_shift (e_user_id p) 0 (user_wallets d) (user_wallets d')"
    "escrow_ledger d' = escrow_ledger d" "trace_budget_state d' = trace_budget_state d"
    "budget_scope_state d' = budget_scope_state d" "provider_dispatch_attempts d' = provider_dispatch_attempts d"
    "has_tenant_id d' = has_tenant_id d"
proof -
  let ?k = "e_idempotency_key p" and ?u = "e_user_id p"
  let ?d1 = "spec_settle_log h p r actual reserved now d"
  have reason: "settlement_reason (e_status p) \<noteq> ''EXPIRED_SWEEP''"
    "settlement_reason (e_status p) = ''SETTLED_FINAL'' \<or> settlement_reason (e_status p) = ''RECONCILED_LATE_SETTLE''"
    by (simp_all add: settlement_reason_def)
  have l1: "log_step ?k ?u 0 1 d ?d1"
    using log_step_event [OF reason(1), of ?k ?u 0 d h now "settle_event_metadata p r"] reason(2)
    by (simp add: spec_settle_log_def Let_def log_step_def)
  have l2: "log_step ?k ?u 0 0 ?d1 d'"
    using log_step_event [of "''DRIFT_ENFORCED''" ?k ?u 0 "lock_wallet ?u ''DRIFT_THRESHOLD_EXCEEDED'' now ?d1" h now]
      log_step_event [of "''DRIFT_TOLERATED''" ?k ?u 0 ?d1 h now]
    unfolding assms spec_drift_def Let_def by (simp add: log_step_frame) (simp add: log_step_def)
  show "log_step ?k ?u 0 1 d d'" using log_step_trans [OF l1 l2] by simp
  show "wallets_shift ?u 0 (user_wallets d) (user_wallets d')"
    using shift_lock [of ?u ?d1 ?u "''DRIFT_THRESHOLD_EXCEEDED''" now]
    by (simp add: assms spec_drift_def Let_def shift_refl)
  show "escrow_ledger d' = escrow_ledger d" "trace_budget_state d' = trace_budget_state d"
    "budget_scope_state d' = budget_scope_state d" "provider_dispatch_attempts d' = provider_dispatch_attempts d"
    "has_tenant_id d' = has_tenant_id d"
    by (simp_all add: assms spec_drift_def Let_def)
qed

lemma spec_settle_tables:
  assumes "spec_settle h cfg p r now d = Some d'"
  defines "actual \<equiv> quantize_money (Some (st_actual_cost r))"
  defines "move \<equiv> refund_amount (e_status p) (e_reserved_amount p) actual
      - correction_debit (e_status p) (e_reserved_amount p) actual"
  shows "escrow_ledger d' = escrow_ledger (change_operation (e_idempotency_key p)
       (settled_row r actual (settlement_reason (e_status p)) (actual - e_reserved_amount p) now) d)"
    "log_step (e_idempotency_key p) (e_user_id p) move 1 d d'"
    "wallets_shift (e_user_id p) move (user_wallets d) (user_wallets d')"
    "keys_inv d \<Longrightarrow> w' \<in> set (user_wallets d') \<Longrightarrow> w_user_id w' = e_user_id p \<Longrightarrow> 0 \<le> w_balance w'"
    "traces_shift (e_trace_id p) (if reserved_still_held (e_status p) then - e_reserved_amount p else 0) actual
       (trace_budget_state d) (trace_budget_state d')"
    "has_tenant_id d' = has_tenant_id d"
    "\<forall>a' \<in> set (provider_dispatch_attempts d'). a_idempotency_key a' = e_idempotency_key p
        \<or> (\<exists>a \<in> set (provider_dispatch_attempts d). a_idempotency_key a = a_idempotency_key a')"
    "has_tenant_id d \<Longrightarrow> scopes_ok d \<Longrightarrow>
       scopes_moved (scope_keys p) (budget_delta (e_status p) (e_reserved_amount p) actual) d d'"
proof -
  let ?k = "e_idempotency_key p" and ?u = "e_user_id p" and ?res = "e_reserved_amount p"
  let ?f = "settled_row r actual (settlement_reason (e_status p)) (actual - ?res) now"
  let ?rf = "refund_amount (e_status p) ?res actual" and ?cd = "correction_debit (e_status p) ?res actual"
  let ?bd = "budget_delta (e_status p) ?res actual"
  obtain d1 d2 d3 where s1: "spec_settle_attempt p r now d = Some d1"
    and s2: "spec_settle_balances h cfg p actual ?res now d1 = Some d2"
    and s3: "spec_change ?k (st_provider_request_id r) ?f d2 = Some d3"
    and s4: "spec_settle_close h cfg p r actual ?res now d3 = Some d'"
    using assms(1) unfolding spec_settle_def Let_def actual_def by (auto simp: bind_eq_Some_conv)
  let ?m = "move_trace (e_trace_id p) (if reserved_still_held (e_status p) then - ?res else 0) actual now
      (spec_settle_wallet h p ?rf ?cd now d1)"
  have t1: "escrow_ledger d1 = escrow_ledger d" "ledger_events d1 = ledger_events d" "user_wallets d1 = user_wallets d"
    "trace_budget_state d1 = trace_budget_state d" "budget_scope_state d1 = budget_scope_state d"
    "has_tenant_id d1 = has_tenant_id d"
    "\<forall>a' \<in> set (provider_dispatch_attempts d1). a_idempotency_key a' = ?k
        \<or> (\<exists>a \<in> set (provider_dispatch_attempts d). a_idempotency_key a = a_idempotency_key a')"
    using s1 put_attempt_ops [of _ "attempt_of (the (st_dispatch_attempt_key r)) ?k r now" d]
    by (auto simp: spec_settle_attempt_def spec_upsert_def attempt_of_def split: if_splits)
  have b: "spec_settle_budget cfg p ?bd now ?m = Some d2" using s2 by (simp add: spec_settle_balances_def)
  have "d2 = ?m\<lparr>budget_scope_state := budget_scope_state d2\<rparr>"
    using b charge_scopes_tables by (auto simp: spec_settle_budget_def split: if_splits)
  then have t2: "escrow_ledger d2 = escrow_ledger ?m" "ledger_events d2 = ledger_events ?m"
    "user_wallets d2 = user_wallets ?m" "trace_budget_state d2 = trace_budget_state ?m"
    "has_tenant_id d2 = has_tenant_id ?m" "provider_dispatch_attempts d2 = provider_dispatch_attempts ?m"
    by (metis db.select_convs db.surjective db.update_convs(7))+
  have d3: "d3 = change_operation ?k ?f d2" using s3 by (simp add: spec_change_def split: if_splits)
  have over: "\<not> overdrawn ?u d3"
    and d': "d' = spec_drift h cfg p (actual - ?res) ?res now (spec_settle_log h p r actual ?res now d3)"
    using s4 by (simp_all add: spec_settle_close_def split: if_splits)
  note t4 = settle_end_effect [OF d'] and w = settle_wallet_effect [where p = p and refund = ?rf and correction = ?cd and d = d1 and h = h and now = now]
  show "escrow_ledger d' = escrow_ledger (change_operation ?k ?f d)"
    by (simp add: t4 d3 change_operation_def t2 t1)
  have "log_step ?k ?u move 0 d d3"
    using w(1) t1(2) t2(2) by (simp add: log_step_def d3 move_def)
  from log_step_trans [OF this t4(1)] show "log_step ?k ?u move 1 d d'" by simp
  have ws: "wallets_shift ?u move (user_wallets d) (user_wallets d3)"
    using w(2) t1(3) t2(3) by (simp add: d3 move_def)
  from shift_trans [OF ws t4(2)] show "wallets_shift ?u move (user_wallets d) (user_wallets d')" by simp
  show "traces_shift (e_trace_id p) (if reserved_still_held (e_status p) then - ?res else 0) actual
       (trace_budget_state d) (trace_budget_state d')"
    using traces_shift_move [of "e_trace_id p" "if reserved_still_held (e_status p) then - ?res else 0" actual
        "spec_settle_wallet h p ?rf ?cd now d1" now] t1(4) t2(4) by (simp add: t4 d3)
  show "has_tenant_id d' = has_tenant_id d" by (simp add: t4 d3 t2 t1)
  show "\<forall>a' \<in> set (provider_dispatch_attempts d'). a_idempotency_key a' = ?k
        \<or> (\<exists>a \<in> set (provider_dispatch_attempts d). a_idempotency_key a = a_idempotency_key a')"
    using t1(7) by (simp add: t4 d3 t2)
  show "0 \<le> w_balance w'" if k: "keys_inv d" and w': "w' \<in> set (user_wallets d')" "w_user_id w' = ?u"
  proof -
    obtain w3 where w3: "w3 \<in> set (user_wallets d3)" "w_user_id w3 = ?u" "w_balance w' = w_balance w3"
      using t4(2) w' unfolding wallets_shift_def by fastforce
    have "distinct (map w_user_id (user_wallets d3))"
      using ws k by (simp add: wallets_shift_def keys_inv_def)
    from row_where_key_in [OF this w3(1)] have "find_wallet ?u d3 = Some w3"
      by (simp add: find_wallet_def w3(2))
    then show ?thesis using over w3(3) by (simp add: overdrawn_def)
  qed
  show "scopes_moved (scope_keys p) ?bd d d'" if te: "has_tenant_id d" and ok: "scopes_ok d"
  proof (cases "?bd = 0")
    case True
    then have "d2 = ?m" using b by (simp add: spec_settle_budget_def)
    then show ?thesis using True t1(5) by (simp add: scopes_unmoved t4 d3)
  next
    case False
    then have "charge_scopes (settlement_scopes cfg p) ?bd now ?m = Some d2"
      using b te t1(6) by (simp add: spec_settle_budget_def)
    moreover have "scopes_ok ?m" using ok t1(5) by (simp add: scopes_ok_def)
    moreover have "map (\<lambda>(ty, k, _). (ty, k)) (settlement_scopes cfg p) = scope_keys p" "distinct (scope_keys p)"
      by (simp_all add: settlement_scopes_def scope_keys_def Let_def)
    ultimately have "scopes_moved (scope_keys p) ?bd ?m d2"
      using charge_scopes_moved by metis
    then show ?thesis
      by (rule scopes_moved_cong [rotated 2]) (simp_all add: t1(5) t4 d3)
  qed
qed

lemma spec_settle_chain:
  assumes "spec_settle h cfg p r now d = Some d'" "digest_ok h" "chain_ok h d"
  shows "chain_ok h d'"
proof -
  let ?a = "quantize_money (Some (st_actual_cost r))" and ?res = "e_reserved_amount p"
  obtain d1 d2 d3 where s1: "spec_settle_attempt p r now d = Some d1"
    and s2: "spec_settle_balances h cfg p ?a ?res now d1 = Some d2"
    and s3: "spec_change (e_idempotency_key p) (st_provider_request_id r)
        (settled_row r ?a (settlement_reason (e_status p)) (?a - ?res) now) d2 = Some d3"
    and s4: "spec_settle_close h cfg p r ?a ?res now d3 = Some d'"
    using assms(1) unfolding spec_settle_def Let_def by (auto simp: bind_eq_Some_conv)
  have "chain_ok h d3"
    using spec_change_chain [OF s3 spec_balances_chain [OF s2 assms(2) spec_attempt_chain [OF s1 assms(3)]]] .
  then show ?thesis
    using s4 assms(2) by (auto simp: spec_settle_close_def spec_drift_def spec_settle_log_def Let_def split: if_splits)
qed

lemma spec_settle_moved:
  assumes i: "ledger_inv h base d" "digest_ok h" and p: "find_operation (e_idempotency_key p) d = Some p"
    and s: "spec_settle h cfg p r now d = Some d'" and o: "e_status p \<noteq> SETTLED"
    and cost: "\<not> negative (st_actual_cost r)"
  shows "\<exists>f es. op_moved h p f es d d'"
proof -
  note r = row_of [OF i(1) p] and t = spec_settle_tables [OF s]
  define actual where "actual = quantize_money (Some (st_actual_cost r))"
  define f where "f = settled_row r actual (settlement_reason (e_status p)) (actual - e_reserved_amount p) now"
  have a0: "0 \<le> actual" using cost quantize_money_nonneg by (simp add: actual_def)
  have k: "keys_inv d" using i(1) by (simp add: ledger_inv_def)
  define move where "move = refund_amount (e_status p) (e_reserved_amount p) actual
      - correction_debit (e_status p) (e_reserved_amount p) actual"
  obtain es where es: "ledger_events d' = ledger_events d @ es" "events_of (e_idempotency_key p) (e_user_id p) es"
    "event_total (key_is (e_idempotency_key p)) es = move" "settle_count (e_idempotency_key p) es = 1"
    "event_total (is_refund_event (e_idempotency_key p)) es = 0" "refund_count (e_idempotency_key p) es = 0"
    using t(2) unfolding log_step_def move_def actual_def by blast
  have st: "held (e_status p) = reserved_still_held (e_status p)" "e_status (f p) = SETTLED"
    using r(3) o by (auto simp: row_amounts_def held_def reserved_still_held_def f_def settled_row_def
        intro: status.exhaust [of "e_status p"])
  have id: "same_identity p (f p)" by (simp add: same_identity_def f_def settled_row_def)
  have move: "move = charge p - charge (f p)"
    using st o by (simp add: move_def refund_amount_def correction_debit_def charge_def held_def f_def
        settled_row_def reserved_still_held_def)
  have spend: "scope_spend (ledger_events d @ es) (f p) - scope_spend (ledger_events d) p
      = budget_delta (e_status p) (e_reserved_amount p) actual"
    using st o es(6) id by (simp add: scope_spend_def charge_def budget_delta_def same_identity_def held_def f_def settled_row_def)
  have "op_moved h p f es d d'"
    unfolding op_moved_def es(1)
  proof (intro conjI impI)
    show "row_events (ledger_events d @ es) (f p)"
      by (rule row_events_step [OF r(5) es(2)])
        (use es st id o move in \<open>simp_all add: same_identity_def held_def\<close>)
    show "wallets_moved (e_user_id p) (event_total (key_is (e_idempotency_key p)) es) d d'"
      unfolding wallets_moved_def es(3)
    proof (intro conjI ballI)
      show "wallets_shift (e_user_id p) move (user_wallets d) (user_wallets d')"
        using t(3) by (simp add: move_def actual_def)
      fix w' assume w': "w' \<in> set (user_wallets d')"
      show "0 \<le> w_balance w'"
        using t(3) t(4) [OF k w'] inv_nonneg [OF i(1)] w' by (fastforce simp: wallets_shift_def)
    qed
    show "traces_shift (e_trace_id p) (reserved_of (f p) - reserved_of p) (settled_of (f p) - settled_of p)
        (trace_budget_state d) (trace_budget_state d')"
      using t(5) st o
      by (simp add: reserved_of_def settled_of_def held_def f_def settled_row_def actual_def split: if_splits)
    show "scopes_moved (scope_keys p) (scope_spend (ledger_events d @ es) (f p)
        - scope_spend (ledger_events d) p) d d'" if "has_tenant_id d"
      using t(8) that i(1) spend by (simp add: ledger_inv_def scopes_inv_def actual_def)
    show "chain_ok h d'" using spec_settle_chain [OF s i(2)] i by (simp add: ledger_inv_def)
  qed (use p id t(1,6,7) es(2) st r(3) a0 in \<open>simp_all add: reserved_of_def row_amounts_def actual_def
      row_times_def f_def settled_row_def held_def\<close>)
  then show ?thesis by blast
qed

lemma spec_settle_inv:
  assumes "ledger_inv h base d" "digest_ok h" "find_operation (e_idempotency_key p) d = Some p"
    and "spec_settle h cfg p r now d = Some d'" "e_status p \<noteq> SETTLED" "\<not> negative (st_actual_cost r)"
  shows "ledger_inv h base d'"
  using spec_settle_moved [OF assms] op_moved_inv assms(1) by blast

section \<open>Reserve\<close>

text \<open>The shape of a reservation: one operation and one event are added.\<close>

definition op_added :: "host \<Rightarrow> escrow \<Rightarrow> event \<Rightarrow> db \<Rightarrow> db \<Rightarrow> bool" where
  "op_added h p e d d' =
     (find_operation (e_idempotency_key p) d = None
      \<and> escrow_ledger d' = escrow_ledger d @ [p] \<and> ledger_events d' = ledger_events d @ [e]
      \<and> events_of (e_idempotency_key p) (e_user_id p) [e] \<and> ev_amount_delta e = - e_reserved_amount p
      \<and> ev_event_type e = ''RESERVE_CREATED''
      \<and> provider_dispatch_attempts d' = provider_dispatch_attempts d
      \<and> e_status p = RESERVED \<and> row_amounts p \<and> row_times p
      \<and> wallets_moved (e_user_id p) (- e_reserved_amount p) d d'
      \<and> e_user_id p \<in> set (map w_user_id (user_wallets d))
      \<and> (e_trace_id p, e_trace_cap_amount p) \<in> set (trace_caps d')
      \<and> set (trace_caps d) \<subseteq> set (trace_caps d') \<and> distinct (map t_trace_id (trace_budget_state d'))
      \<and> (\<forall>t' \<in> set (trace_budget_state d'). t_reserved_total t' \<le> t_cap_amount t'
           \<and> (\<exists>x y. x = t_reserved_total t' - (if t_trace_id t' = e_trace_id p then e_reserved_amount p else 0)
                 \<and> y = t_settled_total t'
                 \<and> ((\<exists>t \<in> set (trace_budget_state d). t_trace_id t = t_trace_id t' \<and> t_reserved_total t = x \<and> t_settled_total t = y)
                    \<or> t_trace_id t' \<notin> set (map t_trace_id (trace_budget_state d)) \<and> x = 0 \<and> y = 0)))
      \<and> has_tenant_id d' = has_tenant_id d
      \<and> (has_tenant_id d \<longrightarrow> scopes_ok d \<longrightarrow> scopes_moved (scope_keys p) (e_reserved_amount p) d d')
      \<and> chain_ok h d')"

lemma fresh_key:
  assumes "refs_inv d" "find_operation k d = None"
  shows "e \<in> set (ledger_events d) \<Longrightarrow> ev_idempotency_key e \<noteq> k"
    and "a \<in> set (provider_dispatch_attempts d) \<Longrightarrow> a_idempotency_key a \<noteq> k"
    and "p \<in> set (escrow_ledger d) \<Longrightarrow> e_idempotency_key p \<noteq> k"
  using assms unfolding refs_inv_def find_operation_def row_where_None by metis+

lemma fresh_events:
  assumes "refs_inv d" "find_operation k d = None"
  shows "event_total (key_is k) (ledger_events d) = 0" "event_total (is_refund_event k) (ledger_events d) = 0"
    "settle_count k (ledger_events d) = 0" "refund_count k (ledger_events d) = 0"
  using fresh_key(1) [OF assms]
  by (auto simp: is_refund_event_def is_settle_event_def settle_count_def refund_count_def count_where_0
      intro!: event_total_none)

lemma op_added_ops:
  assumes m: "op_added h p e d d'" and o: "ops_inv d" and r: "refs_inv d"
  shows "ops_inv d'"
  unfolding ops_inv_def
proof
  have m': "find_operation (e_idempotency_key p) d = None" "ledger_events d' = ledger_events d @ [e]"
    "events_of (e_idempotency_key p) (e_user_id p) [e]" "set (trace_caps d) \<subseteq> set (trace_caps d')"
    "map w_user_id (user_wallets d') = map w_user_id (user_wallets d)"
    "provider_dispatch_attempts d' = provider_dispatch_attempts d" "escrow_ledger d' = escrow_ledger d @ [p]"
    using m unfolding op_added_def wallets_moved_def wallets_shift_def by blast+
  have p': "ev_amount_delta e = - e_reserved_amount p" "ev_event_type e = ''RESERVE_CREATED''"
    "e_status p = RESERVED" "row_amounts p" "row_times p"
    "e_user_id p \<in> set (map w_user_id (user_wallets d))" "(e_trace_id p, e_trace_cap_amount p) \<in> set (trace_caps d')"
    using m unfolding op_added_def by blast+
  fix q assume "q \<in> set (escrow_ledger d')"
  then consider (new) "q = p" | (old) "q \<in> set (escrow_ledger d)" using m'(7) by auto
  then show "row_amounts q \<and> row_times q \<and> row_events (ledger_events d') q
      \<and> row_refs (provider_dispatch_attempts d') (map w_user_id (user_wallets d')) (trace_caps d') q"
  proof cases
    case new
    have "row_events (ledger_events d') p"
      using fresh_events [OF r m'(1)] m'(3) p'
      by (simp add: row_events_def m'(2) Let_def charge_def held_def events_of_def is_refund_event_def
          is_settle_event_def settle_count_def refund_count_def)
    moreover have "row_refs (provider_dispatch_attempts d') (map w_user_id (user_wallets d')) (trace_caps d') p"
      using p' fresh_key(2) [OF r m'(1)] unfolding row_refs_def m'(5,6) by blast
    ultimately show ?thesis using new p' by simp
  next
    case old
    then have ne: "e_idempotency_key q \<noteq> e_idempotency_key p" using fresh_key(3) [OF r m'(1)] by blast
    have oq: "row_amounts q" "row_times q" "row_events (ledger_events d) q"
      "row_refs (provider_dispatch_attempts d) (map w_user_id (user_wallets d)) (trace_caps d) q"
      using o old by (auto simp: ops_inv_def)
    have "row_refs (provider_dispatch_attempts d') (map w_user_id (user_wallets d')) (trace_caps d') q"
      using oq(4) m'(4) unfolding row_refs_def m'(5,6) by blast
    then show ?thesis using oq row_events_other [OF oq(3) m'(3) ne] by (simp add: m'(2))
  qed
qed

lemma trace_fresh:
  assumes "ops_inv d" "t \<notin> set (map t_trace_id (trace_budget_state d))" "q \<in> set (escrow_ledger d)"
  shows "e_trace_id q \<noteq> t"
  using assms by (auto simp: ops_inv_def row_refs_def)

lemma op_added_traces:
  assumes m: "op_added h p e d d'" and o: "ops_inv d"
    and t: "\<forall>t \<in> set (trace_budget_state d). trace_ok (escrow_ledger d) t"
  shows "\<forall>t \<in> set (trace_budget_state d'). trace_ok (escrow_ledger d') t"
proof
  fix t' assume t': "t' \<in> set (trace_budget_state d')"
  let ?g = "\<lambda>q. if e_trace_id q = t_trace_id t' \<and> held (e_status q) then e_reserved_amount q else 0"
  let ?h = "\<lambda>q. if e_trace_id q = t_trace_id t' \<and> e_status q = SETTLED then e_actual_amount q else 0"
  have p: "escrow_ledger d' = escrow_ledger d @ [p]" "e_status p = RESERVED" "t_reserved_total t' \<le> t_cap_amount t'"
    using m t' by (auto simp: op_added_def)
  obtain x y where x: "x = t_reserved_total t' - (if t_trace_id t' = e_trace_id p then e_reserved_amount p else 0)"
    and y: "y = t_settled_total t'"
    and xy: "(\<exists>t \<in> set (trace_budget_state d). t_trace_id t = t_trace_id t' \<and> t_reserved_total t = x \<and> t_settled_total t = y)
       \<or> t_trace_id t' \<notin> set (map t_trace_id (trace_budget_state d)) \<and> x = 0 \<and> y = 0"
    using m t' unfolding op_added_def by blast
  have old: "column_sum ?g (escrow_ledger d) = x \<and> column_sum ?h (escrow_ledger d) = y"
    using xy
  proof
    assume "\<exists>t \<in> set (trace_budget_state d). t_trace_id t = t_trace_id t' \<and> t_reserved_total t = x \<and> t_settled_total t = y"
    then show ?thesis using t by (auto simp: trace_ok_def)
  next
    assume fresh: "t_trace_id t' \<notin> set (map t_trace_id (trace_budget_state d)) \<and> x = 0 \<and> y = 0"
    then have "e_trace_id q \<noteq> t_trace_id t'" if "q \<in> set (escrow_ledger d)" for q
      using trace_fresh [OF o] that by blast
    then show ?thesis using fresh by (auto intro!: column_sum_zero)
  qed
  have "t_reserved_total t' = column_sum ?g (escrow_ledger d')" "t_settled_total t' = column_sum ?h (escrow_ledger d')"
    using old x y p(2) by (auto simp: p(1) held_def)
  then show "trace_ok (escrow_ledger d') t'" using p(3) by (simp add: trace_ok_def)
qed

lemma op_added_wallets:
  assumes m: "op_added h p e d d'"
    and w: "\<forall>w \<in> set (user_wallets d). wallet_ok base (ledger_events d) (escrow_ledger d) w"
  shows "\<forall>w \<in> set (user_wallets d'). wallet_ok base (ledger_events d') (escrow_ledger d') w"
proof
  fix w' assume w': "w' \<in> set (user_wallets d')"
  have m': "ledger_events d' = ledger_events d @ [e]" "ev_user_id e = e_user_id p" "e_status p = RESERVED"
    "ev_amount_delta e = - e_reserved_amount p" "escrow_ledger d' = escrow_ledger d @ [p]"
    "wallets_moved (e_user_id p) (- e_reserved_amount p) d d'"
    using m by (auto simp: op_added_def events_of_def)
  obtain w0 where w0: "w0 \<in> set (user_wallets d)" "w_user_id w' = w_user_id w0"
    "w_balance w' = w_balance w0 + (if w_user_id w0 = e_user_id p then - e_reserved_amount p else 0)" "0 \<le> w_balance w'"
    using m'(6) w' unfolding wallets_moved_def wallets_shift_def by blast
  have "wallet_ok base (ledger_events d) (escrow_ledger d) w0" using w w0(1) by blast
  then show "wallet_ok base (ledger_events d') (escrow_ledger d') w'"
    using w0 m' by (auto simp: wallet_ok_def charge_def held_def)
qed

lemma op_added_scopes:
  assumes m: "op_added h p e d d'" and r: "refs_inv d" and te: "has_tenant_id d" and s: "scopes_inv d"
  shows "scopes_inv d'"
proof -
  have m': "ledger_events d' = ledger_events d @ [e]" "events_of (e_idempotency_key p) (e_user_id p) [e]"
    "e_status p = RESERVED" "escrow_ledger d' = escrow_ledger d @ [p]"
    "find_operation (e_idempotency_key p) d = None" "ev_event_type e = ''RESERVE_CREATED''"
    using m by (auto simp: op_added_def)
  have mv: "scopes_moved (scope_keys p) (e_reserved_amount p) d d'"
    using m te s by (simp add: op_added_def scopes_inv_def)
  have "scope_spend (ledger_events d') p = e_reserved_amount p"
    using fresh_events(4) [OF r m'(5)] m'(3,6)
    by (simp add: scope_spend_def charge_def held_def m'(1) refund_count_def is_refund_event_def)
  moreover have "column_sum (\<lambda>q. if k \<in> set (scope_keys q) then scope_spend (ledger_events d') q else 0) (escrow_ledger d)
      = scope_total (ledger_events d) (escrow_ledger d) k" for k
    unfolding scope_total_def m'(1)
    by (rule column_sum_cong) (use scope_spend_other [OF m'(2)] fresh_key(3) [OF r m'(5)] in simp)
  ultimately show ?thesis
    using s mv unfolding scopes_inv_def scopes_moved_def scope_total_def [of "ledger_events d'"]
    by (simp add: m'(4))
qed

lemma op_added_inv:
  assumes m: "op_added h p e d d'" and i: "ledger_inv h base d"
  shows "ledger_inv h base d'"
proof -
  have o: "ops_inv d" and r: "refs_inv d" and k: "keys_inv d" using i by (auto simp: ledger_inv_def)
  have m': "escrow_ledger d' = escrow_ledger d @ [p]" "ledger_events d' = ledger_events d @ [e]"
    "events_of (e_idempotency_key p) (e_user_id p) [e]" "find_operation (e_idempotency_key p) d = None"
    "map w_user_id (user_wallets d') = map w_user_id (user_wallets d)"
    "distinct (map t_trace_id (trace_budget_state d'))" "chain_ok h d'" "has_tenant_id d' = has_tenant_id d"
    "provider_dispatch_attempts d' = provider_dispatch_attempts d"
    using m unfolding op_added_def wallets_moved_def wallets_shift_def by blast+
  have "keys_inv d'"
  proof -
    have "e_idempotency_key p \<notin> e_idempotency_key ` set (escrow_ledger d)"
      using fresh_key(3) [OF r m'(4)] by (metis imageE)
    then show ?thesis using k m'(6) by (simp add: keys_inv_def m'(1,5))
  qed
  moreover have "refs_inv d'"
    using r m'(3) unfolding refs_inv_def m'(1,2,9) by (auto simp: events_of_def)
  ultimately show ?thesis
    using i m'(7,8) op_added_ops [OF m o r] op_added_traces [OF m o] op_added_wallets [OF m] op_added_scopes [OF m r]
    unfolding ledger_inv_def by blast
qed

lemma claim_effect:
  assumes s: "spec_claim t cap amount now d = Some d'" and k: "distinct (map t_trace_id (trace_budget_state d))"
    and ok: "\<forall>x \<in> set (trace_budget_state d). t_reserved_total x \<le> t_cap_amount x"
  shows "(t, cap) \<in> set (trace_caps d')" "set (trace_caps d) \<subseteq> set (trace_caps d')"
    "distinct (map t_trace_id (trace_budget_state d'))"
    "\<forall>t' \<in> set (trace_budget_state d'). t_reserved_total t' \<le> t_cap_amount t'
       \<and> (\<exists>x y. x = t_reserved_total t' - (if t_trace_id t' = t then amount else 0) \<and> y = t_settled_total t'
             \<and> ((\<exists>b \<in> set (trace_budget_state d). t_trace_id b = t_trace_id t' \<and> t_reserved_total b = x \<and> t_settled_total b = y)
                \<or> t_trace_id t' \<notin> set (map t_trace_id (trace_budget_state d)) \<and> x = 0 \<and> y = 0))"
proof -
  let ?e = "ensure_trace t cap now d"
  obtain b where b: "find_trace t ?e = Some b" "t_cap_amount b = cap" "t_reserved_total b + amount \<le> cap"
    and d': "d' = move_trace t amount 0 now ?e"
    using s by (auto simp: spec_claim_def split: option.splits if_splits)
  have de: "distinct (map t_trace_id (trace_budget_state ?e))"
    using k by (auto simp: ensure_trace_def find_trace_def row_where_None image_iff)
  have sub: "set (trace_budget_state d) \<subseteq> set (trace_budget_state ?e)"
    by (auto simp: ensure_trace_def)
  have from_e: "x \<in> set (trace_budget_state d)
      \<or> t_trace_id x \<notin> set (map t_trace_id (trace_budget_state d)) \<and> t_reserved_total x = 0 \<and> t_settled_total x = 0"
    if "x \<in> set (trace_budget_state ?e)" for x
    using that by (auto simp: ensure_trace_def find_trace_def row_where_None split: if_splits)
  have bin: "b \<in> set (trace_budget_state ?e)" "t_trace_id b = t"
    using b(1) row_where_keyD unfolding find_trace_def by metis+
  let ?f = "\<lambda>b. b\<lparr>t_reserved_total := t_reserved_total b + amount, t_settled_total := t_settled_total b + 0, t_updated_at := now\<rparr>"
  have set': "set (trace_budget_state d') = insert (?f b) (set (trace_budget_state ?e) - {b})"
    using set_update_key [OF de b(1) [unfolded find_trace_def], of ?f] by (simp add: d' move_trace_def)
  have other: "t_trace_id x \<noteq> t" if "x \<in> set (trace_budget_state ?e)" "x \<noteq> b" for x
    using row_where_key_in [OF de that(1)] b(1) that(2) by (auto simp: find_trace_def)
  have caps: "trace_caps d' = trace_caps ?e"
    by (simp add: d' move_trace_def map_update_where)
  show "(t, cap) \<in> set (trace_caps d')" using bin b(2) by (force simp: caps)
  show "set (trace_caps d) \<subseteq> set (trace_caps d')" using sub by (auto simp: caps)
  show "distinct (map t_trace_id (trace_budget_state d'))"
    using de by (simp add: d' move_trace_def map_update_where)
  show "\<forall>t' \<in> set (trace_budget_state d'). t_reserved_total t' \<le> t_cap_amount t'
       \<and> (\<exists>x y. x = t_reserved_total t' - (if t_trace_id t' = t then amount else 0) \<and> y = t_settled_total t'
             \<and> ((\<exists>b \<in> set (trace_budget_state d). t_trace_id b = t_trace_id t' \<and> t_reserved_total b = x \<and> t_settled_total b = y)
                \<or> t_trace_id t' \<notin> set (map t_trace_id (trace_budget_state d)) \<and> x = 0 \<and> y = 0))"
  proof
    fix t' assume "t' \<in> set (trace_budget_state d')"
    then consider (this) "t' = ?f b" | (old) "t' \<in> set (trace_budget_state ?e)" "t' \<noteq> b" using set' by blast
    then show "t_reserved_total t' \<le> t_cap_amount t'
       \<and> (\<exists>x y. x = t_reserved_total t' - (if t_trace_id t' = t then amount else 0) \<and> y = t_settled_total t'
             \<and> ((\<exists>b \<in> set (trace_budget_state d). t_trace_id b = t_trace_id t' \<and> t_reserved_total b = x \<and> t_settled_total b = y)
                \<or> t_trace_id t' \<notin> set (map t_trace_id (trace_budget_state d)) \<and> x = 0 \<and> y = 0))"
    proof cases
      case this
      then show ?thesis using b bin(2) from_e [OF bin(1)] by auto
    next
      case old
      have "t_reserved_total t' \<le> t_cap_amount t'"
      proof (cases "t' \<in> set (trace_budget_state d)")
        case True
        then show ?thesis using ok by blast
      next
        case False
        then have "t_trace_id t' = t" using old(1) by (auto simp: ensure_trace_def split: if_splits)
        then show ?thesis using other [OF old] by blast
      qed
      then show ?thesis using other [OF old] from_e [OF old(1)] by auto
    qed
  qed
qed

lemma spec_reserve_added:
  assumes i: "ledger_inv h base d" "digest_ok h" and s: "spec_reserve h cfg r now d = Some d'"
    and cost: "\<not> negative (rq_estimated_cost r)"
  shows "\<exists>e. op_added h (reserve_row h cfg r now (reserve_identity r d)) e d d'"
proof -
  define amount cap where "amount = quantize_money (Some (rq_estimated_cost r))" and "cap = trace_cap_of cfg r"
  define ident where "ident = reserve_identity r d"
  define p where "p = reserve_row h cfg r now ident"
  obtain d1 d2 d3 d4 where s1: "spec_reserve_scopes cfg r now d = Some d1"
    and s2: "spec_claim (rq_trace_id r) cap amount now d1 = Some d2"
    and s3: "spec_debit (rq_user_id r) amount now d2 = Some d3"
    and s4: "spec_insert p d3 = Some d4"
    and d': "d' = spec_reserve_log h cfg r now ident d4"
    using s unfolding spec_reserve_def Let_def amount_def cap_def p_def ident_def
    by (auto simp: bind_eq_Some_conv)
  have a0: "0 \<le> amount" using cost quantize_money_nonneg by (simp add: amount_def)
  have p: "e_idempotency_key p = rq_idempotency_key r" "e_user_id p = rq_user_id r" "e_trace_id p = rq_trace_id r"
    "e_reserved_amount p = amount" "e_trace_cap_amount p = cap" "e_status p = RESERVED" "row_amounts p" "row_times p"
    using a0 by (simp_all add: p_def reserve_row_def new_operation_def Let_def amount_def cap_def row_amounts_def row_times_def)
  have t1: "d1 = d\<lparr>budget_scope_state := budget_scope_state d1\<rparr>"
    using s1 charge_scopes_tables by (auto simp: spec_reserve_scopes_def split: option.splits)
  then have u1: "user_wallets d1 = user_wallets d" "trace_budget_state d1 = trace_budget_state d"
    "escrow_ledger d1 = escrow_ledger d" "ledger_events d1 = ledger_events d"
    "provider_dispatch_attempts d1 = provider_dispatch_attempts d" "has_tenant_id d1 = has_tenant_id d"
    by (metis db.select_convs db.surjective db.update_convs(7))+
  have d2: "d2 = move_trace (rq_trace_id r) amount 0 now (ensure_trace (rq_trace_id r) cap now d1)"
    using s2 by (auto simp: spec_claim_def split: option.splits if_splits)
  obtain w where w: "find_wallet (rq_user_id r) d2 = Some w" "amount \<le> w_balance w"
    and d3: "d3 = credit_wallet (rq_user_id r) (- amount) now d2"
    using s3 by (auto simp: spec_debit_def split: option.splits if_splits)
  have d4: "d4 = insert_operation p d3" "find_operation (e_idempotency_key p) d3 = None"
    using s4 by (auto simp: spec_insert_def split: if_splits)
  let ?e = "sealed_event h now (rq_idempotency_key r) (rq_user_id r) ''RESERVE_CREATED'' (- amount)
     (reserve_event_metadata r ident cap) d4"
  have tr: "trace_budget_state d' = trace_budget_state d2" "user_wallets d' = user_wallets d3"
    "escrow_ledger d' = escrow_ledger d4" "ledger_events d' = ledger_events d4 @ [?e]"
    "provider_dispatch_attempts d' = provider_dispatch_attempts d4" "has_tenant_id d' = has_tenant_id d4"
    "budget_scope_state d' = budget_scope_state d4"
    by (cases ident; simp add: d' spec_reserve_log_def Let_def add_sealed_event_log amount_def cap_def d4(1) d3)+
  have u2: "user_wallets d2 = user_wallets d" "escrow_ledger d2 = escrow_ledger d" "ledger_events d2 = ledger_events d"
    "provider_dispatch_attempts d2 = provider_dispatch_attempts d" "has_tenant_id d2 = has_tenant_id d"
    "budget_scope_state d2 = budget_scope_state d1"
    using d2 u1 by auto
  have k: "keys_inv d" "\<forall>x \<in> set (trace_budget_state d1). t_reserved_total x \<le> t_cap_amount x"
    "distinct (map t_trace_id (trace_budget_state d1))"
    using i(1) by (auto simp: ledger_inv_def keys_inv_def trace_ok_def u1)
  note c = claim_effect [OF s2 k(3,2), unfolded u1]
  have "op_added h p ?e d d'"
    unfolding op_added_def p(1-5)
  proof (intro conjI impI)
    show "find_operation (rq_idempotency_key r) d = None"
      using d4(2) by (simp add: find_operation_def d3 u2 p(1))
    show "wallets_moved (rq_user_id r) (- amount) d d'"
      unfolding wallets_moved_def tr(2) d3
    proof (intro conjI ballI)
      show shift: "wallets_shift (rq_user_id r) (- amount) (user_wallets d) (user_wallets (credit_wallet (rq_user_id r) (- amount) now d2))"
        using shift_credit [of "rq_user_id r" "- amount" d2 now] by (simp add: u2)
      fix w' assume w': "w' \<in> set (user_wallets (credit_wallet (rq_user_id r) (- amount) now d2))"
      obtain w0 where w0: "w0 \<in> set (user_wallets d)" "w_user_id w' = w_user_id w0"
        "w_balance w' = w_balance w0 + (if w_user_id w0 = rq_user_id r then - amount else 0)"
        using shift w' unfolding wallets_shift_def by blast
      show "0 \<le> w_balance w'"
      proof (cases "w_user_id w0 = rq_user_id r")
        case True
        have "find_wallet (rq_user_id r) d2 = Some w0"
          using row_where_key_in [of w_user_id "user_wallets d" w0] k(1) w0(1) True
          by (simp add: find_wallet_def keys_inv_def u2)
        then show ?thesis using w w0(3) True by simp
      next
        case False
        then show ?thesis using w0 inv_nonneg [OF i(1)] by simp
      qed
    qed
    show "rq_user_id r \<in> set (map w_user_id (user_wallets d))"
      using w(1) row_where_keyD [of w_user_id "rq_user_id r" "user_wallets d" w] by (force simp: find_wallet_def u2 image_iff)
    show "scopes_moved (scope_keys p) amount d d'" if te: "has_tenant_id d" and ok: "scopes_ok d"
    proof -
      define j where "j = identity_from_reserve r"
      have j: "reserve_identity r d = Some j" using te by (simp add: reserve_identity_def j_def)
      have "charge_scopes (reserve_scopes cfg r j) amount now d = Some d1"
        using s1 by (simp add: spec_reserve_scopes_def j amount_def)
      moreover have "map (\<lambda>(ty, k, _). (ty, k)) (reserve_scopes cfg r j) = scope_keys p"
        by (simp add: reserve_scopes_def scope_keys_def p_def reserve_row_def new_operation_def ident_def j Let_def)
      moreover have "distinct (scope_keys p)" by (simp add: scope_keys_def)
      ultimately have "scopes_moved (scope_keys p) amount d d1"
        using charge_scopes_moved [of "reserve_scopes cfg r j" amount now d d1] ok by simp
      then show ?thesis by (rule scopes_moved_cong [rotated 2]) (simp_all add: tr d4 d3 u2)
    qed
    show "chain_ok h d'"
    proof -
      have "chain_ok h d1"
        using s1 i(1) charge_scopes_chain
        by (auto simp: spec_reserve_scopes_def ledger_inv_def split: option.splits)
      then have "chain_ok h d4" using d2 by (auto simp: d4 d3)
      then show ?thesis using i(2) by (auto simp: d' spec_reserve_log_def Let_def split: option.split)
    qed
  qed (use c p tr u2 in \<open>simp_all add: d4(1) d3 insert_operation_def events_of_def\<close>)
  then show ?thesis unfolding p_def ident_def by blast
qed

lemma spec_reserve_inv:
  assumes "ledger_inv h base d" "digest_ok h" "spec_reserve h cfg r now d = Some d'"
    and "\<not> negative (rq_estimated_cost r)"
  shows "ledger_inv h base d'"
  using spec_reserve_added [OF assms] op_added_inv assms(1) by blast

section \<open>Statements outside the accounts\<close>

lemma ledger_inv_cong:
  assumes "user_wallets d' = user_wallets d" "trace_budget_state d' = trace_budget_state d"
    "escrow_ledger d' = escrow_ledger d" "provider_dispatch_attempts d' = provider_dispatch_attempts d"
    "ledger_events d' = ledger_events d" "next_event_id d' = next_event_id d"
    "budget_scope_state d' = budget_scope_state d" "has_tenant_id d' = has_tenant_id d"
    "has_row_hash d' = has_row_hash d"
  shows "ledger_inv h base d' = ledger_inv h base d"
  using assms
  by (simp add: ledger_inv_def chain_ok_def keys_inv_def ops_inv_def refs_inv_def scopes_inv_def scopes_ok_def
      scope_consumed_def)

lemma approval_incident_inv: "ledger_inv h base (approval_incident r i now d) = ledger_inv h base d"
  by (rule ledger_inv_cong) (simp_all add: approval_incident_def)

lemma loop_incident_inv: "ledger_inv h base (loop_incident p g l now d) = ledger_inv h base d"
  by (rule ledger_inv_cong) (simp_all add: loop_incident_def)

lemma save_checkpoint_inv: "ledger_inv h base (save_checkpoint c d) = ledger_inv h base d"
  by (rule ledger_inv_cong) (simp_all add: save_checkpoint_def)

end
