(* ===== verification/Ledger_History.thy ===== *)
theory Ledger_History
  imports Ledger_Preserve
begin

text \<open>
  What no transaction of the ledger undoes: logged events stay as they were, an operation keeps
  its identity and its reserved amount, and a settled operation never changes again.
\<close>

section \<open>Extension of a ledger\<close>

definition ledger_extends :: "db \<Rightarrow> db \<Rightarrow> bool" where
  "ledger_extends d d' =
     ((\<exists>es. ledger_events d' = ledger_events d @ es)
      \<and> (\<forall>p \<in> set (escrow_ledger d). \<exists>q \<in> set (escrow_ledger d').
           same_identity p q \<and> (e_status p = SETTLED \<longrightarrow> q = p)))"

lemma ledger_extendsI:
  assumes "ledger_events d' = ledger_events d @ es"
    and "\<And>p. p \<in> set (escrow_ledger d) \<Longrightarrow> p \<in> set (escrow_ledger d')
       \<or> e_status p \<noteq> SETTLED \<and> (\<exists>q \<in> set (escrow_ledger d'). same_identity p q)"
  shows "ledger_extends d d'"
  using assms unfolding ledger_extends_def by (auto simp: same_identity_def)

lemma same_identity_refl [simp]: "same_identity p p"
  by (simp add: same_identity_def)

lemma same_identity_trans: "same_identity p q \<Longrightarrow> same_identity q r \<Longrightarrow> same_identity p r"
  by (simp add: same_identity_def)

lemma ledger_extends_refl [simp]: "ledger_extends d d"
  by (rule ledger_extendsI [of _ _ "[]"]) simp_all

lemma ledger_extends_trans:
  assumes "ledger_extends d d'" "ledger_extends d' d''"
  shows "ledger_extends d d''"
proof -
  have "\<exists>r \<in> set (escrow_ledger d''). same_identity p r \<and> (e_status p = SETTLED \<longrightarrow> r = p)"
    if pin: "p \<in> set (escrow_ledger d)" for p
  proof -
    obtain q where q: "q \<in> set (escrow_ledger d')" "same_identity p q" "e_status p = SETTLED \<longrightarrow> q = p"
      using assms(1) pin unfolding ledger_extends_def by blast
    obtain r where r: "r \<in> set (escrow_ledger d'')" "same_identity q r" "e_status q = SETTLED \<longrightarrow> r = q"
      using assms(2) q(1) unfolding ledger_extends_def by blast
    show ?thesis
      using r(1) same_identity_trans [OF q(2) r(2)] q(3) r(3) by (intro bexI [of _ r]) auto
  qed
  moreover have "\<exists>es. ledger_events d'' = ledger_events d @ es"
    using assms unfolding ledger_extends_def by (metis append.assoc)
  ultimately show ?thesis by (auto simp: ledger_extends_def)
qed

lemma ledger_extends_cong:
  "ledger_events d' = ledger_events d \<Longrightarrow> escrow_ledger d' = escrow_ledger d \<Longrightarrow> ledger_extends e d' = ledger_extends e d"
  by (simp add: ledger_extends_def)

section \<open>Transactions extend the ledger\<close>

lemma op_moved_extends:
  assumes "op_moved h p f es d d'" "keys_inv d" "e_status p \<noteq> SETTLED"
  shows "ledger_extends d d'"
proof -
  have m: "find_operation (e_idempotency_key p) d = Some p" "same_identity p (f p)"
    "escrow_ledger d' = escrow_ledger (change_operation (e_idempotency_key p) f d)"
    "ledger_events d' = ledger_events d @ es"
    using assms(1) unfolding op_moved_def by blast+
  have "set (escrow_ledger d') = insert (f p) (set (escrow_ledger d) - {p})"
    using change_operation_set [OF assms(2) m(1)] by (simp add: m(3))
  then show ?thesis using m(2,4) assms(3) by (intro ledger_extendsI [of _ _ es]) auto
qed

lemma op_added_extends: "op_added h p e d d' \<Longrightarrow> ledger_extends d d'"
  unfolding op_added_def by (rule ledger_extendsI [of _ _ "[e]"]) auto

lemma spec_reserve_extends:
  assumes "ledger_inv h base d" "digest_ok h" "spec_reserve h cfg r now d = Some d'"
    and "\<not> negative (rq_estimated_cost r)"
  shows "ledger_extends d d'"
  using spec_reserve_added [OF assms] op_added_extends by blast

lemma spec_settle_extends:
  assumes "ledger_inv h base d" "digest_ok h" "find_operation (e_idempotency_key p) d = Some p"
    and "spec_settle h cfg p r now d = Some d'" "e_status p \<noteq> SETTLED" "\<not> negative (st_actual_cost r)"
  shows "ledger_extends d d'"
  using spec_settle_moved [OF assms] op_moved_extends assms(1,5) by (auto simp: ledger_inv_def)

lemma spec_record_extends:
  assumes "ledger_inv h base d" "digest_ok h" "find_operation (e_idempotency_key p) d = Some p"
    and "spec_record h cfg p r now d = Some d'" "st_outcome r \<noteq> O_SETTLED"
  shows "ledger_extends d d'"
proof -
  have "e_status p \<noteq> SETTLED" using assms(4) by (auto simp: spec_record_def Let_def split: if_splits)
  then show ?thesis using spec_record_moved [OF assms] op_moved_extends assms(1) by (auto simp: ledger_inv_def)
qed

lemma spec_expire_extends:
  assumes i: "ledger_inv h base d" "digest_ok h" and p: "find_operation (e_idempotency_key p) d = Some p"
    and st: "e_status p = RESERVED \<or> e_status p = IN_FLIGHT \<or> e_status p = PROVIDER_TIMEOUT"
  shows "ledger_extends d (spec_expire h tr reason now p d)"
proof -
  have "\<exists>f es. op_moved h p f es d (spec_expire h tr reason now p d)"
    using spec_strand_moved [OF i p _ st] spec_refund_moved [OF i p st] by (simp add: spec_expire_def)
  then show ?thesis using op_moved_extends i(1) st by (auto simp: ledger_inv_def)
qed

lemma sweep_rows_extend:
  assumes "ledger_inv h base d" "digest_ok h" "distinct (map e_idempotency_key ps)"
    and "\<forall>p \<in> set ps. find_operation (e_idempotency_key p) d = Some p
       \<and> (e_status p = RESERVED \<or> e_status p = IN_FLIGHT \<or> e_status p = PROVIDER_TIMEOUT)"
  shows "ledger_extends d (spec_sweep h now ps d)"
  using assms
proof (induction ps arbitrary: d)
  case Nil
  then show ?case by simp
next
  case (Cons p ps)
  let ?d = "spec_expire h ''TTL_EXPIRED'' ''reconciler_expiry_claim'' now p d"
  have "ledger_inv h base ?d" using Cons.prems by (intro spec_expire_inv) auto
  moreover have "\<forall>q \<in> set ps. find_operation (e_idempotency_key q) ?d = Some q"
    using Cons.prems(3,4) by (intro spec_expire_rest) auto
  ultimately have "ledger_extends ?d (spec_sweep h now ps ?d)" using Cons.prems by (intro Cons.IH) auto
  moreover have "ledger_extends d ?d" using Cons.prems by (intro spec_expire_extends) auto
  ultimately show ?case by (auto intro: ledger_extends_trans)
qed

lemma sweep_extends:
  assumes "ledger_inv h base d" "digest_ok h"
  shows "ledger_extends d (spec_sweep h now (due_rows n now d) d)"
proof -
  have k: "keys_inv d" using assms(1) by (simp add: ledger_inv_def)
  show ?thesis
    using due_rows_facts [OF k] find_operation_unique [OF k]
    by (intro sweep_rows_extend [OF assms]) (auto simp: sweepable_def)
qed

section \<open>Checkpoints\<close>

text \<open>A checkpoint of a table stays one when events are appended.\<close>

definition checkpoints_ok :: "host \<Rightarrow> db \<Rightarrow> bool" where
  "checkpoints_ok h d = (\<forall>c. verify_checkpoints d = Some c \<longrightarrow> checkpoint_ok h d c)"

lemma checkpoints_ok_extends:
  assumes "ledger_extends d d'" "verify_checkpoints d' = verify_checkpoints d" "checkpoints_ok h d"
  shows "checkpoints_ok h d'"
proof -
  obtain es where es: "ledger_events d' = ledger_events d @ es" using assms(1) by (auto simp: ledger_extends_def)
  have "checkpoint_ok h d' c" if "checkpoint_ok h d c" for c
    using that by (force simp: checkpoint_ok_def es nth_append)
  then show ?thesis using assms(2,3) by (simp add: checkpoints_ok_def)
qed

text \<open>The tables that only the verification and the privileged routes write.\<close>

definition side_tables where
  "side_tables d = (verify_checkpoints d, admin_audit_log d, next_audit_id d, ledger_chain_anchors d, next_anchor_id d)"

lemma side_tablesD:
  assumes "side_tables d' = side_tables d"
  shows "verify_checkpoints d' = verify_checkpoints d" "admin_audit_log d' = admin_audit_log d"
    "next_audit_id d' = next_audit_id d" "ledger_chain_anchors d' = ledger_chain_anchors d"
  using assms by (simp_all add: side_tables_def)

lemma scope_side [simp]:
  "side_tables (ensure_scope ty k cap now d) = side_tables d"
  "side_tables (consume_scope ty k delta now d) = side_tables d"
  by (simp_all add: side_tables_def ensure_scope_def consume_scope_def)

lemma charge_scopes_side: "charge_scopes sc delta now d = Some d' \<Longrightarrow> side_tables d' = side_tables d"
  by (induction sc arbitrary: d) (auto split: option.splits if_splits)

lemma table_side [simp]:
  "side_tables (add_sealed_event h now k u t a m d) = side_tables d"
  "side_tables (record_lineage k i u t r x j now d) = side_tables d"
  "side_tables (insert_operation p d) = side_tables d"
  "side_tables (credit_wallet u a now d) = side_tables d"
  "side_tables (lock_wallet u v now d) = side_tables d"
  "side_tables (move_trace tr a b now d) = side_tables d"
  "side_tables (ensure_trace tr a now d) = side_tables d"
  "side_tables (change_operation k f d) = side_tables d"
  "side_tables (put_attempt att d) = side_tables d"
  "side_tables (bump_loop k now d) = side_tables d"
  "side_tables (insert_loop k g now d) = side_tables d"
  by (simp_all add: side_tables_def add_sealed_event_def record_lineage_def insert_operation_def credit_wallet_def lock_wallet_def
      move_trace_def ensure_trace_def change_operation_def put_attempt_def bump_loop_def insert_loop_def)

lemma spec_reserve_side:
  assumes "spec_reserve h cfg r now d = Some d'"
  shows "side_tables d' = side_tables d"
proof -
  obtain d1 d2 d3 d4 where "spec_reserve_scopes cfg r now d = Some d1"
    "spec_claim (rq_trace_id r) (trace_cap_of cfg r) (quantize_money (Some (rq_estimated_cost r))) now d1 = Some d2"
    "spec_debit (rq_user_id r) (quantize_money (Some (rq_estimated_cost r))) now d2 = Some d3"
    "spec_insert (reserve_row h cfg r now (reserve_identity r d)) d3 = Some d4"
    "d' = spec_reserve_log h cfg r now (reserve_identity r d) d4"
    using assms by (auto simp: spec_reserve_def Let_def bind_eq_Some_conv)
  moreover from this have "side_tables d1 = side_tables d"
    by (auto simp: spec_reserve_scopes_def charge_scopes_side split: option.splits)
  ultimately show ?thesis
    by (auto simp: spec_claim_def spec_debit_def spec_insert_def spec_reserve_log_def Let_def
        split: option.splits if_splits)
qed

lemma spec_settle_side:
  assumes "spec_settle h cfg p r now d = Some d'"
  shows "side_tables d' = side_tables d"
proof -
  let ?a = "quantize_money (Some (st_actual_cost r))" and ?b = "e_reserved_amount p"
  obtain d1 d2 d3 where s: "spec_settle_attempt p r now d = Some d1"
    "spec_settle_balances h cfg p ?a ?b now d1 = Some d2"
    "spec_change (e_idempotency_key p) (st_provider_request_id r)
       (settled_row r ?a (settlement_reason (e_status p)) (?a - ?b) now) d2 = Some d3"
    "spec_settle_close h cfg p r ?a ?b now d3 = Some d'"
    using assms by (auto simp: spec_settle_def Let_def bind_eq_Some_conv)
  have "side_tables d1 = side_tables d"
    using s(1) by (auto simp: spec_settle_attempt_def spec_upsert_def split: if_splits)
  moreover have "side_tables d2 = side_tables d1"
    using s(2) charge_scopes_side
    by (fastforce simp: spec_settle_balances_def spec_settle_budget_def spec_settle_wallet_def Let_def split: if_splits)
  moreover have "side_tables d3 = side_tables d2"
    using s(3) by (auto simp: spec_change_def split: if_splits)
  moreover have "side_tables d' = side_tables d3"
    using s(4) by (auto simp: spec_settle_close_def spec_drift_def spec_settle_log_def Let_def split: if_splits)
  ultimately show ?thesis by simp
qed

lemma spec_record_side:
  assumes "spec_record h cfg p r now d = Some d'"
  shows "side_tables d' = side_tables d"
proof -
  obtain d1 d2 d3 where s: "spec_loop p r cfg now d = Some d1"
    "spec_upsert (the (st_dispatch_attempt_key r)) (e_idempotency_key p) r now d1 = Some d2"
    "spec_change (e_idempotency_key p) (st_provider_request_id r) (dispatched_row r now) d2 = Some d3"
    "d' = add_sealed_event h now (e_idempotency_key p) (e_user_id p) (attempt_event_type r) 0 (attempt_event_metadata r) d3"
    using assms by (auto simp: spec_record_def Let_def bind_eq_Some_conv split: if_splits)
  have "side_tables d1 = side_tables d"
    using s(1) by (auto simp: spec_loop_def Let_def split: if_splits option.splits)
  then show ?thesis using s(2-4) by (auto simp: spec_upsert_def spec_change_def split: if_splits)
qed

lemma sweep_side [simp]: "side_tables (spec_sweep h now ps d) = side_tables d"
  by (induction ps arbitrary: d) (simp_all add: spec_expire_def spec_strand_def spec_refund_def)

lemma valid_full: "chain_ok h d \<Longrightarrow> vr_valid (snd (verify_ledger_chain h False d s))"
  using sort_events [of h d] by (simp add: verify_nonincremental_valid chain_ok_def)

section \<open>The audit finds nothing\<close>

lemma no_duplicate_keys:
  assumes "\<And>k. count_where (\<lambda>e. ev_idempotency_key e = k \<and> q e) rows \<le> 1"
  shows "duplicate_keys q rows = 0"
proof -
  have "\<not> 1 < count_where (\<lambda>e. ev_idempotency_key e = k \<and> q e) rows" for k using assms [of k] by linarith
  then show ?thesis by (simp add: duplicate_keys_def)
qed

lemma event_counts_le1:
  assumes "ledger_inv h base d"
  shows "settle_count k (ledger_events d) \<le> 1" "refund_count k (ledger_events d) \<le> 1"
proof -
  have ev: "row_events (ledger_events d) p" if "p \<in> set (escrow_ledger d)" for p
    using assms that by (auto simp: ledger_inv_def ops_inv_def)
  show "settle_count k (ledger_events d) \<le> 1" "refund_count k (ledger_events d) \<le> 1"
  proof (atomize (full), cases "\<exists>p \<in> set (escrow_ledger d). e_idempotency_key p = k")
    case True
    then show "settle_count k (ledger_events d) \<le> 1 \<and> refund_count k (ledger_events d) \<le> 1"
      using ev by (auto simp: row_events_def Let_def)
  next
    case False
    then have "find_operation k d = None" by (auto simp: find_operation_def row_where_None)
    then show "settle_count k (ledger_events d) \<le> 1 \<and> refund_count k (ledger_events d) \<le> 1"
      using fresh_events [of d k] assms by (simp add: ledger_inv_def)
  qed
qed

lemma no_violations:
  assumes i: "ledger_inv h base d"
  shows "finance_violations d = \<lparr>negative_wallets = 0, trace_cap_overruns = 0, duplicate_refunds = 0,
    duplicate_settlements = 0, stranded_without_hold_event = 0\<rparr>"
proof -
  have "count_where (\<lambda>w. w_balance w < 0) (user_wallets d) = 0"
    "count_where (\<lambda>t. t_cap_amount t < t_reserved_total t) (trace_budget_state d) = 0"
    using i by (auto simp: ledger_inv_def wallet_ok_def trace_ok_def count_where_0 not_less)
  moreover have "duplicate_keys (\<lambda>e. ev_event_type e = ''EXPIRED_SWEEP'') (ledger_events d) = 0"
    "duplicate_keys (\<lambda>e. ev_event_type e = ''SETTLED_FINAL'' \<or> ev_event_type e = ''RECONCILED_LATE_SETTLE'') (ledger_events d) = 0"
    using event_counts_le1 [OF i]
    by (auto intro!: no_duplicate_keys simp: settle_count_def refund_count_def is_settle_event_def [abs_def] is_refund_event_def [abs_def])
  moreover have "count_where (\<lambda>p. e_status p = STRANDED
          \<and> \<not> (\<exists>e \<in> set (ledger_events d). ev_idempotency_key e = e_idempotency_key p
                  \<and> ev_event_type e = ''STRANDED_HOLD'')) (escrow_ledger d) = 0"
    using i by (auto simp: ledger_inv_def ops_inv_def row_events_def Let_def count_where_0)
  ultimately show ?thesis by (simp add: finance_violations_def)
qed

section \<open>The sweep, row by row\<close>

text \<open>What the sweep at \<open>now\<close> makes of a due row.\<close>

definition swept_row :: "int \<Rightarrow> db \<Rightarrow> escrow \<Rightarrow> escrow" where
  "swept_row now d p =
     (if must_strand p d
      then p\<lparr>e_status := STRANDED, e_expired_at := Some now, e_terminal_reason := ''STRANDED_HOLD_PENDING_RECONCILIATION''\<rparr>
      else p\<lparr>e_status := EXPIRED, e_expired_at := Some now, e_terminal_reason := ''TTL_EXPIRED''\<rparr>)"

lemma spec_expire_lookup:
  assumes "find_operation (e_idempotency_key p) d = Some p"
  shows "find_operation k (spec_expire h ''TTL_EXPIRED'' reason now p d)
    = (if k = e_idempotency_key p then Some (swept_row now d p) else find_operation k d)"
  using assms spec_expire_other [of k p h "''TTL_EXPIRED''" reason now d]
  by (auto simp: find_operation_def spec_expire_def spec_strand_def spec_refund_def change_operation_def
      strand_upd.lookup_same expire_upd.lookup_same swept_row_def)

lemma must_strand_expire [simp]: "must_strand q (spec_expire h tr reason now p d) = must_strand q d"
  by (simp add: must_strand_def has_open_attempts_def spec_expire_def spec_strand_def spec_refund_def)

lemma sweep_lookup:
  assumes "distinct (map e_idempotency_key ps)" "\<forall>p \<in> set ps. find_operation (e_idempotency_key p) d = Some p"
  shows "find_operation k (spec_sweep h now ps d)
    = (case row_where (\<lambda>p. e_idempotency_key p = k) ps of
         None \<Rightarrow> find_operation k d | Some p \<Rightarrow> Some (swept_row now d p))"
  using assms
proof (induction ps arbitrary: d)
  case Nil
  then show ?case by simp
next
  case (Cons p ps)
  let ?d = "spec_expire h ''TTL_EXPIRED'' ''reconciler_expiry_claim'' now p d"
  have p: "find_operation (e_idempotency_key p) d = Some p" using Cons.prems by simp
  have sr: "swept_row now ?d q = swept_row now d q" for q by (simp add: swept_row_def)
  have none: "row_where (\<lambda>q. e_idempotency_key q = e_idempotency_key p) ps = None"
    using Cons.prems(1) by (force simp: row_where_None image_iff)
  have "find_operation k (spec_sweep h now ps ?d)
    = (case row_where (\<lambda>p. e_idempotency_key p = k) ps of None \<Rightarrow> find_operation k ?d | Some p \<Rightarrow> Some (swept_row now d p))"
    using Cons.IH [of ?d] Cons.prems spec_expire_rest [OF Cons.prems(1), of d h] by (simp add: sr cong: option.case_cong)
  then show ?case using none by (auto simp: spec_expire_lookup [OF p] split: option.split)
qed

end
