(* ===== verification/Control_Plane.thy ===== *)
theory Control_Plane
  imports Console Ledger_History "HOL-Library.Sublist"
begin

text \<open>
  The control plane as a transition system: any sequence of reserve and settle requests,
  reconciler turns, chain verifications, audited diagnostic resets, anchors and passing time, from a database
  in which no operation has been reserved yet. Requests are served one after another.

  The locale \<open>ledger_property\<close> is the interface between the handlers and the ledger: a property
  of databases that every transaction keeps is one that every handler keeps, whatever path it
  takes through validation, guardrails, sessions and exception clauses.
\<close>

section \<open>Properties that the transactions keep\<close>

definition settled_in :: "(db \<Rightarrow> bool) \<Rightarrow> sys \<Rightarrow> bool" where
  "settled_in I s = (at_rest s \<and> I (committed s))"

lemma session_rest: "at_rest s \<Longrightarrow> s\<lparr>db := committed s\<rparr> = s"
  by (simp add: at_rest_def)

lemma inv_chain: "ledger_inv h base d \<Longrightarrow> chain_ok h d"
  by (simp add: ledger_inv_def)

lemma wp_session_inv:
  assumes "settled_in I s" and "wp m (\<lambda>_ t. I (committed t)) (\<lambda>_ t. I (committed t)) s"
  shows "wp (get_db_session m) (\<lambda>_. settled_in I) (\<lambda>_. settled_in I) s"
  using assms unfolding wp_get_db_session settled_in_def
  by (auto simp: session_rest at_rest_def elim!: wp_conseq)

lemma same_db_inv: "same_db s t \<Longrightarrow> settled_in I s \<Longrightarrow> settled_in I t"
  by (simp add: same_db_def settled_in_def at_rest_def)

lemma wp_keeps_inv:
  "keeps same_db m \<Longrightarrow> settled_in I s \<Longrightarrow> wp m (\<lambda>_. settled_in I) (\<lambda>_. settled_in I) s"
  by (rule wp_same_db) (auto intro: same_db_inv)

lemma find_operation_own: "find_operation k d = Some p \<Longrightarrow> find_operation (e_idempotency_key p) d = Some p"
  using row_where_keyD [of e_idempotency_key k "escrow_ledger d" p] by (simp add: find_operation_def)

lemma settle_target_found: "settle_target r d = Some p \<Longrightarrow> find_operation (e_idempotency_key p) d = Some p"
  unfolding settle_target_def load_operation_for_update_def
  by (auto split: if_splits option.splits intro: find_operation_own)

lemma keeps_redis_client: "keeps same_db (redis_client h)"
  unfolding redis_client_def by (intro sd.keeps_rules keeps_redis_call)

lemma keeps_enter_diagnostic_mode: "keeps same_db (enter_diagnostic_mode h c r)"
  unfolding enter_diagnostic_mode_def
  by (intro sd.keeps_rules keeps_redis_call keeps_redis_client sd.keeps_modifyE)
    (simp add: same_db_def enter_local_def Let_def)

lemma keeps_clear_diagnostic_mode: "keeps same_db (clear_diagnostic_mode h)"
  unfolding clear_diagnostic_mode_def
  by (intro sd.keeps_rules keeps_redis_call keeps_redis_client sd.keeps_modifyE) (simp add: same_db_def)

lemma keeps_count_violation: "keeps same_db (count_violation name n)"
  unfolding count_violation_def by (intro sd.keeps_rules sd.keeps_modifyE) (simp add: same_db_def)

lemma keeps_assert_finance_ops_invariants: "keeps same_db assert_finance_ops_invariants"
  unfolding assert_finance_ops_invariants_def
  by (intro sd.keeps_rules) (auto intro: keeps_count_violation)

lemma keeps_run_finance_audit: "keeps same_db (run_finance_audit h)"
proof -
  have "keeps same_db (case e of FinanceOpsInvariantError msg \<Rightarrow>
            seqE (modifyE (increment ''finance_audit_violation_total''))
              (seqE (enter_diagnostic_mode h ''reconciler'' msg) (ret False))
        | _ \<Rightarrow> throw e)" for e
    by (cases e) (auto intro!: sd.keeps_rules keeps_increment keeps_enter_diagnostic_mode)
  then show ?thesis
    unfolding run_finance_audit_def by (intro sd.keeps_rules keeps_assert_finance_ops_invariants)
qed

lemma keeps_diagnostic_snapshot: "keeps same_db (diagnostic_snapshot h)"
  unfolding diagnostic_snapshot_def
  by (intro sd.keeps_rules keeps_redis_client) (auto intro!: sd.keeps_rules sd.keeps_modifyE simp: same_db_def split: prod.split)

lemma keeps_emit_external_anchor: "keeps same_db (emit_external_anchor cfg head)"
  unfolding emit_external_anchor_def anchor_head_to_s3_def
  by (intro sd.keeps_rules keeps_increment)

section \<open>The steps of the control plane\<close>

text \<open>
  A database as the migrations and the seeding of wallets leave it: wallets with their opening
  balances, and nothing reserved, logged, consumed, audited or anchored.
\<close>

definition opened :: "(string \<Rightarrow> money) \<Rightarrow> sys \<Rightarrow> bool" where
  "opened base s =
     (at_rest s \<and> has_row_hash (db s) \<and> 0 < next_event_id (db s)
      \<and> distinct (map w_user_id (user_wallets (db s)))
      \<and> (\<forall>w \<in> set (user_wallets (db s)). 0 \<le> w_balance w \<and> w_balance w = base (w_user_id w))
      \<and> trace_budget_state (db s) = [] \<and> escrow_ledger (db s) = []
      \<and> provider_dispatch_attempts (db s) = [] \<and> ledger_events (db s) = []
      \<and> budget_scope_state (db s) = [] \<and> verify_checkpoints (db s) = None
      \<and> admin_audit_log (db s) = [] \<and> ledger_chain_anchors (db s) = [])"

text \<open>
  The steps: a request that passed the field constraints of its schema, a turn of the
  reconciler, \<open>run_once\<close>, a chain verification, the privileged routes that clear the diagnostic
  mode and anchor the head of the ledger, and the passing of time. Every handler may end by raising.
\<close>

inductive cp_step :: "host \<Rightarrow> settings \<Rightarrow> sys \<Rightarrow> sys \<Rightarrow> bool" for h cfg where
  reserve: "reserve_request_ok r \<Longrightarrow> reserve_route h cfg r s = (t, res) \<Longrightarrow> cp_step h cfg s t"
| settle: "settle_request_ok r \<Longrightarrow> settle_route h cfg r s = (t, sres) \<Longrightarrow> cp_step h cfg s t"
| turn: "daemon_turn h is_leader s = (t, ures) \<Longrightarrow> cp_step h cfg s t"
| once: "run_once h is_leader s = (t, nres) \<Longrightarrow> cp_step h cfg s t"
| verify: "verify_ledger_chain h incremental (committed s) s = (t, v) \<Longrightarrow> cp_step h cfg s t"
| clear_diagnostic: "post_clear_diagnostic_mode h ctx s = (t, jres) \<Longrightarrow> cp_step h cfg s t"
| anchor: "post_ledger_anchor_head h acfg ctx s = (t, ares) \<Longrightarrow> cp_step h cfg s t"
| tick: "clock s \<le> now \<Longrightarrow> monotonic s \<le> mono_now \<Longrightarrow> cp_step h cfg s (s\<lparr>clock := now, monotonic := mono_now\<rparr>)"

abbreviation reachable_from :: "host \<Rightarrow> settings \<Rightarrow> sys \<Rightarrow> sys \<Rightarrow> bool" where
  "reachable_from h cfg \<equiv> (cp_step h cfg)\<^sup>*\<^sup>*"

lemma wp_outcome: "wp m (\<lambda>_. P) (\<lambda>_. P) s \<Longrightarrow> m s = (t, r) \<Longrightarrow> P t"
  by (cases r) (simp_all add: wp_def)

lemma verify_ledger_chain_state:
  "fst (verify_ledger_chain h incremental r s) = s \<or> (\<exists>c. fst (verify_ledger_chain h incremental r s) = persist_checkpoint c s)"
  by (auto simp: verify_ledger_chain_def verify_full_def Let_def split: option.splits)

section \<open>The interface between the handlers and the ledger\<close>

lemma save_checkpoint_tables [simp]:
  "ledger_events (save_checkpoint c d) = ledger_events d" "escrow_ledger (save_checkpoint c d) = escrow_ledger d"
  "ledger_chain_anchors (save_checkpoint c d) = ledger_chain_anchors d"
  "admin_audit_log (save_checkpoint c d) = admin_audit_log d" "next_audit_id (save_checkpoint c d) = next_audit_id d"
  "verify_checkpoints (save_checkpoint c d) = (if has_checkpoint_table d then Some c else verify_checkpoints d)"
  by (simp_all add: save_checkpoint_def)

text \<open>The checkpoint of the whole table.\<close>

definition checkpoint_at :: "host \<Rightarrow> db \<Rightarrow> verify_checkpoint" where
  "checkpoint_at h d =
     \<lparr>last_verified_event_id = ev_event_id (last (ledger_events d)),
      verified_head_hash = chain_head (event_digest h) GENESIS_HASH (ledger_events d),
      cp_sealed_count = length (ledger_events d), cp_total_events = length (ledger_events d)\<rparr>"

lemma checkpoint_at_ok: "ledger_events d \<noteq> [] \<Longrightarrow> checkpoint_ok h d (checkpoint_at h d)"
  by (auto simp: checkpoint_ok_def checkpoint_at_def last_conv_nth intro!: exI [of _ "length (ledger_events d)"])

locale ledger_property =
  fixes h :: host and I :: "db \<Rightarrow> bool"
  assumes sound: "I d \<Longrightarrow> chain_ok h d \<and> checkpoints_ok h d"
    and reserved: "digest_ok h \<Longrightarrow> I d \<Longrightarrow> \<not> negative (rq_estimated_cost r)
      \<Longrightarrow> spec_reserve h cfg r now d = Some d' \<Longrightarrow> I d'"
    and applied: "digest_ok h \<Longrightarrow> I d \<Longrightarrow> \<not> negative (st_actual_cost q) \<Longrightarrow> settle_target q d = Some p
      \<Longrightarrow> spec_apply h cfg p q now d = Some d' \<Longrightarrow> I d'"
    and swept: "digest_ok h \<Longrightarrow> I d \<Longrightarrow> I (spec_sweep h now (due_rows n now d) d)"
    and approval_noted: "I d \<Longrightarrow> I (approval_incident r ident now d)"
    and loop_noted: "I d \<Longrightarrow> I (loop_incident p g l now d)"
    and checkpointed: "I d \<Longrightarrow> checkpoint_ok h d c \<Longrightarrow> I (save_checkpoint c d)"
    and audited: "digest_ok h \<Longrightarrow> I d \<Longrightarrow> I (log_action h now ctx action resource details d)"
    and anchored: "I d \<Longrightarrow> ledger_events d \<noteq> [] \<Longrightarrow> I (anchor_head h source d)"
begin

lemma chain: "I d \<Longrightarrow> chain_ok h d"
  using sound by blast

lemma reserve_operation_keeps:
  assumes dg: "digest_ok h" and s: "settled_in I s" and cost: "\<not> negative (rq_estimated_cost r)"
  shows "wp (reserve_operation h cfg r) (\<lambda>_ t. I (committed t)) (\<lambda>_ t. I (committed t)) s"
proof -
  have c: "committed s = db s" "I (db s)" using s by (simp_all add: settled_in_def at_rest_def)
  show ?thesis
  proof (rule wp_reserve_operation [OF chain [OF c(2)] dg])
    fix p t assume "same_db s t"
    then show "I (committed t)" using c by (simp add: same_db_def)
  next
    fix d t assume "spec_reserve h cfg r (clock s) (db s) = Some d" "committed t = d"
    then show "I (committed t)" using reserved [OF dg c(2) cost] by simp
  next
    fix e t assume "same_committed s t"
    then show "I (committed t)" using c by (simp add: same_committed_def)
  next
    fix m t ident assume "committed t = approval_incident r ident (clock s) (db s)"
    then show "I (committed t)" using c by (simp add: approval_noted)
  qed
qed

lemma apply_settlement_keeps:
  assumes dg: "digest_ok h" and s: "settled_in I s" and cost: "\<not> negative (st_actual_cost r)"
  shows "wp (apply_settlement h cfg r) (\<lambda>_ t. I (committed t)) (\<lambda>_ t. I (committed t)) s"
proof -
  have c: "committed s = db s" "I (db s)" using s by (simp_all add: settled_in_def at_rest_def)
  show ?thesis
  proof (rule wp_apply_settlement [OF chain [OF c(2)] dg c(1)])
    fix p d t assume "settle_target r (db s) = Some p" "spec_apply h cfg p r (clock s) (db s) = Some d" "committed t = d"
    then show "I (committed t)" using applied [OF dg c(2) cost] by simp
  next
    fix e t assume "same_committed s t"
    then show "I (committed t)" using c by (simp add: same_committed_def)
  next
    fix p m t g l assume "committed t = loop_incident p g l (clock s) (db s)"
    then show "I (committed t)" using c by (simp add: loop_noted)
  qed
qed

lemma reserve_route_keeps:
  assumes dg: "digest_ok h" and i: "settled_in I s" and cost: "\<not> negative (rq_estimated_cost r)"
  shows "wp (reserve_route h cfg r) (\<lambda>_. settled_in I) (\<lambda>_. settled_in I) s"
proof -
  let ?P = "\<lambda>_. settled_in I"
  have session: "wp (get_db_session (reserve_operation h cfg r)) ?P ?P t" if "settled_in I t" for t
    by (rule wp_session_inv [OF that reserve_operation_keeps [OF dg that cost]])
  have exc: "wp (reserve_except h cfg u b e) ?P ?P t" if "settled_in I t" for u b e t
    by (rule wp_keeps_inv [OF keeps_reserve_except that])
  have adm: "wp (catchE (reserve_admission h cfg r) (reserve_except h cfg (rq_user_id r) False)) ?P ?P t"
    if t: "settled_in I t" for t
    unfolding wp_catchE
    by (rule wp_conseq [OF keeps_reserve_admission])
      (use t in \<open>auto simp: settled_in_def [of I t] intro: exc same_db_inv [OF _ t]\<close>)
  have rest: "wp (bindE (catchE (get_db_session (reserve_operation h cfg r)) (reserve_except h cfg (rq_user_id r) bumped))
         (\<lambda>result. ret (f result))) ?P ?P t"
    if "settled_in I t" for bumped t and f :: "op_result \<Rightarrow> reserve_response"
    unfolding wp_ext by (rule wp_conseq [OF session [OF that]]) (auto intro: exc)
  show ?thesis
    unfolding reserve_route_def wp_bindE [of "diagnostic_blocks h cfg"]
  proof (rule wp_conseq [OF wp_keeps_inv [OF keeps_diagnostic_blocks i]])
    fix blocked t assume t: "settled_in I t"
    then show "wp (if blocked then throw (HTTPException 503 m) else
        bindE (catchE (reserve_admission h cfg r) (reserve_except h cfg (rq_user_id r) False)) (\<lambda>bumped.
        bindE (catchE (get_db_session (reserve_operation h cfg r)) (reserve_except h cfg (rq_user_id r) bumped))
         (\<lambda>result. ret (f result)))) ?P ?P t" for m and f :: "op_result \<Rightarrow> reserve_response"
      using wp_conseq [OF adm [OF t] rest [of _ _ f]] by (simp add: wp_throw wp_bindE [of "catchE (reserve_admission h cfg r) x" for x])
  qed simp
qed

lemma settle_route_keeps:
  assumes dg: "digest_ok h" and i: "settled_in I s" and cost: "\<not> negative (st_actual_cost r)"
  shows "wp (settle_route h cfg r) (\<lambda>_. settled_in I) (\<lambda>_. settled_in I) s"
proof -
  let ?P = "\<lambda>_. settled_in I"
  have session: "wp (get_db_session (apply_settlement h cfg r)) ?P ?P t" if "settled_in I t" for t
    by (rule wp_session_inv [OF that apply_settlement_keeps [OF dg that cost]])
  have body: "wp (seqE (validate_settle_request r) (get_db_session (apply_settlement h cfg r))) ?P ?P t"
    if "settled_in I t" for t
    unfolding wp_seqE
    by (rule wp_conseq [OF wp_keeps_inv [OF keeps_validate_settle that]]) (auto intro: session)
  have main: "wp (catchE (seqE (validate_settle_request r) (get_db_session (apply_settlement h cfg r))) settle_except) ?P ?P t"
    if "settled_in I t" for t
    unfolding wp_catchE
    by (rule wp_conseq [OF body [OF that]]) (auto intro: wp_keeps_inv [OF keeps_settle_except])
  show ?thesis
    unfolding settle_route_def wp_bindE
    by (rule wp_conseq [OF wp_keeps_inv [OF keeps_diagnostic_blocks i]]) (auto simp: wp_throw intro: main)
qed

lemma sweep_as_leader_keeps:
  assumes dg: "digest_ok h" and i: "settled_in I s"
  shows "wp (sweep_as_leader h is_leader) (\<lambda>_. settled_in I) (\<lambda>_. settled_in I) s"
proof -
  have c: "committed s = db s" "I (db s)" using i by (simp_all add: settled_in_def at_rest_def)
  let ?J = "\<lambda>t. I (committed t)"
  have audit: "wp (seqE (run_finance_audit h) (ret n)) (\<lambda>_. ?J) (\<lambda>_. ?J) t" if "?J t" for t n
    unfolding wp_ext
    by (rule wp_same_db [OF keeps_run_finance_audit]) (use that in \<open>auto simp: same_db_def\<close>)
  have sweep: "wp (bindE (sweep_expired_reservations h 100) (\<lambda>swept. seqE (run_finance_audit h) (ret swept))) (\<lambda>_. ?J) (\<lambda>_. ?J) s"
    unfolding wp_bindE
  proof (rule wp_sweep [OF chain [OF c(2)] dg])
    fix t :: sys and rows
    assume "rows = due_rows 100 (clock s) (db s)" "db t = spec_sweep h (clock s) rows (db s)" "committed t = db t"
    then show "wp (seqE (run_finance_audit h) (ret (length rows))) (\<lambda>_. ?J) (\<lambda>_. ?J) t"
      using swept [OF dg c(2)] by (intro audit) simp
  qed
  show ?thesis
    unfolding sweep_as_leader_def
    by (rule wp_session_inv [OF i]) (use sweep c in \<open>simp add: wp_ret\<close>)
qed

lemma run_once_keeps:
  assumes "digest_ok h" "settled_in I s"
  shows "wp (run_once h is_leader) (\<lambda>_. settled_in I) (\<lambda>_. settled_in I) s"
  unfolding run_once_def wp_bindE
  by (rule wp_conseq [OF wp_keeps_inv [OF keeps_is_diagnostic_mode assms(2)]])
    (auto simp: wp_ret intro: sweep_as_leader_keeps [OF assms(1)])

lemma daemon_turn_keeps:
  assumes "digest_ok h" "settled_in I s"
  shows "wp (daemon_turn h is_leader) (\<lambda>_. settled_in I) (\<lambda>_. settled_in I) s"
proof -
  have "wp (if diag then ret () else seqE (sweep_as_leader h is_leader) (ret ())) (\<lambda>_. settled_in I) (\<lambda>_. settled_in I) t"
    if "settled_in I t" for diag t
    using sweep_as_leader_keeps [OF assms(1) that] that by (simp add: wp_ext)
  then show ?thesis
    unfolding daemon_turn_def wp_catchE wp_ret_ext wp_bindE
    by (intro wp_conseq [OF wp_keeps_inv [OF keeps_is_diagnostic_mode assms(2)]])
qed

text \<open>Chain verification writes a checkpoint and commits, or writes nothing.\<close>

lemma verify_keeps:
  assumes dg: "digest_ok h" and i: "I (db s)" "I (committed s)"
  shows "I (db (fst (verify_ledger_chain h incremental (db s) s)))"
    and "I (committed (fst (verify_ledger_chain h incremental (db s) s)))"
proof -
  have "fst (verify_ledger_chain h incremental (db s) s) = s
    \<or> (\<exists>c. checkpoint_ok h (db s) c \<and> fst (verify_ledger_chain h incremental (db s) s) = persist_checkpoint c s)"
  proof (cases "incremental \<and> ledger_events (db s) \<noteq> []")
    case True
    moreover have "checkpoint_ok h (db s) (checkpoint_at h (db s))"
      using True by (simp add: checkpoint_at_ok)
    ultimately show ?thesis
      using verify_incremental_ok(2) [OF chain [OF i(1)] dg _ sound [OF i(1), THEN conjunct2, unfolded checkpoints_ok_def], of s]
      by (auto simp: checkpoint_at_def)
  next
    case False
    then show ?thesis
      by (auto simp: verify_ledger_chain_def verify_full_def Let_def count_events_def split: option.splits)
  qed
  then show "I (db (fst (verify_ledger_chain h incremental (db s) s)))"
    "I (committed (fst (verify_ledger_chain h incremental (db s) s)))"
    using i checkpointed by (auto simp: persist_checkpoint_def)
qed

lemma verify_step_keeps:
  assumes "digest_ok h" "settled_in I s"
  shows "settled_in I (fst (verify_ledger_chain h incremental (committed s) s))"
proof -
  have c: "db s = committed s" "I (committed s)" using assms(2) by (auto simp: settled_in_def at_rest_def)
  have "at_rest (fst (verify_ledger_chain h incremental (committed s) s))"
    using verify_ledger_chain_state [of h incremental "committed s" s] c(1) by (auto simp: at_rest_def persist_checkpoint_def)
  then show ?thesis using verify_keeps(2) [OF assms(1), of s incremental] c by (simp add: settled_in_def)
qed

text \<open>Inside a session both the working and the committed database have the property.\<close>

abbreviation (input) kept :: "sys \<Rightarrow> bool" where
  "kept t \<equiv> I (db t) \<and> I (committed t)"

lemma record_admin_action_keeps:
  assumes "digest_ok h" "kept s"
  shows "wp (record_admin_action h ctx action resource details) (\<lambda>_. kept) (\<lambda>_. kept) s"
  using assms by (simp add: record_admin_action_def wp_getsE wp_ret wp_seqE wp_modifyE audited)

lemma same_db_kept: "same_db s t \<Longrightarrow> kept s \<Longrightarrow> kept t"
  by (simp add: same_db_def)

lemma post_clear_diagnostic_mode_keeps:
  assumes dg: "digest_ok h" and i: "settled_in I s"
  shows "wp (post_clear_diagnostic_mode h ctx) (\<lambda>_. settled_in I) (\<lambda>_. settled_in I) s"
proof -
  have k: "kept s" using i by (simp add: settled_in_def at_rest_def)
  have "wp (bindE (diagnostic_snapshot h) (\<lambda>snap.
      seqE (record_admin_action h ctx a res snap) (modifyE commit))) (\<lambda>_ t. I (committed t)) (\<lambda>_ t. I (committed t)) s" for a res
    unfolding wp_bindE wp_seqE_ext wp_modifyE
    by (rule wp_same_db [OF keeps_diagnostic_snapshot])
      (auto intro!: wp_conseq [OF record_admin_action_keeps [OF dg same_db_kept [OF _ k]]] simp: wp_modifyE dest: same_db_kept [OF _ k])
  note session = wp_session_inv [OF i this]
  have rest: "wp (seqE (clear_diagnostic_mode h)
     (seqE (modifyE (increment c)) (diagnostic_snapshot h))) (\<lambda>_. settled_in I) (\<lambda>_. settled_in I) t" if "settled_in I t" for t c
    by (rule wp_keeps_inv [OF _ that])
      (intro sd.keeps_rules keeps_clear_diagnostic_mode keeps_increment keeps_diagnostic_snapshot)
  show ?thesis
    unfolding post_clear_diagnostic_mode_def wp_seqE [of "get_db_session x" for x]
    by (rule wp_conseq [OF session rest])
qed

lemma anchor_verified_chain_head_keeps:
  assumes dg: "digest_ok h" and k: "kept s"
  shows "wp (anchor_verified_chain_head h cfg source) (\<lambda>_. kept) (\<lambda>_. kept) s"
proof -
  obtain t v where tv: "verify_ledger_chain h True (db s) s = (t, v)" by fastforce
  have t: "kept t" using verify_keeps [OF dg, of s True] k tv by auto
  have ev: "ledger_events (db t) = ledger_events (db s)"
    using verify_ledger_chain_state [of h True "db s" s] tv by (auto simp: persist_checkpoint_def)
  have emit: "wp (emit_external_anchor cfg hd) (\<lambda>_. kept) (\<lambda>_. kept) u" if "kept u" for hd u
    by (rule wp_same_db [OF keeps_emit_external_anchor]) (use that in \<open>auto simp: same_db_def\<close>)
  have head: "I (insert_anchor (the (vr_head_hash v)) (vr_sealed_count v) (vr_total_events v) source (db t))"
    if "vr_valid v" "truthy (vr_head_hash v)"
  proof -
    have "ledger_events (db s) \<noteq> []"
      using that tv by (auto simp: verify_ledger_chain_def count_events_def truthy_def split: if_splits)
    with verify_incremental_ok(1) [OF chain dg this sound [THEN conjunct2, unfolded checkpoints_ok_def], of s] k tv
    show ?thesis using anchored [of "db t" source] t ev by auto
  qed
  show ?thesis
    unfolding anchor_verified_chain_head_def wp_bindE
    using t head emit
    by (auto simp: wp_def [of "\<lambda>s. case verify_ledger_chain h True (db s) s of (t, v) \<Rightarrow> (t, Inr v)"] tv
        wp_ext wp_simps Let_def increment_def)
qed

lemma post_ledger_anchor_head_keeps:
  assumes dg: "digest_ok h" and i: "settled_in I s"
  shows "wp (post_ledger_anchor_head h cfg ctx) (\<lambda>_. settled_in I) (\<lambda>_. settled_in I) s"
proof -
  have k: "kept s" using i by (simp add: settled_in_def at_rest_def)
  have exc: "wp (case e of ValueError m \<Rightarrow> throw (HTTPException 422 m) | _ \<Rightarrow> throw e) (\<lambda>_. kept) (\<lambda>_. kept) t"
    if "kept t" for e t
    using that by (cases e) (auto simp: wp_throw)
  have body: "wp (bindE (catchE (anchor_verified_chain_head h cfg src)
           (\<lambda>e. case e of ValueError m \<Rightarrow> throw (HTTPException 422 m) | _ \<Rightarrow> throw e)) (\<lambda>payload.
         seqE (modifyE commit) (ret payload))) (\<lambda>_. kept) (\<lambda>_. kept) t" if "kept t" for t src
    unfolding wp_bindE wp_catchE
    by (rule wp_conseq [OF anchor_verified_chain_head_keeps [OF dg that]])
      (auto simp: wp_simps wp_ext commit_def intro!: wp_conseq [OF exc])
  show ?thesis
    unfolding post_ledger_anchor_head_def
    by (rule wp_session_inv [OF i], unfold wp_seqE, rule wp_conseq [OF record_admin_action_keeps [OF dg k]])
      (auto intro!: wp_conseq [OF body])
qed

lemma step_keeps:
  assumes dg: "digest_ok h" and i: "settled_in I s" and "cp_step h cfg s t"
  shows "settled_in I t"
  using assms(3)
proof cases
  case (reserve r res)
  then have "\<not> negative (rq_estimated_cost r)" by (simp add: reserve_request_ok_def)
  from wp_outcome [OF reserve_route_keeps [OF dg i this] reserve(2)] show ?thesis .
next
  case (settle r sres)
  then have "\<not> negative (st_actual_cost r)" by (simp add: settle_request_ok_def)
  from wp_outcome [OF settle_route_keeps [OF dg i this] settle(2)] show ?thesis .
next
  case (turn is_leader ures)
  from wp_outcome [OF daemon_turn_keeps [OF dg i] turn] show ?thesis .
next
  case (once is_leader nres)
  from wp_outcome [OF run_once_keeps [OF dg i] once] show ?thesis .
next
  case (verify incremental v)
  then show ?thesis using verify_step_keeps [OF dg i, of incremental] by simp
next
  case (clear_diagnostic ctx jres)
  from wp_outcome [OF post_clear_diagnostic_mode_keeps [OF dg i] clear_diagnostic] show ?thesis .
next
  case (anchor acfg ctx ares)
  from wp_outcome [OF post_ledger_anchor_head_keeps [OF dg i] anchor] show ?thesis .
next
  case (tick now mono_now)
  with i show ?thesis by (simp add: settled_in_def at_rest_def)
qed

lemma reachable_keeps:
  "reachable_from h cfg s t \<Longrightarrow> digest_ok h \<Longrightarrow> settled_in I s \<Longrightarrow> settled_in I t"
  by (induction rule: rtranclp_induct) (auto intro: step_keeps)

end

section \<open>Its instances\<close>

text \<open>What every transaction guarantees on a ledger that satisfies the accounting invariant.\<close>

definition transacted :: "host \<Rightarrow> (string \<Rightarrow> money) \<Rightarrow> db \<Rightarrow> db \<Rightarrow> bool" where
  "transacted h base d d' =
     (ledger_inv h base d' \<and> ledger_extends d d' \<and> side_tables d' = side_tables d)"

lemma incident_tables [simp]:
  "ledger_events (approval_incident r ident now d) = ledger_events d"
  "escrow_ledger (approval_incident r ident now d) = escrow_ledger d"
  "side_tables (approval_incident r ident now d) = side_tables d"
  "ledger_events (loop_incident p g l now d) = ledger_events d"
  "escrow_ledger (loop_incident p g l now d) = escrow_ledger d"
  "side_tables (loop_incident p g l now d) = side_tables d"
  by (simp_all add: side_tables_def approval_incident_def loop_incident_def append_guardrail_incident_def)

lemma log_action_inv: "ledger_inv h base (log_action h now ctx action resource details d) = ledger_inv h base d"
  by (rule ledger_inv_cong) (simp_all add: log_action_def Let_def seal_admin_audit_row_def insert_audit_row_def)

lemma insert_anchor_inv: "ledger_inv h base (insert_anchor head n m source d) = ledger_inv h base d"
  by (rule ledger_inv_cong) (simp_all add: insert_anchor_def)

lemma extends_same: "ledger_events d' = ledger_events d \<Longrightarrow> escrow_ledger d' = escrow_ledger d \<Longrightarrow> ledger_extends d d'"
  by (rule ledger_extendsI [of _ _ "[]"]) simp_all

lemma transacted_reserve:
  "digest_ok h \<Longrightarrow> ledger_inv h base d \<Longrightarrow> \<not> negative (rq_estimated_cost r)
     \<Longrightarrow> spec_reserve h cfg r now d = Some d' \<Longrightarrow> transacted h base d d'"
  by (simp add: transacted_def spec_reserve_inv spec_reserve_extends spec_reserve_side)

lemma transacted_apply:
  assumes "digest_ok h" "ledger_inv h base d" "\<not> negative (st_actual_cost r)" "settle_target r d = Some p"
    and "spec_apply h cfg p r now d = Some d'"
  shows "transacted h base d d'"
  using assms spec_settle_inv [OF assms(2,1) settle_target_found [OF assms(4)]]
    spec_record_inv [OF assms(2,1) settle_target_found [OF assms(4)]]
    spec_settle_extends [OF assms(2,1) settle_target_found [OF assms(4)]]
    spec_record_extends [OF assms(2,1) settle_target_found [OF assms(4)]]
    spec_settle_side spec_record_side
  by (auto simp: spec_apply_def transacted_def split: if_splits)

lemma transacted_sweep:
  "digest_ok h \<Longrightarrow> ledger_inv h base d \<Longrightarrow> transacted h base d (spec_sweep h now (due_rows n now d) d)"
  by (simp add: transacted_def sweep_inv sweep_extends)

lemma transacted_incidents:
  "ledger_inv h base d \<Longrightarrow> transacted h base d (approval_incident r ident now d)"
  "ledger_inv h base d \<Longrightarrow> transacted h base d (loop_incident p g l now d)"
  by (simp_all add: transacted_def approval_incident_inv loop_incident_inv extends_same)

text \<open>
  Everything that holds of the tables in a reachable state: the accounting invariant, the stored
  checkpoint and the anchors belong to the event table, and the audit log is a chain.
\<close>

definition plane_inv :: "host \<Rightarrow> (string \<Rightarrow> money) \<Rightarrow> db \<Rightarrow> bool" where
  "plane_inv h base d = (ledger_inv h base d \<and> checkpoints_ok h d \<and> anchors_ok h d \<and> audit_ok h d)"

lemma plane_invD:
  assumes "plane_inv h base d"
  shows "ledger_inv h base d" "checkpoints_ok h d" "anchors_ok h d" "audit_ok h d" "chain_ok h d"
  using assms inv_chain by (auto simp: plane_inv_def)

lemma transacted_plane:
  assumes "plane_inv h base d" "transacted h base d d'"
  shows "plane_inv h base d'"
proof -
  note t = assms(2) [unfolded transacted_def]
  note side = side_tablesD [OF t [THEN conjunct2, THEN conjunct2]]
  obtain es where es: "ledger_events d' = ledger_events d @ es" using t by (auto simp: ledger_extends_def)
  have "checkpoints_ok h d'" using checkpoints_ok_extends side(1) t plane_invD(2) [OF assms(1)] by blast
  moreover have "anchors_ok h d'"
    using plane_invD(3) [OF assms(1)] by (auto simp: anchors_ok_def side(4) es intro: anchor_ok_append)
  moreover have "audit_ok h d'" using plane_invD(4) [OF assms(1)] by (simp add: audit_ok_def side(2,3))
  ultimately show ?thesis using t by (simp add: plane_inv_def)
qed

lemma checkpointed_plane:
  assumes "plane_inv h base d" "checkpoint_ok h d c"
  shows "plane_inv h base (save_checkpoint c d)"
  using assms
  by (simp add: plane_inv_def save_checkpoint_inv checkpoints_ok_def anchors_ok_def audit_ok_def checkpoint_ok_def)

lemma audited_plane:
  assumes "plane_inv h base d" "digest_ok h"
  shows "plane_inv h base (log_action h now ctx action resource details d)"
  using assms log_action_appends(2) [OF plane_invD(4) [OF assms(1)] assms(2)]
  by (simp add: plane_inv_def log_action_inv checkpoints_ok_def checkpoint_ok_def anchors_ok_def)

lemma anchored_plane:
  assumes "plane_inv h base d" "ledger_events d \<noteq> []"
  shows "plane_inv h base (anchor_head h source d)"
  using assms anchor_head_ok [OF plane_invD(3) [OF assms(1)] assms(2)]
  by (simp add: plane_inv_def insert_anchor_inv checkpoints_ok_def checkpoint_ok_def audit_ok_def)

text \<open>What the privileged routes and the verification leave as it is.\<close>

definition plane_extends :: "db \<Rightarrow> db \<Rightarrow> bool" where
  "plane_extends d d' =
     (ledger_extends d d' \<and> prefix (admin_audit_log d) (admin_audit_log d')
      \<and> prefix (ledger_chain_anchors d) (ledger_chain_anchors d'))"

lemma plane_extends_refl [simp]: "plane_extends d d"
  by (simp add: plane_extends_def)

lemma plane_extends_trans: "plane_extends d d' \<Longrightarrow> plane_extends d' d'' \<Longrightarrow> plane_extends d d''"
  unfolding plane_extends_def by (blast intro: ledger_extends_trans prefix_order.trans)

lemma transacted_extends: "transacted h base d d' \<Longrightarrow> plane_extends d d'"
  using side_tablesD [of d' d] by (simp add: transacted_def plane_extends_def)

lemma checkpointed_extends: "plane_extends d (save_checkpoint c d)"
  by (simp add: plane_extends_def extends_same)

lemma audited_extends: "audit_ok h d \<Longrightarrow> digest_ok h \<Longrightarrow> plane_extends d (log_action h now ctx action resource details d)"
  by (simp add: plane_extends_def extends_same log_action_appends(1))

lemma anchored_extends: "plane_extends d (insert_anchor head n m source d)"
  by (simp add: plane_extends_def extends_same) (simp add: insert_anchor_def)

text \<open>The invariant and the history from a database \<open>d0\<close> on, together.\<close>

interpretation plane: ledger_property h "\<lambda>d. plane_inv h base d \<and> plane_extends d0 d"
proof
  let ?I = "\<lambda>d. plane_inv h base d \<and> plane_extends d0 d"
  have keep: "?I d'" if "?I d" "plane_inv h base d'" "plane_extends d d'" for d d'
    using that plane_extends_trans by blast
  have step: "?I d'" if "?I d" "transacted h base d d'" for d d'
    using that keep transacted_plane transacted_extends by blast
  show "chain_ok h d \<and> checkpoints_ok h d" if "?I d" for d using that plane_invD by blast
  show "?I d'" if "digest_ok h" "?I d" "\<not> negative (rq_estimated_cost r)" "spec_reserve h cfg r now d = Some d'"
    for d r cfg now d'
    using step [OF that(2) transacted_reserve [OF that(1) _ that(3,4)]] that(2) plane_invD(1) by blast
  show "?I d'" if "digest_ok h" "?I d" "\<not> negative (st_actual_cost r)" "settle_target r d = Some p"
    "spec_apply h cfg p r now d = Some d'" for d r p cfg now d'
    using step [OF that(2) transacted_apply [OF that(1) _ that(3-5)]] that(2) plane_invD(1) by blast
  show "?I (spec_sweep h now (due_rows n now d) d)" if "digest_ok h" "?I d" for d now n
    using step [OF that(2) transacted_sweep [OF that(1)]] that(2) plane_invD(1) by blast
  show "?I (approval_incident r ident now d)" if "?I d" for d r ident now
    using step [OF that transacted_incidents(1)] that plane_invD(1) by blast
  show "?I (loop_incident p g l now d)" if "?I d" for d p g l now
    using step [OF that transacted_incidents(2)] that plane_invD(1) by blast
  show "?I (save_checkpoint c d)" if "?I d" "checkpoint_ok h d c" for d c
    using keep [OF that(1) checkpointed_plane checkpointed_extends] that by blast
  show "?I (log_action h now ctx action resource details d)" if "digest_ok h" "?I d" for d now ctx action resource details
    using keep [OF that(2) audited_plane [OF _ that(1)] audited_extends [OF plane_invD(4) that(1)]] that by blast
  show "?I (anchor_head h source d)" if "?I d" "ledger_events d \<noteq> []" for d source
    using keep [OF that(1) anchored_plane [OF _ that(2)] anchored_extends] that by blast
qed

lemma opened_inv: "opened base s \<Longrightarrow> settled_in (plane_inv h base) s"
  by (auto simp: opened_def settled_in_def plane_inv_def anchors_ok_def audit_ok_def at_rest_def ledger_inv_def chain_ok_def keys_inv_def ops_inv_def
      refs_inv_def scopes_inv_def scopes_ok_def scope_consumed_def scope_total_def wallet_ok_def checkpoints_ok_def)
    metis

text \<open>The control plane with its invariant, as a transition system.\<close>

interpretation cp: invariant_system "opened base" "\<lambda>s t. digest_ok h \<and> cp_step h cfg s t" "settled_in (plane_inv h base)"
proof unfold_locales
  show "settled_in (plane_inv h base) t"
    if "settled_in (plane_inv h base) s" "digest_ok h \<and> cp_step h cfg s t" for s t
    using plane.step_keeps [of h base "committed s" s cfg t] that by (simp add: settled_in_def)
qed (rule opened_inv)

lemma reachable_digest:
  "(cp_step h cfg)\<^sup>*\<^sup>* s t \<Longrightarrow> digest_ok h \<Longrightarrow> (\<lambda>s t. digest_ok h \<and> cp_step h cfg s t)\<^sup>*\<^sup>* s t"
  by (induction rule: rtranclp_induct) (auto intro: rtranclp.rtrancl_into_rtrancl)

lemma reachable_plane:
  assumes "digest_ok h" "opened base s" "reachable_from h cfg s t"
  shows "at_rest t" "plane_inv h base (committed t)"
  using cp.inv_reachable [OF assms(2) reachable_digest [OF assms(3,1)]] by (simp_all add: settled_in_def)

lemma reachable_inv:
  assumes "digest_ok h" "opened base s" "reachable_from h cfg s t"
  shows "at_rest t" "ledger_inv h base (committed t)" "checkpoints_ok h (committed t)"
    "anchors_ok h (committed t)" "audit_ok h (committed t)"
  using reachable_plane [OF assms] plane_invD by auto

lemma reachable_extends:
  assumes "digest_ok h" "opened base s" "reachable_from h cfg s t" "reachable_from h cfg t u"
  shows "plane_extends (committed t) (committed u)" "ledger_extends (committed t) (committed u)"
  using plane.reachable_keeps [OF assms(4,1), of base "committed t"] reachable_plane [OF assms(1-3)]
  by (simp_all add: settled_in_def plane_extends_def)

end
