(* ===== verification/Scenario.thy ===== *)
theory Scenario
  imports Control_Plane
begin

text \<open>
  A run of the control plane on the sample host and database: \<open>alice\<close> reserves 15 units.
  The state is computed by the handler itself.
\<close>

definition opening_balance :: "string \<Rightarrow> money" where
  "opening_balance u = (if u = ''alice'' then 100 * 10 ^ 12 else 0)"

definition after_reserve :: sys where
  "after_reserve = fst (reserve_route sample_host default_settings (sample_reserve ''op-1'') (idle_sys sample_db))"

lemma sample_opened: "opened opening_balance (idle_sys sample_db)"
  by (simp add: opened_def at_rest_def sample_db_def empty_db_def opening_balance_def)

lemma sample_request_ok:
  "reserve_request_ok (sample_reserve ''op-1'')"
  by code_simp

lemma after_reserve_reachable: "reachable_from sample_host default_settings (idle_sys sample_db) after_reserve"
  unfolding after_reserve_def
  by (intro r_into_rtranclp cp_step.reserve [OF sample_request_ok surjective_pairing])

text \<open>What the handler left in the database.\<close>

lemma after_reserve_facts:
  "(map w_balance (user_wallets (committed after_reserve)),
    map t_reserved_total (trace_budget_state (committed after_reserve)),
    map (\<lambda>p. (e_idempotency_key p, e_status p, e_reserved_amount p)) (escrow_ledger (committed after_reserve)),
    map (\<lambda>e. (ev_event_type e, ev_amount_delta e)) (ledger_events (committed after_reserve)),
    map b_consumed_amount (budget_scope_state (committed after_reserve)),
    has_tenant_id (committed after_reserve), has_anchor_table (committed after_reserve), has_admin_audit (committed after_reserve))
   = ([100 * 10 ^ 12 - 15], [15], [(''op-1'', RESERVED, 15)], [(''RESERVE_CREATED'', - 15)], [15, 15, 15, 15], True, True, True)"
  by code_simp

end
