(* ===== verification/Ledger_Contract.thy ===== *)
theory Ledger_Contract
  imports Scenario
begin

text \<open>
  What the operations of the ledger promise their callers: \<open>reserve_operation\<close> and
  \<open>apply_settlement\<close> against their specifications on the database, replays of a request, the
  request fingerprint, the drift lock, and what the settle route answers when the ledger refuses.
\<close>

section \<open>Sample operations\<close>

text \<open>An operation of \<open>alice\<close> that holds 15 units, on a database without the attribution columns.\<close>

definition held_op :: escrow where
  "held_op = new_operation (sample_reserve ''op-1'') None ''fp'' 15 50 900 1200"

definition op_db :: "money \<Rightarrow> escrow \<Rightarrow> db" where
  "op_db balance p = sample_db\<lparr>has_tenant_id := False, escrow_ledger := [p],
     user_wallets := [\<lparr>w_user_id = ''alice'', w_balance = balance, w_active = True, w_locked_at = None,
         w_lock_reason = None, w_updated_at = 0\<rparr>]\<rparr>"

definition settled_op :: escrow where
  "settled_op = held_op\<lparr>e_status := SETTLED, e_actual_amount := 12, e_drift_amount := - 3, e_settled_at := Some 950\<rparr>"

lemmas sample_defs = op_db_def sample_db_def empty_db_def held_op_def settled_op_def new_operation_def sample_reserve_def
  sample_settle_def default_identity_def

lemma op_db_chain: "chain_ok h (op_db balance p)"
  by (simp add: chain_ok_def sample_defs)

lemma sample_chain: "chain_ok h sample_db"
  by (simp add: chain_ok_def sample_defs)

lemma op_db_target:
  "e_idempotency_key p = ''op-1'' \<Longrightarrow> settle_target (sample_settle ''op-1'' out c) (op_db balance p) = Some p"
  by (simp add: settle_target_def load_operation_for_update_def find_operation_def truthy_def sample_defs)

lemma held_key: "e_idempotency_key held_op = ''op-1''"
  by (simp add: sample_defs)

lemma settled_facts: "e_idempotency_key settled_op = ''op-1''" "e_status settled_op = SETTLED" "e_user_id settled_op = ''alice''"
  "st_outcome (sample_settle k out c) = out"
  by (simp_all add: sample_defs)

lemma settled_target:
  "settle_target (sample_settle ''op-1'' O_SETTLED (Dec 12 (- 12))) (op_db 100 settled_op) = Some settled_op"
  by (rule op_db_target) (simp add: settled_facts)

section \<open>Reserve\<close>

text \<open>C5: a reservation refines its specification. On a database with an intact chain a reservation that
  returns either replays an operation of the same key and fingerprint and leaves the database alone,
  or commits exactly the effect of \<open>spec_reserve\<close>. One that raises commits nothing, or only the
  incident of a missing manual approval, raises a policy error or a denial, and a denial of a new
  key is one that the specification refuses too.\<close>

theorem reserve_refines_spec:
  assumes "chain_ok h (db s)" "digest_ok h"
  shows "case reserve_operation h cfg r s of
      (t, Inr x) \<Rightarrow>
        (case find_operation (rq_idempotency_key r) (db s) of
           Some p \<Rightarrow> e_request_fingerprint p = fingerprint_reserve_request h r \<and> x = replay_result p
                     \<and> db t = db s \<and> committed t = committed s
         | None \<Rightarrow> spec_reserve h cfg r (clock s) (db s) = Some (committed t) \<and> db t = committed t
                     \<and> x = reserved_result r)
    | (t, Inl e) \<Rightarrow>
        (committed t = committed s
         \<or> needs_approval cfg r \<and> \<not> truthy (rq_manual_approval_id r)
           \<and> (\<exists>i. committed t = approval_incident r i (clock s) (db s)))
        \<and> ((\<exists>m. e = PolicyStateError m) \<or> denial e)
        \<and> (denial e \<and> find_operation (rq_idempotency_key r) (db s) = None
           \<longrightarrow> spec_reserve h cfg r (clock s) (db s) = None)"
proof -
  have "wp (reserve_operation h cfg r)
    (\<lambda>x t. case find_operation (rq_idempotency_key r) (db s) of
           Some p \<Rightarrow> e_request_fingerprint p = fingerprint_reserve_request h r \<and> x = replay_result p
                     \<and> db t = db s \<and> committed t = committed s
         | None \<Rightarrow> spec_reserve h cfg r (clock s) (db s) = Some (committed t) \<and> db t = committed t
                     \<and> x = reserved_result r)
    (\<lambda>e t. (committed t = committed s
         \<or> needs_approval cfg r \<and> \<not> truthy (rq_manual_approval_id r)
           \<and> (\<exists>i. committed t = approval_incident r i (clock s) (db s)))
        \<and> ((\<exists>m. e = PolicyStateError m) \<or> denial e)
        \<and> (denial e \<and> find_operation (rq_idempotency_key r) (db s) = None
           \<longrightarrow> spec_reserve h cfg r (clock s) (db s) = None)) s"
    by (rule wp_reserve_operation [OF assms])
      (auto simp: same_db_def same_committed_def denial_def split: option.splits)
  then show ?thesis by (auto simp: wp_def split: prod.splits sum.splits)
qed

abbreviation sample_run :: "sys \<times> (exn + op_result)" where
  "sample_run \<equiv> reserve_operation sample_host default_settings (sample_reserve ''op-1'') (idle_sys sample_db)"

lemma sample_run_result: "snd sample_run = Inr (reserved_result (sample_reserve ''op-1''))"
  by code_simp

lemma sample_run_pair: "sample_run = (fst sample_run, Inr (reserved_result (sample_reserve ''op-1'')))"
  using sample_run_result by (metis prod.collapse)

theorem reserve_refines_spec_witness:
  "spec_reserve sample_host default_settings (sample_reserve ''op-1'') 1000 sample_db = Some (committed (fst sample_run))"
  using reserve_refines_spec [of sample_host "idle_sys sample_db" default_settings "sample_reserve ''op-1''",
      OF _ sample_digest_ok] sample_chain sample_run_pair
  by (simp add: find_operation_def sample_defs split: prod.splits)

lemma reserve_replay_run:
  assumes "find_operation (rq_idempotency_key r) (db s) = Some p"
  shows "reserve_operation h cfg r s =
    (if e_request_fingerprint p = fingerprint_reserve_request h r
     then (increment ''reserve_idempotent_replay_total'' s, Inr (replay_result p))
     else (s, Inl (ConflictError ''idempotency key replay does not match original reserve request'')))"
  using assms
  by (simp add: reserve_operation_def reserve_replay_def replay_result_def Let_def getsE_def seqE_def bindE_def
      modifyE_def ret_def throw_def)

lemma spec_reserve_row:
  assumes "spec_reserve h cfg r now d = Some d'"
  shows "find_operation (rq_idempotency_key r) d' = Some (reserve_row h cfg r now (reserve_identity r d))"
proof -
  let ?p = "reserve_row h cfg r now (reserve_identity r d)"
  have k: "e_idempotency_key (reserve_row h cfg r now i) = rq_idempotency_key r" for i
    by (simp add: reserve_row_def new_operation_def Let_def)
  obtain d3 d4 where "spec_insert ?p d3 = Some d4" "d' = spec_reserve_log h cfg r now (reserve_identity r d) d4"
    using assms by (auto simp: spec_reserve_def Let_def bind_eq_Some_conv)
  then show ?thesis
    by (auto simp: spec_insert_def spec_reserve_log_def Let_def find_operation_def insert_operation_def k
        split: if_splits option.splits)
qed



section \<open>Fingerprints\<close>

definition fingerprint_payload :: "reserve_request \<Rightarrow> string" where
  "fingerprint_payload r =
     dumps_sorted
       (JObj [(''estimated_cost'', JStr (decimal_str (quantize_money (Some (rq_estimated_cost r))))),
              (''model'', JStr (rq_model r)),
              (''trace_cap'', case rq_trace_cap r of None \<Rightarrow> JNull
                              | Some c \<Rightarrow> JStr (decimal_str (quantize_money (Some c)))),
              (''trace_id'', JStr (rq_trace_id r)),
              (''user_id'', JStr (rq_user_id r))])"

text \<open>C12: two requests with the same fingerprint agree on user, trace, model, estimated cost and trace cap,
  the amounts at the precision of the ledger, or SHA-256 collides on their two payloads.\<close>

theorem fingerprint_identifies_request:
  assumes "fingerprint_reserve_request h r = fingerprint_reserve_request h r'"
  shows "rq_user_id r = rq_user_id r' \<and> rq_trace_id r = rq_trace_id r' \<and> rq_model r = rq_model r'
      \<and> quantize_money (Some (rq_estimated_cost r)) = quantize_money (Some (rq_estimated_cost r'))
      \<and> map_option (\<lambda>c. quantize_money (Some c)) (rq_trace_cap r) = map_option (\<lambda>c. quantize_money (Some c)) (rq_trace_cap r')
    \<or> (fingerprint_payload r \<noteq> fingerprint_payload r'
       \<and> sha256_hexdigest h (fingerprint_payload r) = sha256_hexdigest h (fingerprint_payload r'))"
proof (cases "fingerprint_payload r = fingerprint_payload r'")
  case False
  then show ?thesis using assms by (simp add: fingerprint_reserve_request_def fingerprint_payload_def)
next
  case True
  from dumps_inj [where sep = "'' ''", OF this [unfolded fingerprint_payload_def dumps_sorted_def]]
  show ?thesis by (auto dest!: decimal_str_inj split: option.splits)
qed

theorem fingerprint_identifies_request_witness:
  "rq_idempotency_key (sample_reserve ''op-1'') \<noteq> rq_idempotency_key (sample_reserve ''op-2'')
   \<and> rq_user_id (sample_reserve ''op-1'') = rq_user_id (sample_reserve ''op-2'')
   \<and> rq_model (sample_reserve ''op-1'') = rq_model (sample_reserve ''op-2'')"
proof -
  have "fingerprint_payload (sample_reserve ''op-1'') = fingerprint_payload (sample_reserve ''op-2'')"
    by (simp add: fingerprint_payload_def sample_reserve_def)
  moreover have "fingerprint_reserve_request sample_host (sample_reserve ''op-1'')
      = fingerprint_reserve_request sample_host (sample_reserve ''op-2'')"
    by (simp add: fingerprint_reserve_request_def sample_reserve_def)
  moreover have "rq_idempotency_key (sample_reserve ''op-1'') \<noteq> rq_idempotency_key (sample_reserve ''op-2'')"
    by (simp add: sample_reserve_def)
  ultimately show ?thesis
    using fingerprint_identifies_request [of sample_host "sample_reserve ''op-1''" "sample_reserve ''op-2''"] by argo
qed

section \<open>Settle\<close>

text \<open>C4: a report of an outcome refines its specification. A settlement or dispatch report that returns
  commits exactly the effect of \<open>spec_apply\<close> on the operation it names and answers with the status of
  the reported outcome; one that raises commits nothing, or only the incident of the loop guardrail.\<close>

theorem settle_refines_spec:
  assumes "chain_ok h (db s)" "digest_ok h" "committed s = db s"
  shows "case apply_settlement h cfg r s of
      (t, Inr x) \<Rightarrow> \<exists>p. settle_target r (db s) = Some p
        \<and> spec_apply h cfg p r (clock s) (db s) = Some (committed t) \<and> db t = committed t
        \<and> or_idempotency_key x = e_idempotency_key p \<and> or_status x = status_of (st_outcome r)
    | (t, Inl e) \<Rightarrow> committed t = committed s
        \<or> (\<exists>p g l m. e = PolicyStateError m \<and> settle_target r (db s) = Some p
              \<and> committed t = loop_incident p g l (clock s) (db s))"
proof -
  have "wp (apply_settlement h cfg r)
    (\<lambda>x t. \<exists>p. settle_target r (db s) = Some p
        \<and> spec_apply h cfg p r (clock s) (db s) = Some (committed t) \<and> db t = committed t
        \<and> or_idempotency_key x = e_idempotency_key p \<and> or_status x = status_of (st_outcome r))
    (\<lambda>e t. committed t = committed s
        \<or> (\<exists>p g l m. e = PolicyStateError m \<and> settle_target r (db s) = Some p
              \<and> committed t = loop_incident p g l (clock s) (db s))) s"
    by (rule wp_apply_settlement [OF assms]) (auto simp: same_committed_def)
  then show ?thesis by (auto simp: wp_def split: prod.splits sum.splits)
qed

theorem settle_refines_spec_witness:
  "case apply_settlement sample_host default_settings (sample_settle ''op-1'' O_SETTLED (Dec 12 (- 12)))
      (idle_sys (op_db 100 held_op)) of
     (t, Inr x) \<Rightarrow> or_idempotency_key x = ''op-1'' \<and> or_status x = SETTLED
   | (t, Inl e) \<Rightarrow> committed t = op_db 100 held_op \<or> (\<exists>m. e = PolicyStateError m)"
proof -
  have "settle_target (sample_settle ''op-1'' O_SETTLED (Dec 12 (- 12))) (op_db 100 held_op) = Some held_op"
    by (rule op_db_target) (simp add: sample_defs)
  then show ?thesis
    using settle_refines_spec [where h = sample_host and cfg = default_settings
        and s = "idle_sys (op_db 100 held_op)" and r = "sample_settle ''op-1'' O_SETTLED (Dec 12 (- 12))",
        OF _ sample_digest_ok]
    by (auto simp: op_db_chain held_key sample_settle_def split: prod.splits sum.splits)
qed

text \<open>A final settlement that its specification accepts.\<close>

lemma wp_apply_accepted:
  assumes "chain_ok h (db s)" "digest_ok h" "settle_target r (db s) = Some p" "e_status p \<noteq> SETTLED"
    and "st_outcome r = O_SETTLED" "identity_ok p r" "spec_settle h cfg p r (clock s) (db s) = Some d"
  shows "wp (apply_settlement h cfg r) (\<lambda>_ t. db t = d \<and> committed t = d) (\<lambda>_ _. False) s"
proof -
  have "wp (release_inflight_guardrail h cfg (e_user_id p)) (\<lambda>_ t. db t = d \<and> committed t = d) (\<lambda>_ _. False) (commit t)"
    if "db t = d" for t
    by (rule wp_release_inflight_guardrail) (use that in \<open>simp add: same_db_def\<close>)
  then have "wp (finalize_settlement h cfg p r) (\<lambda>_ t. wp (release_inflight_guardrail h cfg (e_user_id p))
      (\<lambda>_ t. db t = d \<and> committed t = d) (\<lambda>_ _. False) (commit t)) (\<lambda>_ _. False) s"
    by (intro wp_finalize_settlement [OF assms(1,2,4)]) (use assms(7) in auto)
  then show ?thesis
    using assms(3,5,6) settle_target_key [OF assms(3)]
    by (auto simp: apply_settlement_def settle_target_def check_settlement_identity_def validate_settlement_identity_def
        identity_ok_def apply_outcome_def wp_simps)
qed

text \<open>A settled operation, settled again.\<close>

lemma wp_settle_replay:
  assumes target: "settle_target r (db s) = Some p" and settled: "e_status p = SETTLED" "st_outcome r = O_SETTLED"
    and replay: "\<And>t. same_db s t \<Longrightarrow> limiter t = limiter s \<Longrightarrow> guardrails_degraded t = guardrails_degraded s
      \<Longrightarrow> quantize_money (Some (st_actual_cost r)) = e_actual_amount p
      \<Longrightarrow> \<not> truthy (st_provider_request_id r) \<or> st_provider_request_id r = e_provider_request_id p
      \<Longrightarrow> wp (seqE (release_inflight_guardrail h cfg (e_user_id p))
           (ret \<lparr>or_idempotency_key = e_idempotency_key p, or_status = SETTLED, or_actual_amount = e_actual_amount p\<rparr>))
           Q E (commit t)"
    and err: "\<And>e t. same_db s t \<Longrightarrow> E e t"
  shows "wp (apply_settlement h cfg r) Q E s"
proof -
  have inc: "same_db s (increment n s)" for n by (simp add: same_db_def)
  have refl: "same_db s s" by (simp add: same_db_def)
  show ?thesis
    using target settled replay [OF refl] err [OF refl] err [OF inc]
    by (auto simp: apply_settlement_def settle_target_def check_settlement_identity_def validate_settlement_identity_def
        apply_outcome_def finalize_settlement_def finalize_replay_def Let_def wp_simps)
qed

text \<open>Settling a settled operation again never changes the database, and is accepted only with the
  recorded cost and the recorded provider request id (or none).\<close>

theorem settle_replay_changes_nothing:
  assumes "settle_target r (db s) = Some p" "e_status p = SETTLED" "st_outcome r = O_SETTLED" "committed s = db s"
  shows "case apply_settlement h cfg r s of
      (t, Inr x) \<Rightarrow> db t = db s \<and> committed t = committed s
        \<and> quantize_money (Some (st_actual_cost r)) = e_actual_amount p
        \<and> (\<not> truthy (st_provider_request_id r) \<or> st_provider_request_id r = e_provider_request_id p)
        \<and> x = \<lparr>or_idempotency_key = e_idempotency_key p, or_status = SETTLED, or_actual_amount = e_actual_amount p\<rparr>
    | (t, Inl e) \<Rightarrow> db t = db s \<and> committed t = committed s"
proof -
  have "wp (apply_settlement h cfg r)
     (\<lambda>x t. db t = db s \<and> committed t = committed s
        \<and> quantize_money (Some (st_actual_cost r)) = e_actual_amount p
        \<and> (\<not> truthy (st_provider_request_id r) \<or> st_provider_request_id r = e_provider_request_id p)
        \<and> x = \<lparr>or_idempotency_key = e_idempotency_key p, or_status = SETTLED, or_actual_amount = e_actual_amount p\<rparr>)
     (\<lambda>_ t. db t = db s \<and> committed t = committed s) s"
    by (rule wp_settle_replay [OF assms(1-3)])
      (auto simp: wp_ext same_db_def assms(4) intro!: wp_release_inflight_guardrail)
  then show ?thesis by (auto simp: wp_def split: prod.splits sum.splits)
qed

theorem settle_replay_changes_nothing_witness:
  "committed (fst (apply_settlement sample_host default_settings (sample_settle ''op-1'' O_SETTLED (Dec 12 (- 12)))
      (idle_sys (op_db 100 settled_op)))) = op_db 100 settled_op"
  using settle_replay_changes_nothing [where s = "idle_sys (op_db 100 settled_op)" and p = settled_op
      and r = "sample_settle ''op-1'' O_SETTLED (Dec 12 (- 12))" and h = sample_host and cfg = default_settings]
    settled_target
  by (auto simp: settled_facts split: prod.splits sum.splits)

text \<open>Settling a settled operation again releases an in-flight slot of its user once more, although the
  operation holds none any more: the slot of another running operation of the user is given away.\<close>

theorem settle_replay_releases_slot_again:
  assumes "settle_target r (db s) = Some p" "e_status p = SETTLED" "st_outcome r = O_SETTLED"
    and "guardrails_degraded s = Some True" "apply_settlement h cfg r s = (t, Inr x)"
  shows "limiter t = limiter_release (e_user_id p) (limiter s)"
proof -
  have "wp (apply_settlement h cfg r) (\<lambda>_ t. limiter t = limiter_release (e_user_id p) (limiter s)) (\<lambda>_ _. True) s"
    by (rule wp_settle_replay [OF assms(1-3)])
      (auto simp: wp_simps release_inflight_guardrail_def ignoring_errors_def release_reserve_def get_guardrails_def
        assms(4) limiter_release_reserve_def)
  then show ?thesis using assms(5) by (simp add: wp_def)
qed

definition slot_sys :: sys where
  "slot_sys = (idle_sys (op_db 100 settled_op))\<lparr>guardrails_degraded := Some True,
     limiter := (limiter (idle_sys sample_db))\<lparr>inflight := (\<lambda>_. 2)\<rparr>\<rparr>"

lemma settle_replay_accepts:
  assumes "settle_target r (db s) = Some p" "e_status p = SETTLED" "st_outcome r = O_SETTLED" "identity_ok p r"
    and "quantize_money (Some (st_actual_cost r)) = e_actual_amount p" "\<not> truthy (st_provider_request_id r)"
  shows "wp (apply_settlement h cfg r) (\<lambda>_ _. True) (\<lambda>_ _. False) s"
  using assms settle_target_key [OF assms(1)]
  by (auto simp: apply_settlement_def settle_target_def check_settlement_identity_def validate_settlement_identity_def
      identity_ok_def apply_outcome_def finalize_settlement_def finalize_replay_def Let_def wp_simps
      intro!: wp_release_inflight_guardrail)

lemma slot_run:
  "wp (apply_settlement sample_host default_settings (sample_settle ''op-1'' O_SETTLED (Dec 12 (- 12))))
     (\<lambda>_ _. True) (\<lambda>_ _. False) slot_sys"
proof (rule settle_replay_accepts)
  show "settle_target (sample_settle ''op-1'' O_SETTLED (Dec 12 (- 12))) (db slot_sys) = Some settled_op"
    using settled_target by (simp add: slot_sys_def)
  have "quantize_money (Some (Dec 12 (- 12))) = 12" by code_simp
  then show "quantize_money (Some (st_actual_cost (sample_settle ''op-1'' O_SETTLED (Dec 12 (- 12)))))
      = e_actual_amount settled_op" by (simp add: sample_settle_def settled_op_def)
qed (simp_all add: settled_facts identity_ok_def, simp_all add: sample_defs truthy_def identity_mismatch_def)

theorem settle_replay_releases_slot_again_witness:
  "\<exists>t x. apply_settlement sample_host default_settings (sample_settle ''op-1'' O_SETTLED (Dec 12 (- 12))) slot_sys = (t, Inr x)
     \<and> inflight (limiter t) ''alice'' = 1"
proof -
  obtain t x where t: "apply_settlement sample_host default_settings (sample_settle ''op-1'' O_SETTLED (Dec 12 (- 12))) slot_sys = (t, Inr x)"
    using slot_run by (auto simp: wp_def split: prod.splits sum.splits)
  have "limiter t = limiter_release (e_user_id settled_op) (limiter slot_sys)"
    by (rule settle_replay_releases_slot_again [OF _ _ _ _ t])
      (simp_all add: slot_sys_def settled_target settled_facts)
  then show ?thesis using t by (auto simp: limiter_release_def slot_sys_def settled_facts)
qed

section \<open>Drift\<close>

lemma settled_drift_locks:
  assumes "spec_settle h cfg p r now d = Some d'"
    and "e_reserved_amount p < quantize_money (Some (st_actual_cost r))"
    and "drift_exceeds_tolerance (quantize_money (Some (st_actual_cost r)) - e_reserved_amount p) (e_reserved_amount p) cfg"
    and "w \<in> set (user_wallets d')" "w_user_id w = e_user_id p"
  shows "\<not> w_active w \<and> w_lock_reason w = Some ''DRIFT_THRESHOLD_EXCEEDED'' \<and> w_locked_at w = Some now"
proof -
  let ?a = "quantize_money (Some (st_actual_cost r))" and ?b = "e_reserved_amount p"
  obtain d3 where "spec_settle_close h cfg p r ?a ?b now d3 = Some d'"
    using assms(1) by (auto simp: spec_settle_def Let_def bind_eq_Some_conv)
  then have "user_wallets d' = user_wallets (lock_wallet (e_user_id p) ''DRIFT_THRESHOLD_EXCEEDED'' now
      (spec_settle_log h p r ?a ?b now d3))"
    using assms(2,3) by (auto simp: spec_settle_close_def spec_drift_def Let_def split: if_splits)
  then show ?thesis using assms(4,5) by (auto simp: lock_wallet_def set_update_where split: if_splits)
qed

lemma charge_scopes_wallets: "charge_scopes sc delta now d = Some d' \<Longrightarrow> user_wallets d' = user_wallets d"
  by (induction sc arbitrary: d) (auto split: option.splits if_splits)

lemma spec_reserve_inactive:
  assumes "\<forall>w \<in> set (user_wallets d). w_user_id w = rq_user_id r \<longrightarrow> \<not> w_active w"
  shows "spec_reserve h cfg r now d = None"
proof (rule ccontr)
  assume "spec_reserve h cfg r now d \<noteq> None"
  then obtain d1 d2 d3 where s: "spec_reserve_scopes cfg r now d = Some d1"
    "spec_claim (rq_trace_id r) (trace_cap_of cfg r) (quantize_money (Some (rq_estimated_cost r))) now d1 = Some d2"
    "spec_debit (rq_user_id r) (quantize_money (Some (rq_estimated_cost r))) now d2 = Some d3"
    by (auto simp: spec_reserve_def Let_def bind_eq_Some_conv)
  have "user_wallets d1 = user_wallets d"
    using s(1) by (auto simp: spec_reserve_scopes_def charge_scopes_wallets split: option.splits)
  moreover have "user_wallets d2 = user_wallets d1"
    using s(2) by (auto simp: spec_claim_def split: option.splits if_splits)
  moreover obtain w where w: "find_wallet (rq_user_id r) d2 = Some w" "w_active w"
    using s(3) by (auto simp: spec_debit_def split: option.splits if_splits)
  ultimately have "w \<in> set (user_wallets d)" "w_user_id w = rq_user_id r"
    using row_where_keyD [of w_user_id "rq_user_id r" "user_wallets d" w] by (simp_all add: find_wallet_def)
  then show False using assms w(2) by blast
qed

text \<open>Drift enforcement. When an operation settles above its reservation and beyond the drift tolerance,
  every later reservation of its user under a new key is refused.\<close>

theorem drift_locks_user_out:
  assumes "chain_ok h (db s)" "digest_ok h" "committed s = db s"
    and "settle_target r (db s) = Some p" "e_status p \<noteq> SETTLED" "st_outcome r = O_SETTLED"
    and "e_reserved_amount p < quantize_money (Some (st_actual_cost r))"
    and "drift_exceeds_tolerance (quantize_money (Some (st_actual_cost r)) - e_reserved_amount p) (e_reserved_amount p) cfg"
    and "apply_settlement h cfg r s = (t, Inr x)"
    and "chain_ok h (db u)" "db u = db t" "rq_user_id q = e_user_id p"
    and "find_operation (rq_idempotency_key q) (db u) = None"
  shows "\<exists>v e. reserve_operation h cfg' q u = (v, Inl e) \<and> ((\<exists>m. e = PolicyStateError m) \<or> denial e)"
proof -
  have "wp (apply_settlement h cfg r) (\<lambda>_ t. spec_settle h cfg p r (clock s) (db s) = Some (db t)) (\<lambda>_ _. True) s"
    by (rule wp_apply_settlement [OF assms(1-3)]) (use assms(4-6) in \<open>auto simp: spec_apply_def\<close>)
  then have "spec_settle h cfg p r (clock s) (db s) = Some (db t)" using assms(9) by (simp add: wp_def)
  then have "spec_reserve h cfg' q (clock u) (db u) = None"
    using settled_drift_locks [OF _ assms(7,8)] assms(11,12) by (intro spec_reserve_inactive) auto
  then have "wp (reserve_operation h cfg' q) (\<lambda>_ _. False) (\<lambda>e _. (\<exists>m. e = PolicyStateError m) \<or> denial e) u"
    by (intro wp_reserve_operation [OF assms(10,2)]) (use assms(13) in auto)
  then show ?thesis by (auto simp: wp_def split: prod.splits sum.splits)
qed

text \<open>A settlement at cost 1 of the operation that holds 15 units.\<close>

abbreviation drift_settle :: settle_request where
  "drift_settle \<equiv> sample_settle ''op-1'' O_SETTLED (Dec 1 0)"

lemmas spec_settle_unfold = spec_settle_def spec_settle_attempt_def spec_settle_balances_def spec_settle_budget_def
  spec_settle_wallet_def spec_upsert_def spec_change_def spec_settle_close_def

lemma one_unit: "quantize_money (Some (Dec 1 0)) = 10 ^ 12"
  by code_simp

text \<open>Without the attribution columns a settlement is refused exactly when the wallet cannot cover it.\<close>

definition balance_of :: "string \<Rightarrow> db \<Rightarrow> money option" where
  "balance_of u d = map_option w_balance (find_wallet u d)"

lemma balance_of_cong: "user_wallets d' = user_wallets d \<Longrightarrow> balance_of u d' = balance_of u d"
  by (simp add: balance_of_def find_wallet_def)

lemma balance_of_credit: "balance_of u (credit_wallet u a now d) = map_option (\<lambda>b. b + a) (balance_of u d)"
proof -
  have "map_option w_balance (row_where (\<lambda>w. w_user_id w = u) (update_where (\<lambda>w. w_user_id w = u)
      (\<lambda>w. w\<lparr>w_balance := w_balance w + a, w_updated_at := now\<rparr>) ws))
    = map_option (\<lambda>b. b + a) (map_option w_balance (row_where (\<lambda>w. w_user_id w = u) ws))" for ws
    by (induction ws) auto
  then show ?thesis by (simp add: balance_of_def find_wallet_def credit_wallet_def)
qed

lemma balance_of_settle_wallet:
  "balance_of (e_user_id p) (spec_settle_wallet h p refund correction now d)
    = map_option (\<lambda>b. b + refund - correction) (balance_of (e_user_id p) d)"
proof -
  have ev: "balance_of u (add_sealed_event h now k x t a m e) = balance_of u e" for u k x t a m e
    by (rule balance_of_cong) simp
  show ?thesis
    by (simp add: spec_settle_wallet_def Let_def ev balance_of_credit option.map_comp comp_def option.map_ident)
qed

lemma overdrawn_balance: "overdrawn u d \<longleftrightarrow> (\<exists>b < 0. balance_of u d = Some b)"
  by (auto simp: overdrawn_def balance_of_def split: option.splits)

lemma untenanted_settle:
  assumes "\<not> has_tenant_id d" "balance_of (e_user_id p) d = Some b" "quantize_money (Some (st_actual_cost r)) = actual"
    and "\<not> truthy (st_dispatch_attempt_key r) \<or> st_provider_request_id r = None"
    and "\<not> provider_id_taken (e_idempotency_key p) (st_provider_request_id r) d"
  obtains d' where "spec_settle_attempt p r now d \<noteq> None"
    and "spec_settle h cfg p r now d =
      (if b + refund_amount (e_status p) (e_reserved_amount p) actual
          - correction_debit (e_status p) (e_reserved_amount p) actual < 0 then None else Some d')"
    and "map e_idempotency_key (escrow_ledger d') = map e_idempotency_key (escrow_ledger d)"
proof -
  let ?k = "e_idempotency_key p" and ?u = "e_user_id p" and ?reserved = "e_reserved_amount p"
  let ?f = "settled_row r actual (settlement_reason (e_status p)) (actual - ?reserved) now"
  obtain d1 where d1: "spec_settle_attempt p r now d = Some d1" "escrow_ledger d1 = escrow_ledger d"
    "user_wallets d1 = user_wallets d" "has_tenant_id d1 = has_tenant_id d"
    using assms(4)
    by (cases "truthy (st_dispatch_attempt_key r)") (simp_all add: spec_settle_attempt_def spec_upsert_def attempt_id_taken_def)
  obtain d2 where d2: "spec_settle_balances h cfg p actual ?reserved now d1 = Some d2"
    "escrow_ledger d2 = escrow_ledger d" "balance_of ?u d2 = Some (b + refund_amount (e_status p) ?reserved actual
      - correction_debit (e_status p) ?reserved actual)"
    using assms(1,2) d1(2-4) balance_of_settle_wallet [of p h _ _ now d1] balance_of_cong [OF d1(3)]
      balance_of_cong [of "move_trace (e_trace_id p) _ actual now _"]
    by (simp add: spec_settle_balances_def spec_settle_budget_def)
  let ?d3 = "change_operation ?k ?f d2"
  have d3: "spec_change ?k (st_provider_request_id r) ?f d2 = Some ?d3" "balance_of ?u ?d3 = balance_of ?u d2"
    "map e_idempotency_key (escrow_ledger ?d3) = map e_idempotency_key (escrow_ledger d)"
    using assms(5) d2(2) balance_of_cong [of ?d3 d2]
    by (simp_all add: spec_change_def provider_id_taken_def change_operation_def map_update_where settled_row_def)
  let ?d4 = "spec_drift h cfg p (actual - ?reserved) ?reserved now (spec_settle_log h p r actual ?reserved now ?d3)"
  have "escrow_ledger ?d4 = escrow_ledger ?d3"
    by (simp add: spec_drift_def spec_settle_log_def Let_def)
  then show thesis
    using that [of ?d4] d1(1) d2 d3 assms(3)
    by (simp add: spec_settle_def Let_def spec_settle_close_def overdrawn_balance)
qed

lemma held_facts: "e_status held_op = RESERVED" "e_reserved_amount held_op = 15" "e_user_id held_op = ''alice''"
  by (simp_all add: sample_defs)

lemma op_db_balance: "balance_of ''alice'' (op_db b p) = Some b"
  by (simp add: balance_of_def find_wallet_def sample_defs)

lemma op_db_facts: "\<not> has_tenant_id (op_db b p)" "escrow_ledger (op_db b p) = [p]"
  "st_provider_request_id (sample_settle k out c) = None" "identity_ok held_op (sample_settle k out c)"
  "st_actual_cost (sample_settle k out c) = c" "st_idempotency_key (sample_settle k out c) = Some k"
  "\<not> provider_id_taken x None d"
  by (simp_all add: sample_defs identity_ok_def identity_mismatch_def truthy_def provider_id_taken_def)

lemma held_target: "settle_target (sample_settle ''op-1'' out c) (op_db b held_op) = Some held_op"
  by (rule op_db_target) (rule held_key)

theorem drift_locks_user_out_witness:
  "\<exists>t x. apply_settlement sample_host default_settings drift_settle (idle_sys (op_db 100000000000000 held_op)) = (t, Inr x)
     \<and> (\<exists>v e. reserve_operation sample_host default_settings (sample_reserve ''op-2'') t = (v, Inl e))"
proof -
  let ?s = "idle_sys (op_db 100000000000000 held_op)"
  obtain d where d: "spec_settle sample_host default_settings held_op drift_settle 1000 (op_db 100000000000000 held_op) = Some d"
    "map e_idempotency_key (escrow_ledger d) = [''op-1'']"
    by (rule untenanted_settle [of "op_db 100000000000000 held_op" held_op 100000000000000 drift_settle _ 1000 sample_host default_settings])
      (auto simp: op_db_facts op_db_balance held_facts held_key one_unit refund_amount_def correction_debit_def
        reserved_still_held_def)
  have target: "settle_target drift_settle (db ?s) = Some held_op" by (simp add: held_target)
  have "wp (apply_settlement sample_host default_settings drift_settle) (\<lambda>_ t. db t = d \<and> committed t = d) (\<lambda>_ _. False) ?s"
    by (rule wp_apply_accepted [OF _ sample_digest_ok target])
      (simp_all add: op_db_chain held_facts op_db_facts settled_facts d(1))
  then obtain t x where t: "apply_settlement sample_host default_settings drift_settle ?s = (t, Inr x)" "db t = d"
    by (auto simp: wp_def split: prod.splits sum.splits)
  have drift: "drift_exceeds_tolerance 999999999985 15 default_settings" by code_simp
  have fresh: "find_operation ''op-2'' d = None"
    using d(2) by (auto simp: find_operation_def)
  have "\<exists>v e. reserve_operation sample_host default_settings (sample_reserve ''op-2'') t = (v, Inl e)
      \<and> ((\<exists>m. e = PolicyStateError m) \<or> denial e)"
    by (rule drift_locks_user_out [OF _ sample_digest_ok _ target _ _ _ _ t(1)])
      (simp_all add: op_db_chain held_facts op_db_facts settled_facts one_unit drift t(2) fresh sample_reserve_def
        spec_settle_chain [OF d(1) sample_digest_ok op_db_chain])
  then show ?thesis using t(1) by blast
qed

section \<open>Settlements that the ledger refuses\<close>

text \<open>The settle route has no clause for the errors of the ledger itself: a settlement that the ledger
  refuses because a wallet or a budget cannot cover it, or because a provider request id is taken, is
  answered with status 500 and commits nothing.\<close>

theorem refused_settlement_answers_500:
  assumes "at_rest s" "chain_ok h (db s)" "digest_ok h" "\<not> diagnostic_mode_blocks_writes cfg"
    and "\<not> negative (st_actual_cost r)" "truthy (st_idempotency_key r)" "st_outcome r = O_SETTLED"
    and "settle_target r (db s) = Some p" "e_status p \<noteq> SETTLED" "identity_ok p r"
    and "spec_settle h cfg p r (clock s) (db s) = None" "spec_settle_attempt p r (clock s) (db s) \<noteq> None"
  shows "\<exists>t e. settle_route h cfg r s = (t, Inl e) \<and> http_status e = 500 \<and> committed t = committed s"
proof -
  have s: "s\<lparr>db := committed s\<rparr> = s" using assms(1) by (simp add: at_rest_def)
  have "wp (apply_settlement h cfg r) (\<lambda>_ _. False)
      (\<lambda>e t. committed t = committed s \<and> (e = IntegrityError \<or> (\<exists>m. e = TraceCapExceededError m) \<or> (\<exists>m. e = LedgerError m))) s"
    by (rule wp_apply_refused [OF assms(2,3,8,9,7,10,11)])
      (use assms(12) in \<open>auto simp: settle_error_def Let_def same_committed_def split: option.splits\<close>)
  then have "wp (get_db_session (apply_settlement h cfg r)) (\<lambda>_ _. False)
      (\<lambda>e. wp (settle_except e) (\<lambda>_ _. False) (\<lambda>e t. http_status e = 500 \<and> committed t = committed s)) s"
    unfolding wp_get_db_session s
    by (rule wp_conseq) (auto simp: settle_except_def wp_throw http_status_def)
  then have "wp (settle_route h cfg r) (\<lambda>_ _. False) (\<lambda>e t. http_status e = 500 \<and> committed t = committed s) s"
    using assms(4-7)
    by (simp add: settle_route_def diagnostic_blocks_def validate_settle_request_def wp_simps)
  then show ?thesis by (auto simp: wp_def split: prod.splits sum.splits)
qed

theorem refused_settlement_answers_500_witness:
  "\<exists>t e. settle_route sample_host (default_settings\<lparr>diagnostic_mode_blocks_writes := False\<rparr>)
      (sample_settle ''op-1'' O_SETTLED (Dec 1 0)) (idle_sys (op_db 5 held_op)) = (t, Inl e) \<and> http_status e = 500"
proof -
  let ?cfg = "default_settings\<lparr>diagnostic_mode_blocks_writes := False\<rparr>"
  have spec: "spec_settle sample_host ?cfg held_op drift_settle 1000 (op_db 5 held_op) = None"
    "spec_settle_attempt held_op drift_settle 1000 (op_db 5 held_op) \<noteq> None"
    by (rule untenanted_settle [of "op_db 5 held_op" held_op _ drift_settle _ 1000 sample_host ?cfg],
      auto simp: op_db_facts op_db_balance held_facts one_unit refund_amount_def correction_debit_def
        reserved_still_held_def)+
  have "\<exists>t e. settle_route sample_host ?cfg drift_settle (idle_sys (op_db 5 held_op)) = (t, Inl e)
      \<and> http_status e = 500 \<and> committed t = committed (idle_sys (op_db 5 held_op))"
    by (rule refused_settlement_answers_500 [OF _ _ sample_digest_ok, where p = held_op])
      (use spec in \<open>simp_all add: at_rest_def op_db_chain held_target held_facts op_db_facts settled_facts
        negative_def truthy_def\<close>)
  then show ?thesis by blast
qed

end
