(* ===== verification/Route_Spec.thy ===== *)
theory Route_Spec
  imports Ledger_Contract
begin

text \<open>
  The reserve and settle routes as a client sees them: what the database holds once a request was answered with
  success, whatever happened to the guardrails, the breaker and the counters on the way.
\<close>

lemma wp_returns_get_db_session:
  assumes "at_rest s" "wp m (\<lambda>x t. Q x (t\<lparr>db := committed t\<rparr>)) (\<lambda>_ _. True) s"
  shows "wp (get_db_session m) Q (\<lambda>_ _. True) s"
  using assms by (simp add: wp_get_db_session session_rest)

lemma wp_raises: "(\<And>x t. Q x t) \<Longrightarrow> wp m Q (\<lambda>_ _. True) s"
  by (rule wp_any) simp_all

lemma wp_reserve_except: "wp (reserve_except h cfg u b e) Q (\<lambda>_ _. True) s"
  by (simp add: reserve_except_def Let_def wp_simps wp_any split: exn.split)

lemma wp_settle_except: "wp (settle_except e) Q (\<lambda>_ _. True) s"
  by (simp add: settle_except_def wp_simps split: exn.split)

section \<open>Reserve\<close>

lemma wp_reserve_route_returns:
  assumes rest: "at_rest s"
    and body: "\<And>t. same_db s t \<Longrightarrow> wp (reserve_operation h cfg r)
      (\<lambda>x t. Q \<lparr>rr_idempotency_key = or_idempotency_key x, rr_status = or_status x,
            rr_reserved_amount = rq_estimated_cost r, rr_expires_in_seconds = reserve_ttl_seconds cfg\<rparr>
          (t\<lparr>db := committed t\<rparr>)) (\<lambda>_ _. True) t"
  shows "wp (reserve_route h cfg r) Q (\<lambda>_ _. True) s"
proof -
  have session: "wp (get_db_session (reserve_operation h cfg r)) (\<lambda>x. Q \<lparr>rr_idempotency_key = or_idempotency_key x,
      rr_status = or_status x, rr_reserved_amount = rq_estimated_cost r, rr_expires_in_seconds = reserve_ttl_seconds cfg\<rparr>)
      (\<lambda>_ _. True) t" if "same_db s t" for t
    using wp_returns_get_db_session [OF _ body [OF that]] same_db_rest [OF that rest] by simp
  have admitted: "wp (catchE (reserve_admission h cfg r) (reserve_except h cfg (rq_user_id r) False)) (\<lambda>_. same_db s) (\<lambda>_ _. True) t"
    if t: "same_db s t" for t
    unfolding wp_catchE
    by (rule wp_conseq [OF keeps_reserve_admission])
      (use t same_db_rest [OF t rest] in \<open>auto simp: same_db_def intro: wp_reserve_except\<close>)
  have main: "wp (bindE (catchE (get_db_session (reserve_operation h cfg r)) (reserve_except h cfg (rq_user_id r) bumped))
         (\<lambda>result. ret \<lparr>rr_idempotency_key = or_idempotency_key result, rr_status = or_status result,
            rr_reserved_amount = rq_estimated_cost r, rr_expires_in_seconds = reserve_ttl_seconds cfg\<rparr>)) Q (\<lambda>_ _. True) t"
    if "same_db s t" for bumped t
    unfolding wp_ext by (rule wp_conseq [OF session [OF that]]) (auto intro: wp_reserve_except)
  show ?thesis
    unfolding reserve_route_def wp_bindE [of "diagnostic_blocks h cfg"]
  proof (rule wp_same_db [OF keeps_diagnostic_blocks])
    fix blocked t assume t: "same_db s t"
    show "wp (if blocked then throw (HTTPException 503 ''diagnostic mode: reserve writes halted; admin read APIs remain available'') else
        bindE (catchE (reserve_admission h cfg r) (reserve_except h cfg (rq_user_id r) False)) (\<lambda>bumped.
        bindE (catchE (get_db_session (reserve_operation h cfg r)) (reserve_except h cfg (rq_user_id r) bumped))
         (\<lambda>result. ret \<lparr>rr_idempotency_key = or_idempotency_key result, rr_status = or_status result,
            rr_reserved_amount = rq_estimated_cost r, rr_expires_in_seconds = reserve_ttl_seconds cfg\<rparr>))) Q (\<lambda>_ _. True) t"
      using wp_conseq [OF admitted [OF t] main]
      by (simp add: wp_throw wp_bindE [of "catchE (reserve_admission h cfg r) x" for x])
  qed simp
qed

text \<open>A granted reservation is a fresh row, or the operation that the key already named.\<close>

lemma reserve_route_row:
  assumes "at_rest s" "chain_ok h (committed s)" "digest_ok h" "reserve_route h cfg r s = (t, Inr x)"
  shows "at_rest t \<and> (case find_operation (rq_idempotency_key r) (committed s) of
       None \<Rightarrow> rr_status x = RESERVED \<and> find_operation (rq_idempotency_key r) (committed t)
            = Some (reserve_row h cfg r (clock s) (reserve_identity r (committed s)))
     | Some p \<Rightarrow> committed t = committed s \<and> rr_status x = e_status p
            \<and> e_request_fingerprint p = fingerprint_reserve_request h r)"
proof -
  let ?Q = "\<lambda>x t. at_rest t \<and> (case find_operation (rq_idempotency_key r) (committed s) of
       None \<Rightarrow> rr_status x = RESERVED \<and> find_operation (rq_idempotency_key r) (committed t)
            = Some (reserve_row h cfg r (clock s) (reserve_identity r (committed s)))
     | Some p \<Rightarrow> committed t = committed s \<and> rr_status x = e_status p
            \<and> e_request_fingerprint p = fingerprint_reserve_request h r)"
  have "wp (reserve_route h cfg r) ?Q (\<lambda>_ _. True) s"
  proof (rule wp_reserve_route_returns [OF assms(1)])
    fix t assume t: "same_db s t"
    have d: "db t = committed s" "clock t = clock s" using t assms(1) by (auto simp: same_db_def at_rest_def)
    show "wp (reserve_operation h cfg r)
      (\<lambda>x t. ?Q \<lparr>rr_idempotency_key = or_idempotency_key x, rr_status = or_status x,
            rr_reserved_amount = rq_estimated_cost r, rr_expires_in_seconds = reserve_ttl_seconds cfg\<rparr>
          (t\<lparr>db := committed t\<rparr>)) (\<lambda>_ _. True) t"
      by (rule wp_reserve_operation)
        (use assms(2,3) t in \<open>auto simp: d at_rest_def same_db_def reserved_result_def replay_result_def
          dest: spec_reserve_row\<close>)
  qed
  then show ?thesis using assms(4) by (simp add: wp_def)
qed

section \<open>Settle\<close>

lemma spec_settle_lookup:
  assumes "spec_settle h cfg p r now d = Some d'" "find_operation (e_idempotency_key p) d = Some p"
  shows "find_operation (e_idempotency_key p) d'
    = Some (settled_row r (quantize_money (Some (st_actual_cost r))) (settlement_reason (e_status p))
        (quantize_money (Some (st_actual_cost r)) - e_reserved_amount p) now p)"
proof -
  have "row_where (\<lambda>q. e_idempotency_key q = k) (update_where (\<lambda>q. e_idempotency_key q = k)
      (settled_row r a m dr now) rows) = map_option (settled_row r a m dr now) (row_where (\<lambda>q. e_idempotency_key q = k) rows)"
    for k a m dr rows
    by (induction rows) (auto simp: settled_row_def)
  then show ?thesis
    using spec_settle_tables(1) [OF assms(1)] assms(2) by (simp add: find_operation_def change_operation_def)
qed

text \<open>The row of a settled operation, before and after a settlement that was accepted.\<close>

definition settled_from :: "escrow \<Rightarrow> money \<Rightarrow> escrow \<Rightarrow> bool" where
  "settled_from p cost q =
     (e_status q = SETTLED \<and> e_actual_amount q = cost \<and> same_identity p q
      \<and> e_request_fingerprint q = e_request_fingerprint p
      \<and> (e_status p = SETTLED \<and> q = p \<or> e_status p \<noteq> SETTLED \<and> e_drift_amount q = cost - e_reserved_amount p))"

lemma settled_from_row:
  "e_status p \<noteq> SETTLED \<Longrightarrow> settled_from p a (settled_row r a reason (a - e_reserved_amount p) now p)"
  by (simp add: settled_from_def settled_row_def same_identity_def)

lemma apply_settlement_row:
  assumes ok: "chain_ok h (db s)" "digest_ok h" "committed s = db s" and o: "st_outcome r = O_SETTLED"
    and k: "st_idempotency_key r = Some k" "k \<noteq> []"
  shows "wp (apply_settlement h cfg r) (\<lambda>x t. or_status x = SETTLED \<and> (\<exists>p q. find_operation k (db s) = Some p
      \<and> find_operation k (committed t) = Some q \<and> settled_from p (quantize_money (Some (st_actual_cost r))) q)) (\<lambda>_ _. True) s"
proof (cases "settle_target r (db s)")
  case None
  then show ?thesis by (simp add: apply_settlement_def wp_simps settle_target_def)
next
  case (Some p)
  have kp: "e_idempotency_key p = k" "find_operation k (db s) = Some p"
    using settle_target_key [OF Some] settle_target_found [OF Some] k by (auto simp: truthy_def)
  show ?thesis
  proof (cases "e_status p = SETTLED")
    case True
    show ?thesis
      by (rule wp_settle_replay [OF Some True o])
        (auto simp: wp_ext same_db_def kp True settled_from_def ok(3) intro!: wp_release_inflight_guardrail)
  next
    case False
    show ?thesis
      by (rule wp_apply_settlement [OF ok])
        (use Some False o kp in \<open>auto simp: spec_apply_def dest!: spec_settle_lookup intro!: settled_from_row\<close>)
  qed
qed

lemma settle_route_row:
  assumes rest: "at_rest s" and ok: "chain_ok h (committed s)" "digest_ok h" and o: "st_outcome r = O_SETTLED"
    and k: "st_idempotency_key r = Some k" "k \<noteq> []" and run: "settle_route h cfg r s = (t, Inr x)"
  shows "at_rest t \<and> or_status x = SETTLED \<and> (\<exists>p q. find_operation k (committed s) = Some p
      \<and> find_operation k (committed t) = Some q \<and> settled_from p (quantize_money (Some (st_actual_cost r))) q)"
proof -
  let ?Q = "\<lambda>x t. at_rest t \<and> or_status x = SETTLED \<and> (\<exists>p q. find_operation k (committed s) = Some p
      \<and> find_operation k (committed t) = Some q \<and> settled_from p (quantize_money (Some (st_actual_cost r))) q)"
  have session: "wp (get_db_session (apply_settlement h cfg r)) ?Q (\<lambda>_ _. True) u" if u: "same_db s u" for u
  proof -
    have d: "db u = committed s" "committed u = committed s" using u rest by (auto simp: same_db_def at_rest_def)
    have "wp (apply_settlement h cfg r) (\<lambda>x t. ?Q x (t\<lparr>db := committed t\<rparr>)) (\<lambda>_ _. True) u"
      by (rule wp_conseq [OF apply_settlement_row [OF _ ok(2) _ o k]]) (use d ok(1) in \<open>simp_all add: at_rest_def\<close>)
    then show ?thesis by (rule wp_returns_get_db_session [rotated]) (use d in \<open>simp add: at_rest_def\<close>)
  qed
  have "wp (settle_route h cfg r) ?Q (\<lambda>_ _. True) s"
    unfolding settle_route_def wp_bindE
  proof (rule wp_same_db [OF keeps_diagnostic_blocks])
    fix blocked u assume u: "same_db s u"
    have "wp (seqE (validate_settle_request r) (get_db_session (apply_settlement h cfg r))) ?Q (\<lambda>_ _. True) u"
      unfolding wp_seqE
      by (rule wp_same_db [OF keeps_validate_settle], erule session [OF sd.trans [OF u]], simp)
    then show "wp (if blocked then throw (HTTPException 503 ''diagnostic mode: settle writes halted; admin read APIs remain available'')
       else catchE (seqE (validate_settle_request r) (get_db_session (apply_settlement h cfg r))) settle_except) ?Q (\<lambda>_ _. True) u"
      by (auto simp: wp_throw wp_catchE elim!: wp_conseq intro: wp_settle_except)
  qed simp
  then show ?thesis using run by (simp add: wp_def)
qed

text \<open>A settlement that its specification accepts is answered with success.\<close>

lemma settle_route_accepts:
  assumes rest: "at_rest s" and ok: "chain_ok h (committed s)" "digest_ok h" and open_: "\<not> diagnostic_mode_blocks_writes cfg"
    and valid: "\<not> negative (st_actual_cost r)" "truthy (st_idempotency_key r)" "st_outcome r = O_SETTLED"
    and spec: "settle_target r (committed s) = Some p" "e_status p \<noteq> SETTLED" "identity_ok p r"
      "spec_settle h cfg p r (clock s) (committed s) = Some d"
  shows "\<exists>t x. settle_route h cfg r s = (t, Inr x)"
proof -
  have d: "db s = committed s" "s\<lparr>db := committed s\<rparr> = s" using rest by (simp_all add: at_rest_def)
  have "wp (apply_settlement h cfg r) (\<lambda>_ _. True) (\<lambda>_ _. False) s"
    by (rule wp_conseq [OF wp_apply_accepted [where p = p and d = d]]) (use ok spec valid(3) d(1) in simp_all)
  then have "wp (settle_route h cfg r) (\<lambda>_ _. True) (\<lambda>_ _. False) s"
    using open_ valid
    by (auto simp: settle_route_def diagnostic_blocks_def validate_settle_request_def wp_simps d(2) elim!: wp_conseq)
  then show ?thesis by (auto simp: wp_def split: prod.splits sum.splits)
qed

end
