(* ===== verification/Gateway_Contract.thy ===== *)
theory Gateway_Contract
  imports Gateway Route_Spec
begin

text \<open>
  The gateway in front of the control plane: a governed dispatch is a run of the control plane, whatever gets lost
  on the network and whatever else happens meanwhile, and what it leaves in the ledger when it succeeds, when the
  provider fails, and when a client repeats it.
\<close>

section \<open>Frames\<close>

text \<open>The gateway touches the sidecar only through its routes.\<close>

definition runs :: "deployment \<Rightarrow> gateway \<Rightarrow> gateway \<Rightarrow> bool" where
  "runs dp g g' = reachable_from (dp_host dp) (dp_settings dp) (sidecar g) (sidecar g')"

interpretation run: effect_frame "runs dp"
  by unfold_locales (auto simp: runs_def)

lemma runs_same_sidecar: "sidecar g' = sidecar g \<Longrightarrow> runs dp g g'"
  by (simp add: runs_def)

lemma record_call_run: "keeps (runs dp) (record_call provider model ms)"
  unfolding record_call_def by (rule run.keeps_modifyE) (simp add: runs_same_sidecar)

lemma keeps_sum: "(\<And>e. keeps R (f e)) \<Longrightarrow> (\<And>x. keeps R (k x)) \<Longrightarrow> keeps R (case v of Inl e \<Rightarrow> f e | Inr x \<Rightarrow> k x)"
  by (simp split: sum.split)

lemma keeps_prod: "(\<And>x y. keeps R (k x y)) \<Longrightarrow> keeps R (case v of (x, y) \<Rightarrow> k x y)"
  by (simp split: prod.split)

lemma router_run: "keeps (runs dp) (router_dispatch env cfg model prompt messages)"
  unfolding router_dispatch_def mock_dispatch_def openai_dispatch_def anthropic_dispatch_def vertex_dispatch_def Let_def
  by (intro run.keeps_rules record_call_run keeps_sum keeps_prod)

lemma on_sidecar_run:
  assumes "\<And>s. reachable_from (dp_host dp) (dp_settings dp) s (fst (m s))"
  shows "keeps (runs dp) (on_sidecar m)"
  using assms by (simp add: keeps_def runs_def on_sidecar_def split: prod.split) (metis fst_conv)

lemma post_run:
  assumes "\<And>s. reachable_from (dp_host dp) (dp_settings dp) s (fst (m s))"
  shows "keeps (runs dp) (post d m)"
proof -
  have served: "keeps (runs dp) (catchE (on_sidecar m) (\<lambda>e. throw (HTTPException (http_status e) (error_text e))))"
    by (intro run.keeps_rules on_sidecar_run assms)
  then show ?thesis
    by (cases d) (simp_all add: post_def Let_def run.keeps_throw, simp add: keeps_def)
qed

lemma guarded_run:
  assumes "ok \<Longrightarrow> cp_step h cfg s (fst (route s))"
  shows "reachable_from h cfg s (fst (guarded dp token ok route s))"
  using assms by (auto simp: guarded_def getsE_def throw_def split: sum.split)

lemma reserve_step: "reserve_request_ok r \<Longrightarrow> cp_step h cfg s (fst (reserve_route h cfg r s))"
  by (rule cp_step.reserve [OF _ surjective_pairing])

lemma settle_step: "settle_request_ok r \<Longrightarrow> cp_step h cfg s (fst (settle_route h cfg r s))"
  by (rule cp_step.settle [OF _ surjective_pairing])

lemma dispatch_and_settle_run:
  assumes "\<And>s. reachable_from (dp_host dp) (dp_settings dp) s (meanwhile env s)"
  shows "keeps (runs dp) (dispatch_and_settle dp env cfg k model cost prompt messages body)"
  unfolding dispatch_and_settle_def Let_def
  by (intro run.keeps_rules router_run run.keeps_modifyE post_run guarded_run settle_step)
    (auto simp: runs_def assms)

lemma execute_run:
  assumes "\<And>s. reachable_from (dp_host dp) (dp_settings dp) s (meanwhile env s)"
  shows "keeps (runs dp) (execute_governed_dispatch dp env cfg u tr model cost key prompt messages)"
  unfolding execute_governed_dispatch_def Let_def
  by (intro run.keeps_rules post_run guarded_run reserve_step dispatch_and_settle_run assms)

section \<open>Dispatches are runs of the control plane\<close>


section \<open>What a dispatch went through\<close>

lemma bindE_InrE:
  assumes "bindE m f s = (t, Inr x)"
  obtains s1 y where "m s = (s1, Inr y)" "f y s1 = (t, Inr x)"
  using assms by (auto simp: bindE_def split: prod.splits sum.splits)

lemma post_InrE:
  assumes "post d m g = (g', Inr x)"
  obtains s where "m (sidecar g) = (s, Inr x)" "g' = g\<lparr>sidecar := s\<rparr>" "d = Answered"
  using assms
  by (cases d) (auto simp: post_def Let_def catchE_def on_sidecar_def throw_def split: prod.splits sum.splits)

lemma guarded_InrE:
  assumes "guarded dp token ok route s = (t, Inr x)"
  obtains "ok" "route s = (t, Inr x)"
  using assms by (auto simp: guarded_def getsE_def throw_def split: sum.splits if_splits)

text \<open>A provider that answers was called exactly once.\<close>

lemma router_calls:
  assumes "router_dispatch env cfg model prompt messages g = (g2, Inr pr)"
  shows "\<exists>c. g2 = g\<lparr>calls := calls g @ [c]\<rparr>"
proof -
  note defs = mock_dispatch_def openai_dispatch_def anthropic_dispatch_def vertex_dispatch_def Let_def getsE_def
    seqE_def bindE_def record_call_def modifyE_def ret_def throw_def
  have "mock_dispatch env cfg model prompt messages g = (g2, Inr pr) \<or> openai_dispatch env cfg model prompt messages g = (g2, Inr pr)
      \<or> anthropic_dispatch env cfg model prompt messages g = (g2, Inr pr) \<or> vertex_dispatch env cfg model prompt messages g = (g2, Inr pr)"
    using assms by (auto simp: router_dispatch_def throw_def split: if_splits sum.splits)
  then show ?thesis
    by (elim disjE) (auto simp: defs split: if_splits option.splits prod.splits)
qed

text \<open>Providers do not look at the sidecar.\<close>

lemma router_sidecar:
  "router_dispatch env cfg model prompt messages (g\<lparr>sidecar := s\<rparr>)
    = (case router_dispatch env cfg model prompt messages g of (g2, r) \<Rightarrow> (g2\<lparr>sidecar := s\<rparr>, r))"
proof -
  note defs = getsE_def seqE_def bindE_def record_call_def modifyE_def ret_def throw_def Let_def
  have "mock_dispatch env cfg model prompt messages (g\<lparr>sidecar := s\<rparr>)
      = (case mock_dispatch env cfg model prompt messages g of (g2, r) \<Rightarrow> (g2\<lparr>sidecar := s\<rparr>, r))"
    by (simp add: mock_dispatch_def defs)
  moreover have "openai_dispatch env cfg model prompt messages (g\<lparr>sidecar := s\<rparr>)
      = (case openai_dispatch env cfg model prompt messages g of (g2, r) \<Rightarrow> (g2\<lparr>sidecar := s\<rparr>, r))"
    by (auto simp: openai_dispatch_def defs split: option.split prod.split)
  moreover have "anthropic_dispatch env cfg model prompt messages (g\<lparr>sidecar := s\<rparr>)
      = (case anthropic_dispatch env cfg model prompt messages g of (g2, r) \<Rightarrow> (g2\<lparr>sidecar := s\<rparr>, r))"
    by (simp add: anthropic_dispatch_def defs split: option.split)
  moreover have "vertex_dispatch env cfg model prompt messages (g\<lparr>sidecar := s\<rparr>)
      = (case vertex_dispatch env cfg model prompt messages g of (g2, r) \<Rightarrow> (g2\<lparr>sidecar := s\<rparr>, r))"
    by (simp add: vertex_dispatch_def defs split: option.split)
  ultimately show ?thesis
    by (simp add: router_dispatch_def throw_def split: sum.split)
qed

lemma execute_InrE:
  assumes "execute_governed_dispatch dp env cfg u tr model cost key prompt messages g = (g', Inr out)"
  obtains s1 x pr c s3 y where
    "reserve_route (dp_host dp) (dp_settings dp) (gateway_reserve u tr (op_key_of env key g) model cost) (sidecar g) = (s1, Inr x)"
    "reserve_request_ok (gateway_reserve u tr (op_key_of env key g) model cost)"
    "settle_route (dp_host dp) (dp_settings dp)
       (gateway_settle (op_key_of env key g) (py_min (pr_actual_cost pr) cost) pr) (meanwhile env s1) = (s3, Inr y)"
    "g' = g\<lparr>sidecar := s3, calls := calls g @ [c]\<rparr>"
    "out = \<lparr>do_idempotency_key = op_key_of env key g, do_reserve_status = status_name (rr_status x),
       do_settle_status = status_name (or_status y), do_actual_cost = py_min (pr_actual_cost pr) cost, do_provider = pr\<rparr>"
proof -
  let ?k = "op_key_of env key g"
  obtain g1 x where r: "post (reserve_delivery env) (guarded dp (sidecar_internal_token cfg)
        (reserve_request_ok (gateway_reserve u tr ?k model cost))
        (reserve_route (dp_host dp) (dp_settings dp) (gateway_reserve u tr ?k model cost))) g = (g1, Inr x)"
    "dispatch_and_settle dp env cfg ?k model cost prompt messages x g1 = (g', Inr out)"
    using assms unfolding execute_governed_dispatch_def getsE_def Let_def by (elim bindE_InrE)
  obtain s1 where s1: "reserve_request_ok (gateway_reserve u tr ?k model cost)" "g1 = g\<lparr>sidecar := s1\<rparr>"
    "reserve_route (dp_host dp) (dp_settings dp) (gateway_reserve u tr ?k model cost) (sidecar g) = (s1, Inr x)"
    using r(1) by (elim post_InrE guarded_InrE)
  obtain g2 pr where p: "router_dispatch env cfg model prompt messages g1 = (g2, Inr pr)"
    "seqE (modifyE (\<lambda>g. g\<lparr>sidecar := meanwhile env (sidecar g)\<rparr>))
          (bindE (post (settle_delivery env)
              (guarded dp (sidecar_internal_token cfg) (settle_request_ok (gateway_settle ?k (py_min (pr_actual_cost pr) cost) pr))
                (settle_route (dp_host dp) (dp_settings dp) (gateway_settle ?k (py_min (pr_actual_cost pr) cost) pr)))) (\<lambda>settle_body.
            ret \<lparr>do_idempotency_key = ?k, do_reserve_status = status_name (rr_status x),
                 do_settle_status = status_name (or_status settle_body), do_actual_cost = py_min (pr_actual_cost pr) cost,
                 do_provider = pr\<rparr>)) g2 = (g', Inr out)"
    using r(2) unfolding dispatch_and_settle_def Let_def by (elim bindE_InrE)
  obtain c where c: "g2 = g1\<lparr>calls := calls g1 @ [c]\<rparr>" using router_calls [OF p(1)] by blast
  obtain g3 y where s: "post (settle_delivery env)
      (guarded dp (sidecar_internal_token cfg) (settle_request_ok (gateway_settle ?k (py_min (pr_actual_cost pr) cost) pr))
        (settle_route (dp_host dp) (dp_settings dp) (gateway_settle ?k (py_min (pr_actual_cost pr) cost) pr)))
      (g2\<lparr>sidecar := meanwhile env (sidecar g2)\<rparr>) = (g3, Inr y)" and fin: "g' = g3"
    "out = \<lparr>do_idempotency_key = ?k, do_reserve_status = status_name (rr_status x),
       do_settle_status = status_name (or_status y), do_actual_cost = py_min (pr_actual_cost pr) cost, do_provider = pr\<rparr>"
    using p(2) by (auto simp: seqE_def modifyE_def bindE_def ret_def split: prod.splits sum.splits)
  obtain s3 where s3: "settle_route (dp_host dp) (dp_settings dp)
       (gateway_settle ?k (py_min (pr_actual_cost pr) cost) pr) (meanwhile env s1) = (s3, Inr y)"
    "g3 = g2\<lparr>sidecar := s3\<rparr>"
    using s by (elim post_InrE guarded_InrE) (simp add: c s1(2))
  show thesis
    by (rule that [OF s1(3,1) s3(1) _ fin(2), of c]) (simp add: fin(1) s3(2) c s1(2))
qed

section \<open>Successful dispatches\<close>

text \<open>A row that exists in a reachable state is found under its key in every later one.\<close>

lemma operation_persists:
  assumes "digest_ok h" "opened base s0" "reachable_from h cfg s0 s" "reachable_from h cfg s t"
    and "find_operation k (committed s) = Some p"
  obtains q where "find_operation k (committed t) = Some q" "same_identity p q" "e_status p = SETTLED \<Longrightarrow> q = p"
proof -
  have k: "e_idempotency_key p = k" "p \<in> set (escrow_ledger (committed s))"
    using row_where_keyD [of e_idempotency_key k "escrow_ledger (committed s)" p] assms(5) by (auto simp: find_operation_def)
  obtain q where q: "q \<in> set (escrow_ledger (committed t))" "same_identity p q" "e_status p = SETTLED \<longrightarrow> q = p"
    using reachable_extends [OF assms(1-4)] k(2) unfolding ledger_extends_def by blast
  have "reachable_from h cfg s0 t" using assms(3,4) by simp
  then have "keys_inv (committed t)" using reachable_inv(2) [OF assms(1,2)] by (auto simp: ledger_inv_def)
  from find_operation_unique [OF this q(1)] have "find_operation k (committed t) = Some q"
    using q(2) k(1) by (simp add: same_identity_def)
  then show thesis using that q(2,3) by blast
qed

text \<open>C34: a governed dispatch that succeeds is settled in the ledger. Its operation is settled at the cost that the gateway
  reports, which is at most the estimate and at most what the provider charged. If the key was new, the operation
  belongs to the user and the trace of the request, had the estimate reserved, and does not drift above it, so the dispatch
  never locks the wallet.\<close>

theorem successful_dispatch_is_settled:
  assumes dg: "digest_ok (dp_host dp)" and op: "opened base s0"
    and here: "reachable_from (dp_host dp) (dp_settings dp) s0 (sidecar g)"
    and env: "\<And>s. reachable_from (dp_host dp) (dp_settings dp) s (meanwhile env s)"
    and run: "execute_governed_dispatch dp env cfg u tr model cost key prompt messages g = (g', Inr out)"
  shows "\<exists>q. find_operation (do_idempotency_key out) (committed (sidecar g')) = Some q
    \<and> e_status q = SETTLED \<and> do_settle_status out = ''SETTLED''
    \<and> e_actual_amount q = quantize_money (Some (do_actual_cost out))
    \<and> e_actual_amount q \<le> quantize_money (Some cost)
    \<and> e_actual_amount q \<le> quantize_money (Some (pr_actual_cost (do_provider out)))
    \<and> (find_operation (do_idempotency_key out) (committed (sidecar g)) = None \<longrightarrow>
         e_user_id q = u \<and> e_trace_id q = tr \<and> e_reserved_amount q = quantize_money (Some cost)
         \<and> e_drift_amount q = e_actual_amount q - e_reserved_amount q \<and> e_drift_amount q \<le> 0)"
proof -
  let ?k = "op_key_of env key g" and ?h = "dp_host dp" and ?cfg = "dp_settings dp"
  obtain s1 x pr c s3 y where e: "reserve_route ?h ?cfg (gateway_reserve u tr ?k model cost) (sidecar g) = (s1, Inr x)"
    "reserve_request_ok (gateway_reserve u tr ?k model cost)"
    "settle_route ?h ?cfg (gateway_settle ?k (py_min (pr_actual_cost pr) cost) pr) (meanwhile env s1) = (s3, Inr y)"
    "g' = g\<lparr>sidecar := s3, calls := calls g @ [c]\<rparr>"
    "out = \<lparr>do_idempotency_key = ?k, do_reserve_status = status_name (rr_status x),
       do_settle_status = status_name (or_status y), do_actual_cost = py_min (pr_actual_cost pr) cost, do_provider = pr\<rparr>"
    by (rule execute_InrE [OF run])
  have kne: "?k \<noteq> []" using e(2) by (auto simp: reserve_request_ok_def gateway_reserve_def bounded_str_def)
  have s1: "reachable_from ?h ?cfg s0 s1"
    using here cp_step.reserve [OF e(2,1)] by (rule rtranclp.rtrancl_into_rtrancl)
  then have s2: "reachable_from ?h ?cfg s0 (meanwhile env s1)" using env [of s1] by (rule rtranclp_trans)
  note i0 = reachable_inv [OF dg op here] and i2 = reachable_inv [OF dg op s2]
  have settle_fields: "st_outcome (gateway_settle k a p) = O_SETTLED" "st_idempotency_key (gateway_settle k a p) = Some k"
    "st_actual_cost (gateway_settle k a p) = a" for k a p by (simp_all add: gateway_settle_def)
  obtain p q where pq: "find_operation ?k (committed (meanwhile env s1)) = Some p" "find_operation ?k (committed s3) = Some q"
    "settled_from p (quantize_money (Some (py_min (pr_actual_cost pr) cost))) q" "or_status y = SETTLED"
    using settle_route_row [OF i2(1) inv_chain [OF i2(2)] dg settle_fields(1,2) kne e(3)] by (auto simp: settle_fields)
  have le: "e_actual_amount q \<le> quantize_money (Some cost)" "e_actual_amount q \<le> quantize_money (Some (pr_actual_cost pr))"
    using pq(3) quantize_mono [OF py_min_le(2)] quantize_mono [OF py_min_le(1)] by (simp_all add: settled_from_def)
  have fresh: "e_user_id q = u \<and> e_trace_id q = tr \<and> e_reserved_amount q = quantize_money (Some cost)
         \<and> e_drift_amount q = e_actual_amount q - e_reserved_amount q \<and> e_drift_amount q \<le> 0"
    if new: "find_operation ?k (committed (sidecar g)) = None"
  proof -
    define r where "r = gateway_reserve u tr ?k model cost"
    have rf: "rq_idempotency_key r = ?k" "rq_user_id r = u" "rq_trace_id r = tr" "rq_estimated_cost r = cost"
      by (simp_all add: r_def gateway_reserve_def)
    let ?p0 = "reserve_row ?h ?cfg r (clock (sidecar g)) (reserve_identity r (committed (sidecar g)))"
    have "find_operation ?k (committed s1) = Some ?p0"
      using reserve_route_row [OF i0(1) inv_chain [OF i0(2)] dg e(1) [folded r_def]] new by (simp add: rf)
    then obtain p' where p': "find_operation ?k (committed (meanwhile env s1)) = Some p'" "same_identity ?p0 p'"
      by (rule operation_persists [OF dg op s1 env])
    have "same_identity ?p0 q" using same_identity_trans [OF p'(2)] p'(1) pq(1,3) by (simp add: settled_from_def)
    then have id: "e_user_id q = u" "e_trace_id q = tr" "e_reserved_amount q = quantize_money (Some cost)"
      by (simp_all add: same_identity_def reserve_row_def new_operation_def Let_def rf)
    moreover have "e_drift_amount q = e_actual_amount q - e_reserved_amount q"
      using pq(3) i2(2) find_operation_in [OF pq(1)]
      by (auto simp: settled_from_def same_identity_def ledger_inv_def ops_inv_def row_amounts_def)
    ultimately show ?thesis using le(1) by simp
  qed
  show ?thesis
    using pq le fresh by (auto simp: e(4,5) settled_from_def)
qed

section \<open>Failing providers\<close>

text \<open>A provider that fails leaves the reservation behind. When the reservation was granted under a new key and the
  provider then raises, the client gets the exception of the provider, and the ledger still holds the whole estimate in a
  \<open>RESERVED\<close> operation: the gateway reports neither a timeout nor a settlement, so only the sweep releases it.\<close>

theorem failed_provider_keeps_reservation:
  assumes rest: "at_rest (sidecar g)" and ok: "chain_ok (dp_host dp) (committed (sidecar g))" "digest_ok (dp_host dp)"
    and new: "find_operation (op_key_of env key g) (committed (sidecar g)) = None"
    and granted: "post (reserve_delivery env) (guarded dp (sidecar_internal_token cfg)
        (reserve_request_ok (gateway_reserve u tr (op_key_of env key g) model cost))
        (reserve_route (dp_host dp) (dp_settings dp) (gateway_reserve u tr (op_key_of env key g) model cost))) g = (g1, Inr x)"
    and failed: "router_dispatch env cfg model prompt messages g = (g2, Inl e)"
  shows "\<exists>g' p. execute_governed_dispatch dp env cfg u tr model cost key prompt messages g = (g', Inl e)
    \<and> find_operation (op_key_of env key g) (committed (sidecar g')) = Some p
    \<and> e_status p = RESERVED \<and> e_user_id p = u \<and> e_reserved_amount p = quantize_money (Some cost)"
proof -
  define r where "r = gateway_reserve u tr (op_key_of env key g) model cost"
  have rf: "rq_idempotency_key r = op_key_of env key g" "rq_user_id r = u" "rq_estimated_cost r = cost"
    by (simp_all add: r_def gateway_reserve_def)
  obtain s1 where s1: "reserve_route (dp_host dp) (dp_settings dp) r (sidecar g) = (s1, Inr x)" "g1 = g\<lparr>sidecar := s1\<rparr>"
    using granted unfolding r_def [symmetric] by (elim post_InrE guarded_InrE)
  have "router_dispatch env cfg model prompt messages g1 = (g2\<lparr>sidecar := s1\<rparr>, Inl e)"
    using failed by (simp add: s1(2) router_sidecar)
  then have "execute_governed_dispatch dp env cfg u tr model cost key prompt messages g = (g2\<lparr>sidecar := s1\<rparr>, Inl e)"
    using granted by (simp add: execute_governed_dispatch_def getsE_def Let_def bindE_def dispatch_and_settle_def)
  moreover have "find_operation (op_key_of env key g) (committed s1)
      = Some (reserve_row (dp_host dp) (dp_settings dp) r (clock (sidecar g)) (reserve_identity r (committed (sidecar g))))"
    using reserve_route_row [OF rest ok s1(1)] new by (simp add: rf)
  ultimately show ?thesis by (simp add: reserve_row_def new_operation_def Let_def rf)
qed

section \<open>Repeated dispatches\<close>

lemma reserve_route_replay:
  assumes rest: "at_rest s" and open_: "\<not> diagnostic_mode_blocks_writes cfg"
    and valid: "\<not> negative (rq_estimated_cost r)" "rq_trace_cap r = None"
    and known: "find_operation (rq_idempotency_key r) (committed s) = Some p"
      "e_request_fingerprint p = fingerprint_reserve_request h r"
  shows "\<exists>x. reserve_route h cfg r s = (increment ''reserve_idempotent_replay_total'' s, Inr x)"
proof -
  have d: "s\<lparr>db := committed s\<rparr> = s" using rest by (rule session_rest)
  have "reserve_operation h cfg r s = (increment ''reserve_idempotent_replay_total'' s, Inr (replay_result p))"
    using known rest by (simp add: reserve_replay_run at_rest_def)
  moreover have "(increment ''reserve_idempotent_replay_total'' s)\<lparr>db := committed (increment ''reserve_idempotent_replay_total'' s)\<rparr>
      = increment ''reserve_idempotent_replay_total'' s"
    using rest by (simp add: at_rest_def)
  ultimately show ?thesis
    using open_ valid known rest
    by (simp add: reserve_route_def diagnostic_blocks_def bindE_def ret_def catchE_def reserve_admission_def seqE_def
        validate_reserve_request_def idempotency_exists_def get_db_session_def getsE_def d at_rest_def)
qed

lemma settle_route_replay_keeps:
  assumes rest: "at_rest s" and p: "find_operation k (committed s) = Some p" "e_status p = SETTLED"
    and r: "st_idempotency_key r = Some k" "k \<noteq> []" "st_outcome r = O_SETTLED"
  shows "committed (fst (settle_route h cfg r s)) = committed s"
proof -
  let ?C = "\<lambda>_ t. committed t = committed s"
  have applied: "wp (get_db_session (apply_settlement h cfg r)) ?C ?C t" if t: "same_db s t" for t
  proof -
    have d: "db t = committed s" "committed t = committed s" "t\<lparr>db := committed t\<rparr> = t"
      using t rest by (auto simp: same_db_def at_rest_def intro: session_rest)
    have target: "settle_target r (db t) = Some p"
      using p(1) r(1,2) d(1) by (simp add: settle_target_def load_operation_for_update_def truthy_def)
    show ?thesis
      unfolding wp_get_db_session d(3)
      by (rule wp_settle_replay [OF target p(2) r(3)])
        (use d in \<open>auto simp: wp_ext same_db_def intro!: wp_release_inflight_guardrail\<close>)
  qed
  have exc: "wp (settle_except e) ?C ?C t" if "committed t = committed s" for e t
    by (rule wp_same_db [OF keeps_settle_except]) (use that in \<open>auto simp: same_db_def\<close>)
  have "wp (settle_route h cfg r) ?C ?C s"
    unfolding settle_route_def wp_bindE
  proof (rule wp_same_db [OF keeps_diagnostic_blocks])
    fix blocked t assume t: "same_db s t"
    have "wp (seqE (validate_settle_request r) (get_db_session (apply_settlement h cfg r))) ?C ?C t"
      unfolding wp_seqE
      by (rule wp_same_db [OF keeps_validate_settle], erule applied [OF sd.trans [OF t]]) (use t in \<open>auto simp: same_db_def\<close>)
    then show "wp (if blocked then throw (HTTPException 503 ''diagnostic mode: settle writes halted; admin read APIs remain available'')
       else catchE (seqE (validate_settle_request r) (get_db_session (apply_settlement h cfg r))) settle_except) ?C ?C t"
      using t by (auto simp: wp_throw wp_catchE same_db_def elim!: wp_conseq intro: exc)
  qed (simp add: same_db_def)
  then show ?thesis by (cases "settle_route h cfg r s"; cases "snd (settle_route h cfg r s)") (auto simp: wp_def)
qed

lemma post_keeps_committed:
  assumes "committed (fst (m (sidecar g))) = committed (sidecar g)"
  shows "committed (sidecar (fst (post d m g))) = committed (sidecar g)" "calls (fst (post d m g)) = calls g"
  using assms
  by (auto simp: post_def Let_def throw_def catchE_def on_sidecar_def split: delivery.split prod.splits sum.splits)

text \<open>One reservation pays for any number of provider calls. When a client repeats a dispatch under the key of an operation
  that is already settled, the reservation is replayed as a success and the gateway, which does not look at its status, calls the
  provider again; whatever the settlement then answers, nothing is reserved or charged for that call.\<close>

theorem repeated_dispatch_calls_provider_again:
  assumes rest: "at_rest (sidecar g)" and open_: "\<not> diagnostic_mode_blocks_writes (dp_settings dp)"
    and key: "key = Some k" "k \<noteq> []"
    and known: "find_operation k (committed (sidecar g)) = Some p" "e_status p = SETTLED"
      "e_request_fingerprint p = fingerprint_reserve_request (dp_host dp) (gateway_reserve u tr k model cost)"
    and auth: "require_internal_auth (dp_idp dp) (clock (sidecar g)) (dp_auth dp) None (Some (sidecar_internal_token cfg)) = Inr ctx"
    and valid: "reserve_request_ok (gateway_reserve u tr k model cost)"
    and env: "reserve_delivery env = Answered" "meanwhile env = (\<lambda>s. s)"
    and provider: "router_dispatch env cfg model prompt messages g = (g2, Inr pr)"
  shows "length (calls (fst (execute_governed_dispatch dp env cfg u tr model cost key prompt messages g))) = length (calls g) + 1
    \<and> committed (sidecar (fst (execute_governed_dispatch dp env cfg u tr model cost key prompt messages g))) = committed (sidecar g)"
proof -
  define r where "r = gateway_reserve u tr k model cost"
  let ?s = "increment ''reserve_idempotent_replay_total'' (sidecar g)"
  have rf: "rq_idempotency_key r = k" "rq_trace_cap r = None" by (simp_all add: r_def gateway_reserve_def)
  have nn: "\<not> negative (rq_estimated_cost r)" using valid by (simp add: r_def reserve_request_ok_def)
  obtain x where x: "reserve_route (dp_host dp) (dp_settings dp) r (sidecar g) = (?s, Inr x)"
    using reserve_route_replay [OF rest open_ nn rf(2)] known(1,3) by (auto simp: rf r_def [symmetric])
  have k: "op_key_of env key g = k" using key by (simp add: op_key_of_def str_or_def)
  let ?g1 = "g\<lparr>sidecar := ?s\<rparr>"
  have reserve: "post (reserve_delivery env) (guarded dp (sidecar_internal_token cfg) (reserve_request_ok r)
      (reserve_route (dp_host dp) (dp_settings dp) r)) g = (?g1, Inr x)"
    using x auth valid
    by (simp add: env(1) post_def Let_def catchE_def on_sidecar_def guarded_def getsE_def r_def [symmetric])
  obtain c where c: "g2 = g\<lparr>calls := calls g @ [c]\<rparr>" using router_calls [OF provider] by blast
  let ?g3 = "g2\<lparr>sidecar := ?s\<rparr>"
  have route: "router_dispatch env cfg model prompt messages ?g1 = (?g3, Inr pr)"
    using provider by (simp add: router_sidecar)
  let ?st = "gateway_settle k (py_min (pr_actual_cost pr) cost) pr"
  let ?m = "guarded dp (sidecar_internal_token cfg) (settle_request_ok ?st) (settle_route (dp_host dp) (dp_settings dp) ?st)"
  have "committed (fst (?m ?s)) = committed ?s"
    using settle_route_replay_keeps [of ?s k p ?st] rest known(1,2) key(2)
    by (auto simp: guarded_def getsE_def throw_def at_rest_def gateway_settle_def split: sum.split)
  then have settle: "committed (sidecar (fst (post (settle_delivery env) ?m ?g3))) = committed (sidecar g)"
    "calls (fst (post (settle_delivery env) ?m ?g3)) = calls g2"
    using post_keeps_committed [of ?m ?g3 "settle_delivery env"] by simp_all
  have "fst (execute_governed_dispatch dp env cfg u tr model cost key prompt messages g) = fst (post (settle_delivery env) ?m ?g3)"
    using reserve route
    by (simp add: execute_governed_dispatch_def getsE_def k r_def [symmetric] Let_def bindE_def dispatch_and_settle_def
        seqE_def modifyE_def env(2) ret_def split: prod.split sum.split)
  then show ?thesis using settle by (simp add: c)
qed

section \<open>A sample deployment\<close>

definition sample_deployment :: deployment where
  "sample_deployment =
     \<lparr>dp_host = sample_host, dp_settings = default_settings\<lparr>diagnostic_mode_blocks_writes := False, default_trace_cap_amount := Dec 50 (- 12)\<rparr>,
      dp_auth = default_auth_settings ''dev-token'', dp_idp = sample_provider\<rparr>"

definition sample_env :: gateway_env where
  "sample_env =
     \<lparr>openai_create = (\<lambda>_ _ _. None), anthropic_create = (\<lambda>_ _ _ _. None), vertex_generate = (\<lambda>_ _ _. None),
      uuid16 = (\<lambda>n. ''0123456789abcdef''), latency = 5, meanwhile = (\<lambda>s. s),
      reserve_delivery = Answered, settle_delivery = Answered\<rparr>"

definition plain_db :: db where
  "plain_db = sample_db\<lparr>has_tenant_id := False\<rparr>"

definition sample_gateway :: "db \<Rightarrow> gateway" where
  "sample_gateway d = \<lparr>sidecar = idle_sys d, calls = []\<rparr>"

abbreviation sample_dispatch :: "gateway_settings \<Rightarrow> dispatch_outcome gexec" where
  "sample_dispatch cfg \<equiv> execute_governed_dispatch sample_deployment sample_env cfg ''alice'' ''trace-1'' ''gpt-4o''
     (Dec 15 (- 12)) (Some ''gw-1'') (Some ''hello'') None"

abbreviation sample_grant :: reserve_request where
  "sample_grant \<equiv> gateway_reserve ''alice'' ''trace-1'' ''gw-1'' ''gpt-4o'' (Dec 15 (- 12))"

definition granted_sys :: sys where
  "granted_sys = fst (reserve_route sample_host (dp_settings sample_deployment) sample_grant (idle_sys plain_db))"

lemma sample_dp: "dp_host sample_deployment = sample_host" "\<not> diagnostic_mode_blocks_writes (dp_settings sample_deployment)"
  "meanwhile sample_env = (\<lambda>s. s)" "reserve_delivery sample_env = Answered" "settle_delivery sample_env = Answered"
  by (simp_all add: sample_deployment_def sample_env_def)

lemma plain_opened: "opened opening_balance (idle_sys plain_db)"
  by (simp add: opened_def at_rest_def plain_db_def sample_db_def empty_db_def opening_balance_def)

lemma plain_chain: "chain_ok h plain_db"
  by (simp add: chain_ok_def plain_db_def sample_db_def empty_db_def)

lemma sample_grant_ok: "reserve_request_ok sample_grant"
  by code_simp

lemma sample_auth: "require_internal_auth (dp_idp sample_deployment) 1000 (dp_auth sample_deployment) None (Some ''dev-token'')
    = Inr internal_token_context"
  by code_simp

lemma granted_facts:
  "case reserve_route sample_host (dp_settings sample_deployment) sample_grant (idle_sys plain_db) of
     (t, Inl e) \<Rightarrow> False
   | (t, Inr x) \<Rightarrow> map (\<lambda>w. (w_user_id w, w_balance w)) (user_wallets (committed t)) = [(''alice'', 100 * 10 ^ 12 - 15)]
       \<and> map (\<lambda>p. (e_idempotency_key p, e_provider_request_id p)) (escrow_ledger (committed t)) = [(''gw-1'', None)]
       \<and> clock t = 1000 \<and> \<not> has_tenant_id (committed t)"
  by code_simp

lemma granted:
  "(\<exists>x. reserve_route sample_host (dp_settings sample_deployment) sample_grant (idle_sys plain_db) = (granted_sys, Inr x))
   \<and> balance_of ''alice'' (committed granted_sys) = Some (100 * 10 ^ 12 - 15) \<and> \<not> has_tenant_id (committed granted_sys)
   \<and> clock granted_sys = 1000 \<and> map e_idempotency_key (escrow_ledger (committed granted_sys)) = [''gw-1'']"
proof (cases "reserve_route sample_host (dp_settings sample_deployment) sample_grant (idle_sys plain_db)")
  case (Pair t res)
  then have t: "granted_sys = t" by (simp add: granted_sys_def)
  from Pair granted_facts obtain x where "res = Inr x" by (cases res) auto
  then show ?thesis using Pair granted_facts by (auto simp: t balance_of_def find_wallet_def map_eq_Cons_conv)
qed

lemmas granted_run = granted [THEN conjunct1]
  and granted_balance = granted [THEN conjunct2, THEN conjunct1]
  and granted_plain = granted [THEN conjunct2, THEN conjunct2, THEN conjunct1]
  and granted_clock = granted [THEN conjunct2, THEN conjunct2, THEN conjunct2, THEN conjunct1]
  and granted_keys = granted [THEN conjunct2, THEN conjunct2, THEN conjunct2, THEN conjunct2]

lemma plain_fresh: "find_operation k plain_db = None"
  by (simp add: find_operation_def plain_db_def sample_db_def empty_db_def)

text \<open>The whole dispatch through the mock provider.\<close>

definition mock_result :: provider_result where
  "mock_result = (case snd (router_dispatch sample_env default_gateway_settings ''gpt-4o'' (Some ''hello'') None (sample_gateway plain_db)) of
     Inr pr \<Rightarrow> pr)"

abbreviation mock_settle :: settle_request where
  "mock_settle \<equiv> gateway_settle ''gw-1'' (py_min (pr_actual_cost mock_result) (Dec 15 (- 12))) mock_result"

lemma mock_facts:
  "settle_request_ok mock_settle" "quantize_money (Some (st_actual_cost mock_settle)) = 15" "\<not> negative (st_actual_cost mock_settle)"
  by code_simp+

lemma mock_fields: "st_dispatch_attempt_key mock_settle = None" "identity_ok p mock_settle" "st_idempotency_key mock_settle = Some ''gw-1''"
  "st_outcome mock_settle = O_SETTLED"
  by (simp_all add: gateway_settle_def identity_ok_def identity_mismatch_def truthy_def)

lemma mock_route:
  "router_dispatch sample_env default_gateway_settings ''gpt-4o'' (Some ''hello'') None g
    = (g\<lparr>calls := calls g @ [\<lparr>pc_provider = ''mock'', pc_model = ''gpt-4o'', pc_messages = [user_message (Some ''hello'')]\<rparr>]\<rparr>, Inr mock_result)"
  by (simp add: mock_result_def router_dispatch_def default_gateway_settings_def mock_dispatch_def Let_def getsE_def seqE_def
      bindE_def record_call_def modifyE_def ret_def prompt_content_def truthy_def sample_env_def result_of_def)

lemma granted_reachable: "reachable_from sample_host (dp_settings sample_deployment) (idle_sys plain_db) granted_sys"
  using cp_step.reserve [OF sample_grant_ok surjective_pairing] unfolding granted_sys_def by blast

lemma mock_settled: "\<exists>t y. settle_route sample_host (dp_settings sample_deployment) mock_settle granted_sys = (t, Inr y)"
proof -
  obtain x where run: "reserve_route sample_host (dp_settings sample_deployment) sample_grant (idle_sys plain_db) = (granted_sys, Inr x)"
    using granted_run by blast
  note i = reachable_inv [OF sample_digest_ok plain_opened granted_reachable]
  define p where "p = reserve_row sample_host (dp_settings sample_deployment) sample_grant 1000 (reserve_identity sample_grant plain_db)"
  have pf: "e_idempotency_key p = ''gw-1''" "e_status p = RESERVED" "e_user_id p = ''alice''" "e_reserved_amount p = 15"
    by (simp_all add: p_def reserve_row_def new_operation_def Let_def gateway_reserve_def quantize_money_def MONEY_DB_PRECISION_def)
  have found: "find_operation ''gw-1'' (committed granted_sys) = Some p"
    using reserve_route_row [OF _ _ sample_digest_ok run] plain_chain
    by (simp add: at_rest_def p_def find_operation_def plain_db_def sample_db_def empty_db_def gateway_reserve_def)
  have target: "settle_target mock_settle (committed granted_sys) = Some p"
    using found by (simp add: settle_target_def load_operation_for_update_def mock_fields truthy_def)
  have free: "\<not> provider_id_taken ''gw-1'' x (committed granted_sys)" for x
    using granted_keys by (auto simp: provider_id_taken_def map_eq_Cons_conv)
  obtain d where "spec_settle sample_host (dp_settings sample_deployment) p mock_settle 1000 (committed granted_sys) = Some d"
    by (rule untenanted_settle [OF granted_plain, of p "100 * 10 ^ 12 - 15" mock_settle 15])
      (auto simp: granted_balance pf mock_facts mock_fields truthy_def free refund_amount_def correction_debit_def reserved_still_held_def)
  then show ?thesis
    by (intro settle_route_accepts [OF i(1) inv_chain [OF i(2)] sample_digest_ok, where p = p and d = d])
      (simp_all add: sample_dp mock_facts mock_fields truthy_def target pf granted_clock)
qed

lemma reserve_posted:
  assumes "reserve_route sample_host (dp_settings sample_deployment) sample_grant (idle_sys d) = (t, Inr x)"
  shows "post Answered (guarded sample_deployment ''dev-token'' (reserve_request_ok sample_grant)
      (reserve_route sample_host (dp_settings sample_deployment) sample_grant)) (sample_gateway d)
    = ((sample_gateway d)\<lparr>sidecar := t\<rparr>, Inr x)"
  using assms sample_auth sample_grant_ok
  by (simp add: post_def Let_def catchE_def on_sidecar_def guarded_def getsE_def sample_gateway_def)

lemma execute_forward:
  assumes "post (reserve_delivery env) (guarded dp (sidecar_internal_token cfg)
        (reserve_request_ok (gateway_reserve u tr (op_key_of env key g) model cost))
        (reserve_route (dp_host dp) (dp_settings dp) (gateway_reserve u tr (op_key_of env key g) model cost))) g
      = (g\<lparr>sidecar := s1\<rparr>, Inr x)"
    and "router_dispatch env cfg model prompt messages g = (g\<lparr>calls := cs\<rparr>, Inr pr)"
    and "post (settle_delivery env) (guarded dp (sidecar_internal_token cfg)
        (settle_request_ok (gateway_settle (op_key_of env key g) (py_min (pr_actual_cost pr) cost) pr))
        (settle_route (dp_host dp) (dp_settings dp) (gateway_settle (op_key_of env key g) (py_min (pr_actual_cost pr) cost) pr)))
        (g\<lparr>calls := cs, sidecar := meanwhile env s1\<rparr>) = (g3, Inr y)"
  shows "\<exists>out. execute_governed_dispatch dp env cfg u tr model cost key prompt messages g = (g3, Inr out)"
proof -
  have "router_dispatch env cfg model prompt messages (g\<lparr>sidecar := s1\<rparr>) = (g\<lparr>calls := cs, sidecar := s1\<rparr>, Inr pr)"
    using assms(2) by (simp add: router_sidecar)
  then show ?thesis
    using assms(1,3)
    by (simp add: execute_governed_dispatch_def getsE_def Let_def bindE_def dispatch_and_settle_def seqE_def modifyE_def ret_def)
qed

lemma settle_posted:
  assumes "settle_route sample_host (dp_settings sample_deployment) mock_settle granted_sys = (t, Inr y)" "sidecar g = granted_sys"
  shows "post Answered (guarded sample_deployment ''dev-token'' (settle_request_ok mock_settle)
      (settle_route sample_host (dp_settings sample_deployment) mock_settle)) g = (g\<lparr>sidecar := t\<rparr>, Inr y)"
  using assms sample_auth mock_facts(1)
  by (simp add: post_def Let_def catchE_def on_sidecar_def guarded_def getsE_def granted_clock)

lemma sample_key: "op_key_of sample_env (Some ''gw-1'') g = ''gw-1''" "sidecar_internal_token default_gateway_settings = ''dev-token''"
  "sidecar_internal_token (default_gateway_settings\<lparr>provider_mode := m\<rparr>) = ''dev-token''" "sidecar (sample_gateway d) = idle_sys d"
  by (simp_all add: op_key_of_def str_or_def default_gateway_settings_def sample_gateway_def)

lemma mock_dispatch_run: "\<exists>g' out. sample_dispatch default_gateway_settings (sample_gateway plain_db) = (g', Inr out)"
proof -
  obtain x where run: "reserve_route sample_host (dp_settings sample_deployment) sample_grant (idle_sys plain_db) = (granted_sys, Inr x)"
    using granted_run by blast
  obtain t y where st: "settle_route sample_host (dp_settings sample_deployment) mock_settle granted_sys = (t, Inr y)"
    using mock_settled by blast
  have "\<exists>out. sample_dispatch default_gateway_settings (sample_gateway plain_db)
      = ((sample_gateway plain_db)\<lparr>calls := calls (sample_gateway plain_db) @ [\<lparr>pc_provider = ''mock'', pc_model = ''gpt-4o'',
            pc_messages = [user_message (Some ''hello'')]\<rparr>], sidecar := t\<rparr>, Inr out)"
    by (rule execute_forward [where x = x and y = y and ?s1.0 = granted_sys, OF _ mock_route])
      (use reserve_posted [OF run] settle_posted [OF st] in \<open>simp_all add: sample_dp sample_key\<close>)
  then show ?thesis by blast
qed


theorem successful_dispatch_is_settled_witness:
  "\<exists>g' out q. sample_dispatch default_gateway_settings (sample_gateway plain_db) = (g', Inr out)
     \<and> find_operation (do_idempotency_key out) (committed (sidecar g')) = Some q \<and> e_status q = SETTLED"
proof -
  obtain g' out where run: "sample_dispatch default_gateway_settings (sample_gateway plain_db) = (g', Inr out)"
    using mock_dispatch_run by blast
  have "\<exists>q. find_operation (do_idempotency_key out) (committed (sidecar g')) = Some q \<and> e_status q = SETTLED"
    using successful_dispatch_is_settled [OF _ plain_opened _ _ run]
    by (simp add: sample_dp sample_digest_ok) (simp add: sample_gateway_def, blast)
  then show ?thesis using run by blast
qed

theorem failed_provider_keeps_reservation_witness:
  "\<exists>g' e p. sample_dispatch (default_gateway_settings\<lparr>provider_mode := ''live''\<rparr>) (sample_gateway plain_db) = (g', Inl e)
     \<and> find_operation ''gw-1'' (committed (sidecar g')) = Some p \<and> e_status p = RESERVED \<and> e_reserved_amount p = 15"
proof -
  let ?cfg = "default_gateway_settings\<lparr>provider_mode := ''live''\<rparr>"
  obtain x where run: "reserve_route sample_host (dp_settings sample_deployment) sample_grant (idle_sys plain_db) = (granted_sys, Inr x)"
    using granted_run by blast
  have k: "op_key_of sample_env (Some ''gw-1'') (sample_gateway plain_db) = ''gw-1''" by (simp add: op_key_of_def str_or_def)
  have failed: "router_dispatch sample_env ?cfg ''gpt-4o'' (Some ''hello'') None (sample_gateway plain_db)
      = (sample_gateway plain_db, Inl (HTTPException 503 ''OPENAI_API_KEY is not configured''))"
  proof -
    have "resolve_provider_name ''gpt-4o'' = Inr ''openai''" by code_simp
    then show ?thesis
      by (simp add: router_dispatch_def default_gateway_settings_def truthy_def openai_dispatch_def throw_def)
  qed
  have q: "quantize_money (Some (Dec 15 (- 12))) = 15" by code_simp
  have "\<exists>g' p. sample_dispatch ?cfg (sample_gateway plain_db) = (g', Inl (HTTPException 503 ''OPENAI_API_KEY is not configured''))
      \<and> find_operation (op_key_of sample_env (Some ''gw-1'') (sample_gateway plain_db)) (committed (sidecar g')) = Some p
      \<and> e_status p = RESERVED \<and> e_user_id p = ''alice'' \<and> e_reserved_amount p = quantize_money (Some (Dec 15 (- 12)))"
    by (rule failed_provider_keeps_reservation [where x = x and ?g1.0 = "(sample_gateway plain_db)\<lparr>sidecar := granted_sys\<rparr>",
        OF _ _ _ _ _ failed])
      (use reserve_posted [OF run] in \<open>simp_all add: sample_key sample_dp at_rest_def plain_chain sample_digest_ok plain_fresh\<close>)
  then show ?thesis unfolding q k by blast
qed

text \<open>A settled operation of the same request, found in the database.\<close>

definition paid_op :: escrow where
  "paid_op = (reserve_row sample_host (dp_settings sample_deployment) sample_grant 900 None)\<lparr>e_status := SETTLED,
     e_actual_amount := 15, e_settled_at := Some 950\<rparr>"

theorem repeated_dispatch_calls_provider_again_witness:
  "length (calls (fst (sample_dispatch default_gateway_settings (sample_gateway (op_db 100 paid_op))))) = 1
   \<and> committed (sidecar (fst (sample_dispatch default_gateway_settings (sample_gateway (op_db 100 paid_op))))) = op_db 100 paid_op"
proof -
  have f: "find_operation ''gw-1'' (op_db 100 paid_op) = Some paid_op" "e_status paid_op = SETTLED"
    "e_request_fingerprint paid_op = fingerprint_reserve_request sample_host sample_grant"
    by (simp_all add: paid_op_def reserve_row_def new_operation_def Let_def find_operation_def op_db_def gateway_reserve_def)
  show ?thesis
    using repeated_dispatch_calls_provider_again [where dp = sample_deployment and env = sample_env and cfg = default_gateway_settings
        and g = "sample_gateway (op_db 100 paid_op)" and key = "Some ''gw-1''" and u = "''alice''" and tr = "''trace-1''" and k = "''gw-1''"
        and model = "''gpt-4o''" and cost = "Dec 15 (- 12)" and p = paid_op and ctx = internal_token_context, OF _ _ _ _ _ _ _ _ _ _ _ mock_route]
      f sample_auth sample_grant_ok
    by (simp add: sample_dp at_rest_def sample_gateway_def default_gateway_settings_def)
qed

end
