(* ===== verification/Admission.thy ===== *)
theory Admission
  imports Guardrails
begin

text \<open>
  What the in-process guardrails guarantee over any sequence of calls: the token bucket, the requests per minute and
  the slots of \<^verbatim>\<open>sidecar/app/fallback_limiter.py\<close>, and when the local circuit of
  \<^verbatim>\<open>sidecar/app/circuit_breaker.py\<close> is open.
\<close>

section \<open>Runs of the limiter\<close>

text \<open>A call with the clock and the monotonic time at which it happens.\<close>

datatype limiter_call =
    Check int rat string string string
  | Release string

fun serve_call :: "settings \<Rightarrow> limiter_call \<Rightarrow> limiter \<Rightarrow> limiter \<times> bool" where
  "serve_call cfg (Check now tick u t k) l =
     (case limiter_check cfg now tick u t k l of (l', _, err) \<Rightarrow> (l', err = None))"
| "serve_call cfg (Release u) l = (limiter_release u l, False)"

text \<open>The limiter after the calls, and the calls that were admitted.\<close>

fun limiter_run :: "settings \<Rightarrow> limiter_call list \<Rightarrow> limiter \<Rightarrow> limiter \<times> limiter_call list" where
  "limiter_run cfg [] l = (l, [])"
| "limiter_run cfg (c # cs) l =
     (case serve_call cfg c l of (l1, ok) \<Rightarrow>
      case limiter_run cfg cs l1 of (l2, admitted) \<Rightarrow> (l2, if ok then c # admitted else admitted))"

fun call_tick :: "limiter_call \<Rightarrow> rat option" where
  "call_tick (Check now tick u t k) = Some tick"
| "call_tick (Release u) = None"

definition ticks_until :: "rat \<Rightarrow> limiter_call list \<Rightarrow> bool" where
  "ticks_until t1 cs = (\<forall>c \<in> set cs. case call_tick c of None \<Rightarrow> True | Some t \<Rightarrow> t \<le> t1)"

text \<open>The state of a fresh process that started at \<open>t0\<close>.\<close>

definition fresh_limiter :: "rat \<Rightarrow> limiter" where
  "fresh_limiter t0 =
     \<lparr>rate_windows = (\<lambda>_. None), inflight = (\<lambda>_. 0), trace_depth = (\<lambda>_. []), tokens = 0, last_refill = t0, initialized = False\<rparr>"

section \<open>The token bucket\<close>

text \<open>What is in the bucket once it is filled.\<close>

definition bucket :: "settings \<Rightarrow> limiter \<Rightarrow> rat" where
  "bucket cfg l = (if initialized l then tokens l else fallback_token_bucket_capacity cfg)"

definition bucket_ok :: "settings \<Rightarrow> limiter \<Rightarrow> bool" where
  "bucket_ok cfg l = (0 \<le> bucket cfg l \<and> bucket cfg l \<le> fallback_token_bucket_capacity cfg)"

lemma limiter_check_bucket:
  assumes "limiter_check cfg now tick u t k l = (l', c, err)" "0 \<le> fallback_global_tokens_per_second cfg"
    and "bucket_ok cfg l"
  shows "bucket_ok cfg l'" "last_refill l' = max (last_refill l) tick"
    "bucket cfg l' + (if err = None then 1 else 0)
       \<le> bucket cfg l + fallback_global_tokens_per_second cfg * (last_refill l' - last_refill l)"
proof -
  let ?r = "fallback_global_tokens_per_second cfg" and ?l1 = "refill_tokens cfg tick (prime_bucket cfg l)"
  have refill: "initialized ?l1" "last_refill ?l1 = max (last_refill l) tick" "bucket_ok cfg ?l1"
    "bucket cfg ?l1 \<le> bucket cfg l + ?r * (last_refill ?l1 - last_refill l)"
    using assms(2,3)
    by (auto simp: refill_tokens_def prime_bucket_def Let_def bucket_def bucket_ok_def max_def mult.commute)
  have rest: "initialized l' = initialized ?l1" "last_refill l' = last_refill ?l1"
    "tokens l' = tokens ?l1 - (if err = None then 1 else 0)" "err = None \<Longrightarrow> 1 \<le> tokens ?l1"
    using assms(1) by (auto simp: limiter_check_def Let_def not_less split: if_splits)
  show "last_refill l' = max (last_refill l) tick" using refill(2) rest(2) by simp
  show "bucket_ok cfg l'" using refill(1,3) rest by (auto simp: bucket_ok_def bucket_def)
  show "bucket cfg l' + (if err = None then 1 else 0) \<le> bucket cfg l + ?r * (last_refill l' - last_refill l)"
    using refill rest by (auto simp: bucket_def)
qed

lemma limiter_release_bucket:
  "bucket cfg (limiter_release u l) = bucket cfg l" "last_refill (limiter_release u l) = last_refill l"
  by (simp_all add: limiter_release_def bucket_def)

lemma limiter_run_bucket:
  assumes "limiter_run cfg cs l = (l', admitted)" "0 \<le> fallback_global_tokens_per_second cfg" "bucket_ok cfg l"
    and "ticks_until t1 cs" "last_refill l \<le> t1"
  shows "bucket_ok cfg l' \<and> last_refill l' \<le> t1 \<and> rat_of_nat (length admitted) + bucket cfg l'
    \<le> bucket cfg l + fallback_global_tokens_per_second cfg * (last_refill l' - last_refill l)"
  using assms
proof (induction cs arbitrary: l l' admitted)
  case Nil
  then show ?case by simp
next
  case (Cons c cs)
  obtain l1 ok rest where c: "serve_call cfg c l = (l1, ok)" "limiter_run cfg cs l1 = (l', rest)"
    "admitted = (if ok then c # rest else rest)"
    using Cons.prems(1) by (auto split: prod.splits)
  have step: "bucket_ok cfg l1" "last_refill l1 \<le> t1"
    "bucket cfg l1 + (if ok then 1 else 0) \<le> bucket cfg l + fallback_global_tokens_per_second cfg * (last_refill l1 - last_refill l)"
  proof (atomize (full), cases c)
    case (Check now tick u t k)
    then obtain ctr err where e: "limiter_check cfg now tick u t k l = (l1, ctr, err)" "ok = (err = None)"
      using c(1) by (auto split: prod.splits)
    from Check Cons.prems(4) have "tick \<le> t1" by (simp add: ticks_until_def)
    then show "bucket_ok cfg l1 \<and> last_refill l1 \<le> t1 \<and> bucket cfg l1 + (if ok then 1 else 0)
        \<le> bucket cfg l + fallback_global_tokens_per_second cfg * (last_refill l1 - last_refill l)"
      using limiter_check_bucket [OF e(1) Cons.prems(2,3)] e(2) Cons.prems(5) by simp
  next
    case (Release u)
    then show "bucket_ok cfg l1 \<and> last_refill l1 \<le> t1 \<and> bucket cfg l1 + (if ok then 1 else 0)
        \<le> bucket cfg l + fallback_global_tokens_per_second cfg * (last_refill l1 - last_refill l)"
      using c(1) Cons.prems(3,5) by (auto simp: limiter_release_bucket bucket_ok_def)
  qed
  have "ticks_until t1 cs" using Cons.prems(4) by (simp add: ticks_until_def)
  from Cons.IH [OF c(2) Cons.prems(2) step(1) this step(2)] step(3) show ?case
    by (auto simp: c(3) algebra_simps)
qed

text \<open>C38: the token bucket bounds the load. From the start of a process at \<open>t0\<close> until \<open>t1\<close> the limiter admits at most the capacity of
  the bucket plus its rate times the elapsed time, whatever the order, the clocks and the users of the calls and however many slots
  are released in between.\<close>

theorem token_bucket_bounds_load:
  assumes "limiter_run cfg cs (fresh_limiter t0) = (l, admitted)" "0 \<le> fallback_global_tokens_per_second cfg"
    and "0 \<le> fallback_token_bucket_capacity cfg" "ticks_until t1 cs" "t0 \<le> t1"
  shows "rat_of_nat (length admitted)
    \<le> fallback_token_bucket_capacity cfg + fallback_global_tokens_per_second cfg * (t1 - t0)"
proof -
  let ?r = "fallback_global_tokens_per_second cfg"
  have "bucket_ok cfg (fresh_limiter t0)" using assms(3) by (simp add: bucket_ok_def bucket_def fresh_limiter_def)
  from limiter_run_bucket [OF assms(1,2) this assms(4)] assms(5)
  have b: "0 \<le> bucket cfg l" "last_refill l \<le> t1"
    "rat_of_nat (length admitted) + bucket cfg l \<le> fallback_token_bucket_capacity cfg + ?r * (last_refill l - t0)"
    by (auto simp: bucket_ok_def bucket_def fresh_limiter_def)
  have "?r * (last_refill l - t0) \<le> ?r * (t1 - t0)" using b(2) assms(2) by (simp add: mult_left_mono)
  then show ?thesis using b(1,3) by linarith
qed

definition sample_burst :: "limiter_call list" where
  "sample_burst = map (\<lambda>i. Check 0 1 (''u'' @ nat_str i) ''t'' (nat_str i)) [0..<4]"

theorem token_bucket_bounds_load_witness:
  "length (snd (limiter_run (default_settings\<lparr>fallback_token_bucket_capacity := 1, fallback_global_tokens_per_second := 1\<rparr>)
      sample_burst (fresh_limiter 0))) \<le> 2"
proof -
  let ?cfg = "default_settings\<lparr>fallback_token_bucket_capacity := 1, fallback_global_tokens_per_second := 1\<rparr>"
  have "rat_of_nat (length (snd (limiter_run ?cfg sample_burst (fresh_limiter 0)))) \<le> 1 + 1 * (1 - 0)"
    using token_bucket_bounds_load [of ?cfg sample_burst 0 "fst (limiter_run ?cfg sample_burst (fresh_limiter 0))"
        "snd (limiter_run ?cfg sample_burst (fresh_limiter 0))" 1]
    by (simp add: ticks_until_def sample_burst_def)
  then show ?thesis by simp
qed

section \<open>Slots\<close>

fun call_user :: "limiter_call \<Rightarrow> string" where
  "call_user (Check now tick u t k) = u"
| "call_user (Release u) = u"

definition releases :: "string \<Rightarrow> limiter_call list \<Rightarrow> nat" where
  "releases u cs = count_where (\<lambda>c. c = Release u) cs"

lemma limiter_check_inflight:
  assumes "limiter_check cfg now tick u t k l = (l', c, err)"
  shows "inflight l' v = inflight l v + (if err = None \<and> v = u then 1 else 0)"
    "err = None \<Longrightarrow> inflight l' u \<le> fallback_max_user_inflight cfg"
  using assms by (auto simp: limiter_check_def Let_def refill_tokens_def prime_bucket_def split: if_splits)

lemma limiter_run_inflight:
  assumes "limiter_run cfg cs l = (l', admitted)" "0 \<le> inflight l u"
  shows "0 \<le> inflight l' u \<and> inflight l' u \<le> max (inflight l u) (fallback_max_user_inflight cfg)
    \<and> inflight l u + int (count_where (\<lambda>c. call_user c = u) admitted) - int (releases u cs) \<le> inflight l' u
    \<and> inflight l' u \<le> inflight l u + int (count_where (\<lambda>c. call_user c = u) admitted)"
  using assms
proof (induction cs arbitrary: l l' admitted)
  case Nil
  then show ?case by (simp add: releases_def)
next
  case (Cons c cs)
  obtain l1 ok rest where c: "serve_call cfg c l = (l1, ok)" "limiter_run cfg cs l1 = (l', rest)"
    "admitted = (if ok then c # rest else rest)"
    using Cons.prems(1) by (auto split: prod.splits)
  show ?case
  proof (cases c)
    case (Check now tick v t k)
    then obtain ctr err where e: "limiter_check cfg now tick v t k l = (l1, ctr, err)" "ok = (err = None)"
      using c(1) by (auto split: prod.splits)
    note i = limiter_check_inflight [OF e(1)]
    have "0 \<le> inflight l1 u" using i(1) [of u] Cons.prems(2) by simp
    from Cons.IH [OF c(2) this] i(1) [of u] i(2) show ?thesis
      by (auto simp: Check c(3) e(2) releases_def)
  next
    case (Release v)
    then have l1: "l1 = limiter_release v l" "\<not> ok" using c(1) by auto
    have i: "0 \<le> inflight l1 u" "inflight l1 u \<le> inflight l u" "inflight l u - (if v = u then 1 else 0) \<le> inflight l1 u"
      using Cons.prems(2) by (auto simp: l1(1) limiter_release_def)
    from Cons.IH [OF c(2) i(1)] i(2,3) show ?thesis by (auto simp: Release c(3) l1(2) releases_def)
  qed
qed

text \<open>Slots are balanced and bounded. After any calls on a fresh limiter a user holds between zero and the maximum number of
  slots, and at least as many as operations were admitted minus slots released: a slot is never lost, and only a release gives one back.\<close>

theorem slots_are_bounded:
  assumes "limiter_run cfg cs (fresh_limiter t0) = (l, admitted)" "0 \<le> fallback_max_user_inflight cfg"
  shows "0 \<le> inflight l u \<and> inflight l u \<le> fallback_max_user_inflight cfg
    \<and> int (count_where (\<lambda>c. call_user c = u) admitted) - int (releases u cs) \<le> inflight l u
    \<and> inflight l u \<le> int (count_where (\<lambda>c. call_user c = u) admitted)"
  using limiter_run_inflight [OF assms(1), of u] assms(2) by (auto simp: fresh_limiter_def)

theorem slots_are_bounded_witness:
  "inflight (fst (limiter_run default_settings sample_burst (fresh_limiter 0))) ''u0'' \<le> 5"
proof -
  have "fallback_max_user_inflight default_settings = 5" by (simp add: default_settings_def)
  then show ?thesis
    using slots_are_bounded [of default_settings sample_burst 0 "fst (limiter_run default_settings sample_burst (fresh_limiter 0))"
        "snd (limiter_run default_settings sample_burst (fresh_limiter 0))" "''u0''"] by simp
qed

section \<open>The local circuit\<close>

datatype circuit_event = Failed rat | Succeeded rat

fun event_time :: "circuit_event \<Rightarrow> rat" where
  "event_time (Failed t) = t"
| "event_time (Succeeded t) = t"

text \<open>One report of a provider at its time, through the methods of the fallback.\<close>

fun circuit_report :: "settings \<Rightarrow> string \<Rightarrow> circuit_event \<Rightarrow> sys \<Rightarrow> sys" where
  "circuit_report cfg p (Failed t) s = fst (local_record_failure cfg p (s\<lparr>monotonic := t\<rparr>))"
| "circuit_report cfg p (Succeeded t) s = fst (local_record_success p (s\<lparr>monotonic := t\<rparr>))"

definition circuit_after :: "settings \<Rightarrow> string \<Rightarrow> circuit_event list \<Rightarrow> sys \<Rightarrow> sys" where
  "circuit_after cfg p evs s = foldl (\<lambda>s e. circuit_report cfg p e s) s evs"

text \<open>
  The reference: the failures since the last success, those of them at which the threshold was reached within the
  window, and an interval of fixed length after each of these in which the circuit is open.
\<close>

definition since_success :: "circuit_event list \<Rightarrow> rat list" where
  "since_success evs = foldl (\<lambda>fs e. case e of Failed t \<Rightarrow> fs @ [t] | Succeeded _ \<Rightarrow> []) [] evs"

definition recent :: "settings \<Rightarrow> rat \<Rightarrow> rat list \<Rightarrow> rat list" where
  "recent cfg now fs = filter (\<lambda>f. now - of_int (circuit_breaker_window_seconds cfg) \<le> f) fs"

definition trips :: "settings \<Rightarrow> rat list \<Rightarrow> rat list" where
  "trips cfg fs =
     map (\<lambda>i. fs ! i) (filter (\<lambda>i. circuit_breaker_failure_threshold cfg \<le> int (length (recent cfg (fs ! i) (take (Suc i) fs))))
       [0..<length fs])"

definition circuit_open :: "settings \<Rightarrow> circuit_event list \<Rightarrow> rat \<Rightarrow> bool" where
  "circuit_open cfg evs t =
     (\<exists>f \<in> set (trips cfg (since_success evs)). t < f + of_int (circuit_breaker_open_seconds cfg))"

lemma trips_snoc:
  "trips cfg (fs @ [f]) = trips cfg fs
    @ (if circuit_breaker_failure_threshold cfg \<le> int (length (recent cfg f (fs @ [f]))) then [f] else [])"
proof -
  have "filter (\<lambda>i. circuit_breaker_failure_threshold cfg \<le> int (length (recent cfg ((fs @ [f]) ! i) (take (Suc i) (fs @ [f]))))) [0..<length fs]
      = filter (\<lambda>i. circuit_breaker_failure_threshold cfg \<le> int (length (recent cfg (fs ! i) (take (Suc i) fs)))) [0..<length fs]"
    by (rule filter_cong) (auto simp: nth_append)
  then show ?thesis by (auto simp: trips_def nth_append)
qed

lemma trips_sub: "set (trips cfg fs) \<subseteq> set fs"
  by (auto simp: trips_def)

lemma trips_sorted: "sorted fs \<Longrightarrow> sorted (trips cfg fs)"
proof (induction fs rule: rev_induct)
  case (snoc f fs)
  then have "sorted fs" "\<forall>x \<in> set fs. x \<le> f" by (simp_all add: sorted_append)
  then show ?case using snoc.IH trips_sub [of cfg fs] by (auto simp: trips_snoc sorted_append)
qed (simp add: trips_def)

lemma dropWhile_sorted: "sorted xs \<Longrightarrow> dropWhile (\<lambda>t. t < (a :: rat)) xs = filter (\<lambda>t. a \<le> t) xs"
proof (induction xs)
  case (Cons x xs)
  then have "a \<le> x \<Longrightarrow> filter (\<lambda>t. a \<le> t) xs = xs" by (auto intro!: filter_True)
  then show ?case using Cons by (auto simp: not_less)
qed simp

lemma failure_window_recent:
  assumes "sorted (fs @ [now])" "0 \<le> circuit_breaker_window_seconds cfg" "fs \<noteq> [] \<Longrightarrow> old = recent cfg (last fs) fs" "fs = [] \<Longrightarrow> old = []"
  shows "failure_window cfg now old = recent cfg now (fs @ [now])"
proof -
  let ?w = "of_int (circuit_breaker_window_seconds cfg) :: rat"
  have w: "0 \<le> ?w" using assms(2) by simp
  have "filter (\<lambda>t. now - ?w \<le> t) old = recent cfg now fs"
  proof (cases "fs = []")
    case False
    then have "last fs \<le> now" using assms(1) by (simp add: sorted_append)
    then show ?thesis using False assms(3) by (auto simp: recent_def intro!: filter_cong)
  qed (use assms(4) in \<open>simp add: recent_def\<close>)
  moreover have "sorted (old @ [now])"
    using assms by (cases "fs = []") (auto simp: sorted_append recent_def sorted_wrt_filter)
  ultimately show ?thesis using w by (simp add: failure_window_def dropWhile_sorted recent_def)
qed

definition circuit_tracks :: "settings \<Rightarrow> string \<Rightarrow> rat list \<Rightarrow> sys \<Rightarrow> bool" where
  "circuit_tracks cfg p fs s =
     (failures (breaker s) p = (if fs = [] then [] else recent cfg (last fs) fs)
      \<and> open_until (breaker s) p = (if trips cfg fs = [] then None
          else Some (last (trips cfg fs) + of_int (circuit_breaker_open_seconds cfg))))"

lemma circuit_after_tracks:
  assumes "sorted (map event_time evs)" "0 \<le> circuit_breaker_window_seconds cfg" "circuit_tracks cfg p [] s"
  shows "circuit_tracks cfg p (since_success evs) (circuit_after cfg p evs s)
    \<and> set (since_success evs) \<subseteq> event_time ` set evs \<and> sorted (since_success evs)"
  using assms(1)
proof (induction evs rule: rev_induct)
  case Nil
  then show ?case using assms(3) by (simp add: since_success_def circuit_after_def)
next
  case (snoc e evs)
  let ?fs = "since_success evs" and ?s = "circuit_after cfg p evs s"
  have IH: "circuit_tracks cfg p ?fs ?s" "set ?fs \<subseteq> event_time ` set evs" "sorted ?fs"
    using snoc by (simp_all add: sorted_append)
  show ?case
  proof (cases e)
    case (Failed t)
    have srt: "sorted (?fs @ [t])" using snoc.prems IH(2,3) Failed by (force simp: sorted_append)
    have win: "failure_window cfg t (failures (breaker ?s) p) = recent cfg t (?fs @ [t])"
      by (rule failure_window_recent [OF srt assms(2)]) (use IH(1) in \<open>auto simp: circuit_tracks_def\<close>)
    have "circuit_tracks cfg p (?fs @ [t]) (circuit_report cfg p e ?s)"
      using IH(1) win
      by (auto simp: Failed circuit_tracks_def trips_snoc local_record_failure_def seqE_def bindE_def modifyE_def getsE_def whenE_def
          note_failure_def open_circuit_def increment_def increment_by_def ret_def)
    moreover have "set (?fs @ [t]) \<subseteq> event_time ` set (evs @ [e])" using IH(2) Failed by auto
    ultimately show ?thesis using srt by (simp add: circuit_after_def since_success_def Failed)
  next
    case (Succeeded t)
    then show ?thesis
      by (simp add: circuit_after_def since_success_def circuit_tracks_def trips_def local_record_success_def modifyE_def)
  qed
qed

text \<open>The local circuit is open exactly when the reference says so. After any reports of a provider in the order of their times,
  \<open>assert_closed\<close> at a later moment raises if and only if, since the last success, some failure completed the threshold within the window
  and less than the configured time has passed since it.\<close>

theorem local_circuit_decides:
  assumes "sorted (map event_time evs)" "0 \<le> circuit_breaker_window_seconds cfg" "0 \<le> t"
    and "failures (breaker s) p = []" "open_until (breaker s) p = None"
  shows "snd (local_assert_closed p ((circuit_after cfg p evs s)\<lparr>monotonic := t\<rparr>))
    = (if circuit_open cfg evs t then Inl (CircuitOpenError (''local circuit open for provider '' @ p)) else Inr ())"
proof -
  let ?fs = "since_success evs" and ?o = "of_int (circuit_breaker_open_seconds cfg) :: rat"
  have "circuit_tracks cfg p [] s" using assms(4,5) by (simp add: circuit_tracks_def trips_def)
  from circuit_after_tracks [OF assms(1,2) this]
  have tr: "open_until (breaker (circuit_after cfg p evs s)) p
      = (if trips cfg ?fs = [] then None else Some (last (trips cfg ?fs) + ?o))" and srt: "sorted (trips cfg ?fs)"
    by (simp_all add: circuit_tracks_def trips_sorted)
  have "circuit_open cfg evs t \<longleftrightarrow> trips cfg ?fs \<noteq> [] \<and> t < last (trips cfg ?fs) + ?o"
  proof (cases "trips cfg ?fs" rule: rev_cases)
    case Nil
    then show ?thesis by (simp add: circuit_open_def)
  next
    case (snoc xs x)
    then have "\<forall>f \<in> set xs. f \<le> x" using srt by (simp add: sorted_append)
    then show ?thesis unfolding circuit_open_def snoc by fastforce
  qed
  then show ?thesis
    using assms(3) tr
    by (auto simp: local_assert_closed_def getsE_def seqE_def bindE_def modifyE_def throw_def ret_def)
qed

definition sample_reports :: "circuit_event list" where
  "sample_reports = [Failed 1, Succeeded 2, Failed 10, Failed 11, Failed 12, Failed 13, Failed 14]"

theorem local_circuit_decides_witness:
  "snd (local_assert_closed ''openai'' ((circuit_after default_settings ''openai'' sample_reports (idle_sys sample_db))\<lparr>monotonic := 40\<rparr>))
      = Inl (CircuitOpenError ''local circuit open for provider openai'')
   \<and> snd (local_assert_closed ''openai'' ((circuit_after default_settings ''openai'' sample_reports (idle_sys sample_db))\<lparr>monotonic := 50\<rparr>))
      = Inr ()"
proof -
  have sp: "circuit_open default_settings sample_reports 40" "\<not> circuit_open default_settings sample_reports 50"
    by code_simp+
  have st: "sorted (map event_time sample_reports)" "0 \<le> circuit_breaker_window_seconds default_settings"
    "failures (breaker (idle_sys sample_db)) ''openai'' = []" "open_until (breaker (idle_sys sample_db)) ''openai'' = None"
    by (simp_all add: sample_reports_def default_settings_def idle_sys_def)
  have "(0 :: rat) \<le> 40" "(0 :: rat) \<le> 50" by simp_all
  from local_circuit_decides [OF st(1,2) this(1) st(3,4)] local_circuit_decides [OF st(1,2) this(2) st(3,4)] sp
  show ?thesis by simp
qed

end
