(* ===== verification/Console_Contract.thy ===== *)
theory Console_Contract
  imports Scenario
begin

text \<open>
  What the privileged routes promise: anchors of the ledger head, the audit log, and an anchor that is refused.
\<close>

section \<open>Running the anchor route\<close>

lemma wp_emit_external_anchor:
  "(\<And>x t. same_db s t \<Longrightarrow> Q x t) \<Longrightarrow> wp (emit_external_anchor cfg head) Q E s"
  unfolding emit_external_anchor_def anchor_head_to_s3_def
  by (auto simp: wp_simps wp_ext same_db_def split: option.split)

lemma insert_anchor_anchors:
  "ledger_chain_anchors d' = ledger_chain_anchors d \<Longrightarrow> next_anchor_id d' = next_anchor_id d
     \<Longrightarrow> ledger_chain_anchors (insert_anchor head n m source d') = ledger_chain_anchors (insert_anchor head n m source d)"
  by (simp add: insert_anchor_def)

lemma insert_anchor_head: "head \<in> an_head_hash ` set (ledger_chain_anchors (insert_anchor head n m source d))"
  by (auto simp: insert_anchor_def)

lemma log_action_flags [simp]:
  "has_anchor_table (log_action h now ctx action resource details d) = has_anchor_table d"
  "next_anchor_id (log_action h now ctx action resource details d) = next_anchor_id d"
  "has_row_hash (log_action h now ctx action resource details d) = has_row_hash d"
  "has_checkpoint_table (log_action h now ctx action resource details d) = has_checkpoint_table d"
  by (simp_all add: log_action_def Let_def seal_admin_audit_row_def insert_audit_row_def)

text \<open>The row that an anchor request adds to the audit log.\<close>

abbreviation anchor_logged :: "host \<Rightarrow> auth_context \<Rightarrow> sys \<Rightarrow> db" where
  "anchor_logged h ctx s \<equiv>
     log_action h (clock s) ctx ''ledger.anchor_head'' ''/internal/ledger/anchor-head'' [] (committed s)"

lemma verified_head_nonempty:
  assumes "digest_ok h" "rows \<noteq> []"
  shows "chain_head (event_digest h) GENESIS_HASH rows \<noteq> []"
  using assms by (cases rows rule: rev_cases) (simp_all add: chain_head_append event_digest_payload digest_ok_def)

lemma wp_anchor_verified_chain_head:
  assumes inv: "plane_inv h base (db s)" and dg: "digest_ok h" and ne: "ledger_events (db s) \<noteq> []"
    and tab: "has_anchor_table (db s)"
    and Q: "\<And>r t. ar_head_hash r = Some (chain_head (event_digest h) GENESIS_HASH (ledger_events (db s)))
      \<Longrightarrow> ar_sealed_count r = length (ledger_events (db s))
      \<Longrightarrow> admin_audit_log (db t) = admin_audit_log (db s)
      \<Longrightarrow> ledger_chain_anchors (db t) = ledger_chain_anchors (anchor_head h source (db s))
      \<Longrightarrow> ledger_events (db t) = ledger_events (db s) \<Longrightarrow> Q r t"
  shows "wp (anchor_verified_chain_head h cfg source) Q E s"
proof -
  let ?head = "chain_head (event_digest h) GENESIS_HASH (ledger_events (db s))" and ?n = "length (ledger_events (db s))"
  obtain t v where tv: "verify_ledger_chain h True (db s) s = (t, v)" by fastforce
  note ver = verify_incremental_ok [OF plane_invD(5) [OF inv] dg ne plane_invD(2) [OF inv, unfolded checkpoints_ok_def], of s]
  have v: "vr_valid v" "vr_head_hash v = Some ?head" "vr_sealed_count v = ?n" "vr_total_events v = ?n"
    using ver(1) tv by auto
  have t: "admin_audit_log (db t) = admin_audit_log (db s)" "ledger_chain_anchors (db t) = ledger_chain_anchors (db s)"
    "next_anchor_id (db t) = next_anchor_id (db s)" "ledger_events (db t) = ledger_events (db s)" "has_anchor_table (db t)"
    using ver(2) tv tab by (auto simp: persist_checkpoint_def save_checkpoint_def)
  have truthy: "truthy (Some ?head)" using verified_head_nonempty [OF dg ne] by (simp add: truthy_def)
  have same: "db u = db w" if "same_db w u" for w u using that by (simp add: same_db_def)
  show ?thesis
    unfolding anchor_verified_chain_head_def wp_bindE
    using t truthy insert_anchor_anchors [OF t(2,3)]
    by (auto simp: wp_def [of "\<lambda>s. case verify_ledger_chain h True (db s) s of (t, v) \<Rightarrow> (t, Inr v)"] tv v
        wp_ext wp_simps Let_def increment_def intro!: wp_emit_external_anchor Q dest!: same)
qed

lemma anchor_route_effect:
  assumes rest: "at_rest s" and inv: "plane_inv h base (committed s)" and dg: "digest_ok h"
    and ne: "ledger_events (committed s) \<noteq> []" and tab: "has_anchor_table (committed s)" "has_admin_audit (committed s)"
  shows "\<exists>t r. post_ledger_anchor_head h cfg ctx s = (t, Inr r)
    \<and> ar_head_hash r = Some (chain_head (event_digest h) GENESIS_HASH (ledger_events (committed s)))
    \<and> ar_sealed_count r = length (ledger_events (committed s))
    \<and> admin_audit_log (committed t) = admin_audit_log (anchor_logged h ctx s)
    \<and> ledger_chain_anchors (committed t) = ledger_chain_anchors (anchor_head h ''admin_api'' (committed s))
    \<and> ledger_events (committed t) = ledger_events (committed s)"
proof -
  let ?Q = "\<lambda>r t. ar_head_hash r = Some (chain_head (event_digest h) GENESIS_HASH (ledger_events (committed s)))
    \<and> ar_sealed_count r = length (ledger_events (committed s))
    \<and> admin_audit_log (committed t) = admin_audit_log (anchor_logged h ctx s)
    \<and> ledger_chain_anchors (committed t) = ledger_chain_anchors (anchor_head h ''admin_api'' (committed s))
    \<and> ledger_events (committed t) = ledger_events (committed s)"
  let ?s = "on_db (log_action h (clock s) ctx ''ledger.anchor_head'' ''/internal/ledger/anchor-head'' []) s"
  have d: "db s = committed s" using rest by (simp add: at_rest_def)
  have db: "db ?s = anchor_logged h ctx s" using d by simp
  have anchors: "ledger_chain_anchors (insert_anchor hd n n source (anchor_logged h ctx s))
    = ledger_chain_anchors (insert_anchor hd n n source (committed s))" for hd n source
    by (rule insert_anchor_anchors) simp_all
  have "wp (post_ledger_anchor_head h cfg ctx) ?Q (\<lambda>_ _. False) s"
    unfolding post_ledger_anchor_head_def wp_get_db_session session_rest [OF rest]
    using tab
    by (simp add: wp_ext wp_simps record_admin_action_def d,
        intro wp_anchor_verified_chain_head [OF _ dg])
      (use audited_plane [OF inv dg] ne anchors in \<open>auto simp: db d commit_def\<close>)
  then show ?thesis by (auto simp: wp_def split: prod.splits sum.splits)
qed

section \<open>Verification looks at the event table and its checkpoint only\<close>

lemma verify_ledger_chain_cong:
  assumes "ledger_events d' = ledger_events d" "verify_checkpoints d' = verify_checkpoints d"
    "has_row_hash d' = has_row_hash d" "has_checkpoint_table d' = has_checkpoint_table d"
  shows "verify_ledger_chain h incremental d' = verify_ledger_chain h incremental d"
proof -
  have rows: "verify_ledger_rows h d' = verify_ledger_rows h d"
    unfolding fun_eq_iff verify_ledger_rows_def assms(1) by (intro allI refl)
  have tables: "count_events d' = count_events d" "load_checkpoint d' = load_checkpoint d" "head_hash d' = head_hash d"
    "checkpoint_is_current d' = checkpoint_is_current d"
    by (simp_all add: fun_eq_iff count_events_def load_checkpoint_def head_hash_def checkpoint_is_current_def assms)
  have full: "verify_full h incremental d' = verify_full h incremental d"
    unfolding fun_eq_iff verify_full_def rows tables assms(4) by (intro allI refl)
  show ?thesis unfolding fun_eq_iff verify_ledger_chain_def rows tables full assms(3,4) by (intro allI refl)
qed

lemma verify_ledger_chain_result: "snd (verify_ledger_chain h incremental d s) = snd (verify_ledger_chain h incremental d s')"
  by (simp add: verify_ledger_chain_def verify_full_def Let_def split: option.split)

lemma invalid_writes_nothing:
  "\<not> vr_valid (snd (verify_ledger_chain h incremental d s)) \<Longrightarrow> fst (verify_ledger_chain h incremental d s) = s"
  by (auto simp: verify_ledger_chain_def verify_full_def Let_def tail_verified_def split: option.splits if_splits)

section \<open>A run that anchors\<close>

text \<open>An administrator, settings without S3 and webhook, and the state after \<open>alice\<close>'s reservation was anchored.\<close>

definition sample_admin :: auth_context where
  "sample_admin = \<lparr>ac_method = Internal_Token, ac_subject = ''ops'', ac_roles = {''financial-admin''}\<rparr>"

definition plain_anchors :: anchor_settings where
  "plain_anchors = \<lparr>on_sqlite = True, anchor_s3_bucket = None, anchor_s3_prefix = ''ledger-anchors'', boto3_installed = False,
     s3_put_ok = (\<lambda>_. False), anchor_webhook_url = None, webhook_status = None\<rparr>"

definition after_anchor :: sys where
  "after_anchor = fst (post_ledger_anchor_head sample_host plain_anchors sample_admin after_reserve)"

lemma after_reserve_tables:
  "ledger_events (committed after_reserve) \<noteq> []" "has_anchor_table (committed after_reserve)"
  "has_admin_audit (committed after_reserve)"
  using after_reserve_facts by auto

lemma after_anchor_reachable:
  "reachable_from sample_host default_settings (idle_sys sample_db) after_anchor"
  "reachable_from sample_host default_settings after_reserve after_anchor"
proof -
  show step: "reachable_from sample_host default_settings after_reserve after_anchor"
    unfolding after_anchor_def by (intro r_into_rtranclp cp_step.anchor [OF surjective_pairing])
  show "reachable_from sample_host default_settings (idle_sys sample_db) after_anchor"
    using after_reserve_reachable step by simp
qed

lemma after_anchor_anchors: "\<exists>a. a \<in> set (ledger_chain_anchors (committed after_anchor))"
proof -
  note i = reachable_plane [OF sample_digest_ok sample_opened after_reserve_reachable]
  have "ledger_chain_anchors (committed after_anchor)
    = ledger_chain_anchors (anchor_head sample_host ''admin_api'' (committed after_reserve))"
    using anchor_route_effect [OF i sample_digest_ok after_reserve_tables, of plain_anchors sample_admin]
    by (auto simp: after_anchor_def)
  then show ?thesis by (auto simp: insert_anchor_def)
qed

section \<open>The properties\<close>

text \<open>Anchoring. In a reachable state whose event table is not empty, an anchor request succeeds: it answers
  the hash of the last event and the number of events, an anchor of that hash is stored, the audit log gains one
  row, which names the caller and the action and is sealed onto the log, and the event table stays as it is.\<close>

theorem anchoring_records_head:
  assumes "digest_ok h" "opened base s" "reachable_from h cfg s t" "ledger_events (committed t) \<noteq> []"
    and "has_anchor_table (committed t)" "has_admin_audit (committed t)"
  shows "\<exists>u r a. post_ledger_anchor_head h acfg ctx t = (u, Inr r)
    \<and> ar_head_hash r = ev_row_hash (last (ledger_events (committed t)))
    \<and> ar_sealed_count r = length (ledger_events (committed t))
    \<and> ar_head_hash r \<in> Some ` an_head_hash ` set (ledger_chain_anchors (committed u))
    \<and> ledger_events (committed u) = ledger_events (committed t)
    \<and> admin_audit_log (committed u) = admin_audit_log (committed t) @ [a]
    \<and> au_actor_subject a = ac_subject ctx \<and> au_action a = ''ledger.anchor_head''
    \<and> au_row_hash a = Some (audit_digest h a (chain_head (audit_digest h) GENESIS_HASH (admin_audit_log (committed t))))"
proof -
  note i = reachable_plane [OF assms(1-3)]
  obtain u r where u: "post_ledger_anchor_head h acfg ctx t = (u, Inr r)"
    "ar_head_hash r = Some (chain_head (event_digest h) GENESIS_HASH (ledger_events (committed t)))"
    "ar_sealed_count r = length (ledger_events (committed t))"
    "admin_audit_log (committed u) = admin_audit_log (anchor_logged h ctx t)"
    "ledger_chain_anchors (committed u) = ledger_chain_anchors (anchor_head h ''admin_api'' (committed t))"
    "ledger_events (committed u) = ledger_events (committed t)"
    using anchor_route_effect [OF i assms(1,4-6)] by blast
  have "ev_row_hash (last (ledger_events (committed t)))
    = Some (chain_head (event_digest h) GENESIS_HASH (ledger_events (committed t)))"
    using plane_invD(5) [OF i(2)] assms(4) by (auto simp: chain_ok_def intro!: chain_head_last)
  moreover have "ar_head_hash r \<in> Some ` an_head_hash ` set (ledger_chain_anchors (committed u))"
    unfolding u(2,5) by (rule imageI [OF insert_anchor_head])
  ultimately show ?thesis
    using u by (simp add: log_action_appends(1) [OF plane_invD(4) [OF i(2)] assms(1)] audit_digest_def audit_entry_def)
qed

theorem anchoring_records_head_witness:
  "\<exists>u r. post_ledger_anchor_head sample_host plain_anchors sample_admin after_reserve = (u, Inr r)
    \<and> ar_head_hash r = ev_row_hash (last (ledger_events (committed after_reserve)))
    \<and> ar_sealed_count r = length (ledger_events (committed after_reserve))"
  using anchoring_records_head [OF sample_digest_ok sample_opened after_reserve_reachable after_reserve_tables] by blast

text \<open>C39: what an anchor is worth. Once anchored, a head stays anchored, and in every later state it is the hash of the
  first events of the table, as many as the anchor says: an auditor who holds it can check the table against it.\<close>

theorem anchors_certify_history:
  assumes "digest_ok h" "opened base s" "reachable_from h cfg s t" "reachable_from h cfg t u"
    and "a \<in> set (ledger_chain_anchors (committed t))"
  shows "a \<in> set (ledger_chain_anchors (committed u)) \<and> 0 < an_sealed_count a
    \<and> an_sealed_count a \<le> length (ledger_events (committed u))
    \<and> Some (an_head_hash a) = ev_row_hash (ledger_events (committed u) ! (an_sealed_count a - 1))
    \<and> an_head_hash a = chain_head (event_digest h) GENESIS_HASH (take (an_sealed_count a) (ledger_events (committed u)))"
proof -
  have u: "reachable_from h cfg s u" using assms(3,4) by simp
  have a: "a \<in> set (ledger_chain_anchors (committed u))"
    using reachable_extends(1) [OF assms(1-4)] assms(5) set_mono_prefix unfolding plane_extends_def by blast
  note ok = reachable_inv(4) [OF assms(1,2) u, unfolded anchors_ok_def, rule_format, OF a, unfolded anchor_ok_def]
  have "event_chain h GENESIS_HASH (take (an_sealed_count a) (ledger_events (committed u)))"
    using plane_invD(5) [OF reachable_plane(2) [OF assms(1,2) u]] chained_append
      append_take_drop_id [of "an_sealed_count a" "ledger_events (committed u)"]
    by (metis chain_ok_def)
  moreover have ne: "take (an_sealed_count a) (ledger_events (committed u)) \<noteq> []" using ok by auto
  moreover have "last (take (an_sealed_count a) (ledger_events (committed u))) = ledger_events (committed u) ! (an_sealed_count a - 1)"
    using ok by (subst last_conv_nth [OF ne]) auto
  ultimately show ?thesis using a ok chain_head_last by metis
qed

theorem anchors_certify_history_witness:
  "\<exists>a \<in> set (ledger_chain_anchors (committed after_anchor)). an_head_hash a
     = chain_head (event_digest sample_host) GENESIS_HASH (take (an_sealed_count a) (ledger_events (committed after_anchor)))"
proof -
  obtain a where "a \<in> set (ledger_chain_anchors (committed after_anchor))" using after_anchor_anchors by blast
  then show ?thesis
    using anchors_certify_history [OF sample_digest_ok sample_opened after_anchor_reachable(1) rtranclp.rtrancl_refl] by blast
qed

text \<open>C40: the audit log. It is one hash chain from the genesis value in every reachable state, no later state loses or
  changes a row of it, and any other list of as many rows whose chain ends in the same hash has the same contents,
  or the digest has been broken.\<close>

theorem audit_log_is_evidence:
  assumes "digest_ok h" "opened base s" "reachable_from h cfg s t" "reachable_from h cfg t u"
  shows "prefix (admin_audit_log (committed t)) (admin_audit_log (committed u))
    \<and> chained (audit_digest h) au_prev_hash au_row_hash GENESIS_HASH (admin_audit_log (committed u))
    \<and> (\<forall>rows. length rows = length (admin_audit_log (committed u))
         \<longrightarrow> chain_head (audit_digest h) GENESIS_HASH rows = chain_head (audit_digest h) GENESIS_HASH (admin_audit_log (committed u))
         \<longrightarrow> map audit_content rows = map audit_content (admin_audit_log (committed u))
           \<or> collision (sha256_hexdigest h) (chain_payloads audit_payload (audit_digest h) GENESIS_HASH rows)
               (chain_payloads audit_payload (audit_digest h) GENESIS_HASH (admin_audit_log (committed u))))"
proof -
  have dig: "audit_digest h = (\<lambda>a g. sha256_hexdigest h (audit_payload a g))"
    by (simp add: audit_digest_payload fun_eq_iff)
  have "reachable_from h cfg s u" using assms(3,4) by simp
  then have "chained (audit_digest h) au_prev_hash au_row_hash GENESIS_HASH (admin_audit_log (committed u))"
    using reachable_inv(5) [OF assms(1,2)] by (simp add: audit_ok_def)
  moreover have "map audit_content rows = map audit_content log
      \<or> collision (sha256_hexdigest h) (chain_payloads audit_payload (audit_digest h) GENESIS_HASH rows)
           (chain_payloads audit_payload (audit_digest h) GENESIS_HASH log)"
    if "length rows = length log" "chain_head (audit_digest h) GENESIS_HASH rows = chain_head (audit_digest h) GENESIS_HASH log"
    for rows log
    using audit.head_determines [OF that(1), of h GENESIS_HASH GENESIS_HASH] that(2) unfolding dig by blast
  ultimately show ?thesis using reachable_extends(1) [OF assms] unfolding plane_extends_def by blast
qed

theorem audit_log_is_evidence_witness:
  "prefix (admin_audit_log (committed after_reserve)) (admin_audit_log (committed after_anchor))
   \<and> chained (audit_digest sample_host) au_prev_hash au_row_hash GENESIS_HASH (admin_audit_log (committed after_anchor))"
  using audit_log_is_evidence [OF sample_digest_ok sample_opened after_reserve_reachable after_anchor_reachable(2)] by blast

text \<open>A refused anchor leaves no trace. When the chain does not verify, the request is answered with 422 and the
  database is as before: the audit row of the attempt is rolled back with the session.\<close>

theorem refused_anchor_is_not_audited:
  assumes "at_rest s" "\<not> vr_valid (snd (verify_ledger_chain h True (committed s) s))"
  shows "\<exists>t m. post_ledger_anchor_head h cfg ctx s = (t, Inl (HTTPException 422 m))
    \<and> committed t = committed s \<and> db t = committed s"
proof -
  have d: "db s = committed s" using assms(1) by (simp add: at_rest_def)
  have bad: "verify_ledger_chain h True (db t) t = (t, snd (verify_ledger_chain h True (committed s) s))"
    if "ledger_events (db t) = ledger_events (committed s)" "verify_checkpoints (db t) = verify_checkpoints (committed s)"
      "has_row_hash (db t) = has_row_hash (committed s)" "has_checkpoint_table (db t) = has_checkpoint_table (committed s)" for t
    using verify_ledger_chain_cong [OF that, of h True] assms(2)
      verify_ledger_chain_result [of h True "committed s" s t] invalid_writes_nothing [of h True "db t" t]
    by (metis prod.collapse)
  have anchor: "wp (anchor_verified_chain_head h cfg source) (\<lambda>_ _. False)
      (\<lambda>e u. (\<exists>m. e = ValueError m) \<and> committed u = committed t) t"
    if "verify_ledger_chain h True (db t) t = (t, snd (verify_ledger_chain h True (committed s) s))" for t source
    using assms(2) that
    by (simp add: anchor_verified_chain_head_def wp_bindE wp_def [of "\<lambda>s. case verify_ledger_chain h True (db s) s of (t, v) \<Rightarrow> (t, Inr v)"]
        wp_ext wp_simps)
  have "wp (post_ledger_anchor_head h cfg ctx) (\<lambda>_ _. False)
      (\<lambda>e u. (\<exists>m. e = HTTPException 422 m) \<and> committed u = committed s \<and> db u = committed s) s"
    unfolding post_ledger_anchor_head_def wp_get_db_session session_rest [OF assms(1)]
    by (auto simp: wp_ext wp_simps record_admin_action_def d
        intro!: wp_conseq [OF anchor [OF bad]])
  then show ?thesis by (auto simp: wp_def split: prod.splits sum.splits)
qed

text \<open>A table whose only event has lost its seal.\<close>

definition unsealed_db :: db where
  "unsealed_db = one_event_db\<lparr>ledger_events := map (ev_row_hash_update (\<lambda>_. None)) (ledger_events one_event_db)\<rparr>"

theorem refused_anchor_is_not_audited_witness:
  "\<exists>t m. post_ledger_anchor_head sample_host plain_anchors sample_admin (idle_sys unsealed_db)
      = (t, Inl (HTTPException 422 m)) \<and> committed t = unsealed_db"
proof -
  have "\<not> vr_valid (snd (verify_ledger_chain sample_host True (committed (idle_sys unsealed_db)) (idle_sys unsealed_db)))"
    by code_simp
  from refused_anchor_is_not_audited [OF _ this, of plain_anchors sample_admin]
  show ?thesis by (auto simp: at_rest_def)
qed

end
