(* ===== verification/Spine_State.thy ===== *)
theory Spine_State
  imports Ledger_Seal
begin

text \<open>
  The state of the domain governors: the spines of \<^verbatim>\<open>finance-governor\<close>, \<^verbatim>\<open>insurance-governor\<close> and
  \<^verbatim>\<open>cybersecurity-governor\<close>. The three keep the same tables under different names (an account ledger, the
  governance crystals, an escrow table of commits and a hash chained event table); a \<open>governor\<close> says which one
  is meant where the code depends on it. A clock value counts microseconds, the resolution of Python's datetimes,
  and one handler reads one clock value. The constraints of the migrations are enforced: a statement that violates
  one raises \<open>Integrity_Error\<close>, as PostgreSQL does.
\<close>

section \<open>Tables\<close>

datatype governor = Finance | Insurance | Cybersecurity

datatype commit_status =
    C_CRYSTALLIZED
  | C_IN_FLIGHT
  | C_ACTION_TIMEOUT
  | C_COMMITTED
  | C_EXPIRED
  | C_STRANDED
  | C_ADJUDICATED

record account_row =
  la_account_id :: string
  la_ledger_type :: string
  la_currency :: string
  la_balance :: money
  la_active :: bool
  la_lock_reason :: "string option"
  la_locked_at :: "int option"
  la_updated_at :: int

record crystal_row =
  cr_crystal_id :: string
  cr_platform :: string
  cr_operation_id :: string
  cr_risk_tier :: string
  cr_policy_id :: "string option"
  cr_facets :: jobject
  cr_request_fingerprint :: string
  cr_crystal_hash :: string
  cr_prev_crystal_hash :: "string option"
  cr_parent_crystal_id :: "string option"
  cr_horizon_expires_at :: int
  cr_terminal_state :: "commit_status option"
  cr_crystallized_at :: int

record commit_row =
  ce_operation_id :: string
  ce_crystal_id :: string
  ce_account_id :: string
  ce_platform :: string
  ce_reserved :: money
  ce_committed :: money
  ce_status :: commit_status
  ce_terminal_reason :: "string option"
  ce_expires_at :: int
  ce_committed_at :: "int option"

record decision_event =
  dv_event_id :: int
  dv_operation_id :: string
  dv_crystal_id :: "string option"
  dv_account_id :: string
  dv_event_type :: string
  dv_delta :: money
  dv_metadata :: jobject
  dv_prev_hash :: "string option"
  dv_row_hash :: "string option"
  dv_recorded_at :: string

record policy_row =
  pl_policy_id :: string
  pl_risk_classification :: string
  pl_max_per_commit :: money
  pl_commit_horizon_ms :: int
  pl_allow_auto_expire :: bool
  pl_enabled :: bool

record platform_row =
  pf_platform_name :: string
  pf_enabled :: bool
  pf_default_policy_id :: "string option"
  pf_facet_schema :: jobject
  pf_manifest :: jobject

record mesh_rule =
  mr_parent_platform :: string
  mr_parent_facet_key :: string
  mr_parent_facet_value :: string
  mr_child_platform :: string
  mr_block_commit :: bool
  mr_enabled :: bool

record cap_row =
  cp_scope :: string
  cp_cap_amount :: money
  cp_reserved_total :: money

record incident_row =
  in_operation_id :: "string option"
  in_crystal_id :: "string option"
  in_incident_type :: string
  in_platform :: string
  in_metadata :: jobject

record spine_db =
  account_ledgers :: "account_row list"
  governance_crystals :: "crystal_row list"
  commit_escrow :: "commit_row list"
  decision_events :: "decision_event list"
  next_decision_id :: int
  policy_registry :: "policy_row list"
  platform_registry :: "platform_row list option"
  mesh_rules :: "mesh_rule list"
  cap_states :: "cap_row list"
  spine_incidents :: "incident_row list"
  decision_checkpoint :: "verify_checkpoint option"
  has_seal :: bool
  has_decision_checkpoints :: bool
  has_incidents :: bool

section \<open>The process\<close>

text \<open>
  The sidecar and the reconciler of a spine are two processes: each has its own diagnostic flag, and they share the one in
  Redis. Their counters are one map here.
\<close>

datatype spine_exn =
    Conflict_Error string
  | Horizon_Stranded_Error string
  | Surprise_Commit_Blocked string
  | Insufficient_Error string
  | Platform_Not_Registered string
  | Platform_Disabled string
  | Platform_Guard_Error string
  | Facet_Validation_Error string
  | Integrity_Error
  | Runtime_Error string
  | Ops_Invariant_Error string
  | Rate_Limit_Exceeded string
  | Trace_Depth_Exceeded string
  | Inflight_Limit_Exceeded string
  | Circuit_Open_Error string
  | Redis_Error
  | Http_Error int string

record spine =
  sp_db :: spine_db
  sp_committed :: spine_db
  sp_counters :: "string \<Rightarrow> int"
  sp_clock :: int
  sp_diagnostic :: diagnostic
  sp_reconciler_diagnostic :: diagnostic
  sp_cluster_flag :: bool

type_synonym 'a spine_handler = "(spine, spine_exn, 'a) exec"

record spine_settings =
  commit_ttl_seconds :: int
  sp_drift_absolute_tolerance :: decimal
  sp_drift_ratio_tolerance :: decimal
  sp_diagnostic_mode_blocks_writes :: bool
  platform_registry_enforce :: bool

definition default_spine_settings :: spine_settings where
  "default_spine_settings =
     \<lparr>commit_ttl_seconds = 300, sp_drift_absolute_tolerance = Dec 500000 (- 6),
      sp_drift_ratio_tolerance = Dec 50000 (- 6), sp_diagnostic_mode_blocks_writes = True,
      platform_registry_enforce = True\<rparr>"

definition count_by :: "string \<Rightarrow> int \<Rightarrow> spine \<Rightarrow> spine" where
  "count_by name n s = s\<lparr>sp_counters := (sp_counters s)(name := sp_counters s name + n)\<rparr>"

abbreviation counted_up :: "string \<Rightarrow> spine \<Rightarrow> spine" where
  "counted_up name \<equiv> count_by name 1"

definition on_spine :: "(spine_db \<Rightarrow> spine_db) \<Rightarrow> spine \<Rightarrow> spine" where
  "on_spine f s = s\<lparr>sp_db := f (sp_db s)\<rparr>"

definition spine_commit :: "spine \<Rightarrow> spine" where
  "spine_commit s = s\<lparr>sp_committed := sp_db s\<rparr>"

definition spine_session :: "'a spine_handler \<Rightarrow> 'a spine_handler" where
  "spine_session body s =
     (case body (s\<lparr>sp_db := sp_committed s\<rparr>) of (t, r) \<Rightarrow> (t\<lparr>sp_db := sp_committed t\<rparr>, r))"

text \<open>A statement that a constraint refuses unless \<open>ok\<close> holds of the tables.\<close>

definition checked :: "(spine_db \<Rightarrow> bool) \<Rightarrow> (spine_db \<Rightarrow> spine_db) \<Rightarrow> unit spine_handler" where
  "checked ok f = getsE (\<lambda>s. ok (sp_db s)) (\<lambda>holds. if holds then modifyE (on_spine f) else throw Integrity_Error)"

lemma spine_simps [simp]:
  "sp_db (on_spine f s) = f (sp_db s)" "sp_committed (on_spine f s) = sp_committed s"
  "sp_clock (on_spine f s) = sp_clock s" "sp_db (count_by c n s) = sp_db s"
  "sp_committed (count_by c n s) = sp_committed s" "sp_clock (count_by c n s) = sp_clock s"
  "sp_db (spine_commit s) = sp_db s" "sp_committed (spine_commit s) = sp_db s"
  "sp_clock (spine_commit s) = sp_clock s"
  by (simp_all add: on_spine_def count_by_def spine_commit_def)

lemma wp_checked [wp_simps]:
  "wp (checked ok f) Q E s = (if ok (sp_db s) then Q () (on_spine f s) else E Integrity_Error s)"
  by (simp add: checked_def wp_simps)

lemma wp_checked_ext [wp_simps]:
  "wp (checked ok f) Q E = (\<lambda>s. if ok (sp_db s) then Q () (on_spine f s) else E Integrity_Error s)"
  by (simp add: fun_eq_iff wp_checked)

lemma wp_spine_session:
  "wp (spine_session m) Q E s
     = wp m (\<lambda>x t. Q x (t\<lparr>sp_db := sp_committed t\<rparr>)) (\<lambda>e t. E e (t\<lparr>sp_db := sp_committed t\<rparr>)) (s\<lparr>sp_db := sp_committed s\<rparr>)"
  by (simp add: wp_def spine_session_def split: prod.split sum.split)

section \<open>Money\<close>

text \<open>
  \<^verbatim>\<open>currency.py\<close> of the spines rounds half up, away from zero, where \<^verbatim>\<open>money.py\<close> of the sidecar rounds half to even.
\<close>

definition round_half_up :: "int \<Rightarrow> int \<Rightarrow> int" where
  "round_half_up n d = (if n < 0 then - ((2 * (- n) + d) div (2 * d)) else (2 * n + d) div (2 * d))"

definition quantize_spine :: "decimal \<Rightarrow> money" where
  "quantize_spine x =
     (case x of Dec c e \<Rightarrow>
        if 0 \<le> e + int MONEY_DB_PRECISION then c * 10 ^ nat (e + int MONEY_DB_PRECISION)
        else round_half_up c (10 ^ nat (- (e + int MONEY_DB_PRECISION))))"

text \<open>\<open>x > y\<close> for a decimal and a quantised amount.\<close>

definition exceeds :: "decimal \<Rightarrow> money \<Rightarrow> bool" where
  "exceeds x y =
     (case x of Dec c e \<Rightarrow>
        if 0 \<le> e + int MONEY_DB_PRECISION then y < c * 10 ^ nat (e + int MONEY_DB_PRECISION)
        else y * 10 ^ nat (- (e + int MONEY_DB_PRECISION)) < c)"

lemma quantize_spine_of_column [simp]: "quantize_spine (of_column m) = m"
  by (simp add: quantize_spine_def of_column_def)

lemma round_half_up_nearest:
  assumes "0 < d"
  shows "2 * \<bar>round_half_up n d * d - n\<bar> \<le> d"
proof -
  have *: "2 * \<bar>(2 * m + d) div (2 * d) * d - m\<bar> \<le> d" if "0 \<le> m" for m
  proof -
    have "(2 * m + d) div (2 * d) * (2 * d) = 2 * m + d - (2 * m + d) mod (2 * d)"
      by (simp add: minus_mod_eq_div_mult)
    moreover have "0 \<le> (2 * m + d) mod (2 * d)" "(2 * m + d) mod (2 * d) < 2 * d" using assms by simp_all
    ultimately show ?thesis by (simp add: abs_if algebra_simps)
  qed
  show ?thesis
  proof (cases "n < 0")
    case True
    with * [of "- n"] show ?thesis by (simp add: round_half_up_def abs_minus_commute add.commute)
  next
    case False
    with * [of n] show ?thesis by (simp add: round_half_up_def)
  qed
qed

text \<open>A policy maximum is respected after rounding: the check on the exact amount bounds the rounded one.\<close>

lemma exceeds_quantize:
  assumes "\<not> exceeds x m"
  shows "quantize_spine x \<le> m"
proof (cases x)
  case (Dec c e)
  show ?thesis
  proof (cases "0 \<le> e + int MONEY_DB_PRECISION")
    case True
    with Dec assms show ?thesis by (simp add: exceeds_def quantize_spine_def)
  next
    case False
    define d :: int where "d = 10 ^ nat (- (e + int MONEY_DB_PRECISION))"
    have d: "0 < d" by (simp add: d_def)
    have le: "c \<le> m * d" using Dec False assms by (simp add: exceeds_def d_def)
    have "round_half_up c d \<le> m"
    proof (cases "c < 0")
      case True
      have "(2 * (- c) + d) div (2 * d) \<ge> - m"
      proof -
        have "- m * (2 * d) \<le> 2 * (- c) + d" using le d by (simp add: algebra_simps)
        then have "(- m * (2 * d)) div (2 * d) \<le> (2 * (- c) + d) div (2 * d)" using d by (intro zdiv_mono1) auto
        then show ?thesis using nonzero_mult_div_cancel_right [of "2 * d" "- m"] d by linarith
      qed
      with True show ?thesis by (simp add: round_half_up_def)
    next
      case False
      have "2 * c + d < (m + 1) * (2 * d)" using le d by (simp add: algebra_simps)
      moreover have "(2 * c + d) div (2 * d) * (2 * d) \<le> 2 * c + d"
        using d by (simp add: minus_mod_eq_div_mult [symmetric])
      ultimately have "(2 * c + d) div (2 * d) * (2 * d) < (m + 1) * (2 * d)" by (rule le_less_trans [rotated])
      then have "(2 * c + d) div (2 * d) < m + 1" using d by (simp only: mult_less_cancel_right)
      with False show ?thesis by (simp add: round_half_up_def)
    qed
    then show ?thesis using Dec False by (simp add: quantize_spine_def d_def)
  qed
qed

end
