(* ===== verification/Decision_Seal.thy ===== *)
theory Decision_Seal
  imports Spine_State
begin

text \<open>
  The hash chained event tables of the spines: \<^verbatim>\<open>decision_seal.py\<close> of the finance governor, \<^verbatim>\<open>claim_seal.py\<close> and
  \<^verbatim>\<open>claim_events.py\<close> of the insurance governor and their twins of the cybersecurity governor. Appending is the same
  program in all three; verification comes in two versions, one that stops at the first break and one that does not.
\<close>

section \<open>Row hashes\<close>

definition delta_key :: "governor \<Rightarrow> string" where
  "delta_key g = (case g of Finance \<Rightarrow> ''exposure_delta'' | _ \<Rightarrow> ''reserve_delta'')"

definition events_table :: "governor \<Rightarrow> string" where
  "events_table g = (case g of Finance \<Rightarrow> ''decision_events'' | Insurance \<Rightarrow> ''claim_events'' | Cybersecurity \<Rightarrow> ''security_events'')"

definition json_nullable :: "string option \<Rightarrow> json" where
  "json_nullable x = (case x of None \<Rightarrow> JNull | Some v \<Rightarrow> JStr v)"

definition decision_body ::
  "governor \<Rightarrow> int \<Rightarrow> string \<Rightarrow> string option \<Rightarrow> string \<Rightarrow> string \<Rightarrow> string \<Rightarrow> jobject \<Rightarrow> string \<Rightarrow> string \<Rightarrow> string" where
  "decision_body g event_id operation_id crystal_id account_id event_type delta metadata prev_hash recorded_at =
     dumps_compact
       (JObj [(''event_id'', JInt event_id),
              (''operation_id'', JStr operation_id),
              (''crystal_id'', json_nullable crystal_id),
              (''account_id'', JStr account_id),
              (''event_type'', JStr event_type),
              (delta_key g, JStr delta),
              (''metadata'', JObj metadata),
              (''prev_hash'', JStr prev_hash),
              (''recorded_at'', JStr recorded_at)])"

definition decision_row_hash ::
  "host \<Rightarrow> governor \<Rightarrow> int \<Rightarrow> string \<Rightarrow> string option \<Rightarrow> string \<Rightarrow> string \<Rightarrow> string \<Rightarrow> jobject \<Rightarrow> string \<Rightarrow> string \<Rightarrow> string" where
  "decision_row_hash h g event_id operation_id crystal_id account_id event_type delta metadata prev_hash recorded_at =
     sha256_hexdigest h
       (decision_body g event_id operation_id crystal_id account_id event_type delta metadata prev_hash recorded_at)"

definition claim_row_hash where
  "claim_row_hash h = decision_row_hash h Insurance"

definition security_row_hash where
  "security_row_hash h = decision_row_hash h Cybersecurity"

section \<open>Appending\<close>

definition sealed_hash :: "string option \<Rightarrow> bool" where
  "sealed_hash x = (x \<noteq> None \<and> x \<noteq> Some GENESIS_HASH)"

text \<open>\<open>SELECT row_hash ... WHERE p ORDER BY event_id DESC LIMIT 1\<close>.\<close>

definition latest_hash :: "(decision_event \<Rightarrow> bool) \<Rightarrow> decision_event list \<Rightarrow> string option" where
  "latest_hash p rows =
     (case sort_key dv_event_id (filter p rows) of [] \<Rightarrow> None | r # rs \<Rightarrow> dv_row_hash (last (r # rs)))"

definition decision_head_hash :: "spine_db \<Rightarrow> string option" where
  "decision_head_hash d = latest_hash (\<lambda>e. sealed_hash (dv_row_hash e)) (decision_events d)"

definition seal_decision_event ::
  "host \<Rightarrow> governor \<Rightarrow> int \<Rightarrow> string \<Rightarrow> string option \<Rightarrow> string \<Rightarrow> string \<Rightarrow> money \<Rightarrow> jobject \<Rightarrow> string \<Rightarrow> spine_db \<Rightarrow> spine_db" where
  "seal_decision_event h g event_id operation_id crystal_id account_id event_type delta metadata recorded_at d =
     (let prev_hash = str_or (latest_hash (\<lambda>e. sealed_hash (dv_row_hash e) \<and> dv_event_id e < event_id) (decision_events d)) GENESIS_HASH;
          row_hash = decision_row_hash h g event_id operation_id crystal_id account_id event_type (decimal_str delta)
                       metadata prev_hash recorded_at
      in d\<lparr>decision_events := update_where (\<lambda>e. dv_event_id e = event_id)
             (\<lambda>e. e\<lparr>dv_prev_hash := Some prev_hash, dv_row_hash := Some row_hash\<rparr>) (decision_events d)\<rparr>)"

definition insert_decision ::
  "host \<Rightarrow> int \<Rightarrow> string \<Rightarrow> string option \<Rightarrow> string \<Rightarrow> string \<Rightarrow> money \<Rightarrow> jobject \<Rightarrow> spine_db \<Rightarrow> spine_db" where
  "insert_decision h now operation_id crystal_id account_id event_type delta metadata d =
     (let prev = str_or (decision_head_hash d) GENESIS_HASH
      in d\<lparr>decision_events := decision_events d @
             [\<lparr>dv_event_id = next_decision_id d, dv_operation_id = operation_id, dv_crystal_id = crystal_id,
               dv_account_id = account_id, dv_event_type = event_type, dv_delta = delta, dv_metadata = metadata,
               dv_prev_hash = Some prev, dv_row_hash = Some prev, dv_recorded_at = timestamp_text h now\<rparr>],
           next_decision_id := next_decision_id d + 1\<rparr>)"

definition append_decision_event ::
  "host \<Rightarrow> governor \<Rightarrow> string \<Rightarrow> string option \<Rightarrow> string \<Rightarrow> string \<Rightarrow> money \<Rightarrow> jobject \<Rightarrow> unit spine_handler" where
  "append_decision_event h g operation_id crystal_id account_id event_type delta metadata =
     getsE (\<lambda>s. (has_seal (sp_db s), next_decision_id (sp_db s), sp_clock s)) (\<lambda>(supported, event_id, now).
       if \<not> supported then throw (Runtime_Error (events_table g @ '' seal columns unavailable''))
       else stepsE
         [modifyE (on_spine (insert_decision h now operation_id crystal_id account_id event_type delta metadata)),
          modifyE (on_spine (seal_decision_event h g event_id operation_id crystal_id account_id event_type delta metadata
            (timestamp_text h now)))])"

definition append_claim_event where
  "append_claim_event h = append_decision_event h Insurance"

definition append_security_event where
  "append_security_event h = append_decision_event h Cybersecurity"

section \<open>Verification that stops at the first break\<close>

definition decision_digest :: "host \<Rightarrow> governor \<Rightarrow> decision_event \<Rightarrow> string \<Rightarrow> string" where
  "decision_digest h g e prev_hash =
     decision_row_hash h g (dv_event_id e) (dv_operation_id e) (dv_crystal_id e) (dv_account_id e) (dv_event_type e)
       (decimal_str (dv_delta e)) (dv_metadata e) prev_hash (dv_recorded_at e)"

fun decision_loop ::
  "host \<Rightarrow> decision_event list \<Rightarrow> string option \<Rightarrow> string option \<Rightarrow> nat \<Rightarrow> nat \<Rightarrow> int \<Rightarrow> ledger_verify_state" where
  "decision_loop h [] last_sealed_hash head sealed unsealed last_id =
     \<lparr>vs_valid = (unsealed = 0), vs_sealed_count = sealed, vs_unsealed_count = unsealed, vs_head_hash = head,
      vs_first_break = None, vs_last_event_id = last_id\<rparr>"
| "decision_loop h (row # rows) last_sealed_hash head sealed unsealed last_id =
     (if \<not> sealed_hash (dv_row_hash row)
      then decision_loop h rows last_sealed_hash head sealed (unsealed + 1) (dv_event_id row)
      else let prev_hash = str_or (dv_prev_hash row) GENESIS_HASH
      in if Some prev_hash \<noteq> last_sealed_hash
         then \<lparr>vs_valid = False, vs_sealed_count = sealed, vs_unsealed_count = unsealed, vs_head_hash = head,
               vs_first_break = Some \<lparr>br_event_id = dv_event_id row,
                 br_reason = ''prev_hash mismatch at event_id='' @ int_str (dv_event_id row)\<rparr>,
               vs_last_event_id = dv_event_id row\<rparr>
         else if dv_row_hash row \<noteq> Some (decision_digest h Finance row prev_hash)
         then \<lparr>vs_valid = False, vs_sealed_count = sealed, vs_unsealed_count = unsealed, vs_head_hash = head,
               vs_first_break = Some \<lparr>br_event_id = dv_event_id row,
                 br_reason = ''row_hash mismatch at event_id='' @ int_str (dv_event_id row)\<rparr>,
               vs_last_event_id = dv_event_id row\<rparr>
         else decision_loop h rows (dv_row_hash row) (dv_row_hash row) (sealed + 1) unsealed (dv_event_id row))"

definition verify_decision_rows :: "host \<Rightarrow> spine_db \<Rightarrow> int \<Rightarrow> nat \<Rightarrow> ledger_verify_state" where
  "verify_decision_rows h d from_id prior =
     (let anchor = (if 0 < from_id then row_where (\<lambda>e. dv_event_id e = from_id) (decision_events d) else None);
          from_event_id = (if anchor = None then 0 else from_id);
          prior_sealed = (if 0 < from_id \<and> anchor = None then 0 else prior);
          last_sealed_hash = (case anchor of None \<Rightarrow> Some GENESIS_HASH | Some e \<Rightarrow> dv_row_hash e);
          rows = sort_key dv_event_id
                   (if 0 < from_event_id then filter (\<lambda>e. from_event_id < dv_event_id e) (decision_events d)
                    else decision_events d);
          head = (if last_sealed_hash \<noteq> Some GENESIS_HASH then last_sealed_hash else None)
      in if 0 < from_event_id \<and> rows = []
         then \<lparr>vs_valid = True, vs_sealed_count = prior_sealed, vs_unsealed_count = 0, vs_head_hash = head,
               vs_first_break = None, vs_last_event_id = from_event_id\<rparr>
         else decision_loop h rows last_sealed_hash head prior_sealed 0 from_event_id)"

definition save_decision_checkpoint :: "verify_checkpoint \<Rightarrow> spine_db \<Rightarrow> spine_db" where
  "save_decision_checkpoint c d = (if has_decision_checkpoints d then d\<lparr>decision_checkpoint := Some c\<rparr> else d)"

definition persist_decision_checkpoint :: "verify_checkpoint \<Rightarrow> spine \<Rightarrow> spine" where
  "persist_decision_checkpoint c s = spine_commit (on_spine (save_decision_checkpoint c) s)"

definition load_decision_checkpoint :: "spine_db \<Rightarrow> verify_checkpoint option" where
  "load_decision_checkpoint d = (if has_decision_checkpoints d then decision_checkpoint d else None)"

definition no_seal_schema :: verification_result where
  "no_seal_schema =
     \<lparr>vr_valid = False, vr_sealed_count = 0, vr_unsealed_count = 0, vr_total_events = 0, vr_head_hash = None,
      vr_first_break = Some \<lparr>br_event_id = 0, br_reason = ''seal_schema_unavailable''\<rparr>, vr_incremental = False\<rparr>"

definition no_events :: verification_result where
  "no_events =
     \<lparr>vr_valid = True, vr_sealed_count = 0, vr_unsealed_count = 0, vr_total_events = 0, vr_head_hash = None,
      vr_first_break = None, vr_incremental = False\<rparr>"

definition resumed :: "nat \<Rightarrow> nat \<Rightarrow> string option \<Rightarrow> verification_result" where
  "resumed sealed total_events head =
     \<lparr>vr_valid = True, vr_sealed_count = sealed, vr_unsealed_count = 0, vr_total_events = total_events, vr_head_hash = head,
      vr_first_break = None, vr_incremental = True\<rparr>"

definition verify_decision_full :: "host \<Rightarrow> bool \<Rightarrow> spine_db \<Rightarrow> spine \<Rightarrow> spine \<times> verification_result" where
  "verify_decision_full h incremental r s =
     (let full = verify_decision_rows h r 0 0; total_events = length (decision_events r)
      in (if vs_valid full \<and> incremental \<and> has_decision_checkpoints r \<and> truthy (vs_head_hash full) \<and> vs_unsealed_count full = 0
          then persist_decision_checkpoint
                 \<lparr>last_verified_event_id = vs_last_event_id full, verified_head_hash = the (vs_head_hash full),
                  cp_sealed_count = vs_sealed_count full, cp_total_events = total_events\<rparr> s
          else s,
          \<lparr>vr_valid = vs_valid full, vr_sealed_count = vs_sealed_count full, vr_unsealed_count = vs_unsealed_count full,
           vr_total_events = total_events, vr_head_hash = vs_head_hash full, vr_first_break = vs_first_break full,
           vr_incremental = False\<rparr>))"

definition verify_decision_chain :: "host \<Rightarrow> bool \<Rightarrow> spine_db \<Rightarrow> spine \<Rightarrow> spine \<times> verification_result" where
  "verify_decision_chain h incremental r s =
     (let total_events = length (decision_events r); current_head = decision_head_hash r
      in if \<not> has_seal r then (s, no_seal_schema)
         else if total_events = 0 then (s, no_events)
         else case if incremental \<and> has_decision_checkpoints r \<and> truthy current_head then load_decision_checkpoint r else None of
           None \<Rightarrow> verify_decision_full h incremental r s
         | Some c \<Rightarrow>
             if Some (verified_head_hash c) = current_head \<and> total_events = cp_total_events c \<and> cp_sealed_count c = total_events
             then (s, resumed (cp_sealed_count c) total_events current_head)
             else let tail = verify_decision_rows h r (last_verified_event_id c) (cp_sealed_count c)
             in if vs_valid tail \<and> truthy (vs_head_hash tail) \<and> vs_unsealed_count tail = 0
                then (persist_decision_checkpoint
                        \<lparr>last_verified_event_id = vs_last_event_id tail, verified_head_hash = the (vs_head_hash tail),
                         cp_sealed_count = vs_sealed_count tail, cp_total_events = total_events\<rparr> s,
                      resumed (vs_sealed_count tail) total_events (vs_head_hash tail))
                else verify_decision_full h incremental r s)"

section \<open>Verification that counts every row\<close>

record claim_scan =
  sc_sealed :: nat
  sc_unsealed :: nat
  sc_first_break :: "chain_break option"
  sc_tail_head :: "string option"

definition first_of :: "chain_break option \<Rightarrow> chain_break \<Rightarrow> chain_break option" where
  "first_of old new = (case old of None \<Rightarrow> Some new | Some b \<Rightarrow> Some b)"

fun scan_rows ::
  "host \<Rightarrow> governor \<Rightarrow> decision_event list \<Rightarrow> string option \<Rightarrow> claim_scan \<Rightarrow> claim_scan" where
  "scan_rows h g [] expected z = z"
| "scan_rows h g (row # rows) expected z =
     (let prev = str_or (dv_prev_hash row) GENESIS_HASH;
          z1 = (if Some prev \<noteq> expected
                then z\<lparr>sc_first_break := first_of (sc_first_break z)
                         \<lparr>br_event_id = dv_event_id row, br_reason = ''prev_hash mismatch''\<rparr>\<rparr>
                else z);
          z2 = (if dv_row_hash row = Some (decision_digest h g row prev) then z1\<lparr>sc_sealed := sc_sealed z1 + 1\<rparr>
                else z1\<lparr>sc_unsealed := sc_unsealed z1 + 1,
                        sc_first_break := first_of (sc_first_break z1)
                          \<lparr>br_event_id = dv_event_id row, br_reason = ''row_hash mismatch''\<rparr>\<rparr>)
      in scan_rows h g rows (dv_row_hash row) (z2\<lparr>sc_tail_head := dv_row_hash row\<rparr>))"

definition verify_claim_rows :: "host \<Rightarrow> governor \<Rightarrow> decision_event list \<Rightarrow> string \<Rightarrow> nat \<Rightarrow> claim_scan" where
  "verify_claim_rows h g rows expected_prev prior_sealed =
     scan_rows h g rows (Some expected_prev)
       \<lparr>sc_sealed = prior_sealed, sc_unsealed = 0, sc_first_break = None,
        sc_tail_head = (if expected_prev \<noteq> GENESIS_HASH then Some expected_prev else None)\<rparr>"

definition fetch_event_rows :: "int option \<Rightarrow> spine_db \<Rightarrow> decision_event list" where
  "fetch_event_rows from_event_id d =
     sort_key dv_event_id
       (case from_event_id of None \<Rightarrow> decision_events d
        | Some i \<Rightarrow> filter (\<lambda>e. i < dv_event_id e) (decision_events d))"

definition expected_prev_hash :: "int \<Rightarrow> spine_db \<Rightarrow> string option" where
  "expected_prev_hash last_id d =
     (if last_id \<le> 0 then Some GENESIS_HASH
      else case row_where (\<lambda>e. dv_event_id e = last_id) (decision_events d) of
             None \<Rightarrow> None | Some e \<Rightarrow> dv_row_hash e)"

definition verify_claim_full :: "host \<Rightarrow> governor \<Rightarrow> bool \<Rightarrow> spine_db \<Rightarrow> spine \<Rightarrow> spine \<times> verification_result" where
  "verify_claim_full h g incremental r s =
     (let rows = fetch_event_rows None r; z = verify_claim_rows h g rows GENESIS_HASH 0;
          valid = (sc_first_break z = None \<and> sc_unsealed z = 0);
          head = (if rows = [] then None else dv_row_hash (last rows))
      in (if valid \<and> incremental \<and> has_decision_checkpoints r \<and> truthy head \<and> rows \<noteq> []
          then persist_decision_checkpoint
                 \<lparr>last_verified_event_id = dv_event_id (last rows), verified_head_hash = the head,
                  cp_sealed_count = sc_sealed z, cp_total_events = length rows\<rparr> s
          else s,
          \<lparr>vr_valid = valid, vr_sealed_count = sc_sealed z, vr_unsealed_count = sc_unsealed z, vr_total_events = length rows,
           vr_head_hash = head, vr_first_break = sc_first_break z, vr_incremental = False\<rparr>))"

definition verify_claim_chain :: "host \<Rightarrow> governor \<Rightarrow> bool \<Rightarrow> spine_db \<Rightarrow> spine \<Rightarrow> spine \<times> verification_result" where
  "verify_claim_chain h g incremental r s =
     (let total_events = length (decision_events r); current_head = decision_head_hash r
      in if \<not> has_seal r then (s, no_seal_schema)
         else if total_events = 0 then (s, no_events)
         else case if incremental \<and> has_decision_checkpoints r \<and> truthy current_head then load_decision_checkpoint r else None of
           None \<Rightarrow> verify_claim_full h g incremental r s
         | Some c \<Rightarrow>
             if Some (verified_head_hash c) = current_head \<and> total_events = cp_total_events c
             then (s, resumed (cp_sealed_count c) total_events current_head)
             else case expected_prev_hash (last_verified_event_id c) r of
               None \<Rightarrow> verify_claim_full h g incremental r s
             | Some expected_prev \<Rightarrow>
                 let tail_rows = fetch_event_rows (Some (last_verified_event_id c)) r;
                     z = verify_claim_rows h g tail_rows expected_prev (cp_sealed_count c)
                 in if tail_rows = [] then (s, resumed (cp_sealed_count c) total_events current_head)
                    else if sc_first_break z = None \<and> sc_unsealed z = 0 \<and> truthy (sc_tail_head z)
                    then (persist_decision_checkpoint
                            \<lparr>last_verified_event_id = dv_event_id (last tail_rows), verified_head_hash = the (sc_tail_head z),
                             cp_sealed_count = sc_sealed z, cp_total_events = total_events\<rparr> s,
                          resumed (sc_sealed z) total_events (sc_tail_head z))
                    else verify_claim_full h g incremental r s)"

definition verify_security_chain where
  "verify_security_chain h = verify_claim_chain h Cybersecurity"

definition verify_spine_chain :: "host \<Rightarrow> governor \<Rightarrow> bool \<Rightarrow> spine_db \<Rightarrow> spine \<Rightarrow> spine \<times> verification_result" where
  "verify_spine_chain h g = (if g = Finance then verify_decision_chain h else verify_claim_chain h g)"

section \<open>The table as a hash chain\<close>

definition decision_content ::
  "decision_event \<Rightarrow> int \<times> string \<times> string option \<times> string \<times> string \<times> money \<times> json \<times> string" where
  "decision_content e =
     (dv_event_id e, dv_operation_id e, dv_crystal_id e, dv_account_id e, dv_event_type e, dv_delta e,
      sort_keys (JObj (dv_metadata e)), dv_recorded_at e)"

definition decision_payload :: "governor \<Rightarrow> decision_event \<Rightarrow> string \<Rightarrow> string" where
  "decision_payload g e prev_hash =
     decision_body g (dv_event_id e) (dv_operation_id e) (dv_crystal_id e) (dv_account_id e) (dv_event_type e)
       (decimal_str (dv_delta e)) (dv_metadata e) prev_hash (dv_recorded_at e)"

abbreviation decision_chain :: "host \<Rightarrow> governor \<Rightarrow> string \<Rightarrow> decision_event list \<Rightarrow> bool" where
  "decision_chain h g \<equiv> chained (decision_digest h g) dv_prev_hash dv_row_hash"

abbreviation decision_head :: "host \<Rightarrow> governor \<Rightarrow> decision_event list \<Rightarrow> string" where
  "decision_head h g \<equiv> chain_head (decision_digest h g) GENESIS_HASH"

definition decisions_ok :: "host \<Rightarrow> governor \<Rightarrow> spine_db \<Rightarrow> bool" where
  "decisions_ok h g d =
     (has_seal d \<and> sorted_wrt (<) (map dv_event_id (decision_events d))
      \<and> (\<forall>e \<in> set (decision_events d). 0 < dv_event_id e \<and> dv_event_id e < next_decision_id d)
      \<and> 0 < next_decision_id d \<and> decision_chain h g GENESIS_HASH (decision_events d))"

definition sealed_decision ::
  "host \<Rightarrow> governor \<Rightarrow> int \<Rightarrow> string \<Rightarrow> string option \<Rightarrow> string \<Rightarrow> string \<Rightarrow> money \<Rightarrow> jobject \<Rightarrow> spine_db \<Rightarrow> decision_event" where
  "sealed_decision h g now operation_id crystal_id account_id event_type delta metadata d =
     (let prev_hash = decision_head h g (decision_events d)
      in \<lparr>dv_event_id = next_decision_id d, dv_operation_id = operation_id, dv_crystal_id = crystal_id,
          dv_account_id = account_id, dv_event_type = event_type, dv_delta = delta, dv_metadata = metadata,
          dv_prev_hash = Some prev_hash,
          dv_row_hash = Some (decision_row_hash h g (next_decision_id d) operation_id crystal_id account_id event_type
            (decimal_str delta) metadata prev_hash (timestamp_text h now)),
          dv_recorded_at = timestamp_text h now\<rparr>)"

definition add_decision ::
  "host \<Rightarrow> governor \<Rightarrow> int \<Rightarrow> string \<Rightarrow> string option \<Rightarrow> string \<Rightarrow> string \<Rightarrow> money \<Rightarrow> jobject \<Rightarrow> spine_db \<Rightarrow> spine_db" where
  "add_decision h g now operation_id crystal_id account_id event_type delta metadata d =
     d\<lparr>decision_events := decision_events d @
         [sealed_decision h g now operation_id crystal_id account_id event_type delta metadata d],
       next_decision_id := next_decision_id d + 1\<rparr>"

lemma json_nullable_inj [simp]: "json_nullable x = json_nullable y \<longleftrightarrow> x = y"
  by (auto simp: json_nullable_def split: option.splits)

lemma sort_keys_nullable [simp]: "sort_keys (json_nullable x) = json_nullable x"
  by (simp add: json_nullable_def split: option.split)

lemma decision_body_inj:
  assumes "decision_body g i k c u t a m p r = decision_body g i' k' c' u' t' a' m' p' r'"
  shows "(i, k, c, u, t, a, sort_keys (JObj m), p, r) = (i', k', c', u', t', a', sort_keys (JObj m'), p', r')"
  using dumps_inj [where sep = "[]", OF assms [unfolded decision_body_def dumps_compact_def]]
  by (cases g) (simp_all add: delta_key_def)

lemma decision_digest_payload: "decision_digest h g e p = sha256_hexdigest h (decision_payload g e p)"
  by (simp add: decision_digest_def decision_payload_def decision_row_hash_def)

interpretation dc: hash_chain "sha256_hexdigest h" "decision_payload g" decision_content for h g
  by unfold_locales
    (auto simp: decision_payload_def decision_content_def dest!: decision_body_inj decimal_str_inj)

lemma decision_digest_ok:
  "digest_ok h \<Longrightarrow> decision_digest h g e p \<noteq> [] \<and> decision_digest h g e p \<noteq> GENESIS_HASH"
  by (simp add: digest_ok_def decision_digest_payload)

lemma decision_hashes:
  assumes "digest_ok h" "decision_chain h g p rows" "e \<in> set rows"
  obtains x where "dv_row_hash e = Some x" "x \<noteq> []" "sealed_hash (Some x)"
  using assms(2,3)
proof (induction rows arbitrary: p thesis)
  case Nil
  then show ?case by simp
next
  case (Cons r rs)
  then show ?case using decision_digest_ok [OF assms(1)] by (auto simp: sealed_hash_def)
qed

lemma decision_head_nonempty: "digest_ok h \<Longrightarrow> decision_head h g rows \<noteq> []"
  by (induction rows rule: rev_induct) (simp_all add: chain_head_append decision_digest_ok)

lemma latest_hash_chain:
  assumes "digest_ok h" "decision_chain h g GENESIS_HASH rows" "sorted_wrt (<) (map dv_event_id rows)"
    and "filter p (rows @ xs) = rows"
  shows "latest_hash p (rows @ xs) = (if rows = [] then None else Some (decision_head h g rows))"
proof -
  have "sort_key dv_event_id rows = rows" by (rule sort_key_id_if_sorted) (use assms(3) in \<open>simp add: strict_sorted_iff\<close>)
  then show ?thesis
    using assms(4) chain_head_last [OF assms(2)] by (auto simp: latest_hash_def split: list.split)
qed

lemma str_or_head:
  "digest_ok h \<Longrightarrow> str_or (if rows = [] then None else Some (decision_head h g rows)) GENESIS_HASH = decision_head h g rows"
  using decision_head_nonempty [of h g rows] by (simp add: str_or_def)

lemma decision_head_hash_chain:
  assumes "digest_ok h" "decisions_ok h g d"
  shows "decision_head_hash d = (if decision_events d = [] then None else Some (decision_head h g (decision_events d)))"
proof -
  have c: "decision_chain h g GENESIS_HASH (decision_events d)" "sorted_wrt (<) (map dv_event_id (decision_events d))"
    using assms(2) by (simp_all add: decisions_ok_def)
  have "filter (\<lambda>e. sealed_hash (dv_row_hash e)) (decision_events d @ []) = decision_events d"
    by (auto intro!: filter_True elim: decision_hashes [OF assms(1) c(1)])
  from latest_hash_chain [OF assms(1) c this] show ?thesis by (simp add: decision_head_hash_def)
qed

text \<open>Appending to a well formed table adds one row, sealed onto the head, and nothing else changes.\<close>

lemma append_decision_run:
  assumes ok: "decisions_ok h g (sp_db s)" and h: "digest_ok h"
  shows "append_decision_event h g k c u t a m s = (on_spine (add_decision h g (sp_clock s) k c u t a m) s, Inr ())"
proof -
  let ?d = "sp_db s" let ?rows = "decision_events ?d" let ?head = "decision_head h g ?rows"
  have c: "sorted_wrt (<) (map dv_event_id ?rows)" "\<forall>e \<in> set ?rows. dv_event_id e < next_decision_id ?d"
    "decision_chain h g GENESIS_HASH ?rows" "has_seal ?d"
    using ok by (auto simp: decisions_ok_def)
  let ?x = "\<lparr>dv_event_id = next_decision_id ?d, dv_operation_id = k, dv_crystal_id = c, dv_account_id = u, dv_event_type = t,
     dv_delta = a, dv_metadata = m, dv_prev_hash = Some ?head, dv_row_hash = Some ?head,
     dv_recorded_at = timestamp_text h (sp_clock s)\<rparr>"
  have ins: "insert_decision h (sp_clock s) k c u t a m ?d
      = ?d\<lparr>decision_events := ?rows @ [?x], next_decision_id := next_decision_id ?d + 1\<rparr>"
    by (simp only: insert_decision_def Let_def decision_head_hash_chain [OF h ok] str_or_head [OF h])
  have "filter (\<lambda>e. sealed_hash (dv_row_hash e) \<and> dv_event_id e < next_decision_id ?d) (?rows @ [?x]) = ?rows"
    using c(2) by (auto intro!: filter_True elim: decision_hashes [OF h c(3)])
  from latest_hash_chain [OF h c(3,1) this]
  have prev: "str_or (latest_hash (\<lambda>e. sealed_hash (dv_row_hash e) \<and> dv_event_id e < next_decision_id ?d) (?rows @ [?x])) GENESIS_HASH
      = ?head"
    by (simp only: str_or_head [OF h])
  have upd: "update_where (\<lambda>e. dv_event_id e = next_decision_id ?d) f ?rows = ?rows" for f
    using c(2) by (intro update_where_none) auto
  have "seal_decision_event h g (next_decision_id ?d) k c u t a m (timestamp_text h (sp_clock s))
      (insert_decision h (sp_clock s) k c u t a m ?d) = add_decision h g (sp_clock s) k c u t a m ?d"
    by (simp add: ins seal_decision_event_def prev upd add_decision_def sealed_decision_def Let_def)
  then show ?thesis
    using c(4)
    by (simp add: append_decision_event_def getsE_def seqE_def bindE_def modifyE_def ret_def on_spine_def)
qed

lemma wp_append_decision:
  assumes "decisions_ok h g (sp_db s)" "digest_ok h"
  shows "wp (append_decision_event h g k c u t a m) Q E s = Q () (on_spine (add_decision h g (sp_clock s) k c u t a m) s)"
  by (simp add: wp_def append_decision_run [OF assms])

lemma add_decision_ok:
  assumes "decisions_ok h g d" "digest_ok h"
  shows "decisions_ok h g (add_decision h g now k c u t a m d)"
  using assms decision_head_nonempty [OF assms(2), of g "decision_events d"]
  by (auto simp: decisions_ok_def add_decision_def sealed_decision_def Let_def sorted_wrt_append chained_append
      decision_digest_def str_or_def dest: order.strict_trans)

end
