(* ===== verification/Crystal.thy ===== *)
theory Crystal
  imports Decision_Seal Text
begin

text \<open>
  The crystal commit protocol: \<^verbatim>\<open>platforms/common/crystal.py\<close> (one file, repeated in the three governors), the registry
  of platforms and their facet schemas (\<^verbatim>\<open>platform_registry.py\<close>, \<^verbatim>\<open>facet_schemas.py\<close>, \<^verbatim>\<open>platform_guard.py\<close>), the mesh
  rules of \<^verbatim>\<open>spine_core/commit_mesh.py\<close>, drift enforcement, and the ledgers \<^verbatim>\<open>commit_ledger.py\<close> that crystallize, commit
  and strand operations. A crystal freezes the facets of an operation; a commit must repeat them before the horizon.
\<close>

section \<open>Crystals\<close>

definition horizon_ms_of :: "string \<Rightarrow> int" where
  "horizon_ms_of risk_tier =
     (if risk_tier = ''critical'' then 5000 else if risk_tier = ''high'' then 300000 else 3600000)"

definition canonical_fingerprint :: "host \<Rightarrow> string \<Rightarrow> string \<Rightarrow> jobject \<Rightarrow> string" where
  "canonical_fingerprint h platform operation_id facets =
     sha256_hexdigest h (dumps_compact
       (JObj [(''platform'', JStr platform), (''operation_id'', JStr operation_id), (''facets'', JObj facets)]))"

definition crystal_body :: "string \<Rightarrow> string \<Rightarrow> string \<Rightarrow> string \<Rightarrow> jobject \<Rightarrow> string \<Rightarrow> string option \<Rightarrow> string" where
  "crystal_body crystal_id platform operation_id risk_tier facets fingerprint prev =
     dumps_compact
       (JObj [(''crystal_id'', JStr crystal_id), (''platform'', JStr platform), (''operation_id'', JStr operation_id),
              (''risk_tier'', JStr risk_tier), (''facets'', JObj facets), (''fingerprint'', JStr fingerprint),
              (''prev'', json_nullable prev)])"

text \<open>The hex text of \<open>uuid4\<close> is a parameter; the row takes its policy from the ledger.\<close>

definition seal_crystal ::
  "host \<Rightarrow> string \<Rightarrow> int \<Rightarrow> string \<Rightarrow> string \<Rightarrow> string \<Rightarrow> jobject \<Rightarrow> string option \<Rightarrow> string option \<Rightarrow> int option \<Rightarrow> string option \<Rightarrow> crystal_row" where
  "seal_crystal h uuid now platform operation_id risk_tier facets prev_crystal_hash parent_crystal_id horizon_ms policy_id =
     (let crystal_id = ''crys_'' @ uuid;
          fingerprint = canonical_fingerprint h platform operation_id facets;
          ms = (case horizon_ms of Some m \<Rightarrow> m | None \<Rightarrow> horizon_ms_of risk_tier)
      in \<lparr>cr_crystal_id = crystal_id, cr_platform = platform, cr_operation_id = operation_id, cr_risk_tier = risk_tier,
          cr_policy_id = policy_id, cr_facets = facets, cr_request_fingerprint = fingerprint,
          cr_crystal_hash = sha256_hexdigest h
            (crystal_body crystal_id platform operation_id risk_tier facets fingerprint prev_crystal_hash),
          cr_prev_crystal_hash = prev_crystal_hash, cr_parent_crystal_id = parent_crystal_id,
          cr_horizon_expires_at = now + ms * 1000, cr_terminal_state = None, cr_crystallized_at = now\<rparr>)"

definition verify_commit_fingerprint :: "host \<Rightarrow> crystal_row \<Rightarrow> jobject \<Rightarrow> bool" where
  "verify_commit_fingerprint h c commit_facets =
     (canonical_fingerprint h (cr_platform c) (cr_operation_id c) commit_facets = cr_request_fingerprint c)"

definition is_horizon_expired :: "int \<Rightarrow> crystal_row \<Rightarrow> bool" where
  "is_horizon_expired now c = (cr_horizon_expires_at c \<le> now)"

definition should_strand_on_expiry :: "string \<Rightarrow> bool" where
  "should_strand_on_expiry risk_tier = (risk_tier = ''critical'' \<or> risk_tier = ''high'')"

section \<open>Facet schemas and platforms\<close>

fun type_matches :: "string \<Rightarrow> json \<Rightarrow> bool" where
  "type_matches expected v =
     (if expected = ''string'' then (case v of JStr _ \<Rightarrow> True | _ \<Rightarrow> False)
      else if expected = ''number'' then (case v of JInt _ \<Rightarrow> True | JBool _ \<Rightarrow> True | _ \<Rightarrow> False)
      else if expected = ''boolean'' then (case v of JBool _ \<Rightarrow> True | _ \<Rightarrow> False)
      else True)"

definition schema_required :: "jobject \<Rightarrow> string list" where
  "schema_required spec =
     (case map_of spec ''required'' of Some (JArr ks) \<Rightarrow> concat (map (\<lambda>k. case k of JStr s \<Rightarrow> [s] | _ \<Rightarrow> []) ks) | _ \<Rightarrow> [])"

definition schema_type :: "jobject \<Rightarrow> string \<Rightarrow> string option" where
  "schema_type spec key =
     (case map_of spec ''properties'' of
        Some (JObj props) \<Rightarrow>
          (case map_of props key of
             Some (JObj p) \<Rightarrow> (case map_of p ''type'' of Some (JStr t) \<Rightarrow> Some t | _ \<Rightarrow> None)
           | _ \<Rightarrow> None)
      | _ \<Rightarrow> None)"

definition quoted :: "string \<Rightarrow> string" where
  "quoted key = CHR 0x27 # key @ [CHR 0x27]"

fun check_required :: "string \<Rightarrow> jobject \<Rightarrow> string list \<Rightarrow> unit spine_handler" where
  "check_required platform facets [] = ret ()"
| "check_required platform facets (key # keys) =
     (if map_of facets key = None
      then throw (Facet_Validation_Error (''platform='' @ platform @ '': missing required facet '' @ quoted key))
      else check_required platform facets keys)"

fun check_types :: "string \<Rightarrow> jobject \<Rightarrow> jobject \<Rightarrow> unit spine_handler" where
  "check_types platform spec [] = ret ()"
| "check_types platform spec ((key, value) # items) =
     (case schema_type spec key of
        Some expected \<Rightarrow>
          if type_matches expected value then check_types platform spec items
          else throw (Facet_Validation_Error (''platform='' @ platform @ '': facet '' @ quoted key @ '' must be '' @ expected))
      | None \<Rightarrow> check_types platform spec items)"

definition validate_facets :: "string \<Rightarrow> jobject \<Rightarrow> jobject \<Rightarrow> unit spine_handler" where
  "validate_facets platform facets spec =
     (if spec = [] then ret ()
      else seqE (check_required platform facets (schema_required spec)) (check_types platform spec facets))"

definition open_platform :: "string \<Rightarrow> platform_row" where
  "open_platform platform_name =
     \<lparr>pf_platform_name = platform_name, pf_enabled = True, pf_default_policy_id = None, pf_facet_schema = [], pf_manifest = []\<rparr>"

definition assert_platform_allowed :: "string \<Rightarrow> platform_row spine_handler" where
  "assert_platform_allowed platform_name =
     getsE (\<lambda>s. platform_registry (sp_db s)) (\<lambda>registry.
       case registry of
         None \<Rightarrow> ret (open_platform platform_name)
       | Some rows \<Rightarrow>
           (case row_where (\<lambda>p. pf_platform_name p = platform_name) rows of
              None \<Rightarrow> throw (Platform_Not_Registered (''platform not registered: '' @ platform_name))
            | Some p \<Rightarrow>
                if pf_enabled p then ret p else throw (Platform_Disabled (''platform disabled: '' @ platform_name))))"

definition validate_platform_facets :: "string \<Rightarrow> jobject \<Rightarrow> unit spine_handler" where
  "validate_platform_facets platform_name facets =
     bindE (assert_platform_allowed platform_name) (\<lambda>p.
       if pf_facet_schema p = [] then ret () else validate_facets platform_name facets (pf_facet_schema p))"

text \<open>The guard of the insurance and cybersecurity spines.\<close>

definition guard_platform :: "spine_settings \<Rightarrow> string \<Rightarrow> jobject \<Rightarrow> unit spine_handler" where
  "guard_platform cfg platform facets =
     (if \<not> platform_registry_enforce cfg then ret ()
      else getsE (\<lambda>s. case platform_registry (sp_db s) of None \<Rightarrow> None
                      | Some rows \<Rightarrow> row_where (\<lambda>p. pf_platform_name p = platform) rows) (\<lambda>row.
        case row of
          None \<Rightarrow> seqE (modifyE (counted_up ''platform_registry_reject_total''))
                    (throw (Platform_Guard_Error (''platform not registered or disabled: '' @ platform)))
        | Some p \<Rightarrow>
            if \<not> pf_enabled p
            then seqE (modifyE (counted_up ''platform_registry_reject_total''))
                   (throw (Platform_Guard_Error (''platform not registered or disabled: '' @ platform)))
            else let missing = filter (\<lambda>key. map_of facets key = None)
                       (case map_of (pf_manifest p) ''required_facet_keys'' of
                          Some (JArr ks) \<Rightarrow> concat (map (\<lambda>k. case k of JStr s \<Rightarrow> [s] | _ \<Rightarrow> []) ks) | _ \<Rightarrow> [])
            in if missing \<noteq> []
               then seqE (modifyE (counted_up ''platform_facet_reject_total''))
                      (throw (Platform_Guard_Error (''platform '' @ platform @ '' missing facets: '' @ join '', '' missing)))
               else ret ()))"

section \<open>Mesh rules\<close>

definition open_parent :: "string \<Rightarrow> spine_db \<Rightarrow> crystal_row option" where
  "open_parent platform d =
     (case sort_key cr_crystallized_at (filter (\<lambda>c. cr_platform c = platform \<and> cr_terminal_state c = None) (governance_crystals d)) of
        [] \<Rightarrow> None | c # cs \<Rightarrow> Some (last (c # cs)))"

fun mesh_blocks :: "spine_db \<Rightarrow> mesh_rule list \<Rightarrow> string option" where
  "mesh_blocks d [] = None"
| "mesh_blocks d (rule # rules) =
     (case open_parent (mr_parent_platform rule) d of
        None \<Rightarrow> mesh_blocks d rules
      | Some parent \<Rightarrow>
          if map_of (cr_facets parent) (mr_parent_facet_key rule) = Some (JStr (mr_parent_facet_value rule))
          then Some (''mesh block: '' @ mr_parent_platform rule @ ''.'' @ mr_parent_facet_key rule @ ''='' @ mr_parent_facet_value rule)
          else mesh_blocks d rules)"

definition mesh_block_reason :: "string \<Rightarrow> spine_db \<Rightarrow> string option" where
  "mesh_block_reason platform d =
     mesh_blocks d (filter (\<lambda>r. mr_child_platform r = platform \<and> mr_block_commit r \<and> mr_enabled r) (mesh_rules d))"

definition check_mesh_block :: "string \<Rightarrow> unit spine_handler" where
  "check_mesh_block platform =
     getsE (\<lambda>s. mesh_block_reason platform (sp_db s)) (\<lambda>reason.
       case reason of
         None \<Rightarrow> ret ()
       | Some r \<Rightarrow> seqE (modifyE (counted_up ''crystal_mesh_block_total'')) (throw (Surprise_Commit_Blocked r)))"

section \<open>Accounts\<close>

definition ledger_type_of :: "governor \<Rightarrow> string" where
  "ledger_type_of g = (case g of Finance \<Rightarrow> ''exposure'' | _ \<Rightarrow> ''case'')"

definition account_key :: "account_row \<Rightarrow> string \<times> string \<times> string" where
  "account_key a = (la_account_id a, la_ledger_type a, la_currency a)"

definition usd_key :: "governor \<Rightarrow> string \<Rightarrow> string \<times> string \<times> string" where
  "usd_key g account_id = (account_id, ledger_type_of g, ''USD'')"

definition find_account :: "governor \<Rightarrow> string \<Rightarrow> spine_db \<Rightarrow> account_row option" where
  "find_account g account_id d = row_where (\<lambda>a. account_key a = usd_key g account_id) (account_ledgers d)"

definition credit_account :: "governor \<Rightarrow> string \<Rightarrow> money \<Rightarrow> int \<Rightarrow> spine_db \<Rightarrow> spine_db" where
  "credit_account g account_id amount now d =
     d\<lparr>account_ledgers := update_where (\<lambda>a. account_key a = usd_key g account_id)
         (\<lambda>a. a\<lparr>la_balance := la_balance a + amount, la_updated_at := now\<rparr>) (account_ledgers d)\<rparr>"

definition lock_account :: "governor \<Rightarrow> string \<Rightarrow> string \<Rightarrow> int \<Rightarrow> spine_db \<Rightarrow> spine_db" where
  "lock_account g account_id reason now d =
     d\<lparr>account_ledgers := update_where (\<lambda>a. account_key a = usd_key g account_id)
         (\<lambda>a. a\<lparr>la_active := False, la_lock_reason := Some reason, la_locked_at := Some now, la_updated_at := now\<rparr>)
         (account_ledgers d)\<rparr>"

definition balances_nonnegative :: "spine_db \<Rightarrow> bool" where
  "balances_nonnegative d = (\<forall>a \<in> set (account_ledgers d). 0 \<le> la_balance a)"

text \<open>A change of a balance, under the \<open>CHECK\<close> constraint of the account table.\<close>

definition move_balance :: "governor \<Rightarrow> string \<Rightarrow> money \<Rightarrow> int \<Rightarrow> unit spine_handler" where
  "move_balance g account_id amount now =
     checked (\<lambda>d. balances_nonnegative (credit_account g account_id amount now d)) (credit_account g account_id amount now)"

section \<open>Drift\<close>

definition record_guardrail_incident :: "string option \<Rightarrow> string option \<Rightarrow> string \<Rightarrow> string \<Rightarrow> jobject \<Rightarrow> spine_db \<Rightarrow> spine_db" where
  "record_guardrail_incident operation_id crystal_id incident_type platform metadata d =
     (if \<not> has_incidents d then d
      else d\<lparr>spine_incidents := spine_incidents d @
               [\<lparr>in_operation_id = operation_id, in_crystal_id = crystal_id, in_incident_type = incident_type,
                 in_platform = platform, in_metadata = metadata\<rparr>]\<rparr>)"

definition exposure_drift_exceeds :: "money \<Rightarrow> money \<Rightarrow> spine_settings \<Rightarrow> bool" where
  "exposure_drift_exceeds drift reserved cfg =
     (let absolute_threshold = quantize_spine (sp_drift_absolute_tolerance cfg);
          ratio_threshold = quantize_spine (sp_drift_ratio_tolerance cfg)
      in if drift \<le> absolute_threshold then False
         else if reserved \<le> 0 then True
         else ratio_threshold * reserved < drift * 10 ^ MONEY_DB_PRECISION)"

definition enforce_drift_on_commit ::
  "host \<Rightarrow> spine_settings \<Rightarrow> string \<Rightarrow> string \<Rightarrow> string \<Rightarrow> string \<Rightarrow> money \<Rightarrow> money \<Rightarrow> int \<Rightarrow> jobject spine_handler" where
  "enforce_drift_on_commit h cfg account_id operation_id crystal_id platform reserved committed_amount now =
     (let drift_amount = max 0 (committed_amount - reserved)
      in if drift_amount \<le> 0 then ret [(''drift_enforced'', JBool False), (''drift_amount'', JStr ''0'')]
         else if \<not> exposure_drift_exceeds drift_amount reserved cfg
         then seqE (stepsE
           [append_decision_event h Finance operation_id (Some crystal_id) account_id ''DRIFT_TOLERATED'' 0
              [(''drift_amount'', JStr (decimal_str drift_amount))],
            modifyE (counted_up ''drift_tolerated_total'')])
           (ret [(''drift_enforced'', JBool False), (''drift_amount'', JStr (decimal_str drift_amount))])
         else seqE (stepsE
           [modifyE (on_spine (lock_account Finance account_id ''DRIFT_THRESHOLD_EXCEEDED'' now)),
            modifyE (on_spine (record_guardrail_incident (Some operation_id) (Some crystal_id) ''DRIFT_THRESHOLD_EXCEEDED'' platform
              [(''drift_amount'', JStr (decimal_str drift_amount)), (''reserved_exposure'', JStr (decimal_str reserved)),
               (''committed_exposure'', JStr (decimal_str committed_amount)),
               (''threshold_absolute'', JStr (decimal_str (quantize_spine (sp_drift_absolute_tolerance cfg)))),
               (''threshold_ratio'', JStr (decimal_str (quantize_spine (sp_drift_ratio_tolerance cfg))))])),
            append_decision_event h Finance operation_id (Some crystal_id) account_id ''DRIFT_ENFORCED'' 0
              [(''drift_amount'', JStr (decimal_str drift_amount))],
            modifyE (counted_up ''drift_enforced_total'')])
           (ret [(''drift_enforced'', JBool True), (''drift_amount'', JStr (decimal_str drift_amount))]))"

end
