(* ===== verification/Commit_Ledger.thy ===== *)
theory Commit_Ledger
  imports Crystal
begin

text \<open>
  \<^verbatim>\<open>commit_ledger.py\<close> of the three spines, the sweep of expired horizons and the audits of their reconcilers, and the routes
  of the finance spine. What the spines share is one definition over a \<open>governor\<close>; the finance spine alone has the
  registry check inside the ledger, the fingerprint check on replay, drift enforcement and adjudication.
\<close>

section \<open>Requests and results\<close>

record crystallize_request =
  cq_platform :: string
  cq_operation_id :: string
  cq_account_id :: string
  cq_risk_tier :: string
  cq_facets :: jobject
  cq_policy_id :: "string option"
  cq_reserved :: decimal
  cq_parent_crystal_id :: "string option"

record crystallize_result =
  cz_crystal_id :: string
  cz_operation_id :: string
  cz_status :: string
  cz_horizon_expires_at :: int

record commit_request =
  cm_crystal_id :: string
  cm_facets :: jobject
  cm_committed :: decimal
  cm_outcome :: string
  cm_late_authority :: bool

record commit_result =
  co_operation_id :: string
  co_crystal_id :: string
  co_status :: string

section \<open>Crystallize\<close>

definition policy_horizon :: "governor \<Rightarrow> string option \<Rightarrow> decimal \<Rightarrow> int option spine_handler" where
  "policy_horizon g policy_id reserved =
     (if \<not> truthy policy_id then ret None
      else getsE (\<lambda>s. row_where (\<lambda>p. pl_policy_id p = the policy_id) (policy_registry (sp_db s))) (\<lambda>pol.
        case pol of
          None \<Rightarrow> throw (Conflict_Error (''policy not enabled: '' @ the policy_id))
        | Some p \<Rightarrow>
            if \<not> pl_enabled p then throw (Conflict_Error (''policy not enabled: '' @ the policy_id))
            else if exceeds reserved (pl_max_per_commit p)
            then throw (Conflict_Error (if g = Finance then ''reserved exposure exceeds policy max'' else ''reserved amount exceeds policy max''))
            else ret (Some (pl_commit_horizon_ms p))))"

definition last_crystal_hash :: "spine_db \<Rightarrow> string option" where
  "last_crystal_hash d =
     (case sort_key cr_crystallized_at (governance_crystals d) of [] \<Rightarrow> None | c # cs \<Rightarrow> Some (cr_crystal_hash (last (c # cs))))"

definition reserve_balance :: "governor \<Rightarrow> string \<Rightarrow> money \<Rightarrow> int \<Rightarrow> unit spine_handler" where
  "reserve_balance g account_id reserved now =
     whenE (0 < reserved) (getsE (\<lambda>s. find_account g account_id (sp_db s)) (\<lambda>bal.
       case bal of
         None \<Rightarrow> throw (Insufficient_Error ''account not found or inactive'')
       | Some a \<Rightarrow>
           if \<not> la_active a then throw (Insufficient_Error ''account not found or inactive'')
           else if la_balance a < reserved
           then throw (Insufficient_Error (if g = Finance then ''insufficient exposure balance'' else ''insufficient reserve balance''))
           else move_balance g account_id (- reserved) now))"

definition insert_crystal :: "crystal_row \<Rightarrow> unit spine_handler" where
  "insert_crystal c =
     checked (\<lambda>d. (\<forall>b \<in> set (governance_crystals d). cr_crystal_id b \<noteq> cr_crystal_id c
                      \<and> (cr_platform b, cr_operation_id b) \<noteq> (cr_platform c, cr_operation_id c))
                  \<and> (case cr_policy_id c of None \<Rightarrow> True | Some p \<Rightarrow> \<exists>q \<in> set (policy_registry d). pl_policy_id q = p))
       (\<lambda>d. d\<lparr>governance_crystals := governance_crystals d @ [c]\<rparr>)"

definition insert_commit :: "commit_row \<Rightarrow> unit spine_handler" where
  "insert_commit e =
     checked (\<lambda>d. (\<forall>x \<in> set (commit_escrow d). ce_operation_id x \<noteq> ce_operation_id e) \<and> 0 \<le> ce_reserved e
                  \<and> (\<exists>c \<in> set (governance_crystals d). cr_crystal_id c = ce_crystal_id e))
       (\<lambda>d. d\<lparr>commit_escrow := commit_escrow d @ [e]\<rparr>)"

definition new_commit :: "spine_settings \<Rightarrow> crystallize_request \<Rightarrow> crystal_row \<Rightarrow> money \<Rightarrow> int \<Rightarrow> commit_row" where
  "new_commit cfg r c reserved now =
     \<lparr>ce_operation_id = cq_operation_id r, ce_crystal_id = cr_crystal_id c, ce_account_id = cq_account_id r,
      ce_platform = cq_platform r, ce_reserved = reserved, ce_committed = 0, ce_status = C_CRYSTALLIZED,
      ce_terminal_reason = None, ce_expires_at = now + commit_ttl_seconds cfg * 1000000, ce_committed_at = None\<rparr>"

definition crystallize_new ::
  "host \<Rightarrow> governor \<Rightarrow> spine_settings \<Rightarrow> string \<Rightarrow> crystallize_request \<Rightarrow> string option \<Rightarrow> crystallize_result spine_handler" where
  "crystallize_new h g cfg uuid r policy_id =
     bindE (policy_horizon g policy_id (cq_reserved r)) (\<lambda>horizon_ms.
       getsE (\<lambda>s. (last_crystal_hash (sp_db s), sp_clock s)) (\<lambda>(prev_crystal_hash, now).
         let c = seal_crystal h uuid now (cq_platform r) (cq_operation_id r) (cq_risk_tier r) (cq_facets r)
                   prev_crystal_hash (cq_parent_crystal_id r) horizon_ms policy_id;
             reserved = quantize_spine (cq_reserved r)
         in seqE (stepsE
           [reserve_balance g (cq_account_id r) reserved now,
            insert_crystal c,
            insert_commit (new_commit cfg r c reserved now),
            append_decision_event h g (cq_operation_id r) (Some (cr_crystal_id c)) (cq_account_id r) ''CRYSTAL_CREATED'' (- reserved)
              [(''platform'', JStr (cq_platform r)), (''risk_tier'', JStr (cq_risk_tier r))],
            modifyE spine_commit,
            modifyE (counted_up ''crystallize_success_total'')])
           (ret \<lparr>cz_crystal_id = cr_crystal_id c, cz_operation_id = cq_operation_id r, cz_status = ''CRYSTALLIZED'',
                 cz_horizon_expires_at = cr_horizon_expires_at c\<rparr>)))"

definition find_crystal_of :: "string \<Rightarrow> string \<Rightarrow> spine_db \<Rightarrow> crystal_row option" where
  "find_crystal_of platform operation_id d =
     row_where (\<lambda>c. cr_platform c = platform \<and> cr_operation_id c = operation_id) (governance_crystals d)"

definition replayed :: "crystallize_request \<Rightarrow> crystal_row \<Rightarrow> crystallize_result" where
  "replayed r c = \<lparr>cz_crystal_id = cr_crystal_id c, cz_operation_id = cq_operation_id r, cz_status = ''REPLAY'',
                   cz_horizon_expires_at = cr_horizon_expires_at c\<rparr>"

definition default_policy :: "crystallize_request \<Rightarrow> platform_row \<Rightarrow> string option" where
  "default_policy r p =
     (if cq_policy_id r = None \<and> truthy (pf_default_policy_id p) then pf_default_policy_id p else cq_policy_id r)"

text \<open>The finance spine.\<close>

definition crystallize_operation :: "host \<Rightarrow> spine_settings \<Rightarrow> string \<Rightarrow> crystallize_request \<Rightarrow> crystallize_result spine_handler" where
  "crystallize_operation h cfg uuid r =
     bindE (assert_platform_allowed (cq_platform r)) (\<lambda>p.
       seqE (validate_platform_facets (cq_platform r) (cq_facets r))
       (getsE (\<lambda>s. find_crystal_of (cq_platform r) (cq_operation_id r) (sp_db s)) (\<lambda>existing.
         case existing of
           Some c \<Rightarrow>
             if canonical_fingerprint h (cq_platform r) (cq_operation_id r) (cq_facets r) \<noteq> cr_request_fingerprint c
             then throw (Conflict_Error ''fingerprint mismatch on crystallize replay'')
             else seqE (modifyE (counted_up ''crystallize_idempotent_replay_total'')) (ret (replayed r c))
         | None \<Rightarrow> crystallize_new h Finance cfg uuid r (default_policy r p))))"

text \<open>The insurance and cybersecurity spines.\<close>

definition claim_crystallize_operation ::
  "host \<Rightarrow> governor \<Rightarrow> spine_settings \<Rightarrow> string \<Rightarrow> crystallize_request \<Rightarrow> crystallize_result spine_handler" where
  "claim_crystallize_operation h g cfg uuid r =
     getsE (\<lambda>s. find_crystal_of (cq_platform r) (cq_operation_id r) (sp_db s)) (\<lambda>existing.
       case existing of
         Some c \<Rightarrow> seqE (modifyE (counted_up ''crystallize_success_total'')) (ret (replayed r c))
       | None \<Rightarrow> crystallize_new h g cfg uuid r (cq_policy_id r))"

definition security_crystallize_operation where
  "security_crystallize_operation h = claim_crystallize_operation h Cybersecurity"

section \<open>Commit\<close>

definition load_crystal :: "string \<Rightarrow> spine_db \<Rightarrow> (crystal_row \<times> commit_row) option" where
  "load_crystal crystal_id d =
     (case row_where (\<lambda>c. cr_crystal_id c = crystal_id) (governance_crystals d) of
        None \<Rightarrow> None
      | Some c \<Rightarrow>
          (case row_where (\<lambda>e. ce_crystal_id e = crystal_id) (commit_escrow d) of None \<Rightarrow> None | Some e \<Rightarrow> Some (c, e)))"

definition set_terminal :: "string \<Rightarrow> commit_status \<Rightarrow> spine_db \<Rightarrow> spine_db" where
  "set_terminal crystal_id st d =
     d\<lparr>governance_crystals := update_where (\<lambda>c. cr_crystal_id c = crystal_id) (\<lambda>c. c\<lparr>cr_terminal_state := Some st\<rparr>)
         (governance_crystals d)\<rparr>"

definition change_commit :: "string \<Rightarrow> (commit_row \<Rightarrow> commit_row) \<Rightarrow> spine_db \<Rightarrow> spine_db" where
  "change_commit crystal_id f d =
     d\<lparr>commit_escrow := update_where (\<lambda>e. ce_crystal_id e = crystal_id) f (commit_escrow d)\<rparr>"

definition committed_row :: "money \<Rightarrow> int \<Rightarrow> commit_row \<Rightarrow> commit_row" where
  "committed_row amount now e = e\<lparr>ce_status := C_COMMITTED, ce_committed := amount, ce_committed_at := Some now\<rparr>"

definition ended_row :: "commit_status \<Rightarrow> string \<Rightarrow> commit_row \<Rightarrow> commit_row" where
  "ended_row st reason e = e\<lparr>ce_status := st, ce_terminal_reason := Some reason\<rparr>"

definition drift_of ::
  "host \<Rightarrow> governor \<Rightarrow> spine_settings \<Rightarrow> crystal_row \<Rightarrow> commit_row \<Rightarrow> money \<Rightarrow> int \<Rightarrow> jobject spine_handler" where
  "drift_of h g cfg c e amount now =
     (if g = Finance
      then enforce_drift_on_commit h cfg (ce_account_id e) (cr_operation_id c) (cr_crystal_id c) (cr_platform c)
             (ce_reserved e) amount now
      else ret [])"

definition commit_new ::
  "host \<Rightarrow> governor \<Rightarrow> spine_settings \<Rightarrow> commit_request \<Rightarrow> crystal_row \<Rightarrow> commit_row \<Rightarrow> int \<Rightarrow> commit_result spine_handler" where
  "commit_new h g cfg r c e now =
     (let amount = quantize_spine (cm_committed r); refund = ce_reserved e - amount
      in seqE (stepsE
        [whenE (0 < refund) (move_balance g (ce_account_id e) refund now),
         checked (\<lambda>_. 0 \<le> amount) (change_commit (cr_crystal_id c) (committed_row amount now)),
         modifyE (on_spine (set_terminal (cr_crystal_id c) C_COMMITTED)),
         bindE (drift_of h g cfg c e amount now) (\<lambda>drift_result.
           append_decision_event h g (cr_operation_id c) (Some (cr_crystal_id c)) (ce_account_id e) ''COMMITTED_FINAL'' amount
             ((''outcome'', JStr (cm_outcome r)) # drift_result)),
         modifyE spine_commit,
         modifyE (counted_up ''commit_success_total'')])
        (ret \<lparr>co_operation_id = cr_operation_id c, co_crystal_id = cr_crystal_id c, co_status = ''COMMITTED''\<rparr>))"

definition commit_operation :: "host \<Rightarrow> governor \<Rightarrow> spine_settings \<Rightarrow> commit_request \<Rightarrow> commit_result spine_handler" where
  "commit_operation h g cfg r =
     getsE (\<lambda>s. (load_crystal (cm_crystal_id r) (sp_db s), sp_clock s)) (\<lambda>(row, now).
       case row of
         None \<Rightarrow> seqE (modifyE (counted_up ''surprise_commit_blocked_total'')) (throw (Surprise_Commit_Blocked ''unknown crystal''))
       | Some (c, e) \<Rightarrow>
           if cr_terminal_state c \<noteq> None
           then ret \<lparr>co_operation_id = cr_operation_id c, co_crystal_id = cr_crystal_id c, co_status = ''REPLAY''\<rparr>
           else if \<not> verify_commit_fingerprint h c (cm_facets r)
           then seqE (modifyE (counted_up ''crystal_fingerprint_mismatch_total'')) (throw (Surprise_Commit_Blocked ''fingerprint mismatch''))
           else if is_horizon_expired now c \<and> \<not> cm_late_authority r
           then (if should_strand_on_expiry (cr_risk_tier c)
                 then seqE (modifyE (counted_up ''crystal_horizon_strand_total'')) (throw (Horizon_Stranded_Error ''horizon expired''))
                 else throw (Surprise_Commit_Blocked ''horizon expired''))
           else seqE (check_mesh_block (cr_platform c)) (commit_new h g cfg r c e now))"

definition claim_commit_operation where
  "claim_commit_operation h = commit_operation h Insurance"

definition security_commit_operation where
  "security_commit_operation h = commit_operation h Cybersecurity"

section \<open>Adjudication\<close>

definition adjudicate_operation :: "host \<Rightarrow> string \<Rightarrow> string \<Rightarrow> string \<Rightarrow> commit_result spine_handler" where
  "adjudicate_operation h crystal_id action reason =
     (if action \<noteq> ''strand'' then throw (Surprise_Commit_Blocked (''unsupported adjudicate action: '' @ action))
      else getsE (\<lambda>s. (load_crystal crystal_id (sp_db s), sp_clock s)) (\<lambda>(row, now).
        case row of
          None \<Rightarrow> throw (Surprise_Commit_Blocked ''unknown crystal'')
        | Some (c, e) \<Rightarrow>
            if cr_terminal_state c \<noteq> None
            then ret \<lparr>co_operation_id = cr_operation_id c, co_crystal_id = crystal_id, co_status = ''REPLAY''\<rparr>
            else seqE (stepsE
              [whenE (0 < ce_reserved e) (move_balance Finance (ce_account_id e) (ce_reserved e) now),
               modifyE (on_spine (set_terminal crystal_id C_STRANDED)),
               modifyE (on_spine (change_commit crystal_id (ended_row C_STRANDED (take 255 reason)))),
               append_decision_event h Finance (cr_operation_id c) (Some crystal_id) (ce_account_id e) ''STRANDED_HOLD'' 0
                 [(''reason'', JStr reason), (''source'', JStr ''adjudicate'')],
               modifyE spine_commit,
               modifyE (counted_up ''crystal_manual_strand_total'')])
              (ret \<lparr>co_operation_id = cr_operation_id c, co_crystal_id = crystal_id, co_status = ''STRANDED''\<rparr>)))"

section \<open>The sweep of expired horizons\<close>

definition open_status :: "commit_status \<Rightarrow> bool" where
  "open_status st = (st = C_CRYSTALLIZED \<or> st = C_IN_FLIGHT \<or> st = C_ACTION_TIMEOUT)"

definition horizon_due :: "int \<Rightarrow> spine_db \<Rightarrow> crystal_row \<Rightarrow> bool" where
  "horizon_due now d c =
     (cr_terminal_state c = None \<and> cr_horizon_expires_at c \<le> now
      \<and> (case row_where (\<lambda>e. ce_crystal_id e = cr_crystal_id c) (commit_escrow d) of None \<Rightarrow> False | Some e \<Rightarrow> open_status (ce_status e)))"

definition due_horizons :: "nat \<Rightarrow> int \<Rightarrow> spine_db \<Rightarrow> crystal_row list" where
  "due_horizons batch_size now d =
     take batch_size (sort_key cr_horizon_expires_at (filter (horizon_due now d) (governance_crystals d)))"

definition strand_horizon :: "host \<Rightarrow> governor \<Rightarrow> crystal_row \<Rightarrow> commit_row \<Rightarrow> unit spine_handler" where
  "strand_horizon h g c e =
     stepsE
       [modifyE (on_spine (set_terminal (cr_crystal_id c) C_STRANDED)),
        modifyE (on_spine (change_commit (cr_crystal_id c) (ended_row C_STRANDED ''HORIZON_STRANDED''))),
        append_decision_event h g (cr_operation_id c) (Some (cr_crystal_id c)) (ce_account_id e) ''STRANDED_HOLD'' 0
          [(''reason'', JStr ''horizon_sweep'')],
        modifyE (counted_up ''reconciler_horizon_strand_total'')]"

definition expire_horizon :: "host \<Rightarrow> governor \<Rightarrow> int \<Rightarrow> crystal_row \<Rightarrow> commit_row \<Rightarrow> unit spine_handler" where
  "expire_horizon h g now c e =
     stepsE
       [move_balance g (ce_account_id e) (ce_reserved e) now,
        modifyE (on_spine (set_terminal (cr_crystal_id c) C_EXPIRED)),
        modifyE (on_spine (change_commit (cr_crystal_id c) (ended_row C_EXPIRED ''HORIZON_EXPIRED''))),
        append_decision_event h g (cr_operation_id c) (Some (cr_crystal_id c)) (ce_account_id e) ''HORIZON_EXPIRED'' (ce_reserved e)
          [(''reason'', JStr ''horizon_sweep'')],
        modifyE (counted_up ''reconciler_expired_total'')]"

text \<open>The rows were read before the loop; a row carries its own columns.\<close>

definition due_rows_of :: "nat \<Rightarrow> int \<Rightarrow> spine_db \<Rightarrow> (crystal_row \<times> commit_row) list" where
  "due_rows_of batch_size now d =
     map (\<lambda>c. (c, the (row_where (\<lambda>e. ce_crystal_id e = cr_crystal_id c) (commit_escrow d)))) (due_horizons batch_size now d)"

definition sweep_horizon :: "host \<Rightarrow> governor \<Rightarrow> int \<Rightarrow> crystal_row \<times> commit_row \<Rightarrow> unit spine_handler" where
  "sweep_horizon h g now row =
     (case row of (c, e) \<Rightarrow>
        if should_strand_on_expiry (cr_risk_tier c) \<or> ce_status e \<noteq> C_CRYSTALLIZED then strand_horizon h g c e
        else expire_horizon h g now c e)"

definition sweep_expired_horizons :: "host \<Rightarrow> governor \<Rightarrow> nat \<Rightarrow> nat spine_handler" where
  "sweep_expired_horizons h g batch_size =
     getsE (\<lambda>s. (due_rows_of batch_size (sp_clock s) (sp_db s), sp_clock s)) (\<lambda>(rows, now).
       seqE (stepsE (map (sweep_horizon h g now) rows)) (seqE (modifyE spine_commit) (ret (length rows))))"

definition claim_sweep_expired_horizons where
  "claim_sweep_expired_horizons h = sweep_expired_horizons h Insurance"

definition security_sweep_expired_horizons where
  "security_sweep_expired_horizons h = sweep_expired_horizons h Cybersecurity"

section \<open>Audits\<close>

definition negative_balances :: "spine_db \<Rightarrow> nat" where
  "negative_balances d = count_where (\<lambda>a. la_balance a < 0) (account_ledgers d)"

definition committed_without_crystal :: "spine_db \<Rightarrow> nat" where
  "committed_without_crystal d =
     count_where (\<lambda>e. ce_status e = C_COMMITTED
        \<and> \<not> (\<exists>c \<in> set (governance_crystals d). cr_crystal_id c = ce_crystal_id e \<and> cr_terminal_state c = Some C_COMMITTED))
       (commit_escrow d)"

definition high_risk_auto_expired :: "spine_db \<Rightarrow> nat" where
  "high_risk_auto_expired d =
     count_where (\<lambda>c. cr_terminal_state c = Some C_EXPIRED
        \<and> (\<exists>p \<in> set (policy_registry d). cr_policy_id c = Some (pl_policy_id p)
              \<and> (pl_risk_classification p = ''critical'' \<or> pl_risk_classification p = ''high'') \<and> \<not> pl_allow_auto_expire p))
       (governance_crystals d)"

definition repeated_operations :: "(string \<Rightarrow> bool) \<Rightarrow> spine_db \<Rightarrow> nat" where
  "repeated_operations types d =
     length (filter (\<lambda>k. 1 < count_where (\<lambda>e. dv_operation_id e = k \<and> types (dv_event_type e)) (decision_events d))
       (remdups (map dv_operation_id (decision_events d))))"

definition stranded_without_hold :: "spine_db \<Rightarrow> nat" where
  "stranded_without_hold d =
     count_where (\<lambda>e. ce_status e = C_STRANDED
        \<and> \<not> (\<exists>v \<in> set (decision_events d). dv_operation_id v = ce_operation_id e \<and> dv_event_type v = ''STRANDED_HOLD''))
       (commit_escrow d)"

definition cap_overruns :: "spine_db \<Rightarrow> nat" where
  "cap_overruns d = count_where (\<lambda>c. cp_cap_amount c < cp_reserved_total c) (cap_states d)"

definition raise_count :: "string \<Rightarrow> nat \<Rightarrow> unit spine_handler" where
  "raise_count name n = whenE (0 < n) (modifyE (count_by name (int n)))"

text \<open>The text of the dict of violations, as the exceptions carry it.\<close>

definition violations_text :: "(string \<times> nat) list \<Rightarrow> string" where
  "violations_text vs =
     ''{'' @ join '', '' (map (\<lambda>(k, n). quoted k @ '': '' @ int_str (int n)) vs) @ ''}''"

definition assert_none :: "string \<Rightarrow> (string \<times> nat) list \<Rightarrow> unit spine_handler" where
  "assert_none prefix vs =
     (if 0 < sum_list (map snd vs) then throw (Ops_Invariant_Error (prefix @ violations_text vs)) else ret ())"

definition assert_regulatory_ops_invariants :: "unit spine_handler" where
  "assert_regulatory_ops_invariants =
     getsE (\<lambda>s. (negative_balances (sp_db s), cap_overruns (sp_db s))) (\<lambda>(negative, cap_over).
       seqE (stepsE
         [raise_count ''negative_balance_detected_total'' negative,
          raise_count ''exposure_cap_overrun_detected_total'' cap_over])
         (assert_none ''regulatory ops violations: '' [(''negative_balances'', negative), (''exposure_cap_overruns'', cap_over)]))"

definition assert_crystal_ops_invariants :: "unit spine_handler" where
  "assert_crystal_ops_invariants =
     getsE (\<lambda>s. (committed_without_crystal (sp_db s), high_risk_auto_expired (sp_db s),
                 repeated_operations (\<lambda>t. t = ''COMMITTED_FINAL'') (sp_db s))) (\<lambda>(orphans, expired, duplicates).
       seqE (stepsE [raise_count ''surprise_commit_blocked_total'' orphans, raise_count ''duplicate_commit_anomaly_total'' duplicates])
         (assert_none ''crystal ops violations: ''
            [(''committed_without_crystal'', orphans), (''high_risk_auto_expired'', expired), (''duplicate_commits'', duplicates)]))"

text \<open>The spines of the insurance and cybersecurity governors have one audit; its text names the domain.\<close>

definition domain_name :: "governor \<Rightarrow> string" where
  "domain_name g = (case g of Finance \<Rightarrow> ''regulatory'' | Insurance \<Rightarrow> ''claim'' | Cybersecurity \<Rightarrow> ''security'')"

definition assert_domain_ops_invariants :: "governor \<Rightarrow> unit spine_handler" where
  "assert_domain_ops_invariants g =
     getsE (\<lambda>s. (negative_balances (sp_db s), cap_overruns (sp_db s), committed_without_crystal (sp_db s), high_risk_auto_expired (sp_db s),
                 repeated_operations (\<lambda>t. t = ''COMMITTED_FINAL'') (sp_db s),
                 repeated_operations (\<lambda>t. t = ''HORIZON_EXPIRED'' \<or> t = ''EXPIRED_SWEEP'') (sp_db s),
                 stranded_without_hold (sp_db s))) (\<lambda>(negative, cap_over, orphans, expired, duplicates, refunds, unheld).
       seqE (stepsE
         [raise_count ''negative_balance_detected_total'' negative,
          raise_count ''aggregate_cap_overrun_detected_total'' cap_over,
          raise_count ''surprise_commit_blocked_total'' orphans,
          raise_count ''high_risk_auto_expired_total'' expired,
          raise_count ''duplicate_commit_anomaly_total'' duplicates,
          raise_count ''duplicate_refund_anomaly_total'' refunds,
          raise_count ''stranded_without_hold_total'' unheld])
         (assert_none (domain_name g @ '' ops violations: '')
            [(''negative_balances'', negative), (''aggregate_cap_overruns'', cap_over), (''committed_without_crystal'', orphans),
             (''high_risk_auto_expired'', expired), (''duplicate_commits'', duplicates), (''duplicate_refunds'', refunds),
             (''stranded_without_hold'', unheld)]))"

definition assert_claim_ops_invariants where
  "assert_claim_ops_invariants = assert_domain_ops_invariants Insurance"

definition assert_security_ops_invariants where
  "assert_security_ops_invariants = assert_domain_ops_invariants Cybersecurity"

section \<open>Diagnostic mode\<close>

text \<open>\<open>redis\<close> says whether the call reaches Redis. The reconciler enters the mode, the sidecar clears it.\<close>

definition enter_spine_diagnostic :: "governor \<Rightarrow> bool \<Rightarrow> string \<Rightarrow> string \<Rightarrow> spine \<Rightarrow> spine" where
  "enter_spine_diagnostic g redis component reason s =
     (let t = s\<lparr>sp_reconciler_diagnostic := \<lparr>diag_active = True, diag_reason = Some reason, diag_component = Some component\<rparr>,
                sp_cluster_flag := redis \<or> sp_cluster_flag s\<rparr>
      in if diag_active (sp_reconciler_diagnostic s) then t
         else counted_up (domain_name g @ ''_audit_diagnostic_entered_total'') t)"

definition clear_spine_diagnostic :: "bool \<Rightarrow> spine \<Rightarrow> spine" where
  "clear_spine_diagnostic redis s =
     s\<lparr>sp_diagnostic := \<lparr>diag_active = False, diag_reason = None, diag_component = None\<rparr>,
       sp_cluster_flag := \<not> redis \<and> sp_cluster_flag s\<rparr>"

definition spine_diagnostic_mode :: "bool \<Rightarrow> diagnostic \<Rightarrow> spine \<Rightarrow> bool" where
  "spine_diagnostic_mode redis local s = (redis \<and> sp_cluster_flag s \<or> diag_active local)"

definition sweep_halted :: "bool \<Rightarrow> spine \<Rightarrow> bool" where
  "sweep_halted redis s = spine_diagnostic_mode redis (sp_reconciler_diagnostic s) s"

section \<open>The loop of the reconcilers\<close>

definition run_audits :: "governor \<Rightarrow> bool \<Rightarrow> bool spine_handler" where
  "run_audits g redis =
     catchE
       (seqE (if g = Finance then seqE assert_regulatory_ops_invariants assert_crystal_ops_invariants else assert_domain_ops_invariants g)
         (ret True))
       (\<lambda>e. case e of
          Ops_Invariant_Error reason \<Rightarrow>
            seqE (stepsE [modifyE (counted_up (domain_name g @ ''_audit_violation_total'')),
                          modifyE (enter_spine_diagnostic g redis ''reconciler'' reason)])
              (ret False)
        | _ \<Rightarrow> throw e)"

text \<open>One turn of \<open>run_loop\<close>; the loop logs and forgets an exception.\<close>

definition spine_turn :: "host \<Rightarrow> governor \<Rightarrow> bool \<Rightarrow> bool \<Rightarrow> unit spine_handler" where
  "spine_turn h g redis is_leader =
     catchE
       (getsE (sweep_halted redis) (\<lambda>halted.
          if g \<noteq> Finance \<and> halted then ret ()
          else spine_session
            (if \<not> is_leader then ret ()
             else seqE (whenE (\<not> halted) (seqE (sweep_expired_horizons h g 100) (ret ())))
                    (seqE (run_audits g redis) (ret ())))))
       (\<lambda>_. ret ())"

section \<open>Routes\<close>

definition writes_halted :: "spine_settings \<Rightarrow> bool \<Rightarrow> spine \<Rightarrow> bool" where
  "writes_halted cfg redis s = (sp_diagnostic_mode_blocks_writes cfg \<and> spine_diagnostic_mode redis (sp_diagnostic s) s)"

definition unless_halted :: "spine_settings \<Rightarrow> bool \<Rightarrow> 'a spine_handler \<Rightarrow> 'a spine_handler" where
  "unless_halted cfg redis m =
     getsE (writes_halted cfg redis) (\<lambda>halted. if halted then throw (Http_Error 503 ''diagnostic mode: writes halted'') else m)"

definition crystallize_except :: "spine_exn \<Rightarrow> 'a spine_handler" where
  "crystallize_except e =
     (case e of
        Conflict_Error m \<Rightarrow> throw (Http_Error 409 m)
      | Insufficient_Error m \<Rightarrow> throw (Http_Error 409 m)
      | Platform_Not_Registered m \<Rightarrow> throw (Http_Error 422 m)
      | Platform_Disabled m \<Rightarrow> throw (Http_Error 403 m)
      | Facet_Validation_Error m \<Rightarrow> throw (Http_Error 422 m)
      | Platform_Guard_Error m \<Rightarrow> throw (Http_Error 422 m)
      | _ \<Rightarrow> throw e)"

definition commit_except :: "spine_exn \<Rightarrow> 'a spine_handler" where
  "commit_except e =
     (case e of
        Surprise_Commit_Blocked m \<Rightarrow> throw (Http_Error 409 m)
      | Horizon_Stranded_Error m \<Rightarrow> throw (Http_Error 409 m)
      | _ \<Rightarrow> throw e)"

definition crystallize_route :: "host \<Rightarrow> spine_settings \<Rightarrow> bool \<Rightarrow> string \<Rightarrow> crystallize_request \<Rightarrow> crystallize_result spine_handler" where
  "crystallize_route h cfg redis uuid r =
     unless_halted cfg redis (catchE (spine_session (crystallize_operation h cfg uuid r)) crystallize_except)"

text \<open>The insurance and cybersecurity route from its session on; the limiter before it does not touch the tables.\<close>

definition claim_crystallize_route ::
  "host \<Rightarrow> governor \<Rightarrow> spine_settings \<Rightarrow> bool \<Rightarrow> string \<Rightarrow> crystallize_request \<Rightarrow> crystallize_result spine_handler" where
  "claim_crystallize_route h g cfg redis uuid r =
     unless_halted cfg redis
       (catchE (spine_session (seqE (guard_platform cfg (cq_platform r) (cq_facets r)) (claim_crystallize_operation h g cfg uuid r)))
          crystallize_except)"

definition commit_route :: "host \<Rightarrow> governor \<Rightarrow> spine_settings \<Rightarrow> bool \<Rightarrow> commit_request \<Rightarrow> commit_result spine_handler" where
  "commit_route h g cfg redis r =
     unless_halted cfg redis (catchE (spine_session (commit_operation h g cfg r)) commit_except)"

definition adjudicate_route :: "host \<Rightarrow> spine_settings \<Rightarrow> bool \<Rightarrow> string \<Rightarrow> string \<Rightarrow> string \<Rightarrow> commit_result spine_handler" where
  "adjudicate_route h cfg redis crystal_id action reason =
     unless_halted cfg redis (catchE (spine_session (adjudicate_operation h crystal_id action reason)) commit_except)"

end
