(* ===== verification/Decision_Verify.thy ===== *)
theory Decision_Verify
  imports Decision_Seal
begin

text \<open>
  What the chain verification of the spines decides, for both versions of it, and that resuming from a checkpoint
  agrees with it on a table that only grew.
\<close>

lemmas verify_spine_defs = verify_spine_chain_def verify_decision_chain_def verify_claim_chain_def Let_def

section \<open>The loops\<close>

lemma decision_loop_chained:
  assumes "digest_ok h" "decision_chain h Finance p rows"
  shows "decision_loop h rows (Some p) head n u i
     = \<lparr>vs_valid = (u = 0), vs_sealed_count = n + length rows, vs_unsealed_count = u,
        vs_head_hash = (if rows = [] then head else Some (chain_head (decision_digest h Finance) p rows)),
        vs_first_break = None, vs_last_event_id = (if rows = [] then i else dv_event_id (last rows))\<rparr>"
  using assms(2)
proof (induction rows arbitrary: p head n i)
  case Nil
  then show ?case by simp
next
  case (Cons r rs)
  have "sealed_hash (dv_row_hash r)" using Cons.prems decision_digest_ok [OF assms(1), of Finance r p] by (auto simp: sealed_hash_def)
  then show ?case using Cons by (simp add: Let_def)
qed

lemma decision_loop_unsealed: "0 < u \<Longrightarrow> \<not> vs_valid (decision_loop h rows p head n u i)"
  by (induction rows arbitrary: p head n u i) (auto simp: Let_def)

lemma decision_loop_valid:
  assumes "digest_ok h"
  shows "vs_valid (decision_loop h rows (Some p) head n u i) \<longleftrightarrow> u = 0 \<and> decision_chain h Finance p rows"
proof (induction rows arbitrary: p head n u i)
  case Nil
  then show ?case by simp
next
  case (Cons r rs)
  show ?case
  proof (cases "sealed_hash (dv_row_hash r)")
    case True
    then show ?thesis using Cons by (auto simp: Let_def)
  next
    case False
    moreover have "dv_row_hash r \<noteq> Some (decision_digest h Finance r p)"
      using False decision_digest_ok [OF assms, of Finance r p] by (auto simp: sealed_hash_def)
    ultimately show ?thesis by (simp add: decision_loop_unsealed)
  qed
qed

lemma scan_chained:
  "decision_chain h g p rows \<Longrightarrow> scan_rows h g rows (Some p) z
     = z\<lparr>sc_sealed := sc_sealed z + length rows,
         sc_tail_head := (if rows = [] then sc_tail_head z else Some (chain_head (decision_digest h g) p rows))\<rparr>"
  by (induction rows arbitrary: p z) (simp_all add: Let_def)

lemma scan_break: "sc_first_break z \<noteq> None \<Longrightarrow> sc_first_break (scan_rows h g rows x z) \<noteq> None"
proof (induction rows arbitrary: x z)
  case Nil
  then show ?case by simp
next
  case (Cons r rs)
  have "first_of (sc_first_break z) b \<noteq> None" for b by (simp add: first_of_def split: option.split)
  then show ?case
    using Cons.prems unfolding scan_rows.simps Let_def by (intro Cons.IH) (simp add: first_of_def split: option.split)
qed

lemma scan_valid:
  "sc_first_break (scan_rows h g rows (Some p) z) = None
     \<longleftrightarrow> sc_first_break z = None \<and> decision_chain h g p rows"
proof (induction rows arbitrary: p z)
  case Nil
  then show ?case by simp
next
  case (Cons r rs)
  show ?case
  proof (cases "str_or (dv_prev_hash r) GENESIS_HASH = p \<and> dv_row_hash r = Some (decision_digest h g r p)")
    case True
    then show ?thesis using Cons by (simp add: Let_def)
  next
    case False
    have "first_of x b \<noteq> None" for x b by (simp add: first_of_def split: option.split)
    then have "sc_first_break (scan_rows h g (r # rs) (Some p) z) \<noteq> None"
      unfolding scan_rows.simps Let_def using False by (intro scan_break) auto
    then show ?thesis using False by auto
  qed
qed

lemma scan_unsealed:
  "sc_unsealed (scan_rows h g rows x z) \<noteq> sc_unsealed z \<Longrightarrow> sc_first_break (scan_rows h g rows x z) \<noteq> None"
proof (induction rows arbitrary: x z)
  case Nil
  then show ?case by simp
next
  case (Cons r rs)
  let ?prev = "str_or (dv_prev_hash r) GENESIS_HASH"
  show ?case
  proof (cases "dv_row_hash r = Some (decision_digest h g r ?prev)")
    case True
    then show ?thesis using Cons by (auto simp: Let_def)
  next
    case False
    have "first_of y b \<noteq> None" for y b by (simp add: first_of_def split: option.split)
    then show ?thesis unfolding scan_rows.simps Let_def using False by (intro scan_break) auto
  qed
qed

section \<open>Verification of the whole table\<close>

lemma verify_decision_rows_full:
  "verify_decision_rows h d 0 0 = decision_loop h (sort_key dv_event_id (decision_events d)) (Some GENESIS_HASH) None 0 0 0"
  by (simp add: verify_decision_rows_def)

lemma sort_decisions: "decisions_ok h g d \<Longrightarrow> sort_key dv_event_id (decision_events d) = decision_events d"
  by (rule sort_key_id_if_sorted) (simp add: decisions_ok_def strict_sorted_iff)

lemma verify_full_valid:
  assumes "digest_ok h"
  shows "vr_valid (snd (verify_spine_chain h g False d s))
    \<longleftrightarrow> has_seal d \<and> decision_chain h g GENESIS_HASH (sort_key dv_event_id (decision_events d))"
proof (cases "has_seal d \<and> decision_events d \<noteq> []")
  case False
  then show ?thesis
    by (auto simp: verify_spine_defs no_seal_schema_def no_events_def)
next
  case True
  let ?rows = "sort_key dv_event_id (decision_events d)"
  show ?thesis
  proof (cases "g = Finance")
    case g: True
    have "snd (verify_spine_chain h g False d s) = snd (verify_decision_full h False d s)"
      using True g by (simp add: verify_spine_defs)
    then show ?thesis
      using True g by (simp add: verify_decision_full_def verify_decision_rows_full decision_loop_valid [OF assms] Let_def)
  next
    case g: False
    have "snd (verify_spine_chain h g False d s) = snd (verify_claim_full h g False d s)"
      using True g by (simp add: verify_spine_defs)
    moreover have "sc_unsealed (verify_claim_rows h g ?rows GENESIS_HASH 0) = 0"
      if "sc_first_break (verify_claim_rows h g ?rows GENESIS_HASH 0) = None"
      using that unfolding verify_claim_rows_def by (metis scan_unsealed claim_scan.select_convs(2))
    ultimately show ?thesis
      using True by (auto simp: verify_claim_full_def fetch_event_rows_def verify_claim_rows_def scan_valid Let_def)
  qed
qed

section \<open>Resuming from a checkpoint\<close>

definition decision_checkpoint_ok :: "host \<Rightarrow> governor \<Rightarrow> spine_db \<Rightarrow> verify_checkpoint \<Rightarrow> bool" where
  "decision_checkpoint_ok h g d c =
     (\<exists>n. 0 < n \<and> n \<le> length (decision_events d)
          \<and> last_verified_event_id c = dv_event_id (decision_events d ! (n - 1))
          \<and> verified_head_hash c = decision_head h g (take n (decision_events d))
          \<and> cp_sealed_count c = n \<and> cp_total_events c = n)"

definition checkpoint_of_decisions :: "host \<Rightarrow> governor \<Rightarrow> spine_db \<Rightarrow> verify_checkpoint" where
  "checkpoint_of_decisions h g d =
     \<lparr>last_verified_event_id = dv_event_id (last (decision_events d)),
      verified_head_hash = decision_head h g (decision_events d),
      cp_sealed_count = length (decision_events d), cp_total_events = length (decision_events d)\<rparr>"

lemma checkpoint_of_decisions_ok:
  "decision_events d \<noteq> [] \<Longrightarrow> decision_checkpoint_ok h g d (checkpoint_of_decisions h g d)"
  by (auto simp: decision_checkpoint_ok_def checkpoint_of_decisions_def last_conv_nth
      intro!: exI [of _ "length (decision_events d)"])

definition valid_chain :: "host \<Rightarrow> governor \<Rightarrow> spine_db \<Rightarrow> bool \<Rightarrow> verification_result" where
  "valid_chain h g d inc =
     \<lparr>vr_valid = True, vr_sealed_count = length (decision_events d), vr_unsealed_count = 0,
      vr_total_events = length (decision_events d), vr_head_hash = Some (decision_head h g (decision_events d)),
      vr_first_break = None, vr_incremental = inc\<rparr>"

text \<open>A full verification of a well formed table.\<close>

definition spine_full :: "host \<Rightarrow> governor \<Rightarrow> bool \<Rightarrow> spine_db \<Rightarrow> spine \<Rightarrow> spine \<times> verification_result" where
  "spine_full h g = (if g = Finance then verify_decision_full h else verify_claim_full h g)"

lemma spine_full_run:
  assumes ok: "decisions_ok h g d" "digest_ok h" and ne: "decision_events d \<noteq> []"
  shows "spine_full h g inc d s
    = (if inc \<and> has_decision_checkpoints d then persist_decision_checkpoint (checkpoint_of_decisions h g d) s else s,
       valid_chain h g d False)"
proof -
  have chain: "decision_chain h g GENESIS_HASH (decision_events d)" using ok(1) by (simp add: decisions_ok_def)
  have last: "dv_row_hash (last (decision_events d)) = Some (decision_head h g (decision_events d))"
    by (rule chain_head_last [OF chain ne])
  have head: "truthy (Some (decision_head h g (decision_events d)))"
    using decision_head_nonempty [OF ok(2)] by (simp add: truthy_def)
  note sort = sort_decisions [OF ok(1)]
  show ?thesis
  proof (cases "g = Finance")
    case True
    have "verify_decision_rows h d 0 0
      = \<lparr>vs_valid = True, vs_sealed_count = length (decision_events d), vs_unsealed_count = 0,
         vs_head_hash = Some (decision_head h g (decision_events d)), vs_first_break = None,
         vs_last_event_id = dv_event_id (last (decision_events d))\<rparr>"
      using ne chain True by (simp add: verify_decision_rows_full sort decision_loop_chained [OF ok(2)])
    then show ?thesis
      using head True
      by (simp add: spine_full_def verify_decision_full_def valid_chain_def checkpoint_of_decisions_def Let_def)
  next
    case False
    have "verify_claim_rows h g (decision_events d) GENESIS_HASH 0
      = \<lparr>sc_sealed = length (decision_events d), sc_unsealed = 0, sc_first_break = None,
         sc_tail_head = Some (decision_head h g (decision_events d))\<rparr>"
      using ne by (simp add: verify_claim_rows_def scan_chained [OF chain])
    then show ?thesis
      using head last ne False
      by (simp add: spine_full_def verify_claim_full_def fetch_event_rows_def sort valid_chain_def checkpoint_of_decisions_def Let_def)
  qed
qed

lemma verify_spine_full:
  assumes "has_seal d" "decision_events d \<noteq> []" "\<not> inc \<or> load_decision_checkpoint d = None"
  shows "verify_spine_chain h g inc d s = spine_full h g inc d s"
  using assms
  by (auto simp: verify_spine_defs spine_full_def)

lemma decision_checkpoint_ok_append:
  "decision_checkpoint_ok h g d c \<Longrightarrow> decision_events d' = decision_events d @ es \<Longrightarrow> decision_checkpoint_ok h g d' c"
  by (force simp: decision_checkpoint_ok_def nth_append)

text \<open>The rows after a checkpoint form the rest of the chain.\<close>

lemma checkpoint_split:
  assumes "decisions_ok h g d" "decision_checkpoint_ok h g d c"
  obtains xs ys where "decision_events d = xs @ ys" "xs \<noteq> []" "length xs = cp_sealed_count c" "cp_total_events c = length xs"
    "last_verified_event_id c = dv_event_id (last xs)" "verified_head_hash c = decision_head h g xs"
    "decision_chain h g (decision_head h g xs) ys" "0 < dv_event_id (last xs)"
    "row_where (\<lambda>e. dv_event_id e = dv_event_id (last xs)) (decision_events d) = Some (last xs)"
    "dv_row_hash (last xs) = Some (decision_head h g xs)"
    "sort_key dv_event_id (filter (\<lambda>e. dv_event_id (last xs) < dv_event_id e) (decision_events d)) = ys"
proof -
  obtain n where n: "0 < n" "n \<le> length (decision_events d)"
    "last_verified_event_id c = dv_event_id (decision_events d ! (n - 1))"
    "verified_head_hash c = decision_head h g (take n (decision_events d))" "cp_sealed_count c = n" "cp_total_events c = n"
    using assms(2) by (auto simp: decision_checkpoint_ok_def)
  define xs ys where "xs = take n (decision_events d)" and "ys = drop n (decision_events d)"
  have d: "decision_events d = xs @ ys" "xs \<noteq> []" "length xs = n" using n by (auto simp: xs_def ys_def)
  have last: "last_verified_event_id c = dv_event_id (last xs)"
    using n d by (metis last_conv_nth nth_append length_greater_0_conv diff_less zero_less_one)
  have sorted: "sorted_wrt (<) (map dv_event_id (xs @ ys))"
    and chain: "decision_chain h g GENESIS_HASH xs" "decision_chain h g (decision_head h g xs) ys"
    and pos: "0 < dv_event_id (last xs)"
    using assms(1) d by (auto simp: decisions_ok_def chained_append)
  have "sorted_wrt (<) (map dv_event_id ys)" using sorted by (simp add: sorted_wrt_append)
  then have "sort_key dv_event_id ys = ys" by (intro sort_key_id_if_sorted) (simp add: strict_sorted_iff)
  then have tail: "sort_key dv_event_id (filter (\<lambda>e. dv_event_id (last xs) < dv_event_id e) (decision_events d)) = ys"
    by (simp only: d(1) filter_after(1) [OF sorted d(2)])
  show thesis
  proof (rule that [OF d(1,2) _ _ last _ chain(2) pos _ chain_head_last [OF chain(1) d(2)] tail])
    show "length xs = cp_sealed_count c" "cp_total_events c = length xs" "verified_head_hash c = decision_head h g xs"
      using n d(3) by (simp_all add: xs_def)
    show "row_where (\<lambda>e. dv_event_id e = dv_event_id (last xs)) (decision_events d) = Some (last xs)"
      by (simp only: d(1) filter_after(2) [OF sorted d(2)])
  qed
qed

text \<open>Resuming at a checkpoint of a well formed table.\<close>

lemma resume_run:
  assumes ok: "decisions_ok h g d" "digest_ok h" and ne: "decision_events d \<noteq> []"
    and c: "load_decision_checkpoint d = Some c" "decision_checkpoint_ok h g d c"
  shows "snd (verify_spine_chain h g True d s) = valid_chain h g d True"
    and "fst (verify_spine_chain h g True d s) = s
      \<or> fst (verify_spine_chain h g True d s) = persist_decision_checkpoint (checkpoint_of_decisions h g d) s"
proof -
  let ?head = "decision_head h g (decision_events d)" and ?n = "length (decision_events d)"
  have seal: "has_seal d" "has_decision_checkpoints d"
    using ok(1) c(1) by (auto simp: decisions_ok_def load_decision_checkpoint_def split: if_splits)
  have head: "decision_head_hash d = Some ?head" "truthy (Some ?head)" "?head \<noteq> []"
    using decision_head_hash_chain [OF ok(2,1)] decision_head_nonempty [OF ok(2)] ne by (auto simp: truthy_def)
  obtain xs ys where x: "decision_events d = xs @ ys" "xs \<noteq> []" "length xs = cp_sealed_count c" "cp_total_events c = length xs"
    "last_verified_event_id c = dv_event_id (last xs)" "verified_head_hash c = decision_head h g xs"
    "decision_chain h g (decision_head h g xs) ys" "0 < dv_event_id (last xs)"
    "row_where (\<lambda>e. dv_event_id e = dv_event_id (last xs)) (decision_events d) = Some (last xs)"
    "dv_row_hash (last xs) = Some (decision_head h g xs)"
    "sort_key dv_event_id (filter (\<lambda>e. dv_event_id (last xs) < dv_event_id e) (decision_events d)) = ys"
    by (rule checkpoint_split [OF ok(1) c(2)])
  have hd: "?head = chain_head (decision_digest h g) (decision_head h g xs) ys" by (simp add: x(1) chain_head_append)
  have n: "?n = cp_sealed_count c + length ys" using x(1,3) by simp
  have lst: "last (decision_events d) = (if ys = [] then last xs else last ys)" by (simp add: x(1))
  have "snd (verify_spine_chain h g True d s) = valid_chain h g d True
    \<and> (fst (verify_spine_chain h g True d s) = s
      \<or> fst (verify_spine_chain h g True d s) = persist_decision_checkpoint (checkpoint_of_decisions h g d) s)"
  proof (cases "Some (verified_head_hash c) = decision_head_hash d \<and> ?n = cp_total_events c")
    case True
    moreover have "0 < cp_sealed_count c" using x(2) by (simp add: x(3) [symmetric])
    ultimately show ?thesis
      using seal ne head c(1) x(3,4)
      by (cases "g = Finance") (simp_all add: verify_spine_defs resumed_def valid_chain_def)
  next
    case False
    then have ys: "ys \<noteq> []" using x(4,6) hd head(1) n x(3) by auto
    show ?thesis
    proof (cases "g = Finance")
      case True
      have gen: "decision_head h g xs \<noteq> GENESIS_HASH"
        using x(2) decision_digest_ok [OF ok(2)] by (cases xs rule: rev_cases) (auto simp: chain_head_append)
      have tail: "verify_decision_rows h d (last_verified_event_id c) (cp_sealed_count c)
        = \<lparr>vs_valid = True, vs_sealed_count = ?n, vs_unsealed_count = 0, vs_head_hash = Some ?head, vs_first_break = None,
           vs_last_event_id = dv_event_id (last (decision_events d))\<rparr>"
        using x(8) ys gen decision_loop_chained [OF ok(2) x(7) [unfolded True]]
        by (simp add: verify_decision_rows_def x(5) x(9) x(10) x(11) n hd [unfolded True] lst True)
      have "\<not> (Some (verified_head_hash c) = Some ?head \<and> ?n = cp_total_events c \<and> cp_sealed_count c = ?n)"
        using False head(1) by auto
      then show ?thesis
        using seal ne head c(1) True
        by (simp add: verify_spine_defs resumed_def valid_chain_def
            checkpoint_of_decisions_def tail)
    next
      case nf: False
      have rows: "fetch_event_rows (Some (last_verified_event_id c)) d = ys"
        "expected_prev_hash (last_verified_event_id c) d = Some (decision_head h g xs)"
        using x(8) by (simp_all add: fetch_event_rows_def expected_prev_hash_def x(5) x(9) x(10) x(11))
      have z: "verify_claim_rows h g ys (decision_head h g xs) (cp_sealed_count c)
        = \<lparr>sc_sealed = ?n, sc_unsealed = 0, sc_first_break = None, sc_tail_head = Some ?head\<rparr>"
        using ys by (simp add: verify_claim_rows_def scan_chained [OF x(7)] n hd)
      show ?thesis
        using seal ne head c(1) False nf ys
        by (auto simp: verify_spine_defs resumed_def valid_chain_def
            checkpoint_of_decisions_def rows z lst)
    qed
  qed
  then show "snd (verify_spine_chain h g True d s) = valid_chain h g d True"
    "fst (verify_spine_chain h g True d s) = s
      \<or> fst (verify_spine_chain h g True d s) = persist_decision_checkpoint (checkpoint_of_decisions h g d) s"
    by blast+
qed

lemma verify_spine_ok:
  assumes "decisions_ok h g d" "digest_ok h" "decision_events d \<noteq> []"
    and "\<forall>c. decision_checkpoint d = Some c \<longrightarrow> decision_checkpoint_ok h g d c"
  shows "\<exists>b. snd (verify_spine_chain h g inc d s) = valid_chain h g d b"
    and "fst (verify_spine_chain h g inc d s) = s
      \<or> fst (verify_spine_chain h g inc d s) = persist_decision_checkpoint (checkpoint_of_decisions h g d) s"
proof -
  have seal: "has_seal d" using assms(1) by (simp add: decisions_ok_def)
  have "(\<exists>b. snd (verify_spine_chain h g inc d s) = valid_chain h g d b)
    \<and> (fst (verify_spine_chain h g inc d s) = s
      \<or> fst (verify_spine_chain h g inc d s) = persist_decision_checkpoint (checkpoint_of_decisions h g d) s)"
  proof (cases "inc \<and> load_decision_checkpoint d \<noteq> None")
    case True
    then obtain c where c: "load_decision_checkpoint d = Some c" by auto
    then have "decision_checkpoint_ok h g d c"
      using assms(4) by (auto simp: load_decision_checkpoint_def split: if_splits)
    from resume_run [OF assms(1-3) c this] True show ?thesis by auto
  next
    case False
    then show ?thesis
      using verify_spine_full [OF seal assms(3), of inc h g s] spine_full_run [OF assms(1-3)] by auto
  qed
  then show "\<exists>b. snd (verify_spine_chain h g inc d s) = valid_chain h g d b"
    "fst (verify_spine_chain h g inc d s) = s
      \<or> fst (verify_spine_chain h g inc d s) = persist_decision_checkpoint (checkpoint_of_decisions h g d) s"
    by blast+
qed

lemma verify_spine_state:
  "fst (verify_spine_chain h g incremental r s) = s
    \<or> (\<exists>c. fst (verify_spine_chain h g incremental r s) = persist_decision_checkpoint c s)"
proof (cases "g = Finance")
  case True
  have "fst (verify_decision_full h incremental r s) = s \<or> (\<exists>c. fst (verify_decision_full h incremental r s) = persist_decision_checkpoint c s)"
    by (auto simp: verify_decision_full_def Let_def)
  with True show ?thesis
    by (auto simp: verify_spine_defs split: option.split)
next
  case False
  have "fst (verify_claim_full h g incremental r s) = s \<or> (\<exists>c. fst (verify_claim_full h g incremental r s) = persist_decision_checkpoint c s)"
    by (auto simp: verify_claim_full_def Let_def)
  with False show ?thesis
    by (auto simp: verify_spine_defs split: option.split)
qed

end
