(* ===== verification/Crystal_Protocol.thy ===== *)
theory Crystal_Protocol
  imports Commit_Ledger Decision_Verify
begin

text \<open>
  What the commit ledgers of the spines promise, as an abstract machine. A \<open>protocol\<close> state keeps the balances, the
  crystals, the commits and the log of events without hashes, clocks, locks and counters; an operation opens a
  crystal against a reservation and later closes it in one of four ways. The invariant of the machine says where
  every reserved amount is and that the log of an operation is a function of its row.
\<close>

section \<open>States\<close>

type_synonym balance_sheet = "((string \<times> string \<times> string) \<times> money) list"

record protocol =
  pr_balances :: balance_sheet
  pr_crystals :: "crystal_row list"
  pr_commits :: "commit_row list"
  pr_log :: "(string \<times> string \<times> money \<times> jobject) list"

definition logged :: "decision_event \<Rightarrow> string \<times> string \<times> money \<times> jobject" where
  "logged v = (dv_operation_id v, dv_event_type v, dv_delta v, dv_metadata v)"

definition protocol_of :: "spine_db \<Rightarrow> protocol" where
  "protocol_of d =
     \<lparr>pr_balances = map (\<lambda>a. (account_key a, la_balance a)) (account_ledgers d), pr_crystals = governance_crystals d,
      pr_commits = commit_escrow d, pr_log = map logged (decision_events d)\<rparr>"

definition credited :: "string \<times> string \<times> string \<Rightarrow> money \<Rightarrow> balance_sheet \<Rightarrow> balance_sheet" where
  "credited k x = map (\<lambda>(k', b). (k', if k' = k then b + x else b))"

section \<open>Operations\<close>

definition open_crystal :: "governor \<Rightarrow> crystal_row \<Rightarrow> commit_row \<Rightarrow> jobject \<Rightarrow> protocol \<Rightarrow> protocol" where
  "open_crystal g c e meta p =
     p\<lparr>pr_balances := credited (usd_key g (ce_account_id e)) (- ce_reserved e) (pr_balances p),
       pr_crystals := pr_crystals p @ [c], pr_commits := pr_commits p @ [e],
       pr_log := pr_log p @ [(ce_operation_id e, ''CRYSTAL_CREATED'', - ce_reserved e, meta)]\<rparr>"

datatype closing =
    Committing money int string
  | Expiring
  | Stranding
  | Adjudicating string

fun closing_status :: "closing \<Rightarrow> commit_status" where
  "closing_status (Committing amount now outcome) = C_COMMITTED"
| "closing_status Expiring = C_EXPIRED"
| "closing_status Stranding = C_STRANDED"
| "closing_status (Adjudicating reason) = C_STRANDED"

fun closing_row :: "closing \<Rightarrow> commit_row \<Rightarrow> commit_row" where
  "closing_row (Committing amount now outcome) = committed_row amount now"
| "closing_row Expiring = ended_row C_EXPIRED ''HORIZON_EXPIRED''"
| "closing_row Stranding = ended_row C_STRANDED ''HORIZON_STRANDED''"
| "closing_row (Adjudicating reason) = ended_row C_STRANDED (take 255 reason)"

text \<open>The share of the reservation that goes back to the account.\<close>

fun closing_return :: "closing \<Rightarrow> commit_row \<Rightarrow> money" where
  "closing_return (Committing amount now outcome) e = max 0 (ce_reserved e - amount)"
| "closing_return Expiring e = ce_reserved e"
| "closing_return Stranding e = 0"
| "closing_return (Adjudicating reason) e = ce_reserved e"

definition drift_log :: "governor \<Rightarrow> spine_settings \<Rightarrow> money \<Rightarrow> money \<Rightarrow> (string \<times> money \<times> jobject) list" where
  "drift_log g cfg reserved amount =
     (if g \<noteq> Finance \<or> amount \<le> reserved then []
      else [(if exposure_drift_exceeds (amount - reserved) reserved cfg then ''DRIFT_ENFORCED'' else ''DRIFT_TOLERATED'', 0,
             [(''drift_amount'', JStr (decimal_str (amount - reserved)))])])"

definition drift_result :: "governor \<Rightarrow> spine_settings \<Rightarrow> money \<Rightarrow> money \<Rightarrow> jobject" where
  "drift_result g cfg reserved amount =
     (if g \<noteq> Finance then []
      else if amount \<le> reserved then [(''drift_enforced'', JBool False), (''drift_amount'', JStr ''0'')]
      else [(''drift_enforced'', JBool (exposure_drift_exceeds (amount - reserved) reserved cfg)),
            (''drift_amount'', JStr (decimal_str (amount - reserved)))])"

fun closing_log :: "governor \<Rightarrow> spine_settings \<Rightarrow> closing \<Rightarrow> commit_row \<Rightarrow> (string \<times> money \<times> jobject) list" where
  "closing_log g cfg (Committing amount now outcome) e =
     drift_log g cfg (ce_reserved e) amount
       @ [(''COMMITTED_FINAL'', amount, (''outcome'', JStr outcome) # drift_result g cfg (ce_reserved e) amount)]"
| "closing_log g cfg Expiring e = [(''HORIZON_EXPIRED'', ce_reserved e, [(''reason'', JStr ''horizon_sweep'')])]"
| "closing_log g cfg Stranding e = [(''STRANDED_HOLD'', 0, [(''reason'', JStr ''horizon_sweep'')])]"
| "closing_log g cfg (Adjudicating reason) e =
     [(''STRANDED_HOLD'', 0, [(''reason'', JStr reason), (''source'', JStr ''adjudicate'')])]"

definition close_crystal ::
  "governor \<Rightarrow> spine_settings \<Rightarrow> closing \<Rightarrow> commit_row \<Rightarrow> protocol \<Rightarrow> protocol" where
  "close_crystal g cfg k e p =
     p\<lparr>pr_balances := credited (usd_key g (ce_account_id e)) (closing_return k e) (pr_balances p),
       pr_crystals := update_where (\<lambda>c. cr_crystal_id c = ce_crystal_id e)
         (\<lambda>c. c\<lparr>cr_terminal_state := Some (closing_status k)\<rparr>) (pr_crystals p),
       pr_commits := update_where (\<lambda>x. ce_crystal_id x = ce_crystal_id e) (closing_row k) (pr_commits p),
       pr_log := pr_log p @ map (\<lambda>v. (ce_operation_id e, v)) (closing_log g cfg k e)\<rparr>"

section \<open>Steps\<close>

fun admissible :: "governor \<Rightarrow> closing \<Rightarrow> bool" where
  "admissible g (Committing amount now outcome) = (0 \<le> amount)"
| "admissible g (Adjudicating reason) = (g = Finance)"
| "admissible g k = True"

inductive protocol_step :: "governor \<Rightarrow> spine_settings \<Rightarrow> protocol \<Rightarrow> protocol \<Rightarrow> bool" for g cfg where
  Opening: "cr_crystal_id c = ce_crystal_id e \<Longrightarrow> cr_operation_id c = ce_operation_id e \<Longrightarrow> cr_platform c = ce_platform e
    \<Longrightarrow> cr_terminal_state c = None \<Longrightarrow> ce_status e = C_CRYSTALLIZED \<Longrightarrow> ce_committed e = 0 \<Longrightarrow> 0 \<le> ce_reserved e
    \<Longrightarrow> ce_crystal_id e \<notin> ce_crystal_id ` set (pr_commits p) \<Longrightarrow> ce_operation_id e \<notin> ce_operation_id ` set (pr_commits p)
    \<Longrightarrow> 0 < ce_reserved e \<longrightarrow> usd_key g (ce_account_id e) \<in> fst ` set (pr_balances p)
    \<Longrightarrow> \<forall>(k, b) \<in> set (pr_balances p). k = usd_key g (ce_account_id e) \<longrightarrow> ce_reserved e \<le> b
    \<Longrightarrow> protocol_step g cfg p (open_crystal g c e meta p)"
| Closing: "e \<in> set (pr_commits p) \<Longrightarrow> ce_status e = C_CRYSTALLIZED \<Longrightarrow> admissible g k
    \<Longrightarrow> protocol_step g cfg p (close_crystal g cfg k e p)"

section \<open>The invariant\<close>

definition paired :: "crystal_row \<Rightarrow> commit_row \<Rightarrow> bool" where
  "paired c e =
     (cr_crystal_id c = ce_crystal_id e \<and> cr_operation_id c = ce_operation_id e \<and> cr_platform c = ce_platform e
      \<and> cr_terminal_state c = (if ce_status e = C_CRYSTALLIZED then None else Some (ce_status e))
      \<and> ce_status e \<in> {C_CRYSTALLIZED, C_COMMITTED, C_EXPIRED, C_STRANDED} \<and> 0 \<le> ce_reserved e \<and> 0 \<le> ce_committed e)"

definition trail :: "string \<Rightarrow> (string \<times> 'v) list \<Rightarrow> 'v list" where
  "trail k evs = map snd (filter (\<lambda>v. fst v = k) evs)"

definition adjudicated :: "(string \<times> string \<times> money \<times> jobject) list \<Rightarrow> string \<Rightarrow> bool" where
  "adjudicated evs k = list_ex (\<lambda>(t, x, m). t = ''STRANDED_HOLD'' \<and> map_of m ''source'' \<noteq> None) (trail k evs)"

text \<open>The part of a reservation that the account is still without.\<close>

definition exposure_held :: "(string \<times> string \<times> money \<times> jobject) list \<Rightarrow> commit_row \<Rightarrow> money" where
  "exposure_held evs e =
     (case ce_status e of
        C_COMMITTED \<Rightarrow> min (ce_reserved e) (ce_committed e)
      | C_EXPIRED \<Rightarrow> 0
      | C_STRANDED \<Rightarrow> if adjudicated evs (ce_operation_id e) then 0 else ce_reserved e
      | _ \<Rightarrow> ce_reserved e)"

definition exposure_held_for :: "governor \<Rightarrow> protocol \<Rightarrow> string \<times> string \<times> string \<Rightarrow> money" where
  "exposure_held_for g p k =
     column_sum (\<lambda>e. if usd_key g (ce_account_id e) = k then exposure_held (pr_log p) e else 0) (pr_commits p)"

text \<open>The events an operation has left, given its row.\<close>

definition lifecycle :: "governor \<Rightarrow> spine_settings \<Rightarrow> commit_row \<Rightarrow> (string \<times> money) list" where
  "lifecycle g cfg e =
     (''CRYSTAL_CREATED'', - ce_reserved e) #
     (case ce_status e of
        C_COMMITTED \<Rightarrow> map (\<lambda>(t, x, m). (t, x)) (drift_log g cfg (ce_reserved e) (ce_committed e)) @ [(''COMMITTED_FINAL'', ce_committed e)]
      | C_EXPIRED \<Rightarrow> [(''HORIZON_EXPIRED'', ce_reserved e)]
      | C_STRANDED \<Rightarrow> [(''STRANDED_HOLD'', 0)]
      | _ \<Rightarrow> [])"

definition trail_ok :: "governor \<Rightarrow> spine_settings \<Rightarrow> (string \<times> string \<times> money \<times> jobject) list \<Rightarrow> commit_row \<Rightarrow> bool" where
  "trail_ok g cfg evs e = (map (\<lambda>(t, x, m). (t, x)) (trail (ce_operation_id e) evs) = lifecycle g cfg e)"

definition protocol_inv :: "governor \<Rightarrow> spine_settings \<Rightarrow> (string \<times> string \<times> string \<Rightarrow> money) \<Rightarrow> protocol \<Rightarrow> bool" where
  "protocol_inv g cfg base p =
     (distinct (map fst (pr_balances p)) \<and> list_all2 paired (pr_crystals p) (pr_commits p)
      \<and> distinct (map ce_crystal_id (pr_commits p)) \<and> distinct (map ce_operation_id (pr_commits p))
      \<and> (\<forall>(k, b) \<in> set (pr_balances p). 0 \<le> b \<and> b = base k - exposure_held_for g p k)
      \<and> (\<forall>e \<in> set (pr_commits p). trail_ok g cfg (pr_log p) e)
      \<and> (\<forall>v \<in> set (pr_log p). fst v \<in> ce_operation_id ` set (pr_commits p)))"

section \<open>Lemmas\<close>

lemma same_key: "distinct (map key rows) \<Longrightarrow> r \<in> set rows \<Longrightarrow> r' \<in> set rows \<Longrightarrow> key r = key r' \<Longrightarrow> r = r'"
  by (auto simp: distinct_map inj_on_def)

lemma trail_append [simp]: "trail k (xs @ ys) = trail k xs @ trail k ys"
  by (simp add: trail_def)

lemma trail_other [simp]: "k' \<noteq> k \<Longrightarrow> trail k (map (Pair k') vs) = []"
  by (auto simp: trail_def filter_empty_conv)

lemma trail_own [simp]: "trail k (map (Pair k) vs) = vs"
  by (induction vs) (auto simp: trail_def)

lemma trail_single [simp]: "trail k [(k', v)] = (if k' = k then [v] else [])"
  by (simp add: trail_def)

lemma trail_none: "k \<notin> fst ` set evs \<Longrightarrow> trail k evs = []"
  by (auto simp: trail_def filter_empty_conv)

lemma fst_credited [simp]: "map fst (credited k x bs) = map fst bs"
  by (induction bs) (auto simp: credited_def)

lemma credited_0 [simp]: "credited k 0 bs = bs"
  by (auto simp: credited_def intro!: map_idI)

lemma in_credited:
  "(k', b) \<in> set (credited k x bs) \<longleftrightarrow> (k', if k' = k then b - x else b) \<in> set bs"
  by (force simp: credited_def image_iff split: if_splits)

lemma closing_row_same [simp]:
  "ce_crystal_id (closing_row k e) = ce_crystal_id e" "ce_operation_id (closing_row k e) = ce_operation_id e"
  "ce_account_id (closing_row k e) = ce_account_id e" "ce_platform (closing_row k e) = ce_platform e"
  "ce_reserved (closing_row k e) = ce_reserved e" "ce_status (closing_row k e) = closing_status k"
  by (cases k; simp add: committed_row_def ended_row_def)+

lemma closing_status_terminal [simp]:
  "closing_status k \<noteq> C_CRYSTALLIZED" "closing_status k \<in> {C_CRYSTALLIZED, C_COMMITTED, C_EXPIRED, C_STRANDED}"
  by (cases k; simp)+

lemma closing_return_nonneg: "0 \<le> ce_reserved e \<Longrightarrow> 0 \<le> closing_return k e"
  by (cases k) simp_all

lemma list_all2_update:
  assumes "list_all2 P xs ys" "\<And>x y. P x y \<Longrightarrow> p x = q y" "\<And>x y. y \<in> set ys \<Longrightarrow> P x y \<Longrightarrow> q y \<Longrightarrow> P (f x) (g y)"
  shows "list_all2 P (update_where p f xs) (update_where q g ys)"
  using assms by (induction rule: list_all2_induct) auto

lemma open_sels [simp]:
  "pr_balances (open_crystal g c e meta p) = credited (usd_key g (ce_account_id e)) (- ce_reserved e) (pr_balances p)"
  "pr_crystals (open_crystal g c e meta p) = pr_crystals p @ [c]"
  "pr_commits (open_crystal g c e meta p) = pr_commits p @ [e]"
  "pr_log (open_crystal g c e meta p) = pr_log p @ [(ce_operation_id e, ''CRYSTAL_CREATED'', - ce_reserved e, meta)]"
  by (simp_all add: open_crystal_def)

lemma close_sels [simp]:
  "pr_balances (close_crystal g cfg k e p) = credited (usd_key g (ce_account_id e)) (closing_return k e) (pr_balances p)"
  "pr_crystals (close_crystal g cfg k e p) = update_where (\<lambda>c. cr_crystal_id c = ce_crystal_id e)
     (\<lambda>c. c\<lparr>cr_terminal_state := Some (closing_status k)\<rparr>) (pr_crystals p)"
  "pr_commits (close_crystal g cfg k e p) = update_where (\<lambda>x. ce_crystal_id x = ce_crystal_id e) (closing_row k) (pr_commits p)"
  "pr_log (close_crystal g cfg k e p) = pr_log p @ map (Pair (ce_operation_id e)) (closing_log g cfg k e)"
  by (simp_all add: close_crystal_def)

interpretation ck: keyed_update ce_crystal_id "closing_row k" for k
  by unfold_locales simp

lemma closing_trail:
  assumes "trail_ok g cfg evs e" "ce_status e = C_CRYSTALLIZED"
  shows "trail_ok g cfg (evs @ map (Pair (ce_operation_id e)) (closing_log g cfg k e)) (closing_row k e)"
  using assms by (cases k) (auto simp: trail_ok_def lifecycle_def committed_row_def ended_row_def)

text \<open>What a closing returns is what is no longer held.\<close>

lemma closing_held:
  assumes "trail_ok g cfg evs e" "ce_status e = C_CRYSTALLIZED"
  shows "exposure_held (evs @ map (Pair (ce_operation_id e)) (closing_log g cfg k e)) (closing_row k e) = ce_reserved e - closing_return k e"
proof -
  obtain m where "trail (ce_operation_id e) evs = [(''CRYSTAL_CREATED'', - ce_reserved e, m)]"
    using assms by (auto simp: trail_ok_def lifecycle_def map_eq_Cons_conv)
  then show ?thesis
    by (cases k) (auto simp: exposure_held_def adjudicated_def committed_row_def ended_row_def)
qed

lemma held_append_other:
  "trail (ce_operation_id e) ys = [] \<Longrightarrow> exposure_held (xs @ ys) e = exposure_held xs e"
  by (simp add: exposure_held_def adjudicated_def)

lemma trail_ok_append_other:
  "trail (ce_operation_id e) ys = [] \<Longrightarrow> trail_ok g cfg (xs @ ys) e = trail_ok g cfg xs e"
  by (simp add: trail_ok_def)

section \<open>The steps keep the invariant\<close>

lemma paired_commits: "list_all2 paired cs es \<Longrightarrow> e \<in> set es \<Longrightarrow> \<exists>c \<in> set cs. paired c e"
  by (induction rule: list_all2_induct) auto

lemma paired_crystals: "list_all2 paired cs es \<Longrightarrow> c \<in> set cs \<Longrightarrow> \<exists>e \<in> set es. paired c e"
  by (induction rule: list_all2_induct) auto

lemma commit_reserved_nonneg: "protocol_inv g cfg base p \<Longrightarrow> e \<in> set (pr_commits p) \<Longrightarrow> 0 \<le> ce_reserved e"
  by (auto simp: protocol_inv_def paired_def dest!: paired_commits)

lemma held_for_open:
  assumes "ce_operation_id e \<notin> ce_operation_id ` set (pr_commits p)" "ce_status e = C_CRYSTALLIZED"
  shows "exposure_held_for g (open_crystal g c e meta p) k
    = exposure_held_for g p k + (if usd_key g (ce_account_id e) = k then ce_reserved e else 0)"
proof -
  have "exposure_held (pr_log (open_crystal g c e meta p)) x = exposure_held (pr_log p) x" if "x \<in> set (pr_commits p)" for x
  proof -
    have "ce_operation_id e \<noteq> ce_operation_id x" using that assms(1) by (metis image_eqI)
    then show ?thesis by (simp add: held_append_other)
  qed
  then have "column_sum (\<lambda>x. if usd_key g (ce_account_id x) = k then exposure_held (pr_log (open_crystal g c e meta p)) x else 0) (pr_commits p)
    = exposure_held_for g p k"
    unfolding exposure_held_for_def by (intro column_sum_cong) simp
  moreover have "exposure_held (pr_log (open_crystal g c e meta p)) e = ce_reserved e" using assms(2) by (simp add: exposure_held_def)
  ultimately show ?thesis by (simp add: exposure_held_for_def)
qed

lemma opening_keeps:
  assumes inv: "protocol_inv g cfg base p"
    and e: "paired c e" "ce_status e = C_CRYSTALLIZED"
    and new: "ce_crystal_id e \<notin> ce_crystal_id ` set (pr_commits p)" "ce_operation_id e \<notin> ce_operation_id ` set (pr_commits p)"
    and funds: "\<forall>(k, b) \<in> set (pr_balances p). k = usd_key g (ce_account_id e) \<longrightarrow> ce_reserved e \<le> b"
  shows "protocol_inv g cfg base (open_crystal g c e meta p)"
proof -
  let ?q = "open_crystal g c e meta p"
  have "trail (ce_operation_id e) (pr_log p) = []"
    using inv new(2) by (intro trail_none) (auto simp: protocol_inv_def)
  then have "trail_ok g cfg (pr_log ?q) e" using e(2) by (simp add: trail_ok_def lifecycle_def)
  moreover have "trail_ok g cfg (pr_log ?q) x" if "x \<in> set (pr_commits p)" for x
  proof -
    have "ce_operation_id e \<noteq> ce_operation_id x" using that new(2) by (metis image_eqI)
    then show ?thesis using that inv by (simp add: trail_ok_append_other protocol_inv_def)
  qed
  moreover have "0 \<le> b \<and> b = base k - exposure_held_for g ?q k" if "(k, b) \<in> set (pr_balances ?q)" for k b
    using that inv funds
    by (fastforce simp: in_credited
        held_for_open [OF new(2) e(2)] protocol_inv_def split: if_splits)
  ultimately show ?thesis using inv e new by (auto simp: protocol_inv_def intro!: list_all2_appendI)
qed

lemma held_for_close:
  assumes inv: "protocol_inv g cfg base p" and e: "e \<in> set (pr_commits p)" "ce_status e = C_CRYSTALLIZED"
  shows "exposure_held_for g (close_crystal g cfg k e p) a
    = exposure_held_for g p a - (if usd_key g (ce_account_id e) = a then closing_return k e else 0)"
proof -
  let ?evs = "map (Pair (ce_operation_id e)) (closing_log g cfg k e)"
  have d: "distinct (map ce_crystal_id (pr_commits p))" and o: "distinct (map ce_operation_id (pr_commits p))"
    and tr: "trail_ok g cfg (pr_log p) e"
    using inv e by (auto simp: protocol_inv_def)
  have "exposure_held (pr_log p @ ?evs) x = exposure_held (pr_log p) x" if "x \<in> set (pr_commits p)" "ce_crystal_id x \<noteq> ce_crystal_id e" for x
  proof -
    have "ce_operation_id e \<noteq> ce_operation_id x"
      using that same_key [OF o e(1) that(1)] by auto
    then show ?thesis by (simp add: held_append_other)
  qed
  note others = this
  have "exposure_held (pr_log p) e = ce_reserved e" using e(2) by (simp add: exposure_held_def)
  moreover have "exposure_held_for g (close_crystal g cfg k e p) a
    = column_sum (\<lambda>x. if usd_key g (ce_account_id x) = a then exposure_held (pr_log p @ ?evs) x else 0)
        (update_where (\<lambda>x. ce_crystal_id x = ce_crystal_id e) (closing_row k) (pr_commits p))"
    by (simp only: exposure_held_for_def close_sels)
  moreover have "\<dots> = exposure_held_for g p a - (if usd_key g (ce_account_id e) = a then exposure_held (pr_log p) e else 0)
    + (if usd_key g (ce_account_id e) = a then exposure_held (pr_log p @ ?evs) (closing_row k e) else 0)"
    unfolding exposure_held_for_def
    by (subst column_sum_change [OF d row_where_key_in [OF d e(1)]]) (auto simp: others)
  ultimately show ?thesis using closing_held [OF tr e(2), of k] by simp
qed

lemma paired_close:
  "paired c e \<Longrightarrow> admissible g k \<Longrightarrow> paired (c\<lparr>cr_terminal_state := Some (closing_status k)\<rparr>) (closing_row k e)"
  using closing_status_terminal [of k]
  by (cases k) (auto simp: paired_def committed_row_def ended_row_def)

lemma closing_keeps:
  assumes inv: "protocol_inv g cfg base p" and e: "e \<in> set (pr_commits p)" "ce_status e = C_CRYSTALLIZED" and k: "admissible g k"
  shows "protocol_inv g cfg base (close_crystal g cfg k e p)"
proof -
  let ?q = "close_crystal g cfg k e p"
  have d: "distinct (map ce_crystal_id (pr_commits p))" and o: "distinct (map ce_operation_id (pr_commits p))"
    and pair: "list_all2 paired (pr_crystals p) (pr_commits p)"
    and tr: "\<And>x. x \<in> set (pr_commits p) \<Longrightarrow> trail_ok g cfg (pr_log p) x"
    using inv by (auto simp: protocol_inv_def)
  have es: "set (pr_commits ?q) = insert (closing_row k e) (set (pr_commits p) - {e})"
    using set_update_key [OF d row_where_key_in [OF d e(1)]] by simp
  have "trail_ok g cfg (pr_log ?q) x" if "x \<in> set (pr_commits ?q)" for x
  proof (cases "x = closing_row k e")
    case True
    then show ?thesis using closing_trail [OF tr [OF e(1)] e(2)] by simp
  next
    case False
    with that es have x: "x \<in> set (pr_commits p)" "x \<noteq> e" by auto
    then have "ce_operation_id e \<noteq> ce_operation_id x"
      using same_key [OF o e(1) x(1)] x(2) by auto
    then show ?thesis using tr [OF x(1)] by (simp add: trail_ok_append_other)
  qed
  moreover have "0 \<le> b \<and> b = base a - exposure_held_for g ?q a" if "(a, b) \<in> set (pr_balances ?q)" for a b
    using that inv closing_return_nonneg [OF commit_reserved_nonneg [OF inv e(1)], of k]
    by (fastforce simp: in_credited
        held_for_close [OF inv e] protocol_inv_def split: if_splits)
  moreover have "list_all2 paired (pr_crystals ?q) (pr_commits ?q)"
    unfolding close_sels
    by (rule list_all2_update [OF pair]) (use k in \<open>auto intro: paired_close simp: paired_def [of _ e]\<close>, simp_all add: paired_def)
  moreover have "map ce_crystal_id (pr_commits ?q) = map ce_crystal_id (pr_commits p)"
    "map ce_operation_id (pr_commits ?q) = map ce_operation_id (pr_commits p)"
    by (simp_all add: map_update_where)
  moreover have "\<forall>v \<in> set (pr_log ?q). fst v \<in> ce_operation_id ` set (pr_commits ?q)"
  proof
    fix v assume "v \<in> set (pr_log ?q)"
    then have "fst v \<in> ce_operation_id ` set (pr_commits p)"
      using inv e(1) by (auto simp: protocol_inv_def)
    then show "fst v \<in> ce_operation_id ` set (pr_commits ?q)" using es e(1) by (force simp: image_iff)
  qed
  ultimately show ?thesis using inv by (simp add: protocol_inv_def del: close_sels(2-4)) blast
qed

lemma protocol_step_keeps: "protocol_step g cfg p q \<Longrightarrow> protocol_inv g cfg base p \<Longrightarrow> protocol_inv g cfg base q"
proof (induction rule: protocol_step.induct)
  case (Opening c e p meta)
  then have "paired c e" by (simp add: paired_def)
  with Opening show ?case by (intro opening_keeps)
next
  case (Closing e p k)
  then show ?case by (intro closing_keeps)
qed

definition protocol_start :: "protocol \<Rightarrow> bool" where
  "protocol_start p =
     (pr_crystals p = [] \<and> pr_commits p = [] \<and> pr_log p = [] \<and> distinct (map fst (pr_balances p))
      \<and> (\<forall>(k, b) \<in> set (pr_balances p). 0 \<le> b))"

definition opening_sheet :: "protocol \<Rightarrow> string \<times> string \<times> string \<Rightarrow> money" where
  "opening_sheet p k = (case map_of (pr_balances p) k of None \<Rightarrow> 0 | Some b \<Rightarrow> b)"

lemma protocol_start_inv: "protocol_start p \<Longrightarrow> protocol_inv g cfg (opening_sheet p) p"
  by (auto simp: protocol_start_def protocol_inv_def exposure_held_for_def opening_sheet_def)

interpretation pm: invariant_system "\<lambda>p. protocol_start p \<and> opening_sheet p = base" "protocol_step g cfg" "protocol_inv g cfg base" for g cfg base
  by unfold_locales (auto intro: protocol_start_inv protocol_step_keeps)

end
