(* ===== verification/Crystal_Refine.thy ===== *)
theory Crystal_Refine
  imports Crystal_Protocol
begin

text \<open>
  The commit ledgers implement the protocol: every operation of \<^verbatim>\<open>commit_ledger.py\<close> and every row the sweeper handles
  is one step of the abstract machine on the committed tables, and appends to the hash chain. An operation that
  raises leaves the committed tables alone.
\<close>

section \<open>The tables and the protocol\<close>

definition extends_chain :: "host \<Rightarrow> governor \<Rightarrow> spine_db \<Rightarrow> spine_db \<Rightarrow> bool" where
  "extends_chain h g d d' =
     (decisions_ok h g d' \<and> (\<exists>es. decision_events d' = decision_events d @ es)
      \<and> decision_checkpoint d' = decision_checkpoint d \<and> policy_registry d' = policy_registry d
      \<and> platform_registry d' = platform_registry d \<and> mesh_rules d' = mesh_rules d
      \<and> cap_states d' = cap_states d)"

definition spine_inv :: "host \<Rightarrow> governor \<Rightarrow> spine_settings \<Rightarrow> (string \<times> string \<times> string \<Rightarrow> money) \<Rightarrow> spine_db \<Rightarrow> bool" where
  "spine_inv h g cfg base d =
     (decisions_ok h g d \<and> protocol_inv g cfg base (protocol_of d)
      \<and> (\<forall>c. decision_checkpoint d = Some c \<longrightarrow> decision_checkpoint_ok h g d c) \<and> cap_overruns d = 0)"

lemma extends_chain_refl [simp]: "extends_chain h g d d = decisions_ok h g d"
  by (simp add: extends_chain_def)

lemma extends_chain_trans: "extends_chain h g d d' \<Longrightarrow> extends_chain h g d' d'' \<Longrightarrow> extends_chain h g d d''"
  by (auto simp: extends_chain_def)

lemma extends_chain_add:
  "decisions_ok h g d \<Longrightarrow> digest_ok h \<Longrightarrow> extends_chain h g d (add_decision h g now k c u t a m d)"
  by (auto simp: extends_chain_def add_decision_ok) (simp_all add: add_decision_def)

lemma spine_inv_step:
  assumes "spine_inv h g cfg base d" "extends_chain h g d d'" "(protocol_step g cfg)\<^sup>*\<^sup>* (protocol_of d) (protocol_of d')"
  shows "spine_inv h g cfg base d'"
  using assms pm.inv_star [OF assms(3), of base]
  by (auto simp: spine_inv_def extends_chain_def cap_overruns_def intro: decision_checkpoint_ok_append)

named_theorems protocol_simps

lemma protocol_of_sels [simp]:
  "pr_balances (protocol_of d) = map (\<lambda>a. (account_key a, la_balance a)) (account_ledgers d)"
  "pr_crystals (protocol_of d) = governance_crystals d" "pr_commits (protocol_of d) = commit_escrow d"
  "pr_log (protocol_of d) = map logged (decision_events d)"
  by (simp_all add: protocol_of_def)

lemma protocol_credit [protocol_simps]:
  "protocol_of (credit_account g u x now d) = (protocol_of d)\<lparr>pr_balances := credited (usd_key g u) x (pr_balances (protocol_of d))\<rparr>"
  by (auto simp: protocol_of_def credit_account_def credited_def update_where_def account_key_def)

lemma protocol_lock [protocol_simps]: "protocol_of (lock_account g u x now d) = protocol_of d"
  by (auto simp: protocol_of_def lock_account_def update_where_def account_key_def)

lemma protocol_incident [protocol_simps]: "protocol_of (record_guardrail_incident k c t p m d) = protocol_of d"
  by (simp add: protocol_of_def record_guardrail_incident_def)

lemma protocol_add [protocol_simps]:
  "protocol_of (add_decision h g now k c u t a m d) = (protocol_of d)\<lparr>pr_log := pr_log (protocol_of d) @ [(k, t, a, m)]\<rparr>"
  by (simp add: protocol_of_def add_decision_def sealed_decision_def logged_def Let_def)

lemma protocol_terminal [protocol_simps]:
  "protocol_of (set_terminal i st d) = (protocol_of d)\<lparr>pr_crystals := update_where (\<lambda>c. cr_crystal_id c = i)
     (\<lambda>c. c\<lparr>cr_terminal_state := Some st\<rparr>) (pr_crystals (protocol_of d))\<rparr>"
  by (simp add: protocol_of_def set_terminal_def)

lemma protocol_change [protocol_simps]:
  "protocol_of (change_commit i f d) = (protocol_of d)\<lparr>pr_commits := update_where (\<lambda>e. ce_crystal_id e = i) f (pr_commits (protocol_of d))\<rparr>"
  by (simp add: protocol_of_def change_commit_def)

lemma protocol_inserts [protocol_simps]:
  "protocol_of (d\<lparr>governance_crystals := cs\<rparr>) = (protocol_of d)\<lparr>pr_crystals := cs\<rparr>"
  "protocol_of (d\<lparr>commit_escrow := es\<rparr>) = (protocol_of d)\<lparr>pr_commits := es\<rparr>"
  by (simp_all add: protocol_of_def)

text \<open>Statements on other tables leave the chain alone.\<close>

lemma decisions_ok_stmts [simp]:
  "decisions_ok h g (credit_account g' u x now d) = decisions_ok h g d" "decisions_ok h g (lock_account g' u y now d) = decisions_ok h g d"
  "decisions_ok h g (record_guardrail_incident k c t p m d) = decisions_ok h g d" "decisions_ok h g (set_terminal i st d) = decisions_ok h g d"
  "decisions_ok h g (change_commit i f d) = decisions_ok h g d" "decisions_ok h g (d\<lparr>governance_crystals := cs\<rparr>) = decisions_ok h g d"
  "decisions_ok h g (d\<lparr>commit_escrow := es\<rparr>) = decisions_ok h g d"
  by (simp_all add: decisions_ok_def credit_account_def lock_account_def record_guardrail_incident_def set_terminal_def change_commit_def)

lemma extends_chain_stmts [simp]:
  "extends_chain h g d0 (credit_account g' u x now d) = extends_chain h g d0 d" "extends_chain h g d0 (lock_account g' u y now d) = extends_chain h g d0 d"
  "extends_chain h g d0 (record_guardrail_incident k c t p m d) = extends_chain h g d0 d" "extends_chain h g d0 (set_terminal i st d) = extends_chain h g d0 d"
  "extends_chain h g d0 (change_commit i f d) = extends_chain h g d0 d" "extends_chain h g d0 (d\<lparr>governance_crystals := cs\<rparr>) = extends_chain h g d0 d"
  "extends_chain h g d0 (d\<lparr>commit_escrow := es\<rparr>) = extends_chain h g d0 d"
  by (simp_all add: extends_chain_def) (simp_all add: credit_account_def lock_account_def record_guardrail_incident_def set_terminal_def change_commit_def)

lemma extends_chain_from [simp]:
  "extends_chain h g (credit_account g' u x now d) d' = extends_chain h g d d'" "extends_chain h g (set_terminal i st d) d' = extends_chain h g d d'"
  "extends_chain h g (change_commit i f d) d' = extends_chain h g d d'"
  by (simp_all add: extends_chain_def credit_account_def set_terminal_def change_commit_def)

lemma extends_chain_ok: "extends_chain h g d d' \<Longrightarrow> decisions_ok h g d'"
  by (simp add: extends_chain_def)

lemma extends_chain_adds:
  "extends_chain h g d0 d \<Longrightarrow> digest_ok h \<Longrightarrow> extends_chain h g d0 (add_decision h g now k c u t a m d)"
  by (rule extends_chain_trans [OF _ extends_chain_add]) (auto simp: extends_chain_def)

section \<open>Drift\<close>

lemma wp_drift_of:
  assumes "decisions_ok h g (sp_db s)" "digest_ok h"
    and "\<And>t. protocol_of (sp_db t) = (protocol_of (sp_db s))\<lparr>pr_log := pr_log (protocol_of (sp_db s))
            @ map (Pair (cr_operation_id c)) (drift_log g cfg (ce_reserved e) amount)\<rparr>
          \<Longrightarrow> extends_chain h g (sp_db s) (sp_db t) \<Longrightarrow> sp_committed t = sp_committed s \<Longrightarrow> sp_clock t = sp_clock s
          \<Longrightarrow> Q (drift_result g cfg (ce_reserved e) amount) t"
  shows "wp (drift_of h g cfg c e amount now) Q E s"
proof (cases "g = Finance")
  case True
  note ok = assms(1,2) [unfolded True]
  show ?thesis
    using ok assms(3) True
    by (auto simp: drift_of_def enforce_drift_on_commit_def wp_simps wp_append_decision Let_def drift_log_def drift_result_def max_def
        extends_chain_adds protocol_simps intro!: assms(3))
next
  case False
  with assms(1) assms(3) [of s] show ?thesis by (simp add: drift_of_def wp_simps drift_log_def drift_result_def)
qed

section \<open>The effect of an operation\<close>

text \<open>Nothing committed, or one step of the protocol.\<close>

definition unchanged :: "spine \<Rightarrow> spine \<Rightarrow> bool" where
  "unchanged s t = (sp_committed t = sp_committed s \<and> sp_clock t = sp_clock s)"

definition advanced :: "host \<Rightarrow> governor \<Rightarrow> (protocol \<Rightarrow> protocol) \<Rightarrow> spine \<Rightarrow> spine \<Rightarrow> bool" where
  "advanced h g f s t =
     (sp_db t = sp_committed t \<and> sp_clock t = sp_clock s \<and> extends_chain h g (sp_db s) (sp_committed t)
      \<and> protocol_of (sp_committed t) = f (protocol_of (sp_db s)))"

lemma unchanged_simps [simp]:
  "unchanged s s" "unchanged s (count_by c n t) = unchanged s t" "unchanged s (on_spine f t) = unchanged s t"
  by (simp_all add: unchanged_def)

lemma commit_ids_crystal_ids:
  assumes "list_all2 paired cs es"
  shows "cr_crystal_id ` set cs = ce_crystal_id ` set es"
  using assms by (induction rule: list_all2_induct) (auto simp: paired_def)

subsection \<open>Crystallizing\<close>

text \<open>What a successful reservation says of the balance sheet before it.\<close>

definition funded :: "governor \<Rightarrow> string \<Rightarrow> money \<Rightarrow> spine_db \<Rightarrow> bool" where
  "funded g u x d =
     ((0 < x \<longrightarrow> usd_key g u \<in> account_key ` set (account_ledgers d))
      \<and> (0 \<le> x \<longrightarrow> (\<forall>a \<in> set (account_ledgers d). account_key a = usd_key g u \<longrightarrow> x \<le> la_balance a)))"

lemma credit_nonneg_funded:
  assumes "balances_nonnegative (credit_account g u (- x) now d)" "a \<in> set (account_ledgers d)" "account_key a = usd_key g u"
  shows "x \<le> la_balance a"
proof -
  have "a\<lparr>la_balance := la_balance a - x, la_updated_at := now\<rparr> \<in> set (account_ledgers (credit_account g u (- x) now d))"
    using assms(2,3) by (simp add: credit_account_def set_update_where)
  with assms(1) show ?thesis by (fastforce simp: balances_nonnegative_def)
qed

lemma wp_reserve_balance:
  assumes "balances_nonnegative (sp_db s)" "decisions_ok h g (sp_db s)"
    and Q: "\<And>t. funded g u x (sp_db s)
      \<Longrightarrow> protocol_of (sp_db t) = (protocol_of (sp_db s))\<lparr>pr_balances := credited (usd_key g u) (- max 0 x) (pr_balances (protocol_of (sp_db s)))\<rparr>
      \<Longrightarrow> extends_chain h g (sp_db s) (sp_db t) \<Longrightarrow> unchanged s t \<Longrightarrow> Q () t"
    and E: "\<And>e. E e s"
  shows "wp (reserve_balance g u x now) Q E s"
proof (cases "0 < x")
  case True
  have "Q () (on_spine (credit_account g u (- x) now) s)"
    if "find_account g u (sp_db s) = Some a" "balances_nonnegative (credit_account g u (- x) now (sp_db s))" for a
  proof (rule Q)
    show "funded g u x (sp_db s)"
      using that(1) credit_nonneg_funded [OF that(2)]
      by (auto simp: funded_def find_account_def dest!: row_where_Some intro: image_eqI [of _ _ a])
  qed (use True assms(2) in \<open>simp_all add: protocol_simps\<close>)
  then show ?thesis
    using True E by (auto simp: reserve_balance_def move_balance_def wp_simps split: option.split)
next
  case False
  then have "funded g u x (sp_db s)" using assms(1) by (auto simp: funded_def balances_nonnegative_def)
  then have "Q () s" using False assms(2) by (intro Q) simp_all
  then show ?thesis using False by (simp add: reserve_balance_def wp_simps)
qed

lemma wp_policy_horizon:
  assumes "\<And>m. (truthy pid \<Longrightarrow> \<exists>p. row_where (\<lambda>p. pl_policy_id p = the pid) (policy_registry (sp_db s)) = Some p
      \<and> pl_enabled p \<and> \<not> exceeds x (pl_max_per_commit p) \<and> m = Some (pl_commit_horizon_ms p))
      \<Longrightarrow> (\<not> truthy pid \<Longrightarrow> m = None) \<Longrightarrow> Q m s"
    and "\<And>e. E e s"
  shows "wp (policy_horizon g pid x) Q E s"
  using assms by (auto simp: policy_horizon_def wp_simps split: option.split)

definition crystal_from :: "host \<Rightarrow> string \<Rightarrow> crystallize_request \<Rightarrow> string option \<Rightarrow> int option \<Rightarrow> int \<Rightarrow> spine_db \<Rightarrow> crystal_row" where
  "crystal_from h uuid r pid m now d =
     seal_crystal h uuid now (cq_platform r) (cq_operation_id r) (cq_risk_tier r) (cq_facets r) (last_crystal_hash d)
       (cq_parent_crystal_id r) m pid"

definition created_meta :: "crystallize_request \<Rightarrow> jobject" where
  "created_meta r = [(''platform'', JStr (cq_platform r)), (''risk_tier'', JStr (cq_risk_tier r))]"

definition crystallized :: "crystallize_request \<Rightarrow> crystal_row \<Rightarrow> crystallize_result" where
  "crystallized r c = \<lparr>cz_crystal_id = cr_crystal_id c, cz_operation_id = cq_operation_id r, cz_status = ''CRYSTALLIZED'',
     cz_horizon_expires_at = cr_horizon_expires_at c\<rparr>"

lemma wp_crystallize_new:
  assumes ok: "decisions_ok h g (sp_db s)" "digest_ok h" "balances_nonnegative (sp_db s)"
    and Q: "\<And>m c e t. c = crystal_from h uuid r pid m (sp_clock s) (sp_db s)
      \<Longrightarrow> e = new_commit cfg r c (quantize_spine (cq_reserved r)) (sp_clock s)
      \<Longrightarrow> 0 \<le> ce_reserved e \<Longrightarrow> funded g (cq_account_id r) (ce_reserved e) (sp_db s)
      \<Longrightarrow> cr_crystal_id c \<notin> cr_crystal_id ` set (governance_crystals (sp_db s))
      \<Longrightarrow> ce_operation_id e \<notin> ce_operation_id ` set (commit_escrow (sp_db s))
      \<Longrightarrow> advanced h g (open_crystal g c e (created_meta r)) s t \<Longrightarrow> Q (crystallized r c) t"
    and E: "\<And>x t. unchanged s t \<Longrightarrow> E x t"
  shows "wp (crystallize_new h g cfg uuid r pid) Q E s"
  unfolding crystallize_new_def wp_simps
proof (rule wp_policy_horizon, goal_cases)
  case (1 m)
  define c where "c = crystal_from h uuid r pid m (sp_clock s) (sp_db s)"
  define e where "e = new_commit cfg r c (quantize_spine (cq_reserved r)) (sp_clock s)"
  have e: "ce_reserved e = quantize_spine (cq_reserved r)" "ce_operation_id e = cq_operation_id r"
    "ce_account_id e = cq_account_id r" "ce_crystal_id e = cr_crystal_id c"
    by (simp_all add: e_def new_commit_def)
  show ?case
    unfolding prod.case Let_def wp_simps c_def [unfolded crystal_from_def, symmetric] e_def [symmetric]
      created_meta_def [symmetric] crystallized_def [symmetric] insert_crystal_def insert_commit_def
  proof (rule wp_reserve_balance [OF ok(3,1)], goal_cases)
    case (1 t)
    have tabs: "governance_crystals (sp_db t) = governance_crystals (sp_db s)" "commit_escrow (sp_db t) = commit_escrow (sp_db s)"
      using 1(2) by (simp_all add: protocol_of_def)
    have ok_t: "decisions_ok h g (sp_db t)" and now: "sp_clock t = sp_clock s"
      using 1 by (simp_all add: extends_chain_def unchanged_def)
    show ?case
      using 1 tabs ok_t now ok(2)
      by (auto simp: e wp_append_decision unchanged_def protocol_simps advanced_def extends_chain_adds open_crystal_def max_def
          intro!: E Q [OF c_def e_def])
  next
    case (2 x)
    show ?case by (simp add: E)
  qed
next
  case (2 x)
  show ?case by (simp add: E)
qed

lemma spine_inv_parts:
  assumes "spine_inv h g cfg base d"
  shows "decisions_ok h g d" "balances_nonnegative d" "list_all2 paired (governance_crystals d) (commit_escrow d)"
    "distinct (map ce_crystal_id (commit_escrow d))" "distinct (map ce_operation_id (commit_escrow d))"
    "distinct (map account_key (account_ledgers d))"
  using assms by (force simp: spine_inv_def protocol_inv_def balances_nonnegative_def comp_def)+

lemma opening_step:
  assumes "spine_inv h g cfg base d" "c = crystal_from h uuid r pid m now d" "e = new_commit cfg r c x now"
    and "0 \<le> ce_reserved e" "funded g (cq_account_id r) (ce_reserved e) d"
    and "cr_crystal_id c \<notin> cr_crystal_id ` set (governance_crystals d)"
    and "ce_operation_id e \<notin> ce_operation_id ` set (commit_escrow d)"
  shows "protocol_step g cfg (protocol_of d) (open_crystal g c e meta (protocol_of d))"
proof (rule protocol_step.Opening)
  show "ce_crystal_id e \<notin> ce_crystal_id ` set (pr_commits (protocol_of d))"
    using assms(3,6) commit_ids_crystal_ids [OF spine_inv_parts(3) [OF assms(1)]] by (simp add: new_commit_def)
  show "0 < ce_reserved e \<longrightarrow> usd_key g (ce_account_id e) \<in> fst ` set (pr_balances (protocol_of d))"
    "\<forall>(k, b) \<in> set (pr_balances (protocol_of d)). k = usd_key g (ce_account_id e) \<longrightarrow> ce_reserved e \<le> b"
    using assms(3-5) by (auto simp: funded_def new_commit_def image_iff)
qed (use assms in \<open>simp_all add: new_commit_def crystal_from_def seal_crystal_def Let_def\<close>)

text \<open>The tables after a handler: the same, or some steps further.\<close>

definition moved :: "host \<Rightarrow> governor \<Rightarrow> spine_settings \<Rightarrow> spine_db \<Rightarrow> spine_db \<Rightarrow> bool" where
  "moved h g cfg d d' = (d' = d \<or> extends_chain h g d d' \<and> (protocol_step g cfg)\<^sup>*\<^sup>* (protocol_of d) (protocol_of d'))"

definition at_commit :: "spine \<Rightarrow> bool" where
  "at_commit s = (sp_db s = sp_committed s)"

definition handled :: "host \<Rightarrow> governor \<Rightarrow> spine_settings \<Rightarrow> spine \<Rightarrow> spine \<Rightarrow> bool" where
  "handled h g cfg s t = (sp_clock t = sp_clock s \<and> moved h g cfg (sp_committed s) (sp_committed t))"

lemma moved_refl [simp]: "moved h g cfg d d"
  by (simp add: moved_def)

lemma moved_trans: "moved h g cfg d d' \<Longrightarrow> moved h g cfg d' d'' \<Longrightarrow> moved h g cfg d d''"
  by (auto simp: moved_def intro: extends_chain_trans)

lemma moved_inv: "moved h g cfg d d' \<Longrightarrow> spine_inv h g cfg base d \<Longrightarrow> spine_inv h g cfg base d'"
  by (auto simp: moved_def intro: spine_inv_step)

lemma unchanged_handled: "unchanged s t \<Longrightarrow> handled h g cfg s t"
  by (simp add: unchanged_def handled_def)

lemma advanced_handled:
  assumes "advanced h g f s t" "at_commit s" "protocol_step g cfg (protocol_of (sp_db s)) (f (protocol_of (sp_db s)))"
  shows "handled h g cfg s t"
  using assms by (auto simp: advanced_def handled_def at_commit_def moved_def)

lemma wp_crystallize_handled:
  assumes "spine_inv h g cfg base (sp_db s)" "digest_ok h" "at_commit s"
  shows "wp (crystallize_new h g cfg uuid r pid) (\<lambda>_. handled h g cfg s) (\<lambda>_. handled h g cfg s) s"
  using spine_inv_parts [OF assms(1)] assms(2)
  by (intro wp_crystallize_new)
    (blast intro: advanced_handled [OF _ assms(3)] opening_step [OF assms(1)] unchanged_handled)+

subsection \<open>Closing\<close>

lemma credit_nonnegative:
  "balances_nonnegative d \<Longrightarrow> 0 \<le> x \<Longrightarrow> balances_nonnegative (credit_account g u x now d)"
  by (auto simp: balances_nonnegative_def credit_account_def set_update_where split: if_splits)

lemma wp_append_step:
  assumes "decisions_ok h g (sp_db s)" "digest_ok h" "Q () (on_spine (add_decision h g (sp_clock s) k c u t a m) s)"
  shows "wp (append_decision_event h g k c u t a m) Q E s"
  using assms by (simp add: wp_append_decision)

definition committed_result :: "crystal_row \<Rightarrow> commit_result" where
  "committed_result c = \<lparr>co_operation_id = cr_operation_id c, co_crystal_id = cr_crystal_id c, co_status = ''COMMITTED''\<rparr>"

lemma wp_commit_new:
  assumes ok: "decisions_ok h g (sp_db s)" "digest_ok h" "balances_nonnegative (sp_db s)" and pair: "paired c e"
    and Q: "\<And>t. 0 \<le> quantize_spine (cm_committed r)
      \<Longrightarrow> advanced h g (close_crystal g cfg (Committing (quantize_spine (cm_committed r)) now (cm_outcome r)) e) s t
      \<Longrightarrow> Q (committed_result c) t"
    and E: "\<And>x t. unchanged s t \<Longrightarrow> quantize_spine (cm_committed r) < 0 \<Longrightarrow> E x t"
  shows "wp (commit_new h g cfg r c e now) Q E s"
proof -
  define amount where "amount = quantize_spine (cm_committed r)"
  have ids: "cr_crystal_id c = ce_crystal_id e" "cr_operation_id c = ce_operation_id e"
    using pair by (simp_all add: paired_def)
  show ?thesis
    unfolding commit_new_def Let_def amount_def [symmetric] committed_result_def [symmetric] move_balance_def wp_simps
    using ok
    by (auto simp: wp_append_decision ids protocol_simps E advanced_def close_crystal_def max_def extends_chain_adds amount_def [symmetric]
        credit_nonnegative intro!: wp_drift_of wp_append_step Q dest: extends_chain_ok)
qed

lemma load_crystal_pair:
  assumes inv: "spine_inv h g cfg base d" and l: "load_crystal i d = Some (c, e)"
  shows "c \<in> set (governance_crystals d)" "e \<in> set (commit_escrow d)" "paired c e" "cr_crystal_id c = i"
proof -
  from l have c: "c \<in> set (governance_crystals d)" "cr_crystal_id c = i" and e: "e \<in> set (commit_escrow d)" "ce_crystal_id e = i"
    by (auto simp: load_crystal_def split: option.splits dest!: row_where_Some)
  from paired_crystals [OF spine_inv_parts(3) [OF inv] c(1)] obtain x where x: "x \<in> set (commit_escrow d)" "paired c x" by blast
  have "x = e"
    using same_key [OF spine_inv_parts(4) [OF inv] x(1) e(1)] x(2) c(2) e(2) by (simp add: paired_def)
  with c e x show "c \<in> set (governance_crystals d)" "e \<in> set (commit_escrow d)" "paired c e" "cr_crystal_id c = i" by simp_all
qed

lemma paired_open: "paired c e \<Longrightarrow> cr_terminal_state c = None \<longleftrightarrow> ce_status e = C_CRYSTALLIZED"
  by (simp add: paired_def)

lemma closing_step:
  assumes "e \<in> set (commit_escrow d)" "paired c e" "cr_terminal_state c = None" "admissible g k"
  shows "protocol_step g cfg (protocol_of d) (close_crystal g cfg k e (protocol_of d))"
  using assms by (intro protocol_step.Closing) (auto simp: paired_open)

definition replay_reply :: "crystal_row \<Rightarrow> commit_result" where
  "replay_reply c = \<lparr>co_operation_id = cr_operation_id c, co_crystal_id = cr_crystal_id c, co_status = ''REPLAY''\<rparr>"

text \<open>When a commit goes through.\<close>

definition may_commit :: "host \<Rightarrow> commit_request \<Rightarrow> int \<Rightarrow> crystal_row \<Rightarrow> spine_db \<Rightarrow> bool" where
  "may_commit h r now c d =
     (cr_terminal_state c = None \<and> verify_commit_fingerprint h c (cm_facets r)
      \<and> (now < cr_horizon_expires_at c \<or> cm_late_authority r) \<and> mesh_block_reason (cr_platform c) d = None)"

lemma wp_commit_operation:
  assumes inv: "spine_inv h g cfg base (sp_db s)" and dg: "digest_ok h"
    and replay: "\<And>c e. load_crystal (cm_crystal_id r) (sp_db s) = Some (c, e) \<Longrightarrow> cr_terminal_state c \<noteq> None \<Longrightarrow> Q (replay_reply c) s"
    and final: "\<And>c e t. load_crystal (cm_crystal_id r) (sp_db s) = Some (c, e) \<Longrightarrow> may_commit h r (sp_clock s) c (sp_db s)
      \<Longrightarrow> 0 \<le> quantize_spine (cm_committed r)
      \<Longrightarrow> advanced h g (close_crystal g cfg (Committing (quantize_spine (cm_committed r)) (sp_clock s) (cm_outcome r)) e) s t
      \<Longrightarrow> Q (committed_result c) t"
    and E: "\<And>x t. unchanged s t
      \<Longrightarrow> (\<And>c e. load_crystal (cm_crystal_id r) (sp_db s) = Some (c, e)
        \<Longrightarrow> cr_terminal_state c = None \<and> \<not> (may_commit h r (sp_clock s) c (sp_db s) \<and> 0 \<le> quantize_spine (cm_committed r)))
      \<Longrightarrow> E x t"
  shows "wp (commit_operation h g cfg r) Q E s"
proof (cases "load_crystal (cm_crystal_id r) (sp_db s)")
  case None
  then show ?thesis by (auto simp: commit_operation_def wp_simps intro!: E)
next
  case (Some ce)
  obtain c e where ce: "ce = (c, e)" by (cases ce)
  note l = Some [unfolded ce]
  show ?thesis
    using replay [OF l] final [OF l] load_crystal_pair(3) [OF inv l] spine_inv_parts(1,2) [OF inv] dg
    by (auto simp: commit_operation_def check_mesh_block_def l wp_simps replay_reply_def [symmetric] may_commit_def is_horizon_expired_def
        intro!: wp_commit_new E split: option.split)
qed

lemma wp_commit_handled:
  assumes inv: "spine_inv h g cfg base (sp_db s)" and "digest_ok h" "at_commit s"
  shows "wp (commit_operation h g cfg r) (\<lambda>_. handled h g cfg s) (\<lambda>_. handled h g cfg s) s"
proof (rule wp_commit_operation [OF inv assms(2)], goal_cases)
  case (2 c e t)
  note l = load_crystal_pair [OF inv 2(1)]
  show ?case
    using 2 l by (intro advanced_handled [OF 2(4) assms(3)] closing_step) (auto simp: may_commit_def)
qed (simp_all add: unchanged_handled)

subsection \<open>Adjudicating\<close>

lemma wp_adjudicate_handled:
  assumes inv: "spine_inv h Finance cfg base (sp_db s)" and dg: "digest_ok h" and c: "at_commit s"
  shows "wp (adjudicate_operation h i action reason) (\<lambda>_. handled h Finance cfg s) (\<lambda>_. handled h Finance cfg s) s"
proof (cases "load_crystal i (sp_db s)")
  case None
  then show ?thesis by (simp add: adjudicate_operation_def wp_simps unchanged_handled)
next
  case (Some ce)
  obtain c e where ce: "ce = (c, e)" by (cases ce)
  note l = Some [unfolded ce] and pair = load_crystal_pair [OF inv Some [unfolded ce]]
  have ids: "ce_crystal_id e = i" "cr_operation_id c = ce_operation_id e" "0 \<le> ce_reserved e"
    using pair by (auto simp: paired_def)
  have adv: "handled h Finance cfg s t"
    if "cr_terminal_state c = None" "advanced h Finance (close_crystal Finance cfg (Adjudicating reason) e) s t" for t
    by (rule advanced_handled [OF that(2) assms(3) closing_step [OF pair(2,3) that(1)]]) simp
  show ?thesis
    using ids spine_inv_parts(1) [OF inv] dg
    by (auto simp: adjudicate_operation_def l wp_simps move_balance_def wp_append_decision unchanged_handled
        advanced_def protocol_simps extends_chain_adds close_crystal_def intro!: adv)
qed

subsection \<open>Sweeping\<close>

definition sweep_closing :: "crystal_row \<Rightarrow> closing" where
  "sweep_closing c = (if should_strand_on_expiry (cr_risk_tier c) then Stranding else Expiring)"

definition swept :: "governor \<Rightarrow> spine_settings \<Rightarrow> (crystal_row \<times> commit_row) list \<Rightarrow> protocol \<Rightarrow> protocol" where
  "swept g cfg rows p = fold (\<lambda>(c, e). close_crystal g cfg (sweep_closing c) e) rows p"

lemma wp_sweep_horizon:
  assumes inv: "spine_inv h g cfg base (sp_db s)" and dg: "digest_ok h" and c: "paired c e" "cr_terminal_state c = None"
    and Q: "\<And>t. protocol_of (sp_db t) = close_crystal g cfg (sweep_closing c) e (protocol_of (sp_db s))
      \<Longrightarrow> extends_chain h g (sp_db s) (sp_db t) \<Longrightarrow> unchanged s t \<Longrightarrow> Q () t"
  shows "wp (sweep_horizon h g now (c, e)) Q E s"
proof -
  have ids: "cr_crystal_id c = ce_crystal_id e" "cr_operation_id c = ce_operation_id e" "ce_status e = C_CRYSTALLIZED" "0 \<le> ce_reserved e"
    using c by (auto simp: paired_def split: if_splits)
  have "balances_nonnegative (credit_account g (ce_account_id e) (ce_reserved e) now (sp_db s))"
    by (rule credit_nonnegative [OF spine_inv_parts(2) [OF inv] ids(4)])
  then show ?thesis
    using ids spine_inv_parts(1) [OF inv] dg
    by (auto simp: sweep_horizon_def strand_horizon_def expire_horizon_def move_balance_def wp_simps wp_append_decision
        protocol_simps extends_chain_adds close_crystal_def sweep_closing_def intro!: Q)
qed

text \<open>Rows the sweeper may close one after the other.\<close>

definition horizon_sweepable :: "(crystal_row \<times> commit_row) list \<Rightarrow> spine_db \<Rightarrow> bool" where
  "horizon_sweepable rows d =
     (distinct (map (ce_crystal_id \<circ> snd) rows)
      \<and> (\<forall>(c, e) \<in> set rows. e \<in> set (commit_escrow d) \<and> paired c e \<and> cr_terminal_state c = None))"

lemma wp_horizon_rows:
  assumes "spine_inv h g cfg base (sp_db s)" "digest_ok h" "horizon_sweepable rows (sp_db s)"
    and "\<And>t. protocol_of (sp_db t) = swept g cfg rows (protocol_of (sp_db s))
      \<Longrightarrow> (protocol_step g cfg)\<^sup>*\<^sup>* (protocol_of (sp_db s)) (protocol_of (sp_db t))
      \<Longrightarrow> extends_chain h g (sp_db s) (sp_db t) \<Longrightarrow> unchanged s t \<Longrightarrow> Q () t"
  shows "wp (stepsE (map (sweep_horizon h g now) rows)) Q E s"
  using assms
proof (induction rows arbitrary: s)
  case Nil
  then show ?case by (auto simp: swept_def wp_simps spine_inv_parts)
next
  case (Cons row rows)
  obtain c e where row: "row = (c, e)" by (cases row)
  have ce: "e \<in> set (commit_escrow (sp_db s))" "paired c e" "cr_terminal_state c = None"
    using Cons.prems(3) by (simp_all add: horizon_sweepable_def row)
  have step: "protocol_step g cfg (protocol_of (sp_db s)) (close_crystal g cfg (sweep_closing c) e (protocol_of (sp_db s)))"
    by (rule closing_step [OF ce]) (simp add: sweep_closing_def)
  show ?case
    unfolding row list.map wp_simps
  proof (rule wp_sweep_horizon [OF Cons.prems(1,2) ce(2,3)])
    fix t
    assume t: "protocol_of (sp_db t) = close_crystal g cfg (sweep_closing c) e (protocol_of (sp_db s))"
      "extends_chain h g (sp_db s) (sp_db t)" "unchanged s t"
    have inv: "spine_inv h g cfg base (sp_db t)"
      using spine_inv_step [OF Cons.prems(1) t(2)] step t(1) by auto
    have "commit_escrow (sp_db t) = update_where (\<lambda>x. ce_crystal_id x = ce_crystal_id e) (closing_row (sweep_closing c)) (commit_escrow (sp_db s))"
      using arg_cong [OF t(1), of pr_commits] by simp
    then have "horizon_sweepable rows (sp_db t)"
      using Cons.prems(3) by (auto simp: horizon_sweepable_def row set_update_where image_iff rev_image_eqI)
    then show "wp (stepsE (map (sweep_horizon h g now) rows)) Q E t"
    proof (rule Cons.IH [OF inv Cons.prems(2)])
      fix u
      assume u: "protocol_of (sp_db u) = swept g cfg rows (protocol_of (sp_db t))"
        "(protocol_step g cfg)\<^sup>*\<^sup>* (protocol_of (sp_db t)) (protocol_of (sp_db u))" "extends_chain h g (sp_db t) (sp_db u)" "unchanged t u"
      show "Q () u"
        using u t step extends_chain_trans [OF t(2) u(3)]
        by (intro Cons.prems(4)) (auto simp: swept_def row unchanged_def intro: converse_rtranclp_into_rtranclp)
    qed
  qed
qed

lemma crystal_ids: "list_all2 paired cs es \<Longrightarrow> map cr_crystal_id cs = map ce_crystal_id es"
  by (induction rule: list_all2_induct) (auto simp: paired_def)

lemma due_rows_sweepable:
  assumes inv: "spine_inv h g cfg base d"
  shows "horizon_sweepable (due_rows_of n now d) d"
proof -
  note parts = spine_inv_parts [OF inv]
  have d: "distinct (map cr_crystal_id (governance_crystals d))" using parts(3,4) by (simp add: crystal_ids)
  have row: "\<exists>e. load_crystal (cr_crystal_id c) d = Some (c, e) \<and> row_where (\<lambda>e. ce_crystal_id e = cr_crystal_id c) (commit_escrow d) = Some e"
    if "c \<in> set (governance_crystals d)" "horizon_due now d c" for c
    using that row_where_key_in [OF d that(1)] by (auto simp: horizon_due_def load_crystal_def split: option.splits)
  have due: "c \<in> set (governance_crystals d) \<and> horizon_due now d c" if "c \<in> set (due_horizons n now d)" for c
    using that by (auto simp: due_horizons_def dest!: in_set_takeD)
  have "distinct (map cr_crystal_id (due_horizons n now d))"
  proof -
    have "distinct (due_horizons n now d)" using d by (simp add: due_horizons_def distinct_map)
    with due same_key [OF d] show ?thesis by (auto simp: distinct_map inj_on_def)
  qed
  moreover have "ce_crystal_id (the (row_where (\<lambda>e. ce_crystal_id e = cr_crystal_id c) (commit_escrow d))) = cr_crystal_id c"
    if "c \<in> set (due_horizons n now d)" for c
  proof -
    from due [OF that] row obtain e where e: "row_where (\<lambda>e. ce_crystal_id e = cr_crystal_id c) (commit_escrow d) = Some e" by blast
    then show ?thesis using row_where_keyD [OF e] by simp
  qed
  then have "map (ce_crystal_id \<circ> snd) (due_rows_of n now d) = map cr_crystal_id (due_horizons n now d)"
    by (simp add: due_rows_of_def comp_def)
  moreover have "e \<in> set (commit_escrow d) \<and> paired c e \<and> cr_terminal_state c = None" if "(c, e) \<in> set (due_rows_of n now d)" for c e
  proof -
    have c: "c \<in> set (due_horizons n now d)" and e: "e = the (row_where (\<lambda>e. ce_crystal_id e = cr_crystal_id c) (commit_escrow d))"
      using that by (auto simp: due_rows_of_def)
    from due [OF c] row obtain x where x: "load_crystal (cr_crystal_id c) d = Some (c, x)"
      "row_where (\<lambda>e. ce_crystal_id e = cr_crystal_id c) (commit_escrow d) = Some x" by blast
    from load_crystal_pair [OF inv x(1)] due [OF c] show ?thesis by (simp add: e x(2) horizon_due_def)
  qed
  ultimately show ?thesis by (auto simp: horizon_sweepable_def)
qed

end
