(* ===== verification/Crystal_Plane.thy ===== *)
theory Crystal_Plane
  imports Crystal_Refine
begin

text \<open>
  A spine as a transition system: its routes, the turn of its reconciler, verification of its chain, the
  clearing of the diagnostic mode, time, and changes
  of the registries by its operators. Every reachable state satisfies \<open>spine_inv\<close>, so the exposure of every account is
  accounted for, the log of an operation follows from its row, and of the audits only one can fire.
\<close>

section \<open>Sessions\<close>

definition settled :: "(spine_db \<Rightarrow> bool) \<Rightarrow> spine \<Rightarrow> bool" where
  "settled I s = (at_commit s \<and> I (sp_committed s))"

lemma wp_session_handled:
  assumes "at_commit s" "wp m (\<lambda>_. handled h g cfg s) (\<lambda>_. handled h g cfg s) s"
  shows "wp (spine_session m) (\<lambda>_ t. handled h g cfg s t \<and> at_commit t) (\<lambda>_ t. handled h g cfg s t \<and> at_commit t) s"
proof -
  have "s\<lparr>sp_db := sp_committed s\<rparr> = s" using assms(1) by (simp add: at_commit_def)
  then show ?thesis
    using assms(2) unfolding wp_spine_session
    by (auto simp: handled_def at_commit_def elim!: wp_conseq)
qed

section \<open>The reconciler\<close>

lemma wp_sweep_horizons:
  assumes inv: "spine_inv h g cfg base (sp_db s)" and dg: "digest_ok h"
    and Q: "\<And>t. advanced h g (swept g cfg (due_rows_of n (sp_clock s) (sp_db s))) s t
      \<Longrightarrow> (protocol_step g cfg)\<^sup>*\<^sup>* (protocol_of (sp_db s)) (protocol_of (sp_committed t))
      \<Longrightarrow> Q (length (due_rows_of n (sp_clock s) (sp_db s))) t"
  shows "wp (sweep_expired_horizons h g n) Q E s"
  unfolding sweep_expired_horizons_def wp_simps prod.case
  by (rule wp_horizon_rows [OF inv dg due_rows_sweepable [OF inv]])
    (auto simp: advanced_def unchanged_def intro!: Q)

definition audit_clean :: "governor \<Rightarrow> spine_db \<Rightarrow> bool" where
  "audit_clean g d =
     (negative_balances d = 0 \<and> cap_overruns d = 0 \<and> committed_without_crystal d = 0 \<and> high_risk_auto_expired d = 0
      \<and> repeated_operations (\<lambda>t. t = ''COMMITTED_FINAL'') d = 0
      \<and> (g \<noteq> Finance \<longrightarrow> repeated_operations (\<lambda>t. t = ''HORIZON_EXPIRED'' \<or> t = ''EXPIRED_SWEEP'') d = 0 \<and> stranded_without_hold d = 0))"

definition same_tables :: "spine \<Rightarrow> spine \<Rightarrow> bool" where
  "same_tables s t = (sp_db t = sp_db s \<and> sp_committed t = sp_committed s \<and> sp_clock t = sp_clock s)"

lemma same_tables_simps [simp]:
  "same_tables s s" "same_tables s (count_by c n t) = same_tables s t" "same_tables s (enter_spine_diagnostic g b c' r t) = same_tables s t"
  by (auto simp: same_tables_def count_by_def enter_spine_diagnostic_def Let_def)

lemma diagnostic_simps [simp]:
  "sp_cluster_flag (count_by c n s) = sp_cluster_flag s" "sp_cluster_flag (enter_spine_diagnostic g b c' r s) = (b \<or> sp_cluster_flag s)"
  "sp_reconciler_diagnostic (count_by c n s) = sp_reconciler_diagnostic s"
  "diag_active (sp_reconciler_diagnostic (enter_spine_diagnostic g b c' r s))"
  by (auto simp: count_by_def enter_spine_diagnostic_def Let_def)

lemma wp_raise_count [wp_simps]: "wp (raise_count name n) Q E s = Q () (if 0 < n then count_by name (int n) s else s)"
  by (simp add: raise_count_def wp_simps)

lemma wp_run_audits:
  assumes "\<And>t. same_tables s t \<Longrightarrow> audit_clean g (sp_db s) \<Longrightarrow> Q True t"
    and "\<And>t. same_tables s t \<Longrightarrow> \<not> audit_clean g (sp_db s) \<Longrightarrow> diag_active (sp_reconciler_diagnostic t) \<Longrightarrow> (redis \<Longrightarrow> sp_cluster_flag t) \<Longrightarrow> Q False t"
  shows "wp (run_audits g redis) Q E s"
proof (cases "g = Finance")
  case True
  with assms show ?thesis
    by (simp add: run_audits_def assert_regulatory_ops_invariants_def assert_crystal_ops_invariants_def assert_none_def wp_simps audit_clean_def)
next
  case False
  with assms show ?thesis
    by (simp add: run_audits_def assert_domain_ops_invariants_def assert_none_def wp_simps audit_clean_def)
qed

section \<open>The audits\<close>

lemma count_trail:
  "count_where (\<lambda>v. dv_operation_id v = k \<and> types (dv_event_type v)) vs
     = length (filter (types \<circ> fst) (map (\<lambda>(t, x, m). (t, x)) (trail k (map logged vs))))"
  by (induction vs) (auto simp: trail_def logged_def)

lemma event_types_of_trail:
  "(t, x) \<in> set (map (\<lambda>(t, x, m). (t, x)) (trail k (map logged vs)))
     \<longleftrightarrow> (\<exists>v \<in> set vs. dv_operation_id v = k \<and> dv_event_type v = t \<and> dv_delta v = x)"
  by (force simp: trail_def logged_def)

lemma repeated_none:
  assumes inv: "spine_inv h g cfg base d" and once: "\<And>e. length (filter (types \<circ> fst) (lifecycle g cfg e)) \<le> 1"
  shows "repeated_operations types d = 0"
proof -
  have "\<not> 1 < count_where (\<lambda>e. dv_operation_id e = dv_operation_id v \<and> types (dv_event_type e)) (decision_events d)"
    if "v \<in> set (decision_events d)" for v
  proof -
    have "logged v \<in> set (pr_log (protocol_of d))" using that by simp
    then have "dv_operation_id v \<in> ce_operation_id ` set (commit_escrow d)"
      using inv by (fastforce simp: spine_inv_def protocol_inv_def logged_def)
    then obtain e where "e \<in> set (commit_escrow d)" "dv_operation_id v = ce_operation_id e" by auto
    then show ?thesis
      using inv once [of e] by (auto simp: count_trail spine_inv_def protocol_inv_def trail_ok_def)
  qed
  then show ?thesis by (auto simp: repeated_operations_def filter_empty_conv)
qed

lemma lifecycle_once:
  "length (filter ((\<lambda>t. t = ''COMMITTED_FINAL'') \<circ> fst) (lifecycle g cfg e)) \<le> 1"
  "length (filter ((\<lambda>t. t = ''HORIZON_EXPIRED'' \<or> t = ''EXPIRED_SWEEP'') \<circ> fst) (lifecycle g cfg e)) \<le> 1"
  by (auto simp: lifecycle_def drift_log_def split: commit_status.split)

lemma audit_clean_iff:
  assumes inv: "spine_inv h g cfg base d"
  shows "audit_clean g d \<longleftrightarrow> high_risk_auto_expired d = 0"
proof -
  note parts = spine_inv_parts [OF inv]
  have "negative_balances d = 0" using parts(2) by (auto simp: negative_balances_def count_where_0 balances_nonnegative_def)
  moreover have "cap_overruns d = 0" using inv by (simp add: spine_inv_def)
  moreover have "committed_without_crystal d = 0"
    using paired_commits [OF parts(3)] by (fastforce simp: committed_without_crystal_def count_where_0 paired_def)
  moreover have "stranded_without_hold d = 0"
  proof -
    have "\<exists>v \<in> set (decision_events d). dv_operation_id v = ce_operation_id e \<and> dv_event_type v = ''STRANDED_HOLD''"
      if "e \<in> set (commit_escrow d)" "ce_status e = C_STRANDED" for e
    proof -
      have "trail_ok g cfg (map logged (decision_events d)) e" using inv that(1) by (simp add: spine_inv_def protocol_inv_def)
      with that(2) have "(''STRANDED_HOLD'', 0) \<in> set (map (\<lambda>(t, x, m). (t, x)) (trail (ce_operation_id e) (map logged (decision_events d))))"
        by (simp add: trail_ok_def lifecycle_def)
      then show ?thesis unfolding event_types_of_trail by blast
    qed
    then show ?thesis by (auto simp: stranded_without_hold_def count_where_0)
  qed
  ultimately show ?thesis by (simp add: audit_clean_def repeated_none [OF inv lifecycle_once(1)] repeated_none [OF inv lifecycle_once(2)])
qed

section \<open>Handlers\<close>

definition session_keeps :: "host \<Rightarrow> governor \<Rightarrow> spine_settings \<Rightarrow> 'a spine_handler \<Rightarrow> spine \<Rightarrow> bool" where
  "session_keeps h g cfg m s =
     wp m (\<lambda>_ t. handled h g cfg s t \<and> at_commit t) (\<lambda>_ t. handled h g cfg s t \<and> at_commit t) s"

lemma session_keeps_run: "session_keeps h g cfg m s \<Longrightarrow> m s = (t, x) \<Longrightarrow> handled h g cfg s t \<and> at_commit t"
  by (cases x) (auto simp: session_keeps_def wp_def)

lemma handled_refl [simp]: "handled h g cfg s s"
  by (simp add: handled_def)

lemma session_keeps_session:
  assumes "at_commit s" "wp m (\<lambda>_. handled h g cfg s) (\<lambda>_. handled h g cfg s) s"
  shows "session_keeps h g cfg (spine_session m) s"
  unfolding session_keeps_def by (rule wp_session_handled [OF assms])

lemma session_keeps_route:
  assumes "session_keeps h g cfg m s" "at_commit s" "\<And>e s. wp (f e) (\<lambda>_. (=) s) (\<lambda>_. (=) s) s"
  shows "session_keeps h g cfg (unless_halted cfg' redis (catchE m f)) s"
  using assms(1,2) unfolding session_keeps_def unless_halted_def wp_simps
  by (auto elim!: wp_conseq intro: wp_conseq [OF assms(3)])

lemma except_passes:
  "wp (crystallize_except e) (\<lambda>_. (=) s) (\<lambda>_. (=) s) s" "wp (commit_except e) (\<lambda>_. (=) s) (\<lambda>_. (=) s) s"
  by (cases e; simp add: crystallize_except_def commit_except_def wp_simps)+

text \<open>The checks before the ledger do not write.\<close>

interpretation st: effect_frame same_tables
  by unfold_locales (auto simp: same_tables_def)

lemma keeps_facet_checks: "keeps same_tables (check_required p fs ks)" "keeps same_tables (check_types p spec fs)"
proof -
  show "keeps same_tables (check_required p fs ks)"
    by (induction ks) (auto intro!: st.keeps_rules)
  show "keeps same_tables (check_types p spec fs)"
    by (induction fs) (auto intro!: st.keeps_rules split: option.split)
qed

lemma keeps_platform_checks:
  "keeps same_tables (assert_platform_allowed p)" "keeps same_tables (validate_platform_facets p fs)" "keeps same_tables (guard_platform cfg p fs)"
  unfolding assert_platform_allowed_def validate_platform_facets_def validate_facets_def guard_platform_def Let_def
  by (intro st.keeps_rules st.keeps_modifyE keeps_facet_checks; simp)+

lemma wp_checked_first:
  assumes "keeps same_tables m" "\<And>x t. same_tables s t \<Longrightarrow> wp (f x) Q E t" "\<And>e t. same_tables s t \<Longrightarrow> E e t"
  shows "wp (bindE m f) Q E s"
  unfolding wp_simps by (rule wp_conseq [OF keeps_wp [OF assms(1)]]) (simp_all add: assms(2,3))

lemma wp_after_check:
  assumes "keeps same_tables m" "\<And>x t. same_tables s t \<Longrightarrow> wp (f x) (\<lambda>_. handled h g cfg t) (\<lambda>_. handled h g cfg t) t"
  shows "wp (bindE m f) (\<lambda>_. handled h g cfg s) (\<lambda>_. handled h g cfg s) s"
  by (rule wp_checked_first [OF assms(1)])
    (auto simp: same_tables_def handled_def intro!: wp_conseq [OF assms(2)])

lemma wp_crystallize_operation:
  assumes "spine_inv h Finance cfg base (sp_db s)" "digest_ok h" "at_commit s"
  shows "wp (crystallize_operation h cfg uuid r) (\<lambda>_. handled h Finance cfg s) (\<lambda>_. handled h Finance cfg s) s"
  unfolding crystallize_operation_def seqE_def
proof (intro wp_after_check keeps_platform_checks)
  fix p t u assume "same_tables s t" "same_tables t (u :: spine)"
  then have "spine_inv h Finance cfg base (sp_db u)" "at_commit u" using assms by (simp_all add: same_tables_def at_commit_def)
  from wp_crystallize_handled [OF this(1) assms(2) this(2)]
  show "wp (getsE (\<lambda>s. find_crystal_of (cq_platform r) (cq_operation_id r) (sp_db s)) (\<lambda>existing.
         case existing of
           Some c \<Rightarrow>
             if canonical_fingerprint h (cq_platform r) (cq_operation_id r) (cq_facets r) \<noteq> cr_request_fingerprint c
             then throw (Conflict_Error ''fingerprint mismatch on crystallize replay'')
             else bindE (modifyE (counted_up ''crystallize_idempotent_replay_total'')) (\<lambda>_. ret (replayed r c))
         | None \<Rightarrow> crystallize_new h Finance cfg uuid r (default_policy r p)))
       (\<lambda>_. handled h Finance cfg u) (\<lambda>_. handled h Finance cfg u) u"
    by (auto simp: wp_simps handled_def split: option.split)
qed

lemma wp_claim_crystallize_operation:
  assumes "spine_inv h g cfg base (sp_db s)" "digest_ok h" "at_commit s"
  shows "wp (claim_crystallize_operation h g cfg uuid r) (\<lambda>_. handled h g cfg s) (\<lambda>_. handled h g cfg s) s"
  using wp_crystallize_handled [OF assms]
  by (auto simp: claim_crystallize_operation_def wp_simps handled_def split: option.split)

text \<open>The protocol as the routes speak it.\<close>

definition spine_crystallize_route ::
  "host \<Rightarrow> governor \<Rightarrow> spine_settings \<Rightarrow> bool \<Rightarrow> string \<Rightarrow> crystallize_request \<Rightarrow> crystallize_result spine_handler" where
  "spine_crystallize_route h g cfg redis uuid r =
     (if g = Finance then crystallize_route h cfg redis uuid r else claim_crystallize_route h g cfg redis uuid r)"

lemma session_keeps_crystallize:
  assumes "spine_inv h g cfg base (sp_committed s)" "digest_ok h" "at_commit s"
  shows "session_keeps h g cfg (spine_crystallize_route h g cfg redis uuid r) s"
proof (cases "g = Finance")
  case True
  with assms show ?thesis
    by (auto simp: spine_crystallize_route_def crystallize_route_def at_commit_def
        intro!: session_keeps_route session_keeps_session wp_crystallize_operation except_passes)
next
  case False
  have "wp (seqE (guard_platform cfg (cq_platform r) (cq_facets r)) (claim_crystallize_operation h g cfg uuid r))
    (\<lambda>_. handled h g cfg s) (\<lambda>_. handled h g cfg s) s"
    unfolding seqE_def using assms
    by (intro wp_after_check keeps_platform_checks wp_claim_crystallize_operation) (auto simp: same_tables_def at_commit_def)
  with False assms(3) show ?thesis
    by (simp add: spine_crystallize_route_def claim_crystallize_route_def session_keeps_route session_keeps_session except_passes)
qed

lemma session_keeps_commit:
  assumes "spine_inv h g cfg base (sp_committed s)" "digest_ok h" "at_commit s"
  shows "session_keeps h g cfg (commit_route h g cfg redis r) s"
  using assms by (auto simp: commit_route_def at_commit_def intro!: session_keeps_route session_keeps_session wp_commit_handled except_passes)

lemma session_keeps_adjudicate:
  assumes "spine_inv h Finance cfg base (sp_committed s)" "digest_ok h" "at_commit s"
  shows "session_keeps h Finance cfg (adjudicate_route h cfg redis i action reason) s"
  using assms by (auto simp: adjudicate_route_def at_commit_def intro!: session_keeps_route session_keeps_session wp_adjudicate_handled except_passes)

lemma session_keeps_turn:
  assumes inv: "spine_inv h g cfg base (sp_committed s)" and dg: "digest_ok h" and c: "at_commit s"
  shows "session_keeps h g cfg (spine_turn h g redis is_leader) s"
proof -
  have inv': "spine_inv h g cfg base (sp_db s)" using inv c by (simp add: at_commit_def)
  have audits: "wp (run_audits g redis) (\<lambda>_. handled h g cfg s) (\<lambda>_. handled h g cfg s) t" if "handled h g cfg s t" for t
    using that by (intro wp_run_audits) (auto simp: handled_def same_tables_def)
  have sweep: "wp (sweep_expired_horizons h g 100) (\<lambda>_. wp (run_audits g redis) (\<lambda>_. handled h g cfg s) (\<lambda>_. handled h g cfg s))
     (\<lambda>_. handled h g cfg s) s"
    using c by (intro wp_sweep_horizons [OF inv' dg] audits) (simp add: advanced_def handled_def moved_def at_commit_def)
  have "session_keeps h g cfg (spine_session (if \<not> is_leader then ret () else
      seqE (whenE b (seqE (sweep_expired_horizons h g 100) (ret ()))) (seqE (run_audits g redis) (ret ())))) s" for b
    using sweep audits by (intro session_keeps_session c) (simp add: wp_simps)
  then show ?thesis using c by (auto simp: session_keeps_def spine_turn_def wp_simps)
qed

section \<open>Steps\<close>

definition configured :: "policy_row list \<Rightarrow> platform_row list option \<Rightarrow> mesh_rule list \<Rightarrow> spine_db \<Rightarrow> spine_db" where
  "configured policies platforms rules d =
     d\<lparr>policy_registry := policies, platform_registry := platforms, mesh_rules := rules\<rparr>"

inductive spine_step :: "host \<Rightarrow> governor \<Rightarrow> spine_settings \<Rightarrow> spine \<Rightarrow> spine \<Rightarrow> bool" for h g cfg where
  crystallize: "spine_crystallize_route h g cfg redis uuid r s = (t, x) \<Longrightarrow> spine_step h g cfg s t"
| commit: "commit_route h g cfg redis q s = (t, y) \<Longrightarrow> spine_step h g cfg s t"
| adjudicate: "g = Finance \<Longrightarrow> adjudicate_route h cfg redis i action reason s = (t, y) \<Longrightarrow> spine_step h g cfg s t"
| turn: "spine_turn h g redis is_leader s = (t, z) \<Longrightarrow> spine_step h g cfg s t"
| clear: "spine_step h g cfg s (clear_spine_diagnostic redis s)"
| verify: "spine_step h g cfg s (fst (verify_spine_chain h g incremental (sp_committed s) s))"
| tick: "sp_clock s \<le> now \<Longrightarrow> spine_step h g cfg s (s\<lparr>sp_clock := now\<rparr>)"
| configure: "spine_step h g cfg s
    (s\<lparr>sp_db := configured policies platforms rules (sp_committed s), sp_committed := configured policies platforms rules (sp_committed s)\<rparr>)"

definition spine_start :: "spine \<Rightarrow> bool" where
  "spine_start s =
     (at_commit s \<and> governance_crystals (sp_committed s) = [] \<and> commit_escrow (sp_committed s) = []
      \<and> decision_events (sp_committed s) = [] \<and> 0 < next_decision_id (sp_committed s) \<and> has_seal (sp_committed s)
      \<and> decision_checkpoint (sp_committed s) = None \<and> distinct (map account_key (account_ledgers (sp_committed s)))
      \<and> balances_nonnegative (sp_committed s) \<and> cap_overruns (sp_committed s) = 0)"

definition start_balance :: "spine \<Rightarrow> string \<times> string \<times> string \<Rightarrow> money" where
  "start_balance s = opening_sheet (protocol_of (sp_committed s))"

lemma spine_start_settled:
  assumes "spine_start s"
  shows "settled (spine_inv h g cfg (start_balance s)) s"
proof -
  have "protocol_start (protocol_of (sp_committed s))"
    using assms by (auto simp: spine_start_def protocol_start_def balances_nonnegative_def comp_def)
  from protocol_start_inv [OF this] show ?thesis
    using assms by (simp add: settled_def spine_inv_def decisions_ok_def start_balance_def spine_start_def)
qed

lemma configured_inv: "spine_inv h g cfg base (configured ps pf ms d) = spine_inv h g cfg base d"
proof -
  have "decision_checkpoint_ok h g (configured ps pf ms d) c = decision_checkpoint_ok h g d c" for c
    by (simp add: decision_checkpoint_ok_def configured_def)
  then show ?thesis by (simp add: spine_inv_def) (simp add: configured_def decisions_ok_def protocol_of_def cap_overruns_def)
qed

lemma checkpointed_inv:
  assumes "spine_inv h g cfg base d" "decision_events d \<noteq> []"
  shows "spine_inv h g cfg base (save_decision_checkpoint (checkpoint_of_decisions h g d) d)"
proof -
  let ?d = "save_decision_checkpoint (checkpoint_of_decisions h g d) d"
  have "decision_checkpoint_ok h g ?d c = decision_checkpoint_ok h g d c" for c
    by (simp add: decision_checkpoint_ok_def save_decision_checkpoint_def)
  moreover have "decision_checkpoint ?d = Some c \<Longrightarrow> decision_checkpoint_ok h g d c" for c
    using assms checkpoint_of_decisions_ok [OF assms(2), of h g]
    by (auto simp: save_decision_checkpoint_def spine_inv_def split: if_splits)
  ultimately show ?thesis
    using assms(1) by (simp add: spine_inv_def) (simp add: save_decision_checkpoint_def decisions_ok_def protocol_of_def cap_overruns_def)
qed

lemma verify_settled:
  assumes s: "settled (spine_inv h g cfg base) s" and dg: "digest_ok h"
  shows "settled (spine_inv h g cfg base) (fst (verify_spine_chain h g inc (sp_committed s) s))"
proof (cases "decision_events (sp_committed s) = []")
  case True
  then have "fst (verify_spine_chain h g inc (sp_committed s) s) = s"
    by (simp add: verify_spine_defs)
  then show ?thesis using s by simp
next
  case False
  have inv: "spine_inv h g cfg base (sp_committed s)" and c: "sp_db s = sp_committed s"
    using s by (simp_all add: settled_def at_commit_def)
  from inv have "decisions_ok h g (sp_committed s)"
    "\<forall>c. decision_checkpoint (sp_committed s) = Some c \<longrightarrow> decision_checkpoint_ok h g (sp_committed s) c"
    by (auto simp: spine_inv_def)
  from verify_spine_ok(2) [OF this(1) dg False this(2), of inc s] show ?thesis
    using s c checkpointed_inv [OF inv False]
    by (auto simp: settled_def at_commit_def persist_decision_checkpoint_def)
qed

lemma handled_settled:
  "settled (spine_inv h g cfg base) s \<Longrightarrow> handled h g cfg s t \<Longrightarrow> at_commit t \<Longrightarrow> settled (spine_inv h g cfg base) t"
  by (auto simp: settled_def handled_def intro: moved_inv)

lemma spine_step_settled:
  assumes dg: "digest_ok h" and "spine_step h g cfg s t" "settled (spine_inv h g cfg base) s"
  shows "settled (spine_inv h g cfg base) t"
proof -
  have inv: "spine_inv h g cfg base (sp_committed s)" and c: "at_commit s" using assms(3) by (simp_all add: settled_def)
  note keep = handled_settled [OF assms(3)]
  show ?thesis
    using assms(2)
  proof cases
    case crystallize
    then show ?thesis using session_keeps_run [OF session_keeps_crystallize [OF inv dg c]] keep by blast
  next
    case commit
    then show ?thesis using session_keeps_run [OF session_keeps_commit [OF inv dg c]] keep by blast
  next
    case adjudicate
    then show ?thesis using session_keeps_run [OF session_keeps_adjudicate [OF _ dg c]] inv keep by blast
  next
    case turn
    then show ?thesis using session_keeps_run [OF session_keeps_turn [OF inv dg c]] keep by blast
  next
    case verify
    then show ?thesis using verify_settled [OF assms(3) dg] by simp
  next
    case clear
    then show ?thesis using assms(3) by (simp add: settled_def at_commit_def clear_spine_diagnostic_def)
  next
    case tick
    then show ?thesis using assms(3) by (simp add: settled_def at_commit_def)
  next
    case configure
    then show ?thesis using inv by (simp add: settled_def at_commit_def configured_inv)
  qed
qed

definition spine_reachable :: "host \<Rightarrow> governor \<Rightarrow> spine_settings \<Rightarrow> spine \<Rightarrow> spine \<Rightarrow> bool" where
  "spine_reachable h g cfg s0 s = (digest_ok h \<and> spine_start s0 \<and> (spine_step h g cfg)\<^sup>*\<^sup>* s0 s)"

interpretation sp: invariant_system "\<lambda>s. digest_ok h \<and> spine_start s \<and> start_balance s = base" "spine_step h g cfg"
  "\<lambda>s. digest_ok h \<and> settled (spine_inv h g cfg base) s" for h g cfg base
  by unfold_locales (auto intro: spine_start_settled spine_step_settled)

lemma reachable_spine:
  assumes "spine_reachable h g cfg s0 s"
  shows "digest_ok h" "at_commit s" "spine_inv h g cfg (start_balance s0) (sp_committed s)"
  using assms sp.inv_reachable [of h s0 "start_balance s0" g cfg s] by (simp_all add: spine_reachable_def settled_def)

section \<open>A halted reconciler stays halted\<close>

text \<open>No step resets the flag in the reconciler's own memory.\<close>

definition halts_on :: "spine \<Rightarrow> spine \<Rightarrow> bool" where
  "halts_on s t = (diag_active (sp_reconciler_diagnostic s) \<longrightarrow> diag_active (sp_reconciler_diagnostic t))"

interpretation ho: effect_frame halts_on
  by unfold_locales (auto simp: halts_on_def)

lemma halts_on_simps [simp]:
  "halts_on s (count_by c n s)" "halts_on s (on_spine f s)" "halts_on s (spine_commit s)" "halts_on s (enter_spine_diagnostic g b c' r s)"
  by (simp_all add: halts_on_def on_spine_def spine_commit_def)

lemma halts_session: "keeps halts_on m \<Longrightarrow> keeps halts_on (spine_session m)"
  unfolding keeps_def
proof
  fix s
  assume "\<forall>s. halts_on s (fst (m s))"
  then have "halts_on (s\<lparr>sp_db := sp_committed s\<rparr>) (fst (m (s\<lparr>sp_db := sp_committed s\<rparr>)))" by blast
  then show "halts_on s (fst (spine_session m s))" by (simp add: spine_session_def halts_on_def split_beta)
qed

lemma halts_run: "keeps halts_on m \<Longrightarrow> m s = (t, x) \<Longrightarrow> halts_on s t"
  by (metis fst_conv keeps_def)

lemma halts_modify: "(\<And>s. halts_on s (f s)) \<Longrightarrow> keeps halts_on (modifyE f)"
  by (rule ho.keeps_modifyE)

lemma halts_checked: "keeps halts_on (checked ok f)"
  unfolding checked_def by (intro ho.keeps_rules halts_modify) simp

lemmas halts_rules = ho.keeps_rules halts_modify halts_checked

lemma halts_facets: "keeps halts_on (check_required p fs ks)" "keeps halts_on (check_types p spec fs)"
proof -
  show "keeps halts_on (check_required p fs ks)" by (induction ks) (auto intro!: halts_rules)
  show "keeps halts_on (check_types p spec fs)" by (induction fs) (auto intro!: halts_rules split: option.split)
qed

lemma halts_append: "keeps halts_on (append_decision_event h g k c u t a m)"
  unfolding append_decision_event_def by (auto intro!: halts_rules)

lemma halts_platform:
  "keeps halts_on (assert_platform_allowed p)" "keeps halts_on (validate_platform_facets p fs)" "keeps halts_on (guard_platform cfg p fs)"
  unfolding assert_platform_allowed_def validate_platform_facets_def validate_facets_def guard_platform_def Let_def
  by (intro halts_rules halts_facets; simp)+

lemma halts_crystallize: "keeps halts_on (crystallize_new h g cfg uuid r pid)"
  unfolding crystallize_new_def policy_horizon_def reserve_balance_def insert_crystal_def insert_commit_def move_balance_def Let_def
  by (auto intro!: halts_rules halts_append)

lemma halts_drift: "keeps halts_on (drift_of h g cfg c e amount now)"
  unfolding drift_of_def enforce_drift_on_commit_def Let_def by (auto intro!: halts_rules halts_append)

lemma halts_commit: "keeps halts_on (commit_operation h g cfg r)"
  unfolding commit_operation_def commit_new_def check_mesh_block_def move_balance_def Let_def
  by (auto intro!: halts_rules halts_append halts_drift)

lemma halts_adjudicate: "keeps halts_on (adjudicate_operation h i action reason)"
  unfolding adjudicate_operation_def move_balance_def by (auto intro!: halts_rules halts_append)

lemma halts_sweep: "keeps halts_on (sweep_expired_horizons h g n)"
  unfolding sweep_expired_horizons_def sweep_horizon_def strand_horizon_def expire_horizon_def move_balance_def
  by (auto intro!: halts_rules halts_append)

lemma halts_audits: "keeps halts_on (run_audits g redis)"
  unfolding run_audits_def assert_regulatory_ops_invariants_def assert_crystal_ops_invariants_def assert_domain_ops_invariants_def
    assert_none_def raise_count_def
  by (auto intro!: halts_rules split: spine_exn.split)

lemma halts_except: "keeps halts_on (crystallize_except e)" "keeps halts_on (commit_except e)"
  by (cases e; simp add: crystallize_except_def commit_except_def ho.keeps_throw)+

lemma halts_step: "spine_step h g cfg s t \<Longrightarrow> halts_on s t"
proof -
  have crystallize: "keeps halts_on (spine_crystallize_route h g cfg redis uuid r)" for redis uuid r
    unfolding spine_crystallize_route_def crystallize_route_def claim_crystallize_route_def unless_halted_def crystallize_operation_def
      claim_crystallize_operation_def
    by (auto intro!: halts_rules halts_session halts_platform halts_crystallize halts_except)
  have commit: "keeps halts_on (commit_route h g cfg redis q)" for redis q
    unfolding commit_route_def unless_halted_def by (intro halts_rules halts_session halts_commit halts_except)
  have adjudicate: "keeps halts_on (adjudicate_route h cfg redis i action reason)" for redis i action reason
    unfolding adjudicate_route_def unless_halted_def by (intro halts_rules halts_session halts_adjudicate halts_except)
  have turn: "keeps halts_on (spine_turn h g redis b)" for redis b
    unfolding spine_turn_def by (intro halts_rules halts_session halts_sweep halts_audits)
  assume "spine_step h g cfg s t"
  then show ?thesis
  proof cases
    case (verify inc)
    then show ?thesis
      using verify_spine_state [of h g inc "sp_committed s" s]
      by (auto simp: persist_decision_checkpoint_def halts_on_def on_spine_def spine_commit_def)
  qed (auto intro: halts_run [OF crystallize] halts_run [OF commit] halts_run [OF adjudicate] halts_run [OF turn],
      simp_all add: halts_on_def clear_spine_diagnostic_def)
qed

lemma halts_steps: "(spine_step h g cfg)\<^sup>*\<^sup>* s t \<Longrightarrow> halts_on s t"
  by (induction rule: rtranclp_induct) (auto intro: ho.refl ho.trans halts_step)

end
