(* ===== verification/Spine_Guard.thy ===== *)
theory Spine_Guard
  imports Crystal_Plane Admission
begin

text \<open>
  \<^verbatim>\<open>guardrails.py\<close>, \<^verbatim>\<open>fallback_limiter.py\<close> and \<^verbatim>\<open>circuit_breaker.py\<close> of the insurance and cybersecurity spines, and
  the crystallize route that asks them before it opens its session. The limiter and the breaker are those of the
  sidecar with other keys and texts, so their records and their window arithmetic are used again. The settings carry
  the sidecar's names: \<open>max_trace_depth\<close> is \<open>max_claim_depth\<close> (or \<open>max_action_depth\<close>), \<open>max_user_inflight\<close> is
  \<open>max_account_inflight\<close>, and their fallback versions likewise. The counters the guardrails write are kept apart
  from those of the ledger; no name occurs in both.
\<close>

section \<open>The process\<close>

record governed =
  gv_spine :: spine
  gv_limiter :: limiter
  gv_breaker :: breaker
  gv_degraded :: "bool option"
  gv_counters :: "string \<Rightarrow> int"
  gv_monotonic :: rat
  gv_redis_log :: "redis_cmd list"

type_synonym 'a governed_handler = "(governed, spine_exn, 'a) exec"

definition with_spine :: "'a spine_handler \<Rightarrow> 'a governed_handler" where
  "with_spine m s = (case m (gv_spine s) of (t, x) \<Rightarrow> (s\<lparr>gv_spine := t\<rparr>, x))"

text \<open>\<open>try: m finally: f\<close>: an exception of \<open>f\<close> replaces the outcome of \<open>m\<close>.\<close>

definition finallyE :: "'a governed_handler \<Rightarrow> unit governed_handler \<Rightarrow> 'a governed_handler" where
  "finallyE m f s =
     (case m s of (t, x) \<Rightarrow> (case f t of (u, Inl e) \<Rightarrow> (u, Inl e) | (u, Inr _) \<Rightarrow> (u, x)))"

definition noted :: "string \<Rightarrow> unit governed_handler" where
  "noted name = modifyE (\<lambda>s. s\<lparr>gv_counters := (gv_counters s)(name := gv_counters s name + 1)\<rparr>)"

definition spine_redis :: "host \<Rightarrow> redis_cmd \<Rightarrow> int governed_handler" where
  "spine_redis h c =
     getsE (\<lambda>s. redis_reply h (gv_redis_log s) c) (\<lambda>reply.
       seqE (modifyE (\<lambda>s. s\<lparr>gv_redis_log := gv_redis_log s @ [c]\<rparr>))
         (case reply of None \<Rightarrow> throw Redis_Error | Some n \<Rightarrow> ret n))"

definition governor_prefix :: "governor \<Rightarrow> string" where
  "governor_prefix g = (case g of Finance \<Rightarrow> ''fg'' | Insurance \<Rightarrow> ''ig'' | Cybersecurity \<Rightarrow> ''cg'')"

section \<open>The circuit breaker of a dependency\<close>

definition dependency_local_closed :: "string \<Rightarrow> unit governed_handler" where
  "dependency_local_closed name =
     getsE (\<lambda>s. (case open_until (gv_breaker s) name of None \<Rightarrow> 0 | Some t \<Rightarrow> t) > gv_monotonic s) (\<lambda>is_open.
       if is_open
       then seqE (noted ''dependency_circuit_open_total'') (throw (Circuit_Open_Error (''local circuit open for dependency '' @ name)))
       else ret ())"

definition dependency_note_failure :: "settings \<Rightarrow> string \<Rightarrow> governed \<Rightarrow> governed" where
  "dependency_note_failure gs name s =
     s\<lparr>gv_breaker := (gv_breaker s)\<lparr>failures := (failures (gv_breaker s))
         (name := failure_window gs (gv_monotonic s) (failures (gv_breaker s) name))\<rparr>\<rparr>"

definition dependency_open :: "settings \<Rightarrow> string \<Rightarrow> governed \<Rightarrow> governed" where
  "dependency_open gs name s =
     s\<lparr>gv_breaker := (gv_breaker s)\<lparr>open_until := (open_until (gv_breaker s))
         (name := Some (gv_monotonic s + of_int (circuit_breaker_open_seconds gs)))\<rparr>\<rparr>"

definition dependency_local_failure :: "settings \<Rightarrow> string \<Rightarrow> unit governed_handler" where
  "dependency_local_failure gs name =
     stepsE
       [modifyE (dependency_note_failure gs name),
        getsE (\<lambda>s. circuit_breaker_failure_threshold gs \<le> int (length (failures (gv_breaker s) name))) (\<lambda>trip. whenE trip (stepsE
          [modifyE (dependency_open gs name),
           noted ''dependency_circuit_open_total'',
           noted ''dependency_circuit_local_fallback_open_total'']))]"

definition dependency_local_success :: "string \<Rightarrow> unit governed_handler" where
  "dependency_local_success name =
     modifyE (\<lambda>s. s\<lparr>gv_breaker := (gv_breaker s)
       \<lparr>failures := (failures (gv_breaker s))(name := []), open_until := (open_until (gv_breaker s))(name := None)\<rparr>\<rparr>)"

definition set_dependency_degraded :: "bool \<Rightarrow> governed \<Rightarrow> governed" where
  "set_dependency_degraded b s = s\<lparr>gv_breaker := (gv_breaker s)\<lparr>breaker_degraded := Some b\<rparr>\<rparr>"

definition dependency_connect :: "host \<Rightarrow> bool governed_handler" where
  "dependency_connect h =
     catchE (seqE (spine_redis h PING) (ret False))
       (\<lambda>_. seqE (noted ''dependency_circuit_local_fallback_total'') (ret True))"

text \<open>\<open>get_circuit_breaker()\<close>: the first call constructs the instance; its flag \<open>_degraded\<close> lives in the state.\<close>

definition get_dependency_breaker :: "host \<Rightarrow> settings \<Rightarrow> bool governed_handler" where
  "get_dependency_breaker h gs =
     getsE (\<lambda>s. breaker_degraded (gv_breaker s)) (\<lambda>cached. case cached of
        Some degraded \<Rightarrow> ret degraded
      | None \<Rightarrow> bindE (if circuit_breaker_enabled gs then dependency_connect h else ret True) (\<lambda>degraded.
          seqE (modifyE (set_dependency_degraded degraded)) (ret degraded)))"

definition dependency_key :: "governor \<Rightarrow> string \<Rightarrow> string \<Rightarrow> string" where
  "dependency_key g name what = governor_prefix g @ '':circuit:'' @ name @ '':'' @ what"

definition dependency_fall_back :: "unit governed_handler \<Rightarrow> unit governed_handler" where
  "dependency_fall_back m =
     seqE (modifyE (set_dependency_degraded True)) (seqE (noted ''dependency_circuit_local_fallback_total'') m)"

definition dependency_assert_closed :: "host \<Rightarrow> governor \<Rightarrow> settings \<Rightarrow> string \<Rightarrow> unit governed_handler" where
  "dependency_assert_closed h g gs name =
     bindE (get_dependency_breaker h gs) (\<lambda>degraded.
       if degraded then dependency_local_closed name
       else catchE
         (bindE (spine_redis h (EXISTS (dependency_key g name ''open''))) (\<lambda>n.
            if n \<noteq> 0
            then seqE (noted ''dependency_circuit_open_total'') (throw (Circuit_Open_Error (''circuit open for dependency '' @ name)))
            else ret ()))
         (\<lambda>e. case e of Circuit_Open_Error m \<Rightarrow> throw e | _ \<Rightarrow> dependency_fall_back (dependency_local_closed name)))"

definition dependency_redis_failure :: "host \<Rightarrow> governor \<Rightarrow> settings \<Rightarrow> string \<Rightarrow> unit governed_handler" where
  "dependency_redis_failure h g gs name =
     bindE (spine_redis h (INCR (dependency_key g name ''failures''))) (\<lambda>count. stepsE
       [whenE (count = 1)
          (seqE (spine_redis h (EXPIRE (dependency_key g name ''failures'') (circuit_breaker_window_seconds gs))) (ret ())),
        whenE (circuit_breaker_failure_threshold gs \<le> count)
          (seqE (spine_redis h (SETEX (dependency_key g name ''open'') ''1'' (circuit_breaker_open_seconds gs)))
             (noted ''dependency_circuit_open_total''))])"

definition dependency_record_failure :: "host \<Rightarrow> governor \<Rightarrow> settings \<Rightarrow> string \<Rightarrow> unit governed_handler" where
  "dependency_record_failure h g gs name =
     bindE (get_dependency_breaker h gs) (\<lambda>degraded.
       if degraded then dependency_local_failure gs name
       else catchE (dependency_redis_failure h g gs name) (\<lambda>_. dependency_fall_back (dependency_local_failure gs name)))"

definition dependency_record_success :: "host \<Rightarrow> governor \<Rightarrow> settings \<Rightarrow> string \<Rightarrow> unit governed_handler" where
  "dependency_record_success h g gs name =
     bindE (get_dependency_breaker h gs) (\<lambda>degraded.
       seqE (dependency_local_success name)
         (if degraded then ret ()
          else catchE
            (seqE (spine_redis h (DEL [dependency_key g name ''failures'', dependency_key g name ''open''])) (ret ()))
            (\<lambda>_. ret ())))"

section \<open>LocalFallbackLimiter\<close>

text \<open>What the limits call the scope of an operation: its claim or its trace.\<close>

definition scope_word :: "governor \<Rightarrow> string" where
  "scope_word g = (if g = Insurance then ''claim'' else ''trace'')"

definition account_limiter_check ::
  "governor \<Rightarrow> settings \<Rightarrow> int \<Rightarrow> rat \<Rightarrow> string \<Rightarrow> string \<Rightarrow> string \<Rightarrow> limiter \<Rightarrow> limiter \<times> string \<times> spine_exn option" where
  "account_limiter_check g gs minute tick account_id scope_id operation_id l =
     (let l1 = refill_tokens gs tick (prime_bucket gs l)
      in if tokens l1 < 1
         then (l1, ''local_fallback_rate_limit_total'',
               Some (Rate_Limit_Exceeded ''local fallback global token bucket exhausted''))
         else let count = rate_count l1 account_id minute;
                  l2 = l1\<lparr>rate_windows := (rate_windows l1)(account_id := Some (minute, count))\<rparr>
              in if fallback_rate_limit_per_minute gs < count
                 then (l2, ''local_fallback_rate_limit_total'',
                       Some (Rate_Limit_Exceeded (''local fallback rate limit for account '' @ account_id)))
                 else let l3 = l2\<lparr>trace_depth := (trace_depth l2)
                                 (scope_id := List.insert operation_id (trace_depth l2 scope_id))\<rparr>
                      in if fallback_max_trace_depth gs < int (length (trace_depth l3 scope_id))
                         then (l3, ''local_fallback_claim_depth_total'',
                               Some (Trace_Depth_Exceeded (''local fallback '' @ scope_word g @ '' depth for '' @ scope_id)))
                         else if fallback_max_user_inflight gs < inflight l3 account_id + 1
                         then (l3, ''local_fallback_inflight_total'',
                               Some (Inflight_Limit_Exceeded (''local fallback in-flight limit for '' @ account_id)))
                         else (l3\<lparr>inflight := (inflight l3)(account_id := inflight l3 account_id + 1),
                                   tokens := tokens l3 - 1\<rparr>,
                               ''local_fallback_crystallize_total'', None))"

definition minute_of :: "governed \<Rightarrow> int" where
  "minute_of s = sp_clock (gv_spine s) div 60000000"

definition local_check_crystallize :: "governor \<Rightarrow> settings \<Rightarrow> string \<Rightarrow> string \<Rightarrow> string \<Rightarrow> unit governed_handler" where
  "local_check_crystallize g gs account_id scope_id operation_id s =
     (case account_limiter_check g gs (minute_of s) (gv_monotonic s) account_id scope_id operation_id (gv_limiter s) of
        (l, counter, err) \<Rightarrow>
          (fst (noted counter (s\<lparr>gv_limiter := l\<rparr>)), case err of None \<Rightarrow> Inr () | Some e \<Rightarrow> Inl e))"

definition local_release_crystallize :: "string \<Rightarrow> unit governed_handler" where
  "local_release_crystallize account_id = modifyE (\<lambda>s. s\<lparr>gv_limiter := limiter_release account_id (gv_limiter s)\<rparr>)"

section \<open>GuardrailService\<close>

text \<open>\<open>get_guardrails()\<close>: the first call constructs the instance.\<close>

definition get_spine_guardrails :: "host \<Rightarrow> settings \<Rightarrow> unit governed_handler" where
  "get_spine_guardrails h gs =
     getsE gv_degraded (\<lambda>cached. case cached of
        Some _ \<Rightarrow> ret ()
      | None \<Rightarrow> bindE (if guardrails_enabled gs then catchE (seqE (spine_redis h PING) (ret False)) (\<lambda>_. ret True) else ret True)
          (\<lambda>degraded. modifyE (\<lambda>s. s\<lparr>gv_degraded := Some degraded\<rparr>)))"

definition spine_mark_degraded :: "unit governed_handler" where
  "spine_mark_degraded =
     getsE gv_degraded (\<lambda>f. whenE (f \<noteq> Some True) (stepsE
       [modifyE (\<lambda>s. s\<lparr>gv_degraded := Some True\<rparr>), noted ''guardrail_degraded_total'']))"

definition account_rate_key :: "governor \<Rightarrow> string \<Rightarrow> int \<Rightarrow> string" where
  "account_rate_key g account_id minute = governor_prefix g @ '':rate:'' @ account_id @ '':'' @ int_str minute"

definition scope_key :: "governor \<Rightarrow> string \<Rightarrow> string" where
  "scope_key g scope_id = governor_prefix g @ (if g = Insurance then '':claim:'' else '':op:'') @ scope_id @ '':ops''"

definition account_inflight_key :: "governor \<Rightarrow> string \<Rightarrow> string" where
  "account_inflight_key g account_id = governor_prefix g @ '':inflight:'' @ account_id"

definition redis_check_crystallize ::
  "host \<Rightarrow> governor \<Rightarrow> spine_settings \<Rightarrow> settings \<Rightarrow> string \<Rightarrow> string \<Rightarrow> string \<Rightarrow> unit governed_handler" where
  "redis_check_crystallize h g cfg gs account_id scope_id operation_id =
     getsE minute_of (\<lambda>minute.
     bindE (spine_redis h (INCR (account_rate_key g account_id minute))) (\<lambda>count.
     seqE (whenE (count = 1) (seqE (spine_redis h (EXPIRE (account_rate_key g account_id minute) 120)) (ret ())))
     (if rate_limit_per_minute gs < count
      then seqE (noted ''rate_limit_exceeded_total'')
             (throw (Rate_Limit_Exceeded (''rate limit exceeded for account '' @ account_id)))
      else
     seqE (spine_redis h (SADD (scope_key g scope_id) operation_id))
     (seqE (spine_redis h (EXPIRE (scope_key g scope_id) 3600))
     (bindE (spine_redis h (SCARD (scope_key g scope_id))) (\<lambda>depth.
      if max_trace_depth gs < depth
      then seqE (noted ''claim_depth_exceeded_total'')
             (throw (Trace_Depth_Exceeded (scope_word g @ '' depth exceeded for '' @ scope_id)))
      else
     bindE (spine_redis h (INCR (account_inflight_key g account_id))) (\<lambda>n.
     seqE (whenE (n = 1)
             (seqE (spine_redis h (EXPIRE (account_inflight_key g account_id) (commit_ttl_seconds cfg + 120))) (ret ())))
     (if max_user_inflight gs < n
      then seqE (spine_redis h (DECR (account_inflight_key g account_id)))
             (seqE (noted ''account_inflight_exceeded_total'')
               (throw (Inflight_Limit_Exceeded (''in-flight limit exceeded for account '' @ account_id))))
      else ret ()))))))))"

definition is_guard_refusal :: "spine_exn \<Rightarrow> bool" where
  "is_guard_refusal e =
     (case e of Rate_Limit_Exceeded _ \<Rightarrow> True | Trace_Depth_Exceeded _ \<Rightarrow> True | Inflight_Limit_Exceeded _ \<Rightarrow> True | _ \<Rightarrow> False)"

definition degraded_check :: "governor \<Rightarrow> settings \<Rightarrow> string \<Rightarrow> string \<Rightarrow> string \<Rightarrow> unit governed_handler" where
  "degraded_check g gs account_id scope_id operation_id =
     seqE (noted ''guardrail_degraded_total'') (local_check_crystallize g gs account_id scope_id operation_id)"

definition assert_redis_closed :: "host \<Rightarrow> governor \<Rightarrow> settings \<Rightarrow> unit governed_handler" where
  "assert_redis_closed h g gs =
     whenE (guardrails_enabled gs)
       (catchE (dependency_assert_closed h g gs ''redis'')
         (\<lambda>e. case e of
            Circuit_Open_Error m \<Rightarrow> seqE (noted ''redis_circuit_open_total'') (throw e)
          | _ \<Rightarrow> throw e))"

definition check_crystallize ::
  "host \<Rightarrow> governor \<Rightarrow> spine_settings \<Rightarrow> settings \<Rightarrow> string \<Rightarrow> string \<Rightarrow> string \<Rightarrow> unit governed_handler" where
  "check_crystallize h g cfg gs account_id scope_id operation_id =
     seqE (assert_redis_closed h g gs)
       (getsE gv_degraded (\<lambda>degraded.
          if degraded = Some False
          then catchE
            (seqE (redis_check_crystallize h g cfg gs account_id scope_id operation_id) (dependency_record_success h g gs ''redis''))
            (\<lambda>e. if is_guard_refusal e then throw e
                 else stepsE [dependency_record_failure h g gs ''redis'', spine_mark_degraded,
                              degraded_check g gs account_id scope_id operation_id])
          else degraded_check g gs account_id scope_id operation_id))"

definition redis_release :: "host \<Rightarrow> governor \<Rightarrow> spine_settings \<Rightarrow> string \<Rightarrow> unit governed_handler" where
  "redis_release h g cfg account_id =
     bindE (spine_redis h (DECR (account_inflight_key g account_id))) (\<lambda>remaining.
       whenE (remaining < 0)
         (seqE (spine_redis h (SETEX (account_inflight_key g account_id) ''0'' (commit_ttl_seconds cfg + 120))) (ret ())))"

definition release_crystallize :: "host \<Rightarrow> governor \<Rightarrow> spine_settings \<Rightarrow> string \<Rightarrow> unit governed_handler" where
  "release_crystallize h g cfg account_id =
     getsE gv_degraded (\<lambda>degraded.
       if degraded = Some False
       then catchE (redis_release h g cfg account_id) (\<lambda>_. seqE spine_mark_degraded (local_release_crystallize account_id))
       else local_release_crystallize account_id)"

section \<open>The route\<close>

text \<open>Python's \<open>str\<close> of a facet; \<open>repr\<close> is its text of a list or a dict.\<close>

definition facet_str :: "(json \<Rightarrow> string) \<Rightarrow> json \<Rightarrow> string" where
  "facet_str repr v =
     (case v of JNull \<Rightarrow> ''None'' | JBool b \<Rightarrow> (if b then ''True'' else ''False'') | JInt n \<Rightarrow> int_str n | JStr t \<Rightarrow> t | _ \<Rightarrow> repr v)"

definition scope_id_of :: "governor \<Rightarrow> (json \<Rightarrow> string) \<Rightarrow> crystallize_request \<Rightarrow> string" where
  "scope_id_of g repr r =
     (case map_of (cq_facets r) (if g = Insurance then ''claim_id'' else ''trace_scope_id'') of
        None \<Rightarrow> cq_operation_id r
      | Some v \<Rightarrow> facet_str repr v)"

definition claim_except :: "spine_exn \<Rightarrow> 'a governed_handler" where
  "claim_except e =
     (case e of
        Rate_Limit_Exceeded m \<Rightarrow> throw (Http_Error 429 m)
      | Trace_Depth_Exceeded m \<Rightarrow> throw (Http_Error 429 m)
      | Inflight_Limit_Exceeded m \<Rightarrow> throw (Http_Error 429 m)
      | Circuit_Open_Error m \<Rightarrow> throw (Http_Error 503 m)
      | Platform_Guard_Error m \<Rightarrow> throw (Http_Error 422 m)
      | Conflict_Error m \<Rightarrow> throw (Http_Error 409 m)
      | Insufficient_Error m \<Rightarrow> throw (Http_Error 409 m)
      | _ \<Rightarrow> throw e)"

definition guarded_crystallize_route ::
  "host \<Rightarrow> governor \<Rightarrow> spine_settings \<Rightarrow> settings \<Rightarrow> (json \<Rightarrow> string) \<Rightarrow> bool \<Rightarrow> string \<Rightarrow> crystallize_request
    \<Rightarrow> crystallize_result governed_handler" where
  "guarded_crystallize_route h g cfg gs repr redis uuid r =
     seqE (with_spine (unless_halted cfg redis (ret ())))
      (seqE (get_spine_guardrails h gs)
        (finallyE
          (catchE
            (seqE (check_crystallize h g cfg gs (cq_account_id r) (scope_id_of g repr r) (cq_operation_id r))
              (with_spine (spine_session
                 (seqE (guard_platform cfg (cq_platform r) (cq_facets r)) (claim_crystallize_operation h g cfg uuid r)))))
            claim_except)
          (release_crystallize h g cfg (cq_account_id r))))"

text \<open>The cybersecurity spine is the same program with its own keys and texts.\<close>

definition security_limiter_check where
  "security_limiter_check = account_limiter_check Cybersecurity"

definition security_assert_closed where
  "security_assert_closed h = dependency_assert_closed h Cybersecurity"

definition security_record_failure where
  "security_record_failure h = dependency_record_failure h Cybersecurity"

definition security_record_success where
  "security_record_success h = dependency_record_success h Cybersecurity"

definition security_redis_check where
  "security_redis_check h = redis_check_crystallize h Cybersecurity"

definition security_check_crystallize where
  "security_check_crystallize h = check_crystallize h Cybersecurity"

definition security_release_crystallize where
  "security_release_crystallize h = release_crystallize h Cybersecurity"

definition security_crystallize_route where
  "security_crystallize_route h = guarded_crystallize_route h Cybersecurity"

end
