(* ===== verification/Crystal_Contract.thy ===== *)
theory Crystal_Contract
  imports Crystal_Plane
begin

text \<open>
  What the domain governors guarantee: where reserved exposure is, what the event table says, when a commit goes through,
  what the reconciler does with expired horizons and when its audits halt the spine.
\<close>

section \<open>A run\<close>

text \<open>
  One account with an exposure budget of one hundred, one high-risk policy with a horizon of one second, and a request
  that names the standard risk tier.
\<close>

definition sample_spine :: spine where
  "sample_spine =
     (let d = \<lparr>account_ledgers = [\<lparr>la_account_id = ''desk'', la_ledger_type = ''exposure'', la_currency = ''USD'',
                 la_balance = 100 * 10 ^ 12, la_active = True, la_lock_reason = None, la_locked_at = None, la_updated_at = 0\<rparr>],
               governance_crystals = [], commit_escrow = [], decision_events = [], next_decision_id = 1,
               policy_registry = [\<lparr>pl_policy_id = ''p1'', pl_risk_classification = ''high'', pl_max_per_commit = 50 * 10 ^ 12,
                 pl_commit_horizon_ms = 1000, pl_allow_auto_expire = False, pl_enabled = True\<rparr>],
               platform_registry = None, mesh_rules = [], cap_states = [], spine_incidents = [], decision_checkpoint = None, has_seal = True,
               has_decision_checkpoints = True, has_incidents = True\<rparr>
      in \<lparr>sp_db = d, sp_committed = d, sp_counters = (\<lambda>_. 0), sp_clock = 0,
          sp_diagnostic = \<lparr>diag_active = False, diag_reason = None, diag_component = None\<rparr>,
          sp_reconciler_diagnostic = \<lparr>diag_active = False, diag_reason = None, diag_component = None\<rparr>, sp_cluster_flag = False\<rparr>)"

definition sample_crystallize :: crystallize_request where
  "sample_crystallize =
     \<lparr>cq_platform = ''trade'', cq_operation_id = ''op-1'', cq_account_id = ''desk'', cq_risk_tier = ''standard'',
      cq_facets = [(''side'', JStr ''buy'')], cq_policy_id = Some ''p1'', cq_reserved = Dec 10 0, cq_parent_crystal_id = None\<rparr>"

definition sample_commit :: commit_request where
  "sample_commit =
     \<lparr>cm_crystal_id = ''crys_u1'', cm_facets = [(''side'', JStr ''buy'')], cm_committed = Dec 4 0, cm_outcome = ''ok'',
      cm_late_authority = False\<rparr>"

definition after_crystallize :: spine where
  "after_crystallize =
     fst (spine_crystallize_route sample_host Finance default_spine_settings False ''u1'' sample_crystallize sample_spine)"

definition after_commit :: spine where
  "after_commit = fst (commit_route sample_host Finance default_spine_settings False sample_commit after_crystallize)"

lemma sample_spine_start: "spine_start sample_spine"
  by (simp add: spine_start_def sample_spine_def at_commit_def balances_nonnegative_def cap_overruns_def Let_def)

lemma after_crystallize_reachable: "spine_reachable sample_host Finance default_spine_settings sample_spine after_crystallize"
  unfolding spine_reachable_def after_crystallize_def
  by (intro conjI sample_digest_ok sample_spine_start r_into_rtranclp spine_step.crystallize [OF surjective_pairing])

lemma after_commit_reachable: "spine_reachable sample_host Finance default_spine_settings sample_spine after_commit"
  using after_crystallize_reachable
  unfolding spine_reachable_def after_commit_def
  by (blast intro: rtranclp.rtrancl_into_rtrancl spine_step.commit [OF surjective_pairing])

text \<open>What the handlers left: the crystal and its commit, the balance, the events.\<close>

definition spine_facts where
  "spine_facts s =
     (let d = sp_committed s
      in (map la_balance (account_ledgers d), map (\<lambda>c. (cr_crystal_id c, cr_terminal_state c)) (governance_crystals d),
          map (\<lambda>e. (ce_operation_id e, ce_status e)) (commit_escrow d), map (\<lambda>v. (dv_event_type v, dv_delta v)) (decision_events d)))"

lemma after_commit_run:
  "(case commit_route sample_host Finance default_spine_settings False sample_commit after_crystallize of (t, y) \<Rightarrow> (spine_facts t, y))
     = (([96 * 10 ^ 12], [(''crys_u1'', Some C_COMMITTED)], [(''op-1'', C_COMMITTED)],
         [(''CRYSTAL_CREATED'', - (10 * 10 ^ 12)), (''COMMITTED_FINAL'', 4 * 10 ^ 12)]),
        Inr \<lparr>co_operation_id = ''op-1'', co_crystal_id = ''crys_u1'', co_status = ''COMMITTED''\<rparr>)"
  by code_simp

lemma after_crystallize_run:
  "(case spine_crystallize_route sample_host Finance default_spine_settings False ''u1'' sample_crystallize sample_spine of (t, z) \<Rightarrow>
      (z, map (\<lambda>(c, e). (cr_risk_tier c, cr_policy_id c)) (due_rows_of 100 2000000 (sp_committed t)),
       map (\<lambda>p. (pl_policy_id p, pl_risk_classification p, pl_allow_auto_expire p)) (policy_registry (sp_committed t)),
       mesh_rules (sp_committed t), platform_registry (sp_committed t), diag_active (sp_diagnostic t), diag_active (sp_reconciler_diagnostic t), sp_cluster_flag t, sp_clock t))
     = (Inr \<lparr>cz_crystal_id = ''crys_u1'', cz_operation_id = ''op-1'', cz_status = ''CRYSTALLIZED'', cz_horizon_expires_at = 1000000\<rparr>,
        [(''standard'', Some ''p1'')], [(''p1'', ''high'', False)], [], None, False, False, False, 0)"
  by code_simp

lemmas after_commit_facts = after_commit_run [unfolded case_prod_unfold prod.inject, folded after_commit_def, unfolded spine_facts_def Let_def prod.inject]
lemmas after_commit_tables = after_commit_facts [THEN conjunct1]
lemmas after_crystallize_facts = after_crystallize_run [unfolded case_prod_unfold prod.inject, folded after_crystallize_def]

lemma commit_run:
  "commit_route sample_host Finance default_spine_settings False sample_commit after_crystallize
     = (after_commit, Inr \<lparr>co_operation_id = ''op-1'', co_crystal_id = ''crys_u1'', co_status = ''COMMITTED''\<rparr>)"
  using after_commit_facts by (simp add: prod_eq_iff after_commit_def)

lemma crystallize_run:
  "spine_crystallize_route sample_host Finance default_spine_settings False ''u1'' sample_crystallize sample_spine
     = (after_crystallize, Inr \<lparr>cz_crystal_id = ''crys_u1'', cz_operation_id = ''op-1'', cz_status = ''CRYSTALLIZED'', cz_horizon_expires_at = 1000000\<rparr>)"
  using after_crystallize_facts by (simp add: prod_eq_iff after_crystallize_def)

lemma sample_not_halted: "\<not> writes_halted default_spine_settings False after_crystallize" "\<not> sweep_halted redis after_crystallize"
  using after_crystallize_facts by (simp_all add: writes_halted_def sweep_halted_def spine_diagnostic_mode_def)

lemma sample_start_reachable: "spine_reachable sample_host Finance default_spine_settings sample_spine sample_spine"
  by (simp add: spine_reachable_def sample_digest_ok sample_spine_start)

section \<open>Exposure and events\<close>

text \<open>C13: In every reachable state of a spine the balance of an account is not negative and equals its opening balance less
  what its operations hold: the reservation of an open crystal, the committed amount up to the reservation, nothing once
  expired or stranded by hand, and the whole reservation once stranded by the sweeper.
\<close>

theorem exposure_is_accounted_for:
  assumes "spine_reachable h g cfg s0 s" "a \<in> set (account_ledgers (sp_committed s))"
  shows "0 \<le> la_balance a
    \<and> la_balance a = start_balance s0 (account_key a) - exposure_held_for g (protocol_of (sp_committed s)) (account_key a)"
  using reachable_spine(3) [OF assms(1)] assms(2) by (auto simp: spine_inv_def protocol_inv_def)

theorem exposure_is_accounted_for_witness:
  "\<exists>a \<in> set (account_ledgers (sp_committed after_commit)). la_balance a = 96 * 10 ^ 12
     \<and> la_balance a = start_balance sample_spine (account_key a)
         - exposure_held_for Finance (protocol_of (sp_committed after_commit)) (account_key a)"
proof -
  have "96 * 10 ^ 12 \<in> set (map la_balance (account_ledgers (sp_committed after_commit)))" using after_commit_tables by simp
  then obtain a where "a \<in> set (account_ledgers (sp_committed after_commit))" "la_balance a = 96 * 10 ^ 12" by auto
  then show ?thesis using exposure_is_accounted_for [OF after_commit_reachable] by blast
qed

text \<open>C14: In every reachable state the events of an operation, with their amounts, are a function of its commit row: one
  creation, then nothing, a drift notice and a final commit, an expiry, or a hold; and every event belongs to an operation.
\<close>

theorem events_follow_from_rows:
  assumes "spine_reachable h g cfg s0 s"
  shows "(\<forall>e \<in> set (commit_escrow (sp_committed s)).
      map (\<lambda>v. (dv_event_type v, dv_delta v)) (filter (\<lambda>v. dv_operation_id v = ce_operation_id e) (decision_events (sp_committed s)))
        = lifecycle g cfg e)
    \<and> dv_operation_id ` set (decision_events (sp_committed s)) = ce_operation_id ` set (commit_escrow (sp_committed s))"
proof -
  let ?d = "sp_committed s"
  have trail: "map (\<lambda>(t, x, m). (t, x)) (trail k (map logged vs))
      = map (\<lambda>v. (dv_event_type v, dv_delta v)) (filter (\<lambda>v. dv_operation_id v = k) vs)" for k vs
    by (induction vs) (auto simp: trail_def logged_def)
  have inv: "protocol_inv g cfg (start_balance s0) (protocol_of ?d)"
    using reachable_spine(3) [OF assms] by (simp add: spine_inv_def)
  then have rows: "\<forall>e \<in> set (commit_escrow ?d). map (\<lambda>v. (dv_event_type v, dv_delta v))
      (filter (\<lambda>v. dv_operation_id v = ce_operation_id e) (decision_events ?d)) = lifecycle g cfg e"
    by (simp add: protocol_inv_def trail_ok_def trail)
  moreover have "ce_operation_id e \<in> dv_operation_id ` set (decision_events ?d)" if "e \<in> set (commit_escrow ?d)" for e
  proof -
    have "filter (\<lambda>v. dv_operation_id v = ce_operation_id e) (decision_events ?d) \<noteq> []"
      using rows that by (fastforce simp: lifecycle_def)
    then show ?thesis by (force simp: filter_empty_conv)
  qed
  moreover have "dv_operation_id v \<in> ce_operation_id ` set (commit_escrow ?d)" if "v \<in> set (decision_events ?d)" for v
    using inv that by (fastforce simp: protocol_inv_def logged_def)
  ultimately show ?thesis by blast
qed

theorem events_follow_from_rows_witness:
  "\<exists>e \<in> set (commit_escrow (sp_committed after_commit)). ce_status e = C_COMMITTED
     \<and> map (\<lambda>v. (dv_event_type v, dv_delta v))
         (filter (\<lambda>v. dv_operation_id v = ce_operation_id e) (decision_events (sp_committed after_commit)))
       = lifecycle Finance default_spine_settings e"
proof -
  have "(''op-1'', C_COMMITTED) \<in> set (map (\<lambda>e. (ce_operation_id e, ce_status e)) (commit_escrow (sp_committed after_commit)))"
    using after_commit_tables by simp
  then obtain e where "e \<in> set (commit_escrow (sp_committed after_commit))" "ce_status e = C_COMMITTED" by auto
  then show ?thesis using events_follow_from_rows [OF after_commit_reachable] by blast
qed

lemma spine_step_protocol:
  assumes "spine_reachable h g cfg s0 s" "spine_step h g cfg s t"
  shows "(protocol_step g cfg)\<^sup>*\<^sup>* (protocol_of (sp_committed s)) (protocol_of (sp_committed t))"
proof -
  note r = reachable_spine [OF assms(1)]
  have moved: "(protocol_step g cfg)\<^sup>*\<^sup>* (protocol_of (sp_committed s)) (protocol_of (sp_committed t))" if "handled h g cfg s t" for t
    using that by (auto simp: handled_def moved_def)
  show ?thesis
    using assms(2)
  proof cases
    case crystallize
    then show ?thesis using session_keeps_run [OF session_keeps_crystallize [OF r(3,1,2)]] moved by blast
  next
    case commit
    then show ?thesis using session_keeps_run [OF session_keeps_commit [OF r(3,1,2)]] moved by blast
  next
    case adjudicate
    then show ?thesis using session_keeps_run [OF session_keeps_adjudicate [OF _ r(1,2)]] r(3) moved by blast
  next
    case turn
    then show ?thesis using session_keeps_run [OF session_keeps_turn [OF r(3,1,2)]] moved by blast
  next
    case (verify inc)
    have "protocol_of (save_decision_checkpoint c d) = protocol_of d" for c d
      by (simp add: save_decision_checkpoint_def protocol_of_def)
    then show ?thesis
      using verify_spine_state [of h g inc "sp_committed s" s] r(2) verify
      by (auto simp: persist_decision_checkpoint_def at_commit_def)
  next
    case clear
    then show ?thesis by (simp add: clear_spine_diagnostic_def)
  next
    case tick
    then show ?thesis by simp
  next
    case configure
    then show ?thesis by (simp add: configured_def protocol_of_def)
  qed
qed

text \<open>C15: Every step of a spine (a route, a turn of its reconciler, a verification, a change of the registries, the passing of
  time) is, on the committed tables, a sequence of steps of the abstract protocol, and nothing else moves a balance.
\<close>

theorem spine_refines_protocol:
  assumes "spine_reachable h g cfg s0 s" "spine_step h g cfg s t"
  shows "(protocol_step g cfg)\<^sup>*\<^sup>* (protocol_of (sp_committed s)) (protocol_of (sp_committed t))"
  using assms by (rule spine_step_protocol)

theorem spine_refines_protocol_witness:
  "(protocol_step Finance default_spine_settings)\<^sup>*\<^sup>* (protocol_of (sp_committed after_crystallize)) (protocol_of (sp_committed after_commit))"
  by (rule spine_refines_protocol [OF after_crystallize_reachable])
    (simp add: after_commit_def spine_step.commit [OF surjective_pairing])

section \<open>Audits\<close>

text \<open>C21: In every reachable state the audits of the reconciler report a violation exactly when some crystal expired under an
  enabled or disabled policy of a high risk class that forbids automatic expiry; no other audit can fire.
\<close>

theorem audits_fire_only_on_auto_expiry:
  assumes "spine_reachable h g cfg s0 s"
  shows "snd (run_audits g redis s) = Inr (high_risk_auto_expired (sp_committed s) = 0)"
proof -
  note r = reachable_spine [OF assms]
  have c: "sp_db s = sp_committed s" using r(2) by (simp add: at_commit_def)
  have "wp (run_audits g redis) (\<lambda>b _. b = (high_risk_auto_expired (sp_committed s) = 0)) (\<lambda>_ _. False) s"
    by (rule wp_run_audits) (simp_all add: c audit_clean_iff [OF r(3)])
  then show ?thesis by (auto simp: wp_def split: prod.splits sum.splits)
qed

theorem audits_fire_only_on_auto_expiry_witness:
  "snd (run_audits Finance False after_commit) = Inr True"
proof -
  have "map cr_terminal_state (governance_crystals (sp_committed after_commit)) = [Some C_COMMITTED]"
    using after_commit_tables by (auto simp: map_eq_Cons_conv)
  then have "high_risk_auto_expired (sp_committed after_commit) = 0"
    by (auto simp: high_risk_auto_expired_def count_where_0 map_eq_Cons_conv)
  then show ?thesis using audits_fire_only_on_auto_expiry [OF after_commit_reachable] by simp
qed

section \<open>The hash chain\<close>

text \<open>C22: A verification of the whole table, in either of the two programs the governors have for it, accepts exactly the
  tables whose rows, ordered by id, form one hash chain from the genesis hash.
\<close>

theorem spine_verification_decides:
  assumes "digest_ok h"
  shows "vr_valid (snd (verify_spine_chain h g False d s))
    \<longleftrightarrow> has_seal d \<and> decision_chain h g GENESIS_HASH (sort_key dv_event_id (decision_events d))"
  by (rule verify_full_valid [OF assms])

theorem spine_verification_decides_witness:
  "vr_valid (snd (verify_spine_chain sample_host Finance False (sp_committed after_commit) after_commit))"
proof -
  have "decisions_ok sample_host Finance (sp_committed after_commit)"
    using reachable_spine(3) [OF after_commit_reachable] by (simp add: spine_inv_def)
  then show ?thesis
    unfolding spine_verification_decides [OF sample_digest_ok] by (simp add: sort_decisions) (simp add: decisions_ok_def)
qed

text \<open>In every reachable state verification, from the start or from the stored checkpoint, reports a valid chain with every
  event sealed and the hash of the last event as its head.
\<close>

theorem spine_always_verifies:
  assumes "spine_reachable h g cfg s0 s" "decision_events (sp_committed s) \<noteq> []"
  shows "\<exists>b. snd (verify_spine_chain h g incremental (sp_committed s) s) = valid_chain h g (sp_committed s) b"
  using reachable_spine [OF assms(1)] assms(2) by (intro verify_spine_ok(1)) (auto simp: spine_inv_def)

theorem spine_always_verifies_witness:
  "vr_valid (snd (verify_spine_chain sample_host Finance True (sp_committed after_commit) after_commit))
   \<and> vr_sealed_count (snd (verify_spine_chain sample_host Finance True (sp_committed after_commit) after_commit)) = 2"
proof -
  have n: "length (decision_events (sp_committed after_commit)) = 2"
    using after_commit_tables by (metis (no_types, lifting) length_map length_Cons list.size(3) numeral_2_eq_2)
  then have "decision_events (sp_committed after_commit) \<noteq> []" by auto
  from spine_always_verifies [OF after_commit_reachable this, of True] n show ?thesis by (auto simp: valid_chain_def)
qed

section \<open>Commits\<close>

lemma wp_unless_halted:
  "wp (unless_halted cfg redis m) Q E s
     = (if writes_halted cfg redis s then E (Http_Error 503 ''diagnostic mode: writes halted'') s else wp m Q E s)"
  by (simp add: unless_halted_def wp_simps)

lemma wp_commit_route:
  assumes inv: "spine_inv h g cfg base (sp_committed s)" and dg: "digest_ok h" and c: "at_commit s"
    and "\<not> writes_halted cfg redis s"
    and replay: "\<And>c e. load_crystal (cm_crystal_id r) (sp_committed s) = Some (c, e) \<Longrightarrow> cr_terminal_state c \<noteq> None \<Longrightarrow> Q (replay_reply c) s"
    and final: "\<And>c e t. load_crystal (cm_crystal_id r) (sp_committed s) = Some (c, e) \<Longrightarrow> may_commit h r (sp_clock s) c (sp_committed s)
      \<Longrightarrow> 0 \<le> quantize_spine (cm_committed r)
      \<Longrightarrow> advanced h g (close_crystal g cfg (Committing (quantize_spine (cm_committed r)) (sp_clock s) (cm_outcome r)) e) s t
      \<Longrightarrow> Q (committed_result c) t"
    and E: "\<And>x t. unchanged s t
      \<Longrightarrow> (\<And>c e. load_crystal (cm_crystal_id r) (sp_committed s) = Some (c, e)
        \<Longrightarrow> cr_terminal_state c = None \<and> \<not> (may_commit h r (sp_clock s) c (sp_committed s) \<and> 0 \<le> quantize_spine (cm_committed r)))
      \<Longrightarrow> E x t"
  shows "wp (commit_route h g cfg redis r) Q E s"
proof -
  have d: "sp_db s = sp_committed s" "s\<lparr>sp_db := sp_committed s\<rparr> = s" using c by (simp_all add: at_commit_def)
  have err: "wp (commit_except e) Q E (t\<lparr>sp_db := sp_committed t\<rparr>)"
    if "\<And>x. E x (t\<lparr>sp_db := sp_committed t\<rparr>)" for e t
    using that by (cases e) (simp_all add: commit_except_def wp_simps)
  show ?thesis
    unfolding commit_route_def wp_unless_halted if_not_P [OF assms(4)] wp_catchE wp_spine_session d(2)
  proof (rule wp_commit_operation [OF inv [folded d(1)] dg], goal_cases)
    case (1 c e)
    with replay show ?case by (simp add: d)
  next
    case (2 c e t)
    then have "t\<lparr>sp_db := sp_committed t\<rparr> = t" by (simp add: advanced_def)
    with 2 final show ?case by (simp add: d)
  next
    case (3 x t)
    then show ?case by (intro err E) (auto simp: d unchanged_def)
  qed
qed



section \<open>Facets and platforms\<close>

definition facets_conform :: "jobject \<Rightarrow> jobject \<Rightarrow> bool" where
  "facets_conform spec facets =
     (spec = [] \<or> (\<forall>key \<in> set (schema_required spec). map_of facets key \<noteq> None)
        \<and> (\<forall>(key, v) \<in> set facets. case schema_type spec key of None \<Rightarrow> True | Some t \<Rightarrow> type_matches t v))"

lemma check_required_run:
  "check_required p fs ks s = (s, Inr ()) \<longleftrightarrow> (\<forall>key \<in> set ks. map_of fs key \<noteq> None)"
  "\<exists>x. \<forall>s. check_required p fs ks s = (s, x) \<and> (\<forall>e. x = Inl e \<longrightarrow> (\<exists>m. e = Facet_Validation_Error m))"
  by (induction ks) (auto simp: ret_def throw_def)

lemma check_types_run:
  "check_types p spec fs s = (s, Inr ()) \<longleftrightarrow> (\<forall>(key, v) \<in> set fs. case schema_type spec key of None \<Rightarrow> True | Some t \<Rightarrow> type_matches t v)"
  "\<exists>x. \<forall>s. check_types p spec fs s = (s, x) \<and> (\<forall>e. x = Inl e \<longrightarrow> (\<exists>m. e = Facet_Validation_Error m))"
proof -
  show "check_types p spec fs s = (s, Inr ()) \<longleftrightarrow> (\<forall>(key, v) \<in> set fs. case schema_type spec key of None \<Rightarrow> True | Some t \<Rightarrow> type_matches t v)"
  proof (induction fs)
    case (Cons f fs)
    obtain key v where "f = (key, v)" by (cases f)
    with Cons show ?case by (cases "schema_type spec key") (simp_all add: throw_def del: type_matches.simps)
  qed (simp add: ret_def)
  show "\<exists>x. \<forall>s. check_types p spec fs s = (s, x) \<and> (\<forall>e. x = Inl e \<longrightarrow> (\<exists>m. e = Facet_Validation_Error m))"
    by (induction fs) (auto simp: ret_def throw_def simp del: type_matches.simps split: option.split)
qed

lemma validate_facets_run:
  "validate_facets p fs spec s = (s, Inr ()) \<longleftrightarrow> facets_conform spec fs"
  "\<exists>x. \<forall>s. validate_facets p fs spec s = (s, x) \<and> (\<forall>e. x = Inl e \<longrightarrow> (\<exists>m. e = Facet_Validation_Error m))"
proof -
  obtain x where x: "\<And>s. check_required p fs (schema_required spec) s = (s, x)" "\<forall>e. x = Inl e \<longrightarrow> (\<exists>m. e = Facet_Validation_Error m)"
    using check_required_run(2) by blast
  obtain y where y: "\<And>s. check_types p spec fs s = (s, y)" "\<forall>e. y = Inl e \<longrightarrow> (\<exists>m. e = Facet_Validation_Error m)"
    using check_types_run(2) by blast
  have run: "validate_facets p fs spec s = (s, if spec = [] then Inr () else case x of Inl e \<Rightarrow> Inl e | Inr _ \<Rightarrow> y)" for s
    by (cases x) (simp_all add: validate_facets_def seqE_def bindE_def x(1) y(1) ret_def)
  show "validate_facets p fs spec s = (s, Inr ()) \<longleftrightarrow> facets_conform spec fs"
    using check_required_run(1) [of p fs "schema_required spec" s] check_types_run(1) [of p spec fs s]
    by (cases x) (auto simp: run facets_conform_def x(1) y(1))
  show "\<exists>x. \<forall>s. validate_facets p fs spec s = (s, x) \<and> (\<forall>e. x = Inl e \<longrightarrow> (\<exists>m. e = Facet_Validation_Error m))"
    using run x(2) y(2) by (cases x) auto
qed


text \<open>Whether the checks before the ledger admit a request: what they answer depends on the registry only.\<close>

definition admitted :: "governor \<Rightarrow> spine_settings \<Rightarrow> crystallize_request \<Rightarrow> platform_row \<Rightarrow> spine \<Rightarrow> bool" where
  "admitted g cfg r p s =
     (if g = Finance
      then assert_platform_allowed (cq_platform r) s = (s, Inr p) \<and> validate_platform_facets (cq_platform r) (cq_facets r) s = (s, Inr ())
      else guard_platform cfg (cq_platform r) (cq_facets r) s = (s, Inr ()))"

lemma assert_platform_run:
  "(\<exists>p. \<forall>s. platform_registry (sp_db s) = reg \<longrightarrow> assert_platform_allowed name s = (s, Inr p))
   \<or> (\<exists>e. \<forall>s. platform_registry (sp_db s) = reg \<longrightarrow> assert_platform_allowed name s = (s, Inl e))"
  by (auto simp: assert_platform_allowed_def getsE_def ret_def throw_def split: option.split)

lemma validate_platform_run:
  "\<exists>x. \<forall>s. platform_registry (sp_db s) = reg \<longrightarrow> validate_platform_facets name fs s = (s, x)"
proof -
  consider p where "\<And>s. platform_registry (sp_db s) = reg \<Longrightarrow> assert_platform_allowed name s = (s, Inr p)"
    | e where "\<And>s. platform_registry (sp_db s) = reg \<Longrightarrow> assert_platform_allowed name s = (s, Inl e)"
    using assert_platform_run [of reg name] by blast
  then show ?thesis
  proof cases
    case (1 p)
    obtain x where "\<And>s. validate_facets name fs (pf_facet_schema p) s = (s, x)" using validate_facets_run(2) by blast
    then show ?thesis by (auto simp: validate_platform_facets_def bindE_def 1 ret_def)
  next
    case (2 e)
    then show ?thesis by (auto simp: validate_platform_facets_def bindE_def)
  qed
qed

lemma guard_platform_cong:
  assumes "platform_registry (sp_db t) = platform_registry (sp_db s)" "guard_platform cfg name fs s = (s, Inr ())"
  shows "guard_platform cfg name fs t = (t, Inr ())"
  using assms
  by (auto simp: guard_platform_def getsE_def ret_def throw_def seqE_def bindE_def Let_def modifyE_def split: option.splits if_splits)

lemma admitted_cong:
  assumes "platform_registry (sp_db t) = platform_registry (sp_db s)" "admitted g cfg r p s"
  shows "admitted g cfg r p t"
proof (cases "g = Finance")
  case True
  have "assert_platform_allowed (cq_platform r) t = (t, Inr p)"
    using assert_platform_run [of "platform_registry (sp_db s)" "cq_platform r"] assms True by (auto simp: admitted_def)
  moreover have "validate_platform_facets (cq_platform r) (cq_facets r) t = (t, Inr ())"
    using validate_platform_run [of "platform_registry (sp_db s)" "cq_platform r" "cq_facets r"] assms True by (auto simp: admitted_def)
  ultimately show ?thesis using True by (simp add: admitted_def)
next
  case False
  then show ?thesis using assms guard_platform_cong by (auto simp: admitted_def)
qed

section \<open>Crystals persist\<close>

text \<open>Later steps change at most the terminal state of a crystal.\<close>

definition same_crystal :: "crystal_row \<Rightarrow> crystal_row \<Rightarrow> bool" where
  "same_crystal c c' = (c'\<lparr>cr_terminal_state := None\<rparr> = c\<lparr>cr_terminal_state := None\<rparr>)"

lemma same_crystal_refl [simp]: "same_crystal c c"
  by (simp add: same_crystal_def)

lemma same_crystal_fields:
  assumes "same_crystal c c'"
  shows "cr_crystal_id c' = cr_crystal_id c" "cr_platform c' = cr_platform c" "cr_operation_id c' = cr_operation_id c"
    "cr_request_fingerprint c' = cr_request_fingerprint c" "cr_horizon_expires_at c' = cr_horizon_expires_at c"
  using assms by (cases c; cases c'; simp add: same_crystal_def)+

lemma protocol_step_crystal:
  assumes "protocol_step g cfg p q" "c \<in> set (pr_crystals p)"
  shows "\<exists>c' \<in> set (pr_crystals q). same_crystal c c'"
  using assms(1)
proof cases
  case (Closing e k)
  have "(if cr_crystal_id c = ce_crystal_id e then c\<lparr>cr_terminal_state := Some (closing_status k)\<rparr> else c) \<in> set (pr_crystals q)"
    using assms(2) Closing by (auto simp: set_update_where)
  then show ?thesis by (rule bexI [rotated]) (simp add: same_crystal_def)
qed (use assms(2) in \<open>auto intro!: bexI [of _ c]\<close>)

lemma protocol_steps_crystal:
  assumes "(protocol_step g cfg)\<^sup>*\<^sup>* p q" "c \<in> set (pr_crystals p)"
  shows "\<exists>c' \<in> set (pr_crystals q). same_crystal c c'"
  using assms(1)
proof (induction rule: rtranclp_induct)
  case base
  then show ?case using assms(2) by (auto intro!: bexI [of _ c])
next
  case (step q q')
  then obtain c1 where c1: "c1 \<in> set (pr_crystals q)" "same_crystal c c1" by blast
  from protocol_step_crystal [OF step.hyps(2) c1(1)] obtain c2 where "c2 \<in> set (pr_crystals q')" "same_crystal c1 c2" by blast
  with c1 show ?case by (auto simp: same_crystal_def)
qed

lemma spine_steps_protocol:
  assumes "spine_reachable h g cfg s0 s" "(spine_step h g cfg)\<^sup>*\<^sup>* s t"
  shows "spine_reachable h g cfg s0 t \<and> (protocol_step g cfg)\<^sup>*\<^sup>* (protocol_of (sp_committed s)) (protocol_of (sp_committed t))"
  using assms(2)
proof (induction rule: rtranclp_induct)
  case base
  then show ?case using assms(1) by simp
next
  case (step t u)
  have "spine_reachable h g cfg s0 u" using step by (auto simp: spine_reachable_def)
  with step spine_step_protocol [of h g cfg s0 t u] show ?case by auto
qed


lemma find_crystal_unique:
  assumes inv: "spine_inv h g cfg base d" and c: "c \<in> set (governance_crystals d)"
  shows "find_crystal_of (cr_platform c) (cr_operation_id c) d = Some c"
proof -
  have "map cr_operation_id cs = map ce_operation_id es" if "list_all2 paired cs es" for cs es
    using that by (induction rule: list_all2_induct) (auto simp: paired_def)
  then have d: "distinct (map cr_operation_id (governance_crystals d))" using spine_inv_parts(3,5) [OF inv] by simp
  show ?thesis
  proof (cases "find_crystal_of (cr_platform c) (cr_operation_id c) d")
    case None
    then show ?thesis using c by (auto simp: find_crystal_of_def row_where_None)
  next
    case (Some x)
    then have "x \<in> set (governance_crystals d)" "cr_operation_id x = cr_operation_id c"
      by (auto simp: find_crystal_of_def dest!: row_where_Some)
    from same_key [OF d this(1) c this(2)] Some show ?thesis by simp
  qed
qed

lemma crystal_persists:
  assumes "spine_reachable h g cfg s0 s" "(spine_step h g cfg)\<^sup>*\<^sup>* s t"
    and "find_crystal_of pf k (sp_committed s) = Some c"
  shows "\<exists>c'. find_crystal_of pf k (sp_committed t) = Some c' \<and> same_crystal c c'"
proof -
  have c: "c \<in> set (pr_crystals (protocol_of (sp_committed s)))" "cr_platform c = pf" "cr_operation_id c = k"
    using assms(3) by (auto simp: find_crystal_of_def dest!: row_where_Some)
  note t = spine_steps_protocol [OF assms(1,2)]
  from protocol_steps_crystal [OF conjunct2 [OF t] c(1)] obtain c'
    where c': "c' \<in> set (governance_crystals (sp_committed t))" "same_crystal c c'" by auto
  from find_crystal_unique [OF reachable_spine(3) [OF conjunct1 [OF t]] c'(1)] c' c(2,3) show ?thesis
    by (auto simp: same_crystal_fields)
qed

section \<open>Crystallizing\<close>

lemma wp_state_check:
  assumes "m s = (s, x)" "\<And>y. x = Inr y \<Longrightarrow> Q y s" "\<And>e. x = Inl e \<Longrightarrow> E e s"
  shows "wp m Q E s"
  using assms by (auto simp: wp_def split: sum.split)

definition spine_crystallize_operation ::
  "host \<Rightarrow> governor \<Rightarrow> spine_settings \<Rightarrow> string \<Rightarrow> crystallize_request \<Rightarrow> crystallize_result spine_handler" where
  "spine_crystallize_operation h g cfg uuid r =
     (if g = Finance then crystallize_operation h cfg uuid r
      else seqE (guard_platform cfg (cq_platform r) (cq_facets r)) (claim_crystallize_operation h g cfg uuid r))"

text \<open>A crystallization that answers has left the crystal it names, with the fingerprint of the request.\<close>

definition answered :: "host \<Rightarrow> governor \<Rightarrow> crystallize_request \<Rightarrow> crystallize_result \<Rightarrow> spine_db \<Rightarrow> bool" where
  "answered h g r z d =
     (\<exists>c st. find_crystal_of (cq_platform r) (cq_operation_id r) d = Some c \<and> z = (replayed r c)\<lparr>cz_status := st\<rparr>
        \<and> (g = Finance \<or> st = ''CRYSTALLIZED'' \<longrightarrow> cr_request_fingerprint c = canonical_fingerprint h (cq_platform r) (cq_operation_id r) (cq_facets r))
        \<and> (st = ''CRYSTALLIZED'' \<longrightarrow> cr_terminal_state c = None))"

lemma advanced_opens:
  assumes inv: "spine_inv h g cfg base (sp_db s)" and adv: "advanced h g (open_crystal g c e meta) s t" and "at_commit s"
    and step: "protocol_step g cfg (protocol_of (sp_db s)) (open_crystal g c e meta (protocol_of (sp_db s)))"
    and c: "c = crystal_from h uuid r pid m now d"
  shows "answered h g r (crystallized r c) (sp_committed t)"
proof -
  have "spine_inv h g cfg base (sp_committed t)"
    using spine_inv_step [OF inv, of "sp_committed t"] adv step by (auto simp: advanced_def)
  moreover have "c \<in> set (governance_crystals (sp_committed t))"
  proof -
    have "protocol_of (sp_committed t) = open_crystal g c e meta (protocol_of (sp_db s))" using adv by (simp add: advanced_def)
    from arg_cong [OF this, of pr_crystals] show ?thesis by simp
  qed
  ultimately have "find_crystal_of (cr_platform c) (cr_operation_id c) (sp_committed t) = Some c" by (rule find_crystal_unique)
  then show ?thesis
    by (auto simp: answered_def crystallized_def replayed_def c crystal_from_def seal_crystal_def Let_def)
qed

lemma wp_crystallize_new_answered:
  assumes "spine_inv h g cfg base (sp_db s)" "digest_ok h" "at_commit s"
  shows "wp (crystallize_new h g cfg uuid r pid) (\<lambda>z t. answered h g r z (sp_committed t)) (\<lambda>_ _. True) s"
  using spine_inv_parts [OF assms(1)] assms(2)
  by (intro wp_crystallize_new) (blast intro: advanced_opens [OF assms(1) _ assms(3)] opening_step [OF assms(1)])+

lemma wp_spine_crystallize_operation:
  assumes inv: "spine_inv h g cfg base (sp_db s)" "digest_ok h" "at_commit s"
  shows "wp (spine_crystallize_operation h g cfg uuid r) (\<lambda>z t. answered h g r z (sp_committed t)) (\<lambda>_ _. True) s"
proof -
  have c: "sp_db s = sp_committed s" using assms(3) by (simp add: at_commit_def)
  have new: "wp (crystallize_new h g cfg uuid r pid) (\<lambda>z t. answered h g r z (sp_committed t)) (\<lambda>_ _. True) t"
    if "same_tables s t" for t pid
    using inv that c by (intro wp_crystallize_new_answered [of _ _ _ base]) (simp_all add: same_tables_def at_commit_def)
  have old: "answered h g r (replayed r x) (sp_committed t)"
    if "same_tables s t" "find_crystal_of (cq_platform r) (cq_operation_id r) (sp_db t) = Some x"
      "g = Finance \<longrightarrow> cr_request_fingerprint x = canonical_fingerprint h (cq_platform r) (cq_operation_id r) (cq_facets r)" for x t
    using that c by (auto simp: answered_def replayed_def same_tables_def)
  show ?thesis
  proof (cases "g = Finance")
    case True
    have *: "wp (bindE (validate_platform_facets (cq_platform r) (cq_facets r)) (\<lambda>_. m)) Q (\<lambda>_ _. True) t"
      if "same_tables s t" "\<And>u. same_tables s u \<Longrightarrow> wp m Q (\<lambda>_ _. True) u" for m Q t
      using that by (intro wp_checked_first [OF keeps_platform_checks(2)]) (auto intro: st.trans)
    show ?thesis
      unfolding spine_crystallize_operation_def crystallize_operation_def if_P [OF True] seqE_def [of "validate_platform_facets _ _"]
      by (rule wp_checked_first [OF keeps_platform_checks(1)], rule *)
        (use new old True in \<open>auto simp: wp_simps split: option.split\<close>)
  next
    case False
    then show ?thesis
      unfolding spine_crystallize_operation_def if_not_P [OF False] seqE_def claim_crystallize_operation_def
      by (intro wp_checked_first [OF keeps_platform_checks(3)])
        (use new old False in \<open>auto simp: wp_simps split: option.split\<close>)
  qed
qed

lemma spine_crystallize_route_alt:
  "spine_crystallize_route h g cfg redis uuid r
     = unless_halted cfg redis (catchE (spine_session (spine_crystallize_operation h g cfg uuid r)) crystallize_except)"
  by (simp add: spine_crystallize_route_def spine_crystallize_operation_def crystallize_route_def claim_crystallize_route_def)

lemma route_answered:
  assumes "spine_reachable h g cfg s0 s" "spine_crystallize_route h g cfg redis uuid r s = (t, Inr z)"
  shows "answered h g r z (sp_committed t)"
proof -
  note rs = reachable_spine [OF assms(1)]
  have c: "s\<lparr>sp_db := sp_committed s\<rparr> = s" "sp_db s = sp_committed s" using rs(2) by (simp_all add: at_commit_def)
  have err: "wp (crystallize_except e) (\<lambda>_ _. False) (\<lambda>_ _. True) u" for e :: spine_exn and u :: spine
    by (cases e) (simp_all add: crystallize_except_def wp_simps)
  have "wp (spine_crystallize_route h g cfg redis uuid r) (\<lambda>z t. answered h g r z (sp_committed t)) (\<lambda>_ _. True) s"
    unfolding spine_crystallize_route_alt wp_unless_halted wp_catchE wp_spine_session c
    by (simp, intro impI, rule wp_conseq [OF wp_spine_crystallize_operation [OF rs(3) [folded c(2)] rs(1,2)]])
      (simp_all add: wp_conseq [OF err])
  from wpD_Inr [OF this assms(2)] show ?thesis .
qed

lemma replay_run:
  assumes "at_commit u" "admitted g cfg r p u" "\<not> writes_halted cfg redis u"
    and "find_crystal_of (cq_platform r) (cq_operation_id r) (sp_committed u) = Some c"
    and "g = Finance \<longrightarrow> cr_request_fingerprint c = canonical_fingerprint h (cq_platform r) (cq_operation_id r) (cq_facets r)"
  shows "\<exists>v. spine_crystallize_route h g cfg redis uuid r u = (v, Inr (replayed r c)) \<and> sp_committed v = sp_committed u"
proof -
  have c: "u\<lparr>sp_db := sp_committed u\<rparr> = u" "sp_db u = sp_committed u" using assms(1) by (simp_all add: at_commit_def)
  have "\<exists>v. spine_crystallize_operation h g cfg uuid r u = (v, Inr (replayed r c)) \<and> sp_committed v = sp_committed u"
    using assms(2,4,5) c(2)
    by (auto simp: spine_crystallize_operation_def crystallize_operation_def claim_crystallize_operation_def admitted_def
        bindE_def seqE_def modifyE_def ret_def getsE_def)
  then show ?thesis
    using assms(3)
    by (auto simp: spine_crystallize_route_alt unless_halted_def getsE_def catchE_def spine_session_def c(1))
qed



text \<open>C18: What was crystallized can be committed: after a crystallization answered CRYSTALLIZED, a commit that names the crystal
  with the facets of the request, in any later state where the crystal is still open and its horizon ahead, no mesh rule blocks
  its platform and writes are not halted, answers COMMITTED for the operation.
\<close>

theorem crystal_commits_with_its_facets:
  assumes "spine_reachable h g cfg s0 s" "spine_crystallize_route h g cfg redis uuid r s = (t, Inr z)" "cz_status z = ''CRYSTALLIZED''"
    and "(spine_step h g cfg)\<^sup>*\<^sup>* t u" "load_crystal (cz_crystal_id z) (sp_committed u) = Some (c, e)" "cr_terminal_state c = None"
    and "sp_clock u < cz_horizon_expires_at z" "mesh_block_reason (cq_platform r) (sp_committed u) = None"
    and "\<not> writes_halted cfg redis' u" "0 \<le> quantize_spine amount"
  shows "\<exists>v. commit_route h g cfg redis'
      \<lparr>cm_crystal_id = cz_crystal_id z, cm_facets = cq_facets r, cm_committed = amount, cm_outcome = outcome, cm_late_authority = late\<rparr> u
    = (v, Inr \<lparr>co_operation_id = cq_operation_id r, co_crystal_id = cz_crystal_id z, co_status = ''COMMITTED''\<rparr>)"
proof -
  let ?q = "\<lparr>cm_crystal_id = cz_crystal_id z, cm_facets = cq_facets r, cm_committed = amount, cm_outcome = outcome, cm_late_authority = late\<rparr>"
  have t: "spine_reachable h g cfg s0 t"
    using assms(1,2) by (auto simp: spine_reachable_def intro: rtranclp.rtrancl_into_rtrancl spine_step.crystallize)
  from route_answered [OF assms(1,2)] obtain c0 st where a:
    "find_crystal_of (cq_platform r) (cq_operation_id r) (sp_committed t) = Some c0" "z = (replayed r c0)\<lparr>cz_status := st\<rparr>"
    "st = ''CRYSTALLIZED'' \<longrightarrow> cr_request_fingerprint c0 = canonical_fingerprint h (cq_platform r) (cq_operation_id r) (cq_facets r)"
    unfolding answered_def by blast
  have c0: "find_crystal_of (cq_platform r) (cq_operation_id r) (sp_committed t) = Some c0" "cr_crystal_id c0 = cz_crystal_id z"
    "cr_horizon_expires_at c0 = cz_horizon_expires_at z"
    "cr_request_fingerprint c0 = canonical_fingerprint h (cq_platform r) (cq_operation_id r) (cq_facets r)"
    using a assms(3) by (simp_all add: replayed_def)
  have names: "cr_platform c0 = cq_platform r" "cr_operation_id c0 = cq_operation_id r"
    using c0(1) by (auto simp: find_crystal_of_def dest!: row_where_Some)
  from crystal_persists [OF t assms(4) c0(1)] obtain c' where c':
    "find_crystal_of (cq_platform r) (cq_operation_id r) (sp_committed u) = Some c'" "same_crystal c0 c'" by blast
  note u = reachable_spine [OF conjunct1 [OF spine_steps_protocol [OF t assms(4)]]]
  note fields = same_crystal_fields [OF c'(2)]
  have c: "c \<in> set (governance_crystals (sp_committed u))" "cr_crystal_id c = cz_crystal_id z"
    using load_crystal_pair [OF u(3) assms(5)] by simp_all
  have "c' \<in> set (governance_crystals (sp_committed u))" using c'(1) by (auto simp: find_crystal_of_def dest!: row_where_Some)
  moreover have "distinct (map cr_crystal_id (governance_crystals (sp_committed u)))"
    using spine_inv_parts(3,4) [OF u(3)] by (simp add: crystal_ids)
  ultimately have "c' = c" using same_key [of cr_crystal_id "governance_crystals (sp_committed u)" c' c] c fields c0(2) by simp
  have "may_commit h ?q (sp_clock u) c (sp_committed u)"
    using assms(6-8) fields c0 names \<open>c' = c\<close> by (simp add: may_commit_def verify_commit_fingerprint_def)
  then have "wp (commit_route h g cfg redis' ?q)
      (\<lambda>y _. y = \<lparr>co_operation_id = cq_operation_id r, co_crystal_id = cz_crystal_id z, co_status = ''COMMITTED''\<rparr>) (\<lambda>_ _. False) u"
    using assms(5,6,10) fields c0 names \<open>c' = c\<close>
    by (intro wp_commit_route [OF u(3,1,2) assms(9)]) (auto simp: committed_result_def)
  then show ?thesis by (auto simp: wp_def split: prod.splits sum.splits)
qed

lemma sample_open:
  "\<exists>c e. load_crystal ''crys_u1'' (sp_committed after_crystallize) = Some (c, e) \<and> cr_terminal_state c = None"
proof -
  have "wp (commit_route sample_host Finance default_spine_settings False sample_commit)
    (\<lambda>y _. co_status y = ''COMMITTED'' \<longrightarrow> (\<exists>c e. load_crystal (cm_crystal_id sample_commit) (sp_committed after_crystallize) = Some (c, e)
        \<and> cr_terminal_state c = None)) (\<lambda>_ _. True) after_crystallize"
    by (rule wp_commit_route [OF reachable_spine(3,1,2) [OF after_crystallize_reachable] sample_not_halted(1)])
      (auto simp: replay_reply_def may_commit_def)
  from wpD_Inr [OF this commit_run] show ?thesis by (simp add: sample_commit_def)
qed

theorem crystal_commits_with_its_facets_witness:
  "\<exists>v. commit_route sample_host Finance default_spine_settings False
      \<lparr>cm_crystal_id = ''crys_u1'', cm_facets = [(''side'', JStr ''buy'')], cm_committed = Dec 7 0, cm_outcome = ''late'', cm_late_authority = False\<rparr>
      after_crystallize
    = (v, Inr \<lparr>co_operation_id = ''op-1'', co_crystal_id = ''crys_u1'', co_status = ''COMMITTED''\<rparr>)"
proof -
  obtain c e where "load_crystal ''crys_u1'' (sp_committed after_crystallize) = Some (c, e)" "cr_terminal_state c = None"
    using sample_open by blast
  moreover have "mesh_block_reason ''trade'' (sp_committed after_crystallize) = None"
    using after_crystallize_facts by (simp add: mesh_block_reason_def)
  moreover have "sp_clock after_crystallize < 1000000" using after_crystallize_facts by simp
  ultimately show ?thesis
    using crystal_commits_with_its_facets [OF sample_start_reachable crystallize_run _ rtranclp.rtrancl_refl, of c e False "Dec 7 0" "''late''" False]
      sample_not_halted(1)
    by (simp add: sample_crystallize_def quantize_spine_def MONEY_DB_PRECISION_def)
qed

section \<open>Expired horizons\<close>

definition overdue :: "int \<Rightarrow> crystal_row list \<Rightarrow> nat" where
  "overdue now cs = count_where (\<lambda>c. cr_terminal_state c = None \<and> cr_horizon_expires_at c \<le> now) cs"

lemma horizon_due_open:
  assumes inv: "spine_inv h g cfg base d" and c: "c \<in> set (governance_crystals d)"
  shows "horizon_due now d c \<longleftrightarrow> cr_terminal_state c = None \<and> cr_horizon_expires_at c \<le> now"
proof -
  from paired_crystals [OF spine_inv_parts(3) [OF inv] c] obtain e where e: "e \<in> set (commit_escrow d)" "paired c e" by blast
  then have "row_where (\<lambda>x. ce_crystal_id x = cr_crystal_id c) (commit_escrow d) = Some e"
    using row_where_key_in [OF spine_inv_parts(4) [OF inv] e(1)] by (simp add: paired_def)
  then show ?thesis using e(2) by (auto simp: horizon_due_def paired_open open_status_def)
qed

lemma due_rows_length:
  assumes inv: "spine_inv h g cfg base d"
  shows "length (due_rows_of n now d) = min n (overdue now (governance_crystals d))"
proof -
  have "filter (horizon_due now d) (governance_crystals d)
      = filter (\<lambda>c. cr_terminal_state c = None \<and> cr_horizon_expires_at c \<le> now) (governance_crystals d)"
    by (rule filter_cong) (simp_all add: horizon_due_open [OF inv])
  then show ?thesis by (simp add: due_rows_of_def due_horizons_def overdue_def count_where_def)
qed

lemma overdue_close:
  assumes "distinct (map cr_crystal_id cs)" "c \<in> set cs" "cr_terminal_state c = None" "cr_horizon_expires_at c \<le> now"
  shows "overdue now (update_where (\<lambda>x. cr_crystal_id x = cr_crystal_id c) (\<lambda>x. x\<lparr>cr_terminal_state := Some st\<rparr>) cs) + 1 = overdue now cs"
  using assms
proof (induction cs)
  case (Cons x cs)
  show ?case
  proof (cases "x = c")
    case True
    then have "update_where (\<lambda>x. cr_crystal_id x = cr_crystal_id c) (\<lambda>x. x\<lparr>cr_terminal_state := Some st\<rparr>) cs = cs"
      using Cons.prems(1) by (intro update_where_none) (force simp: image_iff)
    then show ?thesis using True Cons.prems by (simp add: overdue_def)
  next
    case False
    with Cons show ?thesis by (auto simp: overdue_def)
  qed
qed simp

lemma overdue_swept:
  assumes "distinct (map cr_crystal_id (pr_crystals p))" "distinct (map (ce_crystal_id \<circ> snd) rows)"
    and "\<forall>(c, e) \<in> set rows. c \<in> set (pr_crystals p) \<and> cr_crystal_id c = ce_crystal_id e \<and> cr_terminal_state c = None \<and> cr_horizon_expires_at c \<le> now"
  shows "overdue now (pr_crystals (swept g cfg rows p)) + length rows = overdue now (pr_crystals p)"
  using assms
proof (induction rows arbitrary: p)
  case (Cons row rows)
  obtain c e where row: "row = (c, e)" by (cases row)
  let ?q = "close_crystal g cfg (sweep_closing c) e p"
  have c: "c \<in> set (pr_crystals p)" "cr_crystal_id c = ce_crystal_id e" "cr_terminal_state c = None" "cr_horizon_expires_at c \<le> now"
    using Cons.prems(3) by (simp_all add: row)
  have "distinct (map cr_crystal_id (pr_crystals ?q))" using Cons.prems(1) by (simp add: map_update_where)
  moreover have "\<forall>(c, e) \<in> set rows. c \<in> set (pr_crystals ?q) \<and> cr_crystal_id c = ce_crystal_id e \<and> cr_terminal_state c = None
      \<and> cr_horizon_expires_at c \<le> now"
    using Cons.prems(2,3) by (force simp: row set_update_where image_iff)
  moreover have "distinct (map (ce_crystal_id \<circ> snd) rows)" using Cons.prems(2) by (simp add: comp_def)
  ultimately have "overdue now (pr_crystals (swept g cfg rows ?q)) + length rows = overdue now (pr_crystals ?q)" by (intro Cons.IH)
  then show ?case using overdue_close [OF Cons.prems(1) c(1,3,4)] c(2) by (simp add: swept_def row)
qed (simp add: swept_def)

lemma due_rows_due:
  assumes inv: "spine_inv h g cfg base d" and "(c, e) \<in> set (due_rows_of n now d)"
  shows "c \<in> set (governance_crystals d)" "cr_crystal_id c = ce_crystal_id e" "cr_terminal_state c = None" "cr_horizon_expires_at c \<le> now"
proof -
  have "c \<in> set (governance_crystals d) \<and> horizon_due now d c"
    using assms(2) by (auto simp: due_rows_of_def due_horizons_def dest!: in_set_takeD)
  then show "c \<in> set (governance_crystals d)" "cr_terminal_state c = None" "cr_horizon_expires_at c \<le> now"
    using horizon_due_open [OF inv] by auto
  show "cr_crystal_id c = ce_crystal_id e"
    using due_rows_sweepable [OF inv, of n now] assms(2) by (auto simp: horizon_sweepable_def paired_def)
qed

text \<open>The turn of a leader that is not halted: a sweep of one hundred rows, then the audits.\<close>

lemma wp_leader_turn:
  assumes inv: "spine_inv h g cfg base (sp_committed s)" and dg: "digest_ok h" and c: "at_commit s"
    and "\<not> sweep_halted redis s"
    and Q: "\<And>t. at_commit t \<Longrightarrow> sp_clock t = sp_clock s \<Longrightarrow> extends_chain h g (sp_committed s) (sp_committed t)
      \<Longrightarrow> protocol_of (sp_committed t) = swept g cfg (due_rows_of 100 (sp_clock s) (sp_committed s)) (protocol_of (sp_committed s))
      \<Longrightarrow> audit_clean g (sp_committed t) \<or> diag_active (sp_reconciler_diagnostic t) \<and> (redis \<longrightarrow> sp_cluster_flag t) \<Longrightarrow> Q () t"
  shows "wp (spine_turn h g redis True) Q E s"
proof -
  have d: "sp_db s = sp_committed s" "s\<lparr>sp_db := sp_committed s\<rparr> = s" using c by (simp_all add: at_commit_def)
  have audits: "wp (run_audits g redis) (\<lambda>_ u. Q () (u\<lparr>sp_db := sp_committed u\<rparr>)) E' t"
    if "advanced h g (swept g cfg (due_rows_of 100 (sp_clock s) (sp_db s))) s t" for t E'
    using that
    by (intro wp_run_audits) (auto simp: advanced_def same_tables_def d at_commit_def intro!: Q)
  show ?thesis
    unfolding spine_turn_def
    using assms(4)
    by (simp add: wp_simps wp_spine_session d(2)) (intro impI wp_sweep_horizons [OF inv [folded d(1)] dg] audits, assumption)
qed

text \<open>C19: The sweep makes progress: a leader whose reconciler is not halted closes a hundred overdue crystals per turn, so after
  enough turns none of the crystals that were overdue at the start is left open.
\<close>

theorem sweeping_finishes:
  assumes "spine_reachable h g cfg s0 s"
    and "\<forall>i < k. \<not> sweep_halted redis (((\<lambda>s. fst (spine_turn h g redis True s)) ^^ i) s)"
  shows "overdue (sp_clock s) (governance_crystals (sp_committed (((\<lambda>s. fst (spine_turn h g redis True s)) ^^ k) s)))
    = overdue (sp_clock s) (governance_crystals (sp_committed s)) - 100 * k"
proof -
  let ?turn = "\<lambda>s. fst (spine_turn h g redis True s)"
  have "spine_reachable h g cfg s0 ((?turn ^^ k) s) \<and> sp_clock ((?turn ^^ k) s) = sp_clock s
    \<and> overdue (sp_clock s) (governance_crystals (sp_committed ((?turn ^^ k) s)))
      = overdue (sp_clock s) (governance_crystals (sp_committed s)) - 100 * k"
    using assms(2)
  proof (induction k)
    case 0
    then show ?case using assms(1) by simp
  next
    case (Suc k)
    let ?t = "(?turn ^^ k) s" let ?u = "(?turn ^^ Suc k) s"
    have t: "spine_reachable h g cfg s0 ?t" "sp_clock ?t = sp_clock s"
      "overdue (sp_clock s) (governance_crystals (sp_committed ?t)) = overdue (sp_clock s) (governance_crystals (sp_committed s)) - 100 * k"
      and go: "\<not> sweep_halted redis ?t" using Suc by auto
    note r = reachable_spine [OF t(1)]
    have "spine_step h g cfg ?t ?u" by (simp add: spine_step.turn [OF surjective_pairing])
    then have "spine_reachable h g cfg s0 ?u" using t(1) by (auto simp: spine_reachable_def)
    moreover
    let ?rows = "due_rows_of 100 (sp_clock ?t) (sp_committed ?t)"
    have ov: "overdue (sp_clock ?t) (pr_crystals (swept g cfg ?rows (protocol_of (sp_committed ?t)))) + length ?rows
      = overdue (sp_clock ?t) (pr_crystals (protocol_of (sp_committed ?t)))"
      using due_rows_due [OF r(3)] due_rows_sweepable [OF r(3)] spine_inv_parts(3,4) [OF r(3)]
      by (intro overdue_swept) (auto simp: horizon_sweepable_def crystal_ids)
    have "wp (spine_turn h g redis True) (\<lambda>_ u. sp_clock u = sp_clock s
        \<and> overdue (sp_clock s) (pr_crystals (protocol_of (sp_committed u))) = overdue (sp_clock s) (governance_crystals (sp_committed s)) - 100 * Suc k)
        (\<lambda>_ _. False) ?t"
      using ov due_rows_length [OF r(3), of 100 "sp_clock ?t"] t(2,3)
      by (intro wp_leader_turn [OF r(3,1,2) go]) auto
    ultimately show ?case by (auto simp: wp_def split: prod.splits sum.splits)
  qed
  then show ?thesis by simp
qed

definition past_horizon :: spine where
  "past_horizon = after_crystallize\<lparr>sp_clock := 2000000\<rparr>"

lemma past_horizon_reachable: "spine_reachable sample_host Finance default_spine_settings sample_spine past_horizon"
proof -
  have "spine_step sample_host Finance default_spine_settings after_crystallize past_horizon"
    unfolding past_horizon_def using after_crystallize_facts by (intro spine_step.tick) simp
  with after_crystallize_reachable show ?thesis by (auto simp: spine_reachable_def)
qed

lemma past_horizon_active: "\<not> sweep_halted redis past_horizon"
  using sample_not_halted(2) by (simp add: past_horizon_def sweep_halted_def spine_diagnostic_mode_def)

theorem sweeping_finishes_witness:
  "overdue 2000000 (governance_crystals (sp_committed past_horizon)) = 1
   \<and> overdue 2000000 (governance_crystals (sp_committed (fst (spine_turn sample_host Finance False True past_horizon)))) = 0"
proof -
  have "length (due_rows_of 100 2000000 (sp_committed past_horizon)) = 1"
    using after_crystallize_facts [THEN conjunct2, THEN conjunct1] by (auto simp: past_horizon_def map_eq_Cons_conv)
  then have "overdue 2000000 (governance_crystals (sp_committed past_horizon)) = 1"
    using due_rows_length [OF reachable_spine(3) [OF past_horizon_reachable], of 100 2000000] by simp
  moreover have "sp_clock past_horizon = 2000000" by (simp add: past_horizon_def)
  ultimately show ?thesis
    using sweeping_finishes [OF past_horizon_reachable, of 1 False] past_horizon_active by simp
qed

text \<open>A swept crystal ends in the state its risk tier asks for.\<close>

lemma swept_others:
  assumes "x \<in> set (pr_crystals p)" "\<forall>(c, e) \<in> set rows. ce_crystal_id e \<noteq> cr_crystal_id x"
  shows "x \<in> set (pr_crystals (swept g cfg rows p))"
  using assms
proof (induction rows arbitrary: p)
  case (Cons row rows)
  then have "x \<in> set (pr_crystals (close_crystal g cfg (sweep_closing (fst row)) (snd row) p))"
    by (force simp: set_update_where image_iff)
  from Cons.IH [OF this] Cons.prems(2) show ?case by (simp add: swept_def split_beta)
qed (simp add: swept_def)

lemma swept_crystal:
  assumes "(c, e) \<in> set rows" "distinct (map (ce_crystal_id \<circ> snd) rows)"
    and "\<forall>(c, e) \<in> set rows. c \<in> set (pr_crystals p) \<and> cr_crystal_id c = ce_crystal_id e"
  shows "c\<lparr>cr_terminal_state := Some (closing_status (sweep_closing c))\<rparr> \<in> set (pr_crystals (swept g cfg rows p))"
  using assms
proof (induction rows arbitrary: p)
  case (Cons row rows)
  obtain c0 e0 where row: "row = (c0, e0)" by (cases row)
  let ?q = "close_crystal g cfg (sweep_closing c0) e0 p"
  show ?case
  proof (cases "row = (c, e)")
    case True
    have "c\<lparr>cr_terminal_state := Some (closing_status (sweep_closing c))\<rparr> \<in> set (pr_crystals ?q)"
      using Cons.prems(3) True by (auto simp: row set_update_where)
    moreover have "\<forall>(c', e') \<in> set rows. ce_crystal_id e' \<noteq> cr_crystal_id (c\<lparr>cr_terminal_state := Some (closing_status (sweep_closing c))\<rparr>)"
      using Cons.prems(2,3) True by (force simp: row image_iff)
    ultimately show ?thesis using swept_others [of _ ?q rows g cfg] by (simp add: swept_def row)
  next
    case False
    have all: "\<forall>(c, e) \<in> set rows. c \<in> set (pr_crystals ?q) \<and> cr_crystal_id c = ce_crystal_id e"
      using Cons.prems(2,3) by (force simp: row set_update_where image_iff)
    have "(c, e) \<in> set rows" "distinct (map (ce_crystal_id \<circ> snd) rows)" using False Cons.prems(1,2) by (auto simp: comp_def)
    from Cons.IH [OF this all] show ?thesis by (simp add: swept_def row)
  qed
qed simp



end
