(* ===== verification/Guard_Contract.thy ===== *)
theory Guard_Contract
  imports Spine_Guard Crystal_Contract
begin

text \<open>
  What the guardrails of the insurance and cybersecurity spines do to the spine, and what they fail to do: a request
  is a run of the spine, the local circuit around Redis never opens, and the limit of operations in flight bounds
  nothing, because a refused request gives back a slot that it never took.
\<close>

section \<open>The guardrails do not touch the spine\<close>

definition same_spine :: "governed \<Rightarrow> governed \<Rightarrow> bool" where
  "same_spine s t = (gv_spine t = gv_spine s)"

interpretation gf: effect_frame same_spine
  by unfold_locales (auto simp: same_spine_def)

lemma spine_modify: "(\<And>s. gv_spine (f s) = gv_spine s) \<Longrightarrow> keeps same_spine (modifyE f)"
  by (simp add: gf.keeps_modifyE same_spine_def)

lemma spine_noted: "keeps same_spine (noted c)"
  unfolding noted_def by (rule spine_modify) simp

lemma spine_redis_frame: "keeps same_spine (spine_redis h c)"
  unfolding spine_redis_def by (intro gf.keeps_rules spine_modify) simp

lemmas spine_frames = gf.keeps_rules spine_noted spine_redis_frame spine_modify

lemma spine_breaker:
  "keeps same_spine (dependency_local_closed n)" "keeps same_spine (dependency_local_failure gs n)" "keeps same_spine (dependency_local_success n)"
  "keeps same_spine (get_dependency_breaker h gs)" "keeps same_spine (dependency_redis_failure h g gs n)"
  unfolding dependency_local_closed_def dependency_local_failure_def dependency_local_success_def get_dependency_breaker_def
    dependency_connect_def dependency_redis_failure_def
  by (auto intro!: spine_frames simp: dependency_note_failure_def dependency_open_def set_dependency_degraded_def)

lemma spine_fall_back: "keeps same_spine m \<Longrightarrow> keeps same_spine (dependency_fall_back m)"
  unfolding dependency_fall_back_def by (intro spine_frames) (simp_all add: set_dependency_degraded_def)

lemma spine_dependency:
  "keeps same_spine (dependency_assert_closed h g gs n)" "keeps same_spine (dependency_record_failure h g gs n)"
  "keeps same_spine (dependency_record_success h g gs n)"
  unfolding dependency_assert_closed_def dependency_record_failure_def dependency_record_success_def
  by (auto intro!: spine_frames spine_breaker spine_fall_back split: spine_exn.split)

lemma spine_local_check: "keeps same_spine (local_check_crystallize g gs a c k)"
  by (auto simp: keeps_def local_check_crystallize_def same_spine_def noted_def modifyE_def split: prod.split)

lemma spine_limiter:
  "keeps same_spine (local_release_crystallize a)" "keeps same_spine spine_mark_degraded" "keeps same_spine (get_spine_guardrails h gs)"
  unfolding local_release_crystallize_def spine_mark_degraded_def get_spine_guardrails_def by (auto intro!: spine_frames)

lemma spine_check: "keeps same_spine (check_crystallize h g cfg gs a c k)"
  unfolding check_crystallize_def assert_redis_closed_def redis_check_crystallize_def degraded_check_def
  by (auto intro!: spine_frames spine_dependency spine_local_check spine_limiter split: spine_exn.split)

lemma spine_release: "keeps same_spine (release_crystallize h g cfg a)"
  unfolding release_crystallize_def redis_release_def by (auto intro!: spine_frames spine_limiter)

lemma spine_run: "keeps same_spine m \<Longrightarrow> m s = (t, x) \<Longrightarrow> gv_spine t = gv_spine s"
  by (metis fst_conv keeps_def same_spine_def)

section \<open>A request is a run of the spine\<close>

lemma with_spine_run:
  "with_spine m s = (t, x) \<longleftrightarrow> m (gv_spine s) = (gv_spine t, x) \<and> t = s\<lparr>gv_spine := gv_spine t\<rparr>"
  by (cases t, cases s) (auto simp: with_spine_def split: prod.split)

lemma finallyE_run:
  assumes "finallyE m f s = (u, x)"
  obtains t y z where "m s = (t, y)" "f t = (u, z)" "\<And>v. x = Inr v \<Longrightarrow> y = Inr v"
  using assms by (auto simp: finallyE_def split: prod.splits sum.splits)

lemma except_run: "claim_except e s = (t, x) \<Longrightarrow> t = s \<and> (\<forall>v. x \<noteq> Inr v)" "crystallize_except e p = (q, y) \<Longrightarrow> q = p"
  by (cases e; auto simp: claim_except_def crystallize_except_def throw_def)+

lemma claim_route_run:
  assumes "\<not> writes_halted cfg redis s"
    and "spine_session (seqE (guard_platform cfg (cq_platform r) (cq_facets r)) (claim_crystallize_operation h g cfg uuid r)) s = (t, x)"
  shows "\<exists>y. claim_crystallize_route h g cfg redis uuid r s = (t, y) \<and> (\<forall>z. x = Inr z \<longrightarrow> y = Inr z)"
proof (cases x)
  case (Inl e)
  obtain q y where "crystallize_except e t = (q, y :: spine_exn + crystallize_result)" by fastforce
  with Inl assms except_run(2) [OF this] show ?thesis
    by (simp add: claim_crystallize_route_def unless_halted_def getsE_def catchE_def)
next
  case (Inr z)
  with assms show ?thesis by (simp add: claim_crystallize_route_def unless_halted_def getsE_def catchE_def)
qed

lemma seqE_run: "m s = (t, Inr u) \<Longrightarrow> seqE m n s = n t" "m s = (t, Inl e) \<Longrightarrow> seqE m n s = (t, Inl e)"
  by (simp_all add: seqE_def bindE_def)

lemma seqE_halted:
  "writes_halted cfg redis (gv_spine s)
    \<Longrightarrow> seqE (with_spine (unless_halted cfg redis (ret ()))) m s = (s, Inl (Http_Error 503 ''diagnostic mode: writes halted''))"
  "\<not> writes_halted cfg redis (gv_spine s) \<Longrightarrow> seqE (with_spine (unless_halted cfg redis (ret ()))) m s = m s"
  by (simp_all add: seqE_def bindE_def with_spine_def unless_halted_def getsE_def throw_def ret_def)

lemma guarded_body:
  assumes "keeps same_spine check" "catchE (seqE check (with_spine body)) claim_except s = (t, y)"
  shows "gv_spine t = gv_spine s \<and> (\<forall>v. y \<noteq> Inr v) \<or> (\<exists>w. body (gv_spine s) = (gv_spine t, w) \<and> (\<forall>v. y = Inr v \<longrightarrow> w = Inr v))"
proof -
  obtain s1 c where c: "check s = (s1, c)" by fastforce
  from spine_run [OF assms(1) this] have sp: "gv_spine s1 = gv_spine s" .
  show ?thesis
  proof (cases c)
    case (Inl e)
    with assms(2) c have "claim_except e s1 = (t, y)" by (simp add: catchE_def seqE_run)
    with sp show ?thesis by (auto dest: except_run(1))
  next
    case (Inr u)
    obtain q w where q: "body (gv_spine s) = (q, w)" by fastforce
    then have "with_spine body s1 = (s1\<lparr>gv_spine := q\<rparr>, w)" using sp by (simp add: with_spine_def)
    with assms(2) c Inr have "gv_spine t = q \<and> (\<forall>v. y = Inr v \<longrightarrow> w = Inr v)"
      by (cases w) (auto simp: catchE_def seqE_run dest: except_run(1))
    with q show ?thesis by blast
  qed
qed

text \<open>Either the guardrails refuse and the spine is untouched, or the spine does what its route does.\<close>

lemma guarded_route_cases:
  assumes "guarded_crystallize_route h g cfg gs repr redis uuid r s = (t, x)"
  shows "gv_spine t = gv_spine s \<and> (\<forall>z. x \<noteq> Inr z)
    \<or> (\<exists>y. claim_crystallize_route h g cfg redis uuid r (gv_spine s) = (gv_spine t, y) \<and> (\<forall>z. x = Inr z \<longrightarrow> y = Inr z))"
proof (cases "writes_halted cfg redis (gv_spine s)")
  case True
  with assms show ?thesis by (auto simp: guarded_crystallize_route_def seqE_halted)
next
  case False
  obtain s1 c where s1: "get_spine_guardrails h gs s = (s1, c)" by fastforce
  note run = assms [unfolded guarded_crystallize_route_def seqE_halted(2) [OF False]]
  from spine_run [OF spine_limiter(3) s1] have sp: "gv_spine s1 = gv_spine s" .
  show ?thesis
  proof (cases c)
    case (Inl e)
    with run s1 sp show ?thesis by (auto simp: seqE_run)
  next
    case (Inr u)
    with s1 have "seqE (get_spine_guardrails h gs) m s = m s1" for m :: "crystallize_result governed_handler"
      by (simp add: seqE_run)
    from run [unfolded this] show ?thesis
    proof (rule finallyE_run)
      fix s3 y z
      assume m: "catchE (seqE (check_crystallize h g cfg gs (cq_account_id r) (scope_id_of g repr r) (cq_operation_id r))
          (with_spine (spine_session (seqE (guard_platform cfg (cq_platform r) (cq_facets r)) (claim_crystallize_operation h g cfg uuid r)))))
          claim_except s1 = (s3, y)"
        "release_crystallize h g cfg (cq_account_id r) s3 = (t, z)" "\<And>v. x = Inr v \<Longrightarrow> y = Inr v"
      have "gv_spine t = gv_spine s3" using spine_run [OF spine_release m(2)] .
      with guarded_body [OF spine_check m(1)] m(3) sp show ?thesis by (auto dest!: claim_route_run [OF False])
    qed
  qed
qed

section \<open>Overlapping requests\<close>

text \<open>
  Requests overlap: each is asked, works on the spine and releases its slot in steps of its own. The list holds the
  accounts of the requests that were admitted and have not yet released. A refused request releases at once, as the
  \<open>finally\<close> of the route does.
\<close>

inductive guard_step :: "host \<Rightarrow> governor \<Rightarrow> spine_settings \<Rightarrow> settings \<Rightarrow> governed \<times> string list \<Rightarrow> governed \<times> string list \<Rightarrow> bool"
  for h g cfg gs where
  enter: "seqE (get_spine_guardrails h gs) (check_crystallize h g cfg gs a c k) s = (t, Inr ())
    \<Longrightarrow> guard_step h g cfg gs (s, running) (t, a # running)"
| refuse: "seqE (get_spine_guardrails h gs) (check_crystallize h g cfg gs a c k) s = (t, Inl e)
    \<Longrightarrow> release_crystallize h g cfg a t = (u, x) \<Longrightarrow> guard_step h g cfg gs (s, running) (u, running)"
| leave: "a \<in> set running \<Longrightarrow> release_crystallize h g cfg a s = (t, x) \<Longrightarrow> guard_step h g cfg gs (s, running) (t, remove1 a running)"
| work: "spine_step h g cfg (gv_spine s) p \<Longrightarrow> guard_step h g cfg gs (s, running) (s\<lparr>gv_spine := p\<rparr>, running)"
| wait: "gv_monotonic s \<le> m \<Longrightarrow> guard_step h g cfg gs (s, running) (s\<lparr>gv_monotonic := m\<rparr>, running)"

inductive_cases guard_stepE: "guard_step h g cfg gs (s, running) p"

text \<open>A process that has just started.\<close>

definition guard_start :: "governed \<Rightarrow> bool" where
  "guard_start s =
     (gv_limiter s = fresh_limiter (gv_monotonic s) \<and> gv_degraded s = None
      \<and> gv_breaker s = \<lparr>failures = (\<lambda>_. []), open_until = (\<lambda>_. None), breaker_degraded = None\<rparr>)"

lemma guard_step_spine:
  assumes "guard_step h g cfg gs (s, running) (t, running')"
  shows "gv_spine t = gv_spine s \<or> spine_step h g cfg (gv_spine s) (gv_spine t)"
proof -
  note ask = gf.keeps_seqE [OF spine_limiter(3) spine_check, THEN spine_run]
  from assms show ?thesis
    by (rule guard_stepE) (auto dest!: ask spine_run [OF spine_release])
qed

lemma guard_steps_spine:
  "(guard_step h g cfg gs)\<^sup>*\<^sup>* p q \<Longrightarrow> (spine_step h g cfg)\<^sup>*\<^sup>* (gv_spine (fst p)) (gv_spine (fst q))"
proof (induction rule: rtranclp_induct)
  case (step y z)
  then show ?case
    using guard_step_spine [of h g cfg gs "fst y" "snd y" "fst z" "snd z"] by (auto intro: rtranclp.rtrancl_into_rtrancl)
qed simp

lemma guardrails_connect_run: "\<exists>t. get_spine_guardrails h gs s = (t, Inr ())"
  by (auto simp: get_spine_guardrails_def getsE_def bindE_def modifyE_def ret_def catchE_def split: option.split prod.split sum.split)

lemma guarded_catch_run:
  assumes "catchE (seqE check (with_spine body)) claim_except s = (t, y)" "check s = (s2, c)"
  shows "t = (case c of Inl e \<Rightarrow> s2 | Inr _ \<Rightarrow> fst (with_spine body s2))"
proof (cases c)
  case (Inl e)
  with assms show ?thesis by (auto simp: catchE_def seqE_run dest: except_run(1))
next
  case (Inr u)
  obtain q w where "with_spine body s2 = (q, w)" by fastforce
  with assms Inr show ?thesis by (cases w) (auto simp: catchE_def seqE_run dest: except_run(1))
qed

lemma guarded_route_steps:
  assumes "guarded_crystallize_route h g cfg gs repr redis uuid r s = (t, x)" "g \<noteq> Finance"
  shows "(guard_step h g cfg gs)\<^sup>*\<^sup>* (s, running) (t, running)"
proof (cases "writes_halted cfg redis (gv_spine s)")
  case True
  with assms(1) have "t = s" by (simp add: guarded_crystallize_route_def seqE_halted)
  then show ?thesis by simp
next
  case False
  let ?body = "spine_session (seqE (guard_platform cfg (cq_platform r) (cq_facets r)) (claim_crystallize_operation h g cfg uuid r))"
  let ?a = "cq_account_id r" and ?c = "scope_id_of g repr r" and ?k = "cq_operation_id r"
  obtain s1 where s1: "get_spine_guardrails h gs s = (s1, Inr ())" using guardrails_connect_run by blast
  obtain s2 c where s2: "check_crystallize h g cfg gs ?a ?c ?k s1 = (s2, c)" by fastforce
  have ask: "seqE (get_spine_guardrails h gs) (check_crystallize h g cfg gs ?a ?c ?k) s = (s2, c)" using s1 s2 by (simp add: seqE_run)
  have "finallyE (catchE (seqE (check_crystallize h g cfg gs ?a ?c ?k) (with_spine ?body)) claim_except) (release_crystallize h g cfg ?a) s1 = (t, x)"
    using assms(1) s1 by (simp add: guarded_crystallize_route_def seqE_halted(2) [OF False] seqE_run)
  then obtain s3 y z where m: "catchE (seqE (check_crystallize h g cfg gs ?a ?c ?k) (with_spine ?body)) claim_except s1 = (s3, y)"
    "release_crystallize h g cfg ?a s3 = (t, z)" by (rule finallyE_run)
  note s3 = guarded_catch_run [OF m(1) s2]
  show ?thesis
  proof (cases c)
    case (Inl e)
    then show ?thesis using guard_step.refuse [OF ask [unfolded Inl]] m(2) s3 by auto
  next
    case (Inr u)
    obtain q w where q: "?body (gv_spine s) = (q, w)" by fastforce
    have "gv_spine s2 = gv_spine s" using ask gf.keeps_seqE [OF spine_limiter(3) spine_check, THEN spine_run] by blast
    with q have body: "s3 = s2\<lparr>gv_spine := q\<rparr>" and sp: "gv_spine s2 = gv_spine s" using s3 Inr by (simp_all add: with_spine_def)
    from claim_route_run [OF False q] obtain y' where "spine_crystallize_route h g cfg redis uuid r (gv_spine s2) = (q, y')"
      using assms(2) sp by (auto simp: spine_crystallize_route_def)
    then have "spine_step h g cfg (gv_spine s2) q" by (rule spine_step.crystallize)
    from guard_step.work [OF this, of gs "?a # running"] body
    have "guard_step h g cfg gs (s2, ?a # running) (s3, ?a # running)" by simp
    moreover have "guard_step h g cfg gs (s, running) (s2, ?a # running)" using guard_step.enter ask Inr by simp
    moreover have "guard_step h g cfg gs (s3, ?a # running) (t, running)" using guard_step.leave [OF _ m(2), of "?a # running"] by simp
    ultimately show ?thesis by (meson rtranclp.rtrancl_into_rtrancl rtranclp.rtrancl_refl)
  qed
qed

text \<open>A fresh process of the insurance spine, which cannot reach Redis, and the state after its first request.\<close>

definition sample_governed :: governed where
  "sample_governed =
     \<lparr>gv_spine = sample_spine, gv_limiter = fresh_limiter 0,
      gv_breaker = \<lparr>failures = (\<lambda>_. []), open_until = (\<lambda>_. None), breaker_degraded = None\<rparr>,
      gv_degraded = None, gv_counters = (\<lambda>_. 0), gv_monotonic = 0, gv_redis_log = []\<rparr>"

definition sample_guarded_run :: "governed \<times> (spine_exn + crystallize_result)" where
  "sample_guarded_run =
     guarded_crystallize_route sample_host Insurance default_spine_settings default_settings (\<lambda>_. []) False ''u1'' sample_crystallize sample_governed"

lemma sample_guard_start: "guard_start sample_governed"
  by (simp add: guard_start_def sample_governed_def)

text \<open>C24: a guarded request is a run of the spine. A crystallize request of the insurance or cybersecurity spine is a run of the
  protocol of overlapping requests that leaves no slot occupied by it, and on the tables it is a run of the spine: either the
  guardrails refused it and the spine is untouched, or the spine did what its route does from the session on, with the same answer.\<close>

theorem guarded_request_is_spine_run:
  assumes "guarded_crystallize_route h g cfg gs repr redis uuid r s = (t, x)" "g \<noteq> Finance"
  shows "(guard_step h g cfg gs)\<^sup>*\<^sup>* (s, running) (t, running) \<and> (spine_step h g cfg)\<^sup>*\<^sup>* (gv_spine s) (gv_spine t)
    \<and> (gv_spine t = gv_spine s \<and> (\<forall>z. x \<noteq> Inr z)
       \<or> (\<exists>y. claim_crystallize_route h g cfg redis uuid r (gv_spine s) = (gv_spine t, y) \<and> (\<forall>z. x = Inr z \<longrightarrow> y = Inr z)))"
  using guarded_route_steps [OF assms, of running] guard_steps_spine [of h g cfg gs "(s, running)" "(t, running)"] guarded_route_cases [OF assms(1)]
  by simp

theorem guarded_request_is_spine_run_witness:
  "(guard_step sample_host Insurance default_spine_settings default_settings)\<^sup>*\<^sup>* (sample_governed, []) (fst sample_guarded_run, [])
   \<and> (spine_step sample_host Insurance default_spine_settings)\<^sup>*\<^sup>* sample_spine (gv_spine (fst sample_guarded_run))"
proof -
  have run: "guarded_crystallize_route sample_host Insurance default_spine_settings default_settings (\<lambda>_. []) False ''u1'' sample_crystallize
      sample_governed = (fst sample_guarded_run, snd sample_guarded_run)" by (simp add: sample_guarded_run_def)
  have "gv_spine sample_governed = sample_spine" by (simp add: sample_governed_def)
  with guarded_request_is_spine_run [OF run, of "[]"] show ?thesis by simp
qed

section \<open>The circuit around Redis\<close>

definition same_circuit :: "governed \<Rightarrow> governed \<Rightarrow> bool" where
  "same_circuit s t =
     (failures (gv_breaker t) = failures (gv_breaker s) \<and> open_until (gv_breaker t) = open_until (gv_breaker s) \<and> gv_degraded t = gv_degraded s)"

interpretation bf: effect_frame same_circuit
  by unfold_locales (auto simp: same_circuit_def)

lemma circuit_modify: "(\<And>s. same_circuit s (f s)) \<Longrightarrow> keeps same_circuit (modifyE f)"
  by (rule bf.keeps_modifyE)

lemma circuit_noted: "keeps same_circuit (noted c)"
  unfolding noted_def by (rule circuit_modify) (simp add: same_circuit_def)

lemma circuit_redis: "keeps same_circuit (spine_redis h c)"
  unfolding spine_redis_def by (intro bf.keeps_rules circuit_modify) (simp add: same_circuit_def)

lemmas circuit_frames = bf.keeps_rules circuit_noted circuit_redis circuit_modify

lemma circuit_parts:
  "keeps same_circuit (dependency_local_closed n)" "keeps same_circuit (get_dependency_breaker h gs)" "keeps same_circuit (dependency_redis_failure h g gs n)"
  "keeps same_circuit (redis_release h g cfg a)" "keeps same_circuit (local_release_crystallize a)"
  unfolding dependency_local_closed_def get_dependency_breaker_def dependency_connect_def dependency_redis_failure_def redis_release_def local_release_crystallize_def
  by (auto intro!: circuit_frames simp: set_dependency_degraded_def same_circuit_def)

lemma circuit_local_check: "keeps same_circuit (local_check_crystallize g gs a c k)"
  by (auto simp: keeps_def local_check_crystallize_def same_circuit_def noted_def modifyE_def split: prod.split)

lemma circuit_checks:
  "keeps same_circuit (assert_redis_closed h g gs)" "keeps same_circuit (degraded_check g gs a c k)"
  "keeps same_circuit (redis_check_crystallize h g cfg gs a c k)"
  unfolding assert_redis_closed_def dependency_assert_closed_def dependency_fall_back_def degraded_check_def redis_check_crystallize_def
  by (auto intro!: circuit_frames circuit_parts circuit_local_check simp: set_dependency_degraded_def same_circuit_def split: spine_exn.split)

text \<open>At most one failure was recorded, none unless the guardrails are degraded, and the circuit is closed.\<close>

definition circuit_quiet :: "governed \<Rightarrow> bool" where
  "circuit_quiet s =
     (open_until (gv_breaker s) ''redis'' = None \<and> length (failures (gv_breaker s) ''redis'') \<le> 1
      \<and> (gv_degraded s \<noteq> Some True \<longrightarrow> failures (gv_breaker s) ''redis'' = []))"

lemma quiet_same: "same_circuit s t \<Longrightarrow> circuit_quiet s \<Longrightarrow> circuit_quiet t"
  by (simp add: same_circuit_def circuit_quiet_def)

lemma wp_quiet:
  assumes "keeps same_circuit m" "circuit_quiet s"
  shows "wp m (\<lambda>_ t. circuit_quiet t \<and> gv_degraded t = gv_degraded s) (\<lambda>_ t. circuit_quiet t \<and> gv_degraded t = gv_degraded s) s"
  by (rule wp_conseq [OF keeps_wp [OF assms(1)]]) (use quiet_same assms(2) in \<open>auto simp: same_circuit_def\<close>)

lemma wp_get_breaker_total: "wp (get_dependency_breaker h gs) (\<lambda>_ _. True) (\<lambda>_ _. False) s"
  unfolding get_dependency_breaker_def dependency_connect_def noted_def
  by (auto simp: wp_simps split: option.split intro!: wp_any)

lemma get_breaker_run: "\<exists>t b. get_dependency_breaker h gs s = (t, Inr b) \<and> same_circuit s t"
proof -
  obtain t x where t: "get_dependency_breaker h gs s = (t, x)" by fastforce
  then have "same_circuit s t" using circuit_parts(2) [of h gs] by (metis fst_conv keeps_def)
  with t wp_get_breaker_total [of h gs s] show ?thesis by (cases x) (auto simp: wp_def)
qed

lemma wp_bind_breaker:
  "get_dependency_breaker h gs s = (t, Inr b) \<Longrightarrow> wp (bindE (get_dependency_breaker h gs) f) Q E s = wp (f b) Q E t"
  by (simp add: wp_def bindE_def)

definition one_failure :: "governed \<Rightarrow> bool" where
  "one_failure s = (open_until (gv_breaker s) ''redis'' = None \<and> length (failures (gv_breaker s) ''redis'') \<le> 1)"

lemma wp_local_failure:
  assumes "2 \<le> circuit_breaker_failure_threshold gs" "circuit_quiet s" "gv_degraded s \<noteq> Some True"
  shows "wp (dependency_local_failure gs ''redis'') (\<lambda>_. one_failure) E s"
proof -
  have "length (failure_window gs (gv_monotonic s) []) \<le> 1"
    by (simp add: failure_window_def)
  then show ?thesis
    using assms by (auto simp: dependency_local_failure_def wp_simps dependency_note_failure_def circuit_quiet_def one_failure_def)
qed

lemma wp_record_failure:
  assumes "2 \<le> circuit_breaker_failure_threshold gs" "circuit_quiet s" "gv_degraded s \<noteq> Some True"
  shows "wp (dependency_record_failure h g gs ''redis'') (\<lambda>_. one_failure) E s"
proof -
  obtain t b where t: "get_dependency_breaker h gs s = (t, Inr b)" "same_circuit s t" using get_breaker_run by blast
  have q: "circuit_quiet u" "gv_degraded u \<noteq> Some True" if "same_circuit t u" for u
    using quiet_same [OF that quiet_same [OF t(2) assms(2)]] that t(2) assms(3) by (simp_all add: same_circuit_def)
  have fall: "wp (dependency_fall_back (dependency_local_failure gs ''redis'')) (\<lambda>_. one_failure) E u" if "same_circuit t u" for u
    unfolding dependency_fall_back_def noted_def wp_simps
    by (rule wp_local_failure [OF assms(1)]) (use q [OF that] in \<open>simp_all add: set_dependency_degraded_def circuit_quiet_def\<close>)
  have redis: "wp (dependency_redis_failure h g gs ''redis'') (\<lambda>_. one_failure)
      (\<lambda>_. wp (dependency_fall_back (dependency_local_failure gs ''redis'')) (\<lambda>_. one_failure) E) t"
    by (rule wp_conseq [OF keeps_wp [OF circuit_parts(3)]]) (use fall q(1) in \<open>auto simp: one_failure_def circuit_quiet_def\<close>)
  show ?thesis
    unfolding dependency_record_failure_def wp_bind_breaker [OF t(1)] wp_if wp_catchE
    using redis wp_local_failure [OF assms(1) q [OF bf.refl]] by simp
qed

lemma wp_record_success: "wp (dependency_record_success h g gs ''redis'') (\<lambda>_. circuit_quiet) E s"
proof -
  obtain t b where t: "get_dependency_breaker h gs s = (t, Inr b)" using get_breaker_run by blast
  let ?t = "t\<lparr>gv_breaker := (gv_breaker t)\<lparr>failures := (failures (gv_breaker t))(''redis'' := []),
      open_until := (open_until (gv_breaker t))(''redis'' := None)\<rparr>\<rparr>"
  have "circuit_quiet ?t" by (simp add: circuit_quiet_def)
  then have "wp (spine_redis h c) (\<lambda>_. circuit_quiet) (\<lambda>_. circuit_quiet) ?t" for c
    by (intro wp_conseq [OF wp_quiet [OF circuit_redis]]) auto
  with \<open>circuit_quiet ?t\<close> show ?thesis
    unfolding dependency_record_success_def wp_bind_breaker [OF t]
    by (simp add: dependency_local_success_def wp_simps)
qed

lemma wp_check_quiet:
  assumes "2 \<le> circuit_breaker_failure_threshold gs" "circuit_quiet s"
  shows "wp (check_crystallize h g cfg gs a c k) (\<lambda>_. circuit_quiet) (\<lambda>_. circuit_quiet) s"
proof -
  have degraded: "wp (degraded_check g gs a c k) (\<lambda>_. circuit_quiet) (\<lambda>_. circuit_quiet) u" if "circuit_quiet u" for u
    by (rule wp_conseq [OF wp_quiet [OF circuit_checks(2) that]]) auto
  have marked: "wp spine_mark_degraded (\<lambda>_. wp (degraded_check g gs a c k) (\<lambda>_. circuit_quiet) (\<lambda>_. circuit_quiet)) (\<lambda>_. circuit_quiet) u"
    if "one_failure u" for u
    using that unfolding spine_mark_degraded_def noted_def wp_simps
    by (auto intro!: degraded simp: one_failure_def circuit_quiet_def)
  have rest: "wp (if gv_degraded t = Some False
       then catchE (seqE (redis_check_crystallize h g cfg gs a c k) (dependency_record_success h g gs ''redis''))
         (\<lambda>e. if is_guard_refusal e then throw e
              else stepsE [dependency_record_failure h g gs ''redis'', spine_mark_degraded, degraded_check g gs a c k])
       else degraded_check g gs a c k) (\<lambda>_. circuit_quiet) (\<lambda>_. circuit_quiet) t" if "circuit_quiet t" for t
  proof (cases "gv_degraded t = Some False")
    case True
    with that show ?thesis
      unfolding wp_simps if_P [OF True]
      by (auto intro!: wp_conseq [OF wp_quiet [OF circuit_checks(3)]] wp_record_success wp_conseq [OF wp_record_failure [OF assms(1)]] marked)
  qed (simp add: degraded that)
  show ?thesis
    unfolding check_crystallize_def wp_seqE wp_getsE_ext
    by (rule wp_conseq [OF wp_quiet [OF circuit_checks(1) assms(2)]]) (rule rest, simp_all)
qed

lemma guardrails_quiet:
  assumes "get_spine_guardrails h gs s = (t, x)" "circuit_quiet s"
  shows "circuit_quiet t"
proof -
  have "wp (get_spine_guardrails h gs) (\<lambda>_. circuit_quiet) (\<lambda>_. circuit_quiet) s"
    using assms(2) unfolding get_spine_guardrails_def wp_simps
    by (auto split: option.split intro!: wp_conseq [OF wp_quiet [OF circuit_redis]] simp: circuit_quiet_def wp_simps)
  with assms(1) show ?thesis by (cases x) (auto simp: wp_def)
qed

lemma release_quiet:
  assumes "release_crystallize h g cfg a s = (t, x)" "circuit_quiet s"
  shows "circuit_quiet t"
proof -
  have marked: "wp spine_mark_degraded (\<lambda>_. wp (local_release_crystallize a) (\<lambda>_. circuit_quiet) (\<lambda>_. circuit_quiet)) (\<lambda>_. circuit_quiet) u"
    if "circuit_quiet u" for u
    using that by (auto simp: spine_mark_degraded_def noted_def local_release_crystallize_def wp_simps circuit_quiet_def)
  have "wp (release_crystallize h g cfg a) (\<lambda>_. circuit_quiet) (\<lambda>_. circuit_quiet) s"
    using assms(2) unfolding release_crystallize_def wp_simps
    by (auto intro!: wp_conseq [OF wp_quiet [OF circuit_parts(4)]] wp_conseq [OF wp_quiet [OF circuit_parts(5)]] marked)
  with assms(1) show ?thesis by (cases x) (auto simp: wp_def)
qed

lemma guard_step_quiet:
  assumes "2 \<le> circuit_breaker_failure_threshold gs" "guard_step h g cfg gs (s, running) (t, running')" "circuit_quiet s"
  shows "circuit_quiet t"
proof -
  have ask: "circuit_quiet v" if "seqE (get_spine_guardrails h gs) (check_crystallize h g cfg gs a c k) u = (v, x)" "circuit_quiet u" for a c k u v x
  proof -
    obtain w where w: "get_spine_guardrails h gs u = (w, Inr ())" using guardrails_connect_run by blast
    then have "check_crystallize h g cfg gs a c k w = (v, x)" using that(1) by (simp add: seqE_run)
    with wp_check_quiet [OF assms(1) guardrails_quiet [OF w that(2)], of h g cfg a c k] show ?thesis by (cases x) (auto simp: wp_def)
  qed
  from assms(2) show ?thesis
    by (rule guard_stepE) (use assms(3) in \<open>auto dest!: ask release_quiet simp: circuit_quiet_def\<close>)
qed

interpretation gq: invariant_system "\<lambda>(s, running). guard_start s \<and> 2 \<le> circuit_breaker_failure_threshold gs" "guard_step h g cfg gs"
  "\<lambda>(s, running). circuit_quiet s \<and> 2 \<le> circuit_breaker_failure_threshold gs" for h g cfg gs
  by unfold_locales (auto simp: guard_start_def circuit_quiet_def dest: guard_step_quiet)



section \<open>Slots\<close>

text \<open>A process that cannot reach Redis and whose limiter knows of at most one operation in the scope.\<close>

definition limiter_ready :: "settings \<Rightarrow> string \<Rightarrow> string \<Rightarrow> string \<Rightarrow> limiter \<Rightarrow> bool" where
  "limiter_ready gs a c k l =
     (0 \<le> inflight l a \<and> inflight l a \<le> fallback_max_user_inflight gs \<and> (trace_depth l c = [] \<or> trace_depth l c = [k])
      \<and> (initialized l \<longrightarrow> 0 \<le> tokens l))"

definition guard_ready :: "settings \<Rightarrow> string \<Rightarrow> string \<Rightarrow> string \<Rightarrow> governed \<Rightarrow> bool" where
  "guard_ready gs a c k s =
     (gv_degraded s \<noteq> Some False \<and> breaker_degraded (gv_breaker s) \<noteq> Some False \<and> open_until (gv_breaker s) ''redis'' = None
      \<and> limiter_ready gs a c k (gv_limiter s))"

text \<open>Settings under which the limits other than that of the slots can be satisfied at all.\<close>

definition limits_positive :: "settings \<Rightarrow> bool" where
  "limits_positive gs =
     (1 \<le> fallback_token_bucket_capacity gs \<and> 0 < fallback_global_tokens_per_second gs \<and> 1 \<le> fallback_rate_limit_per_minute gs
      \<and> 1 \<le> fallback_max_trace_depth gs \<and> 1 \<le> fallback_max_user_inflight gs)"

text \<open>Once a limiter had time to refill and a new minute began, only the slots decide.\<close>

lemma refilled:
  assumes "limits_positive gs" "initialized l \<longrightarrow> 0 \<le> tokens l"
    and "last_refill l + fallback_token_bucket_capacity gs / fallback_global_tokens_per_second gs \<le> tick"
  shows "tokens (refill_tokens gs tick (prime_bucket gs l)) = fallback_token_bucket_capacity gs"
proof -
  let ?C = "fallback_token_bucket_capacity gs" and ?r = "fallback_global_tokens_per_second gs"
  have pos: "0 < ?C" "0 < ?r" using assms(1) by (auto simp: limits_positive_def)
  then have "0 < ?C / ?r" by simp
  with assms(3) have later: "last_refill l < tick" by linarith
  have "?C / ?r * ?r \<le> (tick - last_refill l) * ?r"
    using assms(3) pos by (intro mult_right_mono) auto
  then have "?C \<le> (tick - last_refill l) * ?r" using pos by simp
  then show ?thesis
    using assms(2) pos later by (auto simp: refill_tokens_def prime_bucket_def Let_def min_def max_def)
qed

lemma slots_decide:
  assumes "limits_positive gs" "limiter_ready gs a c k l"
    and "last_refill l + fallback_token_bucket_capacity gs / fallback_global_tokens_per_second gs \<le> tick"
    and "\<forall>w n. rate_windows l a = Some (w, n) \<longrightarrow> w \<noteq> minute"
    and "account_limiter_check g gs minute tick a c k l = (l', counter, err)"
  shows "limiter_ready gs a c k l'" "inflight l a < fallback_max_user_inflight gs \<Longrightarrow> err = None \<and> inflight l' a = inflight l a + 1"
    "\<not> inflight l a < fallback_max_user_inflight gs \<Longrightarrow> err \<noteq> None \<and> inflight l' a = inflight l a"
proof -
  let ?l = "refill_tokens gs tick (prime_bucket gs l)"
  have same: "inflight ?l = inflight l" "trace_depth ?l = trace_depth l" "rate_windows ?l = rate_windows l" "initialized ?l"
    by (auto simp: refill_tokens_def prime_bucket_def Let_def)
  have full: "tokens ?l = fallback_token_bucket_capacity gs"
    using refilled [OF assms(1) _ assms(3)] assms(2) by (simp add: limiter_ready_def)
  have first: "rate_count ?l a minute = 1"
    using assms(4) same by (auto simp: rate_count_def split: option.split)
  have depth: "List.insert k (trace_depth l c) = [k]" using assms(2) by (auto simp: limiter_ready_def)
  note rest = assms(1,2,5) same full first depth
  show "limiter_ready gs a c k l'" "inflight l a < fallback_max_user_inflight gs \<Longrightarrow> err = None \<and> inflight l' a = inflight l a + 1"
    "\<not> inflight l a < fallback_max_user_inflight gs \<Longrightarrow> err \<noteq> None \<and> inflight l' a = inflight l a"
    using rest by (auto simp: account_limiter_check_def Let_def limits_positive_def limiter_ready_def split: if_splits)
qed

definition redis_down :: "host \<Rightarrow> bool" where
  "redis_down h = (\<forall>sent. redis_reply h sent PING = None)"

lemma wp_ping:
  assumes "redis_down h"
  shows "wp (spine_redis h PING) Q E s = E Redis_Error (s\<lparr>gv_redis_log := gv_redis_log s @ [PING]\<rparr>)"
  using assms by (simp add: spine_redis_def redis_down_def wp_simps)

lemma wp_local_check:
  "wp (local_check_crystallize g gs a c k) Q E s =
     (case account_limiter_check g gs (minute_of s) (gv_monotonic s) a c k (gv_limiter s) of
        (l, counter, err) \<Rightarrow>
          (case err of None \<Rightarrow> Q () | Some e \<Rightarrow> E e) (s\<lparr>gv_limiter := l, gv_counters := (gv_counters s)(counter := gv_counters s counter + 1)\<rparr>))"
  by (auto simp: local_check_crystallize_def wp_def noted_def modifyE_def split: prod.split option.split)

lemma wp_noted: "wp (noted c) Q E s = Q () (s\<lparr>gv_counters := (gv_counters s)(c := gv_counters s c + 1)\<rparr>)"
  by (simp add: noted_def wp_modifyE)

text \<open>What asking leaves alone while Redis is down.\<close>

definition calm :: "governed \<Rightarrow> governed \<Rightarrow> bool" where
  "calm s t =
     (gv_limiter t = gv_limiter s \<and> gv_monotonic t = gv_monotonic s \<and> gv_spine t = gv_spine s \<and> open_until (gv_breaker t) = open_until (gv_breaker s)
      \<and> gv_degraded t \<noteq> Some False \<and> breaker_degraded (gv_breaker t) \<noteq> Some False)"

lemma wp_guardrails_down:
  assumes "redis_down h" "guard_ready gs a c k s"
  shows "wp (get_spine_guardrails h gs) (\<lambda>_. calm s) (\<lambda>_ _. False) s"
  using assms(2) by (auto simp: get_spine_guardrails_def wp_simps wp_ping [OF assms(1)] calm_def guard_ready_def split: option.split)

lemma wp_breaker_down:
  assumes "redis_down h" "calm s t"
  shows "wp (get_dependency_breaker h gs) (\<lambda>b u. b \<and> calm s u) (\<lambda>_ _. False) t"
  using assms(2)
  by (auto simp: get_dependency_breaker_def dependency_connect_def set_dependency_degraded_def wp_simps wp_noted wp_ping [OF assms(1)] calm_def
      split: option.split)

lemma wp_closed_down:
  assumes "redis_down h" "calm s t" "open_until (gv_breaker s) ''redis'' = None" "0 \<le> gv_monotonic s"
  shows "wp (assert_redis_closed h g gs) (\<lambda>_. calm s) (\<lambda>_ _. False) t"
proof -
  have "wp (dependency_assert_closed h g gs ''redis'') (\<lambda>_. calm s) (\<lambda>_ _. False) t"
    unfolding dependency_assert_closed_def wp_bindE
    by (rule wp_conseq [OF wp_breaker_down [OF assms(1,2)]])
      (use assms(3,4) in \<open>auto simp: dependency_local_closed_def wp_simps calm_def\<close>)
  then show ?thesis using assms(2) unfolding assert_redis_closed_def wp_whenE wp_catchE by (auto elim!: wp_conseq)
qed

text \<open>Only the slots decide, and a decision keeps the process ready.\<close>

definition decided :: "settings \<Rightarrow> string \<Rightarrow> string \<Rightarrow> string \<Rightarrow> governed \<Rightarrow> bool \<Rightarrow> governed \<Rightarrow> bool" where
  "decided gs a c k s ok t =
     (guard_ready gs a c k t \<and> gv_degraded t \<noteq> Some False \<and> ok = (inflight (gv_limiter s) a < fallback_max_user_inflight gs)
      \<and> inflight (gv_limiter t) a = inflight (gv_limiter s) a + (if ok then 1 else 0))"

lemma wp_ask:
  assumes h: "redis_down h" "limits_positive gs" and s: "guard_ready gs a c k s" "0 \<le> gv_monotonic s"
    and "last_refill (gv_limiter s) + fallback_token_bucket_capacity gs / fallback_global_tokens_per_second gs \<le> gv_monotonic s"
    and "\<forall>w n. rate_windows (gv_limiter s) a = Some (w, n) \<longrightarrow> w \<noteq> minute_of s"
  shows "wp (seqE (get_spine_guardrails h gs) (check_crystallize h g cfg gs a c k))
    (\<lambda>_. decided gs a c k s True) (\<lambda>_. decided gs a c k s False) s"
proof -
  have closed: "open_until (gv_breaker s) ''redis'' = None" and l: "limiter_ready gs a c k (gv_limiter s)"
    using s(1) by (simp_all add: guard_ready_def)
  obtain l' counter err where check: "account_limiter_check g gs (minute_of s) (gv_monotonic s) a c k (gv_limiter s) = (l', counter, err)"
    by (metis prod_cases3)
  note by_slots = slots_decide [OF h(2) l assms(5,6) check]
  have degraded: "wp (degraded_check g gs a c k) (\<lambda>_. decided gs a c k s True) (\<lambda>_. decided gs a c k s False) t" if "calm s t" for t
    using that by_slots check closed
    by (cases "inflight (gv_limiter s) a < fallback_max_user_inflight gs")
      (auto simp: degraded_check_def wp_simps wp_noted wp_local_check calm_def minute_of_def decided_def guard_ready_def)
  have "wp (check_crystallize h g cfg gs a c k) (\<lambda>_. decided gs a c k s True) (\<lambda>_. decided gs a c k s False) t" if "calm s t" for t
    unfolding check_crystallize_def wp_seqE wp_getsE_ext
    by (rule wp_conseq [OF wp_closed_down [OF h(1) that closed s(2)]]) (auto simp: degraded calm_def)
  then show ?thesis
    unfolding wp_seqE by (auto intro: wp_conseq [OF wp_guardrails_down [OF h(1) s(1)]])
qed

lemma release_down:
  assumes "gv_degraded s \<noteq> Some False"
  shows "release_crystallize h g cfg a s = (s\<lparr>gv_limiter := limiter_release a (gv_limiter s)\<rparr>, Inr ())"
  using assms by (simp add: release_crystallize_def local_release_crystallize_def getsE_def modifyE_def)

text \<open>Time can pass until the limiter has refilled and a new minute has begun.\<close>

lemma wait_until_fresh:
  assumes "guard_ready gs a c k s"
  obtains t where "(guard_step h g cfg gs)\<^sup>*\<^sup>* (s, running) (t, running)" "guard_ready gs a c k t" "0 \<le> gv_monotonic t"
    "gv_limiter t = gv_limiter s"
    "last_refill (gv_limiter t) + fallback_token_bucket_capacity gs / fallback_global_tokens_per_second gs \<le> gv_monotonic t"
    "\<forall>w n. rate_windows (gv_limiter t) a = Some (w, n) \<longrightarrow> w \<noteq> minute_of t"
proof -
  define m where "m = Max {gv_monotonic s, 0, last_refill (gv_limiter s) + fallback_token_bucket_capacity gs / fallback_global_tokens_per_second gs}"
  define w where "w = (case rate_windows (gv_limiter s) a of None \<Rightarrow> 0 | Some (w, n) \<Rightarrow> w)"
  define now where "now = max (sp_clock (gv_spine s)) ((w + 1) * 60000000)"
  let ?u = "s\<lparr>gv_monotonic := m\<rparr>"
  let ?t = "?u\<lparr>gv_spine := (gv_spine ?u)\<lparr>sp_clock := now\<rparr>\<rparr>"
  have "guard_step h g cfg gs (s, running) (?u, running)" by (rule guard_step.wait) (simp add: m_def)
  moreover have "guard_step h g cfg gs (?u, running) (?t, running)"
    by (intro guard_step.work spine_step.tick) (simp add: now_def)
  ultimately have run: "(guard_step h g cfg gs)\<^sup>*\<^sup>* (s, running) (?t, running)" by (meson rtranclp.rtrancl_into_rtrancl rtranclp.rtrancl_refl)
  have "(w + 1) * 60000000 div 60000000 \<le> now div 60000000" by (rule zdiv_mono1) (simp_all add: now_def)
  then have "w < minute_of ?t" by (simp add: minute_of_def)
  then have "\<forall>v n. rate_windows (gv_limiter ?t) a = Some (v, n) \<longrightarrow> v \<noteq> minute_of ?t" by (auto simp: w_def)
  with run show ?thesis using assms by (intro that [of ?t]) (auto simp: guard_ready_def m_def)
qed

text \<open>One more request runs after at most one refusal.\<close>

lemma one_more:
  assumes h: "redis_down h" "limits_positive gs" and s: "guard_ready gs a c k s"
  shows "\<exists>t. (guard_step h g cfg gs)\<^sup>*\<^sup>* (s, running) (t, a # running) \<and> guard_ready gs a c k t"
proof -
  let ?step = "guard_step h g cfg gs" and ?cap = "fallback_max_user_inflight gs"
  have below: "\<exists>t. ?step\<^sup>*\<^sup>* (s, running) (t, a # running) \<and> guard_ready gs a c k t"
    if s: "guard_ready gs a c k s" "inflight (gv_limiter s) a < ?cap" for s
  proof -
    from wait_until_fresh [OF s(1), of h g cfg running] obtain t where t: "?step\<^sup>*\<^sup>* (s, running) (t, running)" "guard_ready gs a c k t"
      "gv_limiter t = gv_limiter s" "wp (seqE (get_spine_guardrails h gs) (check_crystallize h g cfg gs a c k))
        (\<lambda>_. decided gs a c k t True) (\<lambda>_. decided gs a c k t False) t"
      using wp_ask [OF h] by metis
    obtain u x where u: "seqE (get_spine_guardrails h gs) (check_crystallize h g cfg gs a c k) t = (u, x)" by fastforce
    with t(3,4) s(2) have "x = Inr ()" "guard_ready gs a c k u" by (auto simp: wp_def decided_def split: sum.splits)
    with t(1) u show ?thesis by (blast intro: rtranclp.rtrancl_into_rtrancl guard_step.enter)
  qed
  show ?thesis
  proof (cases "inflight (gv_limiter s) a < ?cap")
    case False
    from wait_until_fresh [OF s, of h g cfg running] obtain t where t: "?step\<^sup>*\<^sup>* (s, running) (t, running)"
      "gv_limiter t = gv_limiter s" "wp (seqE (get_spine_guardrails h gs) (check_crystallize h g cfg gs a c k))
        (\<lambda>_. decided gs a c k t True) (\<lambda>_. decided gs a c k t False) t"
      using wp_ask [OF h] by metis
    obtain u x where u: "seqE (get_spine_guardrails h gs) (check_crystallize h g cfg gs a c k) t = (u, x)" by fastforce
    with t(2,3) False obtain e where x: "x = Inl e" "decided gs a c k t False u" by (auto simp: wp_def decided_def split: sum.splits)
    let ?v = "u\<lparr>gv_limiter := limiter_release a (gv_limiter u)\<rparr>"
    have "release_crystallize h g cfg a u = (?v, Inr ())" using x(2) by (intro release_down) (simp add: decided_def)
    with u x(1) t(1) have run: "?step\<^sup>*\<^sup>* (s, running) (?v, running)" by (blast intro: rtranclp.rtrancl_into_rtrancl guard_step.refuse)
    have "guard_ready gs a c k ?v" "inflight (gv_limiter ?v) a < ?cap"
      using x(2) s False h(2) t(2) by (auto simp: decided_def guard_ready_def limiter_ready_def limiter_release_def limits_positive_def)
    from below [OF this] run show ?thesis by (meson rtranclp_trans)
  qed (use below s in blast)
qed

text \<open>C26: the limit on operations in flight bounds nothing. While Redis is down and under any positive limits, requests of one account can
  overlap in any number, although the counter of the limiter never exceeds its maximum: the route releases a slot also for a
  request that was refused one.\<close>

theorem inflight_limit_bounds_nothing:
  assumes "guard_start s" "redis_down h" "limits_positive gs"
  shows "\<exists>t. (guard_step h g cfg gs)\<^sup>*\<^sup>* (s, []) (t, replicate n a) \<and> inflight (gv_limiter t) a \<le> fallback_max_user_inflight gs"
proof -
  have "guard_ready gs a c k s" for c k
    using assms(1,3) by (auto simp: guard_start_def guard_ready_def limiter_ready_def fresh_limiter_def limits_positive_def)
  then have "\<exists>t. (guard_step h g cfg gs)\<^sup>*\<^sup>* (s, []) (t, replicate n a) \<and> guard_ready gs a [] [] t"
  proof (induction n)
    case (Suc n)
    then obtain t where t: "(guard_step h g cfg gs)\<^sup>*\<^sup>* (s, []) (t, replicate n a)" "guard_ready gs a [] [] t" by blast
    from one_more [OF assms(2,3) t(2), of g cfg "replicate n a"] t(1) show ?case by (auto intro: rtranclp_trans)
  qed auto
  then show ?thesis by (auto simp: guard_ready_def limiter_ready_def)
qed

theorem inflight_limit_bounds_nothing_witness:
  "\<exists>t. (guard_step sample_host Insurance default_spine_settings default_settings)\<^sup>*\<^sup>* (sample_governed, []) (t, replicate 7 ''desk'')
     \<and> inflight (gv_limiter t) ''desk'' \<le> 5"
proof -
  have "redis_down sample_host" "limits_positive default_settings" "fallback_max_user_inflight default_settings = 5"
    by (simp_all add: redis_down_def sample_host_def limits_positive_def default_settings_def)
  then show ?thesis using inflight_limit_bounds_nothing [OF sample_guard_start, of sample_host default_settings Insurance default_spine_settings 7 "''desk''"] by simp
qed

end
