(* ===== verification/Platform_Sdk.thy ===== *)
theory Platform_Sdk
  imports Guard_Contract Gateway
begin

text \<open>
  \<^verbatim>\<open>platforms/common\<close> of the insurance and cybersecurity governors: the adapter through which a platform talks to its
  spine (\<^verbatim>\<open>spine_adapter.py\<close>) or to its own store when the spine is switched off, and the govern path of every platform
  (\<^verbatim>\<open>platform_sdk.py\<close>). The two copies differ in names only. The spine is the guarded process of \<open>Spine_Guard\<close>; a call over HTTP may lose its request or
  its answer. The platform's token is accepted by the spine.
\<close>

section \<open>State\<close>

record platform_event =
  pe_platform :: string
  pe_operation_id :: string
  pe_event_type :: string
  pe_payload :: jobject

datatype payment_status = PENDING | SUBMITTED | COMPLETED | FAILED | BLOCKED

record payment =
  py_payment_id :: string
  py_claim_id :: string
  py_idempotency_key :: string
  py_amount :: decimal
  py_currency :: string
  py_payee_id :: string
  py_status :: payment_status
  py_rail :: string
  py_reference :: "string option"
  py_crystal_id :: "string option"
  py_external_ref :: "string option"

text \<open>
  A desk: the process of a platform with the spine it calls. \<open>dk_payments\<close> are the rows of the payment store, and
  \<open>dk_rail\<close> what was handed to the banking rail, in order.
\<close>

record desk =
  dk_spine :: governed
  dk_crystals :: "crystal_row list"
  dk_events :: "platform_event list"
  dk_payments :: "payment list"
  dk_rail :: "payment list"

datatype platform_exn =
    Surprise_Blocked string
  | Horizon_Stranded string
  | Http_Status int
  | Transport_Error
  | Value_Error string
  | Http_Exception int string
  | Store_Error

type_synonym 'a desk_handler = "(desk, platform_exn, 'a) exec"

text \<open>What a process of a governor runs with.\<close>

record venue =
  vn_governor :: governor
  vn_host :: host
  vn_settings :: spine_settings
  vn_limits :: settings
  vn_repr :: "json \<Rightarrow> string"
  vn_spine_enabled :: bool

text \<open>The two identifiers \<open>uuid4\<close> makes during a request, and what becomes of its calls.\<close>

record calls =
  cl_spine_uuid :: string
  cl_local_uuid :: string
  cl_redis :: bool
  cl_crystallize :: delivery
  cl_commit :: delivery

definition desk_clock :: "desk \<Rightarrow> int" where
  "desk_clock s = sp_clock (gv_spine (dk_spine s))"

section \<open>The adapter\<close>

definition on_governed :: "'a governed_handler \<Rightarrow> desk \<Rightarrow> desk \<times> (spine_exn + 'a)" where
  "on_governed m s = (case m (dk_spine s) of (t, x) \<Rightarrow> (s\<lparr>dk_spine := t\<rparr>, x))"

text \<open>What the client of a served request sees: the status and the detail of an error.\<close>

definition http_reply :: "spine_exn \<Rightarrow> int \<times> string" where
  "http_reply e = (case e of Http_Error code detail \<Rightarrow> (code, detail) | _ \<Rightarrow> (500, ''Internal Server Error''))"

definition call_spine :: "delivery \<Rightarrow> 'a governed_handler \<Rightarrow> (int \<times> string \<Rightarrow> platform_exn) \<Rightarrow> 'a desk_handler" where
  "call_spine d m refused s =
     (case d of
        Request_Lost \<Rightarrow> (s, Inl Transport_Error)
      | Answer_Lost \<Rightarrow> (fst (on_governed m s), Inl Transport_Error)
      | Answered \<Rightarrow> (case on_governed m s of (t, Inl e) \<Rightarrow> (t, Inl (refused (http_reply e))) | (t, Inr x) \<Rightarrow> (t, Inr x)))"

definition save_crystal :: "crystal_row \<Rightarrow> desk \<Rightarrow> desk" where
  "save_crystal c s = s\<lparr>dk_crystals := filter (\<lambda>x. cr_crystal_id x \<noteq> cr_crystal_id c) (dk_crystals s) @ [c]\<rparr>"

definition append_platform_event :: "string \<Rightarrow> string \<Rightarrow> string \<Rightarrow> jobject \<Rightarrow> desk \<Rightarrow> desk" where
  "append_platform_event platform operation_id event_type payload s =
     s\<lparr>dk_events := dk_events s @
         [\<lparr>pe_platform = platform, pe_operation_id = operation_id, pe_event_type = event_type, pe_payload = payload\<rparr>]\<rparr>"

definition seal_local :: "venue \<Rightarrow> calls \<Rightarrow> int \<Rightarrow> crystallize_request \<Rightarrow> crystal_row" where
  "seal_local v cl now r =
     seal_crystal (vn_host v) (cl_local_uuid cl) now (cq_platform r) (cq_operation_id r) (cq_risk_tier r) (cq_facets r)
       None (cq_parent_crystal_id r) None None"

definition http_crystallize :: "venue \<Rightarrow> calls \<Rightarrow> crystallize_request \<Rightarrow> crystal_row desk_handler" where
  "http_crystallize v cl r =
     bindE (call_spine (cl_crystallize cl)
              (guarded_crystallize_route (vn_host v) (vn_governor v) (vn_settings v) (vn_limits v) (vn_repr v) (cl_redis cl) (cl_spine_uuid cl) r)
              (\<lambda>(code, _). Http_Status code)) (\<lambda>z.
       getsE desk_clock (\<lambda>now.
         ret ((seal_local v cl now r)\<lparr>cr_crystal_id := cz_crystal_id z, cr_horizon_expires_at := cz_horizon_expires_at z\<rparr>)))"

definition adapter_crystallize :: "venue \<Rightarrow> calls \<Rightarrow> crystallize_request \<Rightarrow> crystal_row desk_handler" where
  "adapter_crystallize v cl r =
     (if vn_spine_enabled v then http_crystallize v cl r
      else getsE desk_clock (\<lambda>now.
        let c = seal_local v cl now r
        in seqE (stepsE
             [modifyE (save_crystal c),
              modifyE (append_platform_event (cq_platform r) (cq_operation_id r) ''CRYSTAL_CREATED''
                [(''crystal_id'', JStr (cr_crystal_id c)), (''facets'', JObj (cq_facets r))])])
             (ret c)))"

text \<open>\<open>needle in haystack\<close> for strings.\<close>

fun occurs_in :: "string \<Rightarrow> string \<Rightarrow> bool" where
  "occurs_in needle [] = (needle = [])"
| "occurs_in needle (c # cs) = (startswith (c # cs) needle \<or> occurs_in needle cs)"

definition commit_refused :: "int \<times> string \<Rightarrow> platform_exn" where
  "commit_refused = (\<lambda>(code, detail).
     if code = 409 then (if occurs_in ''horizon'' (lower detail) then Horizon_Stranded detail else Surprise_Blocked detail)
     else Http_Status code)"

text \<open>\<open>_http_commit\<close>; \<open>late_authority\<close> is false for a commit without metadata.\<close>

definition http_commit :: "venue \<Rightarrow> calls \<Rightarrow> commit_request \<Rightarrow> unit desk_handler" where
  "http_commit v cl q =
     seqE (call_spine (cl_commit cl) (with_spine (commit_route (vn_host v) (vn_governor v) (vn_settings v) (cl_redis cl) q)) commit_refused)
       (ret ())"

definition local_commit :: "venue \<Rightarrow> string \<Rightarrow> string \<Rightarrow> commit_request \<Rightarrow> unit desk_handler" where
  "local_commit v platform operation_id q =
     getsE (\<lambda>s. (row_where (\<lambda>c. cr_crystal_id c = cm_crystal_id q) (dk_crystals s), desk_clock s)) (\<lambda>(row, now).
       case row of
         None \<Rightarrow> throw (Surprise_Blocked (''unknown crystal: '' @ cm_crystal_id q))
       | Some c \<Rightarrow>
           if \<not> verify_commit_fingerprint (vn_host v) c (cm_facets q) then throw (Surprise_Blocked ''fingerprint mismatch'')
           else if is_horizon_expired now c \<and> \<not> cm_late_authority q \<and> should_strand_on_expiry (cr_risk_tier c)
           then throw (Horizon_Stranded ''horizon expired'')
           else modifyE (append_platform_event platform operation_id ''COMMITTED''
                  [(''crystal_id'', JStr (cm_crystal_id q)), (''outcome'', JStr (cm_outcome q)), (''facets'', JObj (cm_facets q))]))"

definition adapter_commit :: "venue \<Rightarrow> calls \<Rightarrow> string \<Rightarrow> string \<Rightarrow> commit_request \<Rightarrow> unit desk_handler" where
  "adapter_commit v cl platform operation_id q =
     (if vn_spine_enabled v then http_commit v cl q else local_commit v platform operation_id q)"

section \<open>The govern path\<close>

record platform_manifest =
  mf_name :: string
  mf_default_policy_id :: string
  mf_default_risk_tier :: string
  mf_required_facet_keys :: "string list"
  mf_commit_decisions :: "string list"

definition missing_facets :: "platform_manifest \<Rightarrow> jobject \<Rightarrow> string list" where
  "missing_facets m facets = filter (\<lambda>key. map_of facets key = None) (mf_required_facet_keys m)"

definition validate_manifest_facets :: "platform_manifest \<Rightarrow> jobject \<Rightarrow> unit desk_handler" where
  "validate_manifest_facets m facets =
     (if missing_facets m facets \<noteq> [] then throw (Value_Error (''missing required facets: '' @ join '', '' (missing_facets m facets))) else ret ())"

text \<open>The operation a platform wants governed.\<close>

record governed_operation =
  go_operation_id :: string
  go_facets :: jobject
  go_decision :: string
  go_reserve :: decimal
  go_account_id :: string
  go_policy_id :: "string option"
  go_outcome :: "string option"

definition should_commit :: "platform_manifest \<Rightarrow> governed_operation \<Rightarrow> bool" where
  "should_commit m p = (go_decision p \<in> set (mf_commit_decisions m))"

definition governed_reserve :: "platform_manifest \<Rightarrow> governed_operation \<Rightarrow> decimal" where
  "governed_reserve m p = (if should_commit m p then go_reserve p else Dec 0 0)"

definition operation_request :: "platform_manifest \<Rightarrow> governed_operation \<Rightarrow> crystallize_request" where
  "operation_request m p =
     \<lparr>cq_platform = mf_name m, cq_operation_id = go_operation_id p, cq_account_id = go_account_id p,
      cq_risk_tier = mf_default_risk_tier m, cq_facets = go_facets p,
      cq_policy_id = Some (str_or (go_policy_id p) (mf_default_policy_id m)), cq_reserved = governed_reserve m p, cq_parent_crystal_id = None\<rparr>"

definition operation_commit :: "platform_manifest \<Rightarrow> governed_operation \<Rightarrow> string \<Rightarrow> commit_request" where
  "operation_commit m p crystal_id =
     \<lparr>cm_crystal_id = crystal_id, cm_facets = go_facets p, cm_committed = governed_reserve m p,
      cm_outcome = str_or (go_outcome p) (lower (go_decision p)), cm_late_authority = False\<rparr>"

text \<open>Every exception of the adapter is logged and answered by \<open>None\<close>.\<close>

definition govern_operation :: "venue \<Rightarrow> calls \<Rightarrow> platform_manifest \<Rightarrow> governed_operation \<Rightarrow> string option desk_handler" where
  "govern_operation v cl m p =
     seqE (validate_manifest_facets m (go_facets p))
       (catchE
         (bindE (adapter_crystallize v cl (operation_request m p)) (\<lambda>crystal.
            seqE (whenE (should_commit m p)
                   (adapter_commit v cl (mf_name m) (go_operation_id p) (operation_commit m p (cr_crystal_id crystal))))
              (ret (Some (cr_crystal_id crystal)))))
         (\<lambda>_. ret None))"

end
