(* ===== verification/Claim_Gate.thy ===== *)
theory Claim_Gate
  imports Platform_Sdk
begin

text \<open>
  \<^verbatim>\<open>insurance-governor/platforms/claim_gate\<close>: the payout gate of the insurance governor. A claim is scored for fraud
  (\<^verbatim>\<open>siu_workflow.py\<close>), judged by the rules of its policy (\<^verbatim>\<open>policy_rules.py\<close>, \<^verbatim>\<open>payout_gate.py\<close>), governed by the spine, and
  paid over the banking rail (\<^verbatim>\<open>payment_rail.py\<close>, \<^verbatim>\<open>bank_rail.py\<close>) under an idempotency key (\<^verbatim>\<open>payment_store.py\<close>). Dates count
  days, scores are rationals, and \<open>number\<close> is the JSON value of a score, which the model's JSON has no constructor for.
  Amounts are finite decimals: a text that is none makes the request fail before anything happens.
\<close>

section \<open>Decimals\<close>

definition dec_minus :: "decimal \<Rightarrow> decimal \<Rightarrow> decimal" where
  "dec_minus a b = (let m = min (expo a) (expo b) in Dec (scaled m a - scaled m b) m)"

abbreviation dec_zero :: decimal where
  "dec_zero \<equiv> Dec 0 0"

text \<open>Python's \<open>str\<close> of a decimal.\<close>

definition dec_str :: "decimal \<Rightarrow> string" where
  "dec_str d =
     (let digits = nat_str (nat \<bar>coeff d\<bar>); e = expo d; left = int (length digits) + e;
          sign = (if coeff d < 0 then ''-'' else [])
      in sign @
         (if 0 < e \<or> left - 1 < - 6
          then take 1 digits @ (if 1 < length digits then CHR ''.'' # drop 1 digits else [])
                 @ ''E'' @ (if 0 \<le> left - 1 then ''+'' else []) @ int_str (left - 1)
          else if e = 0 then digits
          else if 0 < left then take (nat left) digits @ CHR ''.'' # drop (nat left) digits
          else ''0.'' @ replicate (nat (- left)) CHR ''0'' @ digits))"

section \<open>SIU\<close>

datatype siu_state = CLEARED | REFERRED | SIU_BLOCKED | UNDER_REVIEW

definition FRAUD_SIGNAL_WEIGHTS :: "(string \<times> rat) list" where
  "FRAUD_SIGNAL_WEIGHTS =
     [(''duplicate_claim'', 35 / 100), (''inconsistent_statement'', 25 / 100), (''staged_loss_pattern'', 40 / 100),
      (''medical_provider_alert'', 30 / 100), (''geographic_anomaly'', 20 / 100), (''siu_referral'', 1),
      (''prior_fraud_conviction'', 50 / 100), (''late_reporting'', 15 / 100)]"

record siu_referral =
  sr_referral_id :: string
  sr_claim_id :: string
  sr_state :: siu_state
  sr_fraud_score :: rat
  sr_signals :: "string list"

definition signal_weight :: "string \<Rightarrow> rat" where
  "signal_weight s = (case map_of FRAUD_SIGNAL_WEIGHTS s of None \<Rightarrow> 10 / 100 | Some w \<Rightarrow> w)"

definition score_fraud_signals :: "string list \<Rightarrow> rat" where
  "score_fraud_signals signals = (if signals = [] then 0 else min 1 (sum_list (map signal_weight signals)))"

definition round4 :: "rat \<Rightarrow> rat" where
  "round4 x = (case quotient_of x of (n, d) \<Rightarrow> of_int (round_half_even (n * 10000) d) / 10000)"

text \<open>The thresholds are the defaults, which every caller uses; \<open>hex\<close> is the text of \<open>uuid4\<close>.\<close>

definition evaluate_siu :: "string \<Rightarrow> string \<Rightarrow> string list \<Rightarrow> bool \<Rightarrow> siu_referral" where
  "evaluate_siu hex claim_id signals siu_flag =
     (let manual_refer = siu_flag \<and> signals = [];
          signals' = (if siu_flag \<and> ''siu_referral'' \<notin> set signals then signals @ [''siu_referral''] else signals);
          score = score_fraud_signals signals';
          state = (if 70 / 100 \<le> score then SIU_BLOCKED else if 35 / 100 \<le> score then REFERRED else CLEARED)
      in if manual_refer
         then \<lparr>sr_referral_id = ''siu_'' @ take 12 hex, sr_claim_id = claim_id, sr_state = REFERRED, sr_fraud_score = 35 / 100,
               sr_signals = signals'\<rparr>
         else \<lparr>sr_referral_id = ''siu_'' @ take 12 hex, sr_claim_id = claim_id, sr_state = state, sr_fraud_score = round4 score,
               sr_signals = signals'\<rparr>)"

section \<open>Policy rules\<close>

datatype coverage_line = AUTO_LIABILITY | PROPERTY | GENERAL_LIABILITY | WORKERS_COMP

record policy_context =
  pc_policy_number :: string
  pc_coverage_line :: coverage_line
  pc_per_occurrence_limit :: decimal
  pc_aggregate_limit :: decimal
  pc_aggregate_used :: decimal
  pc_deductible :: decimal
  pc_auto_approve_limit :: decimal
  pc_effective_date :: int
  pc_expiration_date :: int
  pc_jurisdiction :: string
  pc_coverage_active :: bool
  pc_regulatory_hold :: bool

record policy_trace =
  pt_passed :: bool
  pt_decision :: string
  pt_reason :: "string option"
  pt_score :: rat
  pt_net_payable :: decimal
  pt_rules_applied :: "string list"

definition stopped :: "string \<Rightarrow> string \<Rightarrow> rat \<Rightarrow> decimal \<Rightarrow> string list \<Rightarrow> policy_trace" where
  "stopped decision reason score net rules =
     \<lparr>pt_passed = False, pt_decision = decision, pt_reason = Some reason, pt_score = score, pt_net_payable = net, pt_rules_applied = rules\<rparr>"

definition evaluate_policy_rules :: "policy_context \<Rightarrow> decimal \<Rightarrow> int \<Rightarrow> bool \<Rightarrow> string list \<Rightarrow> policy_trace" where
  "evaluate_policy_rules policy payout_amount loss_date siu_flag fraud_signals =
     (let aggregate_remaining = dec_minus (pc_aggregate_limit policy) (pc_aggregate_used policy);
          net = py_max dec_zero (dec_minus payout_amount (pc_deductible policy));
          score = max (3 / 10) (1 - 15 / 100 * of_nat (length fraud_signals));
          applied = ''deductible_applied'' # (if fraud_signals = [] then [] else [''fraud_signals_present''])
      in if siu_flag \<or> ''siu_referral'' \<in> set fraud_signals then stopped ''REFERRED'' ''siu_review_required'' 0 dec_zero [''siu_block'']
         else if \<not> pc_coverage_active policy then stopped ''DECLINED'' ''coverage_inactive'' 0 dec_zero [''coverage_inactive'']
         else if pc_regulatory_hold policy then stopped ''HELD'' ''regulatory_hold'' (2 / 10) dec_zero [''regulatory_hold'']
         else if loss_date < pc_effective_date policy \<or> pc_expiration_date policy < loss_date
         then stopped ''DECLINED'' ''loss_outside_policy_period'' 0 dec_zero [''loss_outside_policy_period'']
         else if \<not> dec_less dec_zero aggregate_remaining then stopped ''DECLINED'' ''aggregate_exhausted'' 0 dec_zero [''aggregate_exhausted'']
         else if dec_less (pc_per_occurrence_limit policy) payout_amount
         then stopped ''HELD'' ''exceeds_per_occurrence_limit'' (3 / 10) dec_zero [''per_occurrence_limit'']
         else if dec_less aggregate_remaining net
         then stopped ''HELD'' ''exceeds_aggregate_remaining'' (4 / 10) dec_zero [''deductible_applied'', ''aggregate_cap'']
         else if dec_less (pc_auto_approve_limit policy) net
         then stopped ''HELD'' ''above_auto_approve_authority'' (5 / 10) net [''deductible_applied'', ''authority_escalation'']
         else if fraud_signals \<noteq> [] \<and> score < 6 / 10
         then stopped ''REFERRED'' ''fraud_signals_elevated'' score dec_zero applied
         else \<lparr>pt_passed = True, pt_decision = ''APPROVED'', pt_reason = None, pt_score = 1, pt_net_payable = net,
               pt_rules_applied = applied @ [''auto_approve'']\<rparr>)"

section \<open>Payout evaluation\<close>

record payout_evaluation =
  pv_approved :: bool
  pv_decision :: string
  pv_reason :: "string option"
  pv_score :: rat
  pv_net_payable :: decimal
  pv_policy_trace :: "policy_trace option"
  pv_siu_referral :: "siu_referral option"

definition siu_name :: "siu_state \<Rightarrow> string" where
  "siu_name s = (case s of CLEARED \<Rightarrow> ''CLEARED'' | REFERRED \<Rightarrow> ''REFERRED'' | SIU_BLOCKED \<Rightarrow> ''BLOCKED'' | UNDER_REVIEW \<Rightarrow> ''UNDER_REVIEW'')"

text \<open>\<open>evaluate_payout\<close> with a policy, as the gate calls it; its path without one is dead code here.\<close>

definition evaluate_payout :: "string \<Rightarrow> string \<Rightarrow> decimal \<Rightarrow> policy_context \<Rightarrow> int \<Rightarrow> bool \<Rightarrow> string list \<Rightarrow> payout_evaluation" where
  "evaluate_payout hex claim_id payout_amount policy loss_date siu_flag signals =
     (let siu = evaluate_siu hex claim_id signals siu_flag
      in if sr_state siu = REFERRED \<or> sr_state siu = SIU_BLOCKED
         then \<lparr>pv_approved = False, pv_decision = (if sr_state siu = REFERRED then ''REFERRED'' else ''DECLINED''),
               pv_reason = Some (''siu_'' @ lower (siu_name (sr_state siu))), pv_score = sr_fraud_score siu, pv_net_payable = dec_zero,
               pv_policy_trace = None, pv_siu_referral = Some siu\<rparr>
         else let trace = evaluate_policy_rules policy payout_amount loss_date siu_flag signals
              in \<lparr>pv_approved = pt_passed trace, pv_decision = pt_decision trace, pv_reason = pt_reason trace, pv_score = pt_score trace,
                  pv_net_payable = pt_net_payable trace, pv_policy_trace = Some trace, pv_siu_referral = Some siu\<rparr>)"

definition payout_facets ::
  "host \<Rightarrow> (rat \<Rightarrow> json) \<Rightarrow> string \<Rightarrow> decimal \<Rightarrow> string \<Rightarrow> string \<Rightarrow> rat \<Rightarrow> decimal \<Rightarrow> string \<Rightarrow> string option \<Rightarrow> jobject" where
  "payout_facets h number claim_id payout_amount currency decision score net_payable policy_number siu_referral_id =
     [(''claim_id'', JStr claim_id), (''payout_amount'', JStr (dec_str payout_amount)), (''net_payable'', JStr (dec_str net_payable)),
      (''currency'', JStr currency), (''gate_decision'', JStr decision), (''gate_score'', number score),
      (''claim_fingerprint'', JStr (canonical_fingerprint h ''claim_gate'' claim_id
         [(''amount'', JStr (dec_str net_payable)), (''currency'', JStr currency)]))]
     @ (if policy_number = [] then [] else [(''policy_number'', JStr policy_number)])
     @ (case siu_referral_id of None \<Rightarrow> [] | Some i \<Rightarrow> if i = [] then [] else [(''siu_referral_id'', JStr i)])"

section \<open>The payment store\<close>

datatype store_kind = Memory | Postgres

text \<open>What \<open>platform_connection\<close> gives: a connection, \<open>None\<close>, or an exception.\<close>

datatype db_link = Connected | No_Driver | Unreachable

definition stored_payment :: "string \<Rightarrow> payment list \<Rightarrow> payment option" where
  "stored_payment key ps = row_where (\<lambda>p. py_idempotency_key p = key) ps"

definition payment_get :: "store_kind \<Rightarrow> db_link \<Rightarrow> string \<Rightarrow> payment option desk_handler" where
  "payment_get k link key =
     (if k = Memory \<or> link = Connected then getsE (\<lambda>s. stored_payment key (dk_payments s)) ret
      else if link = No_Driver then ret None else throw Store_Error)"

definition put_payment :: "(payment \<Rightarrow> payment \<Rightarrow> payment) \<Rightarrow> payment \<Rightarrow> payment list \<Rightarrow> payment list" where
  "put_payment merge p ps =
     (if stored_payment (py_idempotency_key p) ps = None then ps @ [p]
      else update_where (\<lambda>x. py_idempotency_key x = py_idempotency_key p) (merge p) ps)"

text \<open>The row PostgreSQL stores: the amount has twelve decimals. On a conflict only four columns change.\<close>

definition payment_row :: "payment \<Rightarrow> payment" where
  "payment_row p = p\<lparr>py_amount := of_column (quantize_spine (py_amount p))\<rparr>"

definition conflict_update :: "payment \<Rightarrow> payment \<Rightarrow> payment" where
  "conflict_update p x =
     x\<lparr>py_status := py_status p, py_reference := py_reference p, py_crystal_id := py_crystal_id p, py_external_ref := py_external_ref p\<rparr>"

definition memory_save :: "payment \<Rightarrow> payment list \<Rightarrow> payment list" where
  "memory_save p ps = put_payment (\<lambda>p _. p) p ps"

definition postgres_save :: "payment \<Rightarrow> payment list \<Rightarrow> payment list" where
  "postgres_save p ps = put_payment conflict_update (payment_row p) ps"

definition payment_save :: "store_kind \<Rightarrow> db_link \<Rightarrow> payment \<Rightarrow> payment desk_handler" where
  "payment_save k link p =
     (if k = Postgres \<and> link \<noteq> Connected then throw Store_Error
      else seqE (modifyE (\<lambda>s. s\<lparr>dk_payments := (if k = Memory then memory_save else postgres_save) p (dk_payments s)\<rparr>)) (ret p))"

section \<open>The banking rail\<close>

record rail_result =
  rr_external_ref :: string
  rr_rail :: string
  rr_status :: payment_status

text \<open>The configuration of the rail and what a POST to it gives: the text of an error, or the JSON of the answer.\<close>

record bank =
  bk_mode :: string
  bk_fednow_url :: bool
  bk_fednow_sandbox_url :: bool
  bk_clearinghouse_url :: bool
  bk_clearinghouse_sandbox_url :: bool
  bk_ach_url :: bool
  bk_post :: "payment \<Rightarrow> string + jobject"

definition payment_rail_mode :: "bank \<Rightarrow> string" where
  "payment_rail_mode b =
     (let raw = lower (bk_mode b) in if raw \<in> {''sandbox'', ''stub'', ''mock'', ''offline''} then ''sandbox'' else raw)"

definition answer_text :: "(json \<Rightarrow> string) \<Rightarrow> jobject \<Rightarrow> string list \<Rightarrow> string \<Rightarrow> string" where
  "answer_text repr data keys fallback =
     (case filter (\<lambda>k. map_of data k \<noteq> None) keys of
        [] \<Rightarrow> fallback
      | k # _ \<Rightarrow> (case map_of data k of None \<Rightarrow> fallback | Some v \<Rightarrow> facet_str repr v))"

definition post_payment :: "bank \<Rightarrow> payment \<Rightarrow> desk \<Rightarrow> desk \<times> (string + jobject)" where
  "post_payment b p s = (s\<lparr>dk_rail := dk_rail s @ [p]\<rparr>, bk_post b p)"

definition dispatch_fednow :: "(json \<Rightarrow> string) \<Rightarrow> bank \<Rightarrow> bool \<Rightarrow> payment \<Rightarrow> desk \<Rightarrow> desk \<times> (string + rail_result)" where
  "dispatch_fednow repr b sandbox p s =
     (if \<not> (if sandbox then bk_fednow_sandbox_url b \<or> bk_fednow_url b else bk_fednow_url b)
      then (s, Inl ''FEDNOW_API_URL or FEDNOW_SANDBOX_URL required for fednow rail'')
      else case post_payment b p s of
        (t, Inl e) \<Rightarrow> (t, Inl e)
      | (t, Inr data) \<Rightarrow>
          (t, Inr \<lparr>rr_external_ref = answer_text repr data [''transactionId'', ''id''] (py_payment_id p),
                   rr_rail = (if sandbox then ''fednow_sandbox'' else ''fednow''),
                   rr_status = (if map_of data ''status'' = Some (JStr ''PENDING'') then SUBMITTED else COMPLETED)\<rparr>))"

definition dispatch_clearinghouse :: "(json \<Rightarrow> string) \<Rightarrow> bank \<Rightarrow> bool \<Rightarrow> payment \<Rightarrow> desk \<Rightarrow> desk \<times> (string + rail_result)" where
  "dispatch_clearinghouse repr b sandbox p s =
     (if \<not> (bk_ach_url b \<or> (if sandbox then bk_clearinghouse_sandbox_url b \<or> bk_clearinghouse_url b else bk_clearinghouse_url b))
      then (s, Inl ''CLEARINGHOUSE_API_URL required for clearinghouse rail'')
      else case post_payment b p s of
        (t, Inl e) \<Rightarrow> (t, Inl e)
      | (t, Inr data) \<Rightarrow>
          (t, Inr \<lparr>rr_external_ref = answer_text repr data [''trace_id'', ''confirmation''] (py_payment_id p),
                   rr_rail = (if sandbox then ''clearinghouse_sandbox'' else ''clearinghouse''), rr_status = COMPLETED\<rparr>))"

text \<open>The sandbox pays without a call.\<close>

definition dispatch_payment :: "(json \<Rightarrow> string) \<Rightarrow> bank \<Rightarrow> payment \<Rightarrow> desk \<Rightarrow> desk \<times> (string + rail_result)" where
  "dispatch_payment repr b p s =
     (let mode = payment_rail_mode b
      in if mode = ''sandbox''
         then (s\<lparr>dk_rail := dk_rail s @ [p]\<rparr>,
               Inr \<lparr>rr_external_ref = ''sandbox-'' @ py_payment_id p, rr_rail = ''ach_sandbox'', rr_status = COMPLETED\<rparr>)
         else if mode = ''fednow'' \<or> mode = ''fednow_sandbox'' then dispatch_fednow repr b (mode = ''fednow_sandbox'') p s
         else if mode = ''clearinghouse'' \<or> mode = ''ach'' \<or> mode = ''clearinghouse_sandbox''
         then dispatch_clearinghouse repr b (mode = ''clearinghouse_sandbox'') p s
         else (s, Inl (''unsupported PAYMENT_RAIL_MODE: '' @ mode)))"

section \<open>Submitting a payment\<close>

text \<open>What a submission meets outside the process: the store, its links for reading and writing, and a fresh identifier.\<close>

record teller =
  tl_store :: store_kind
  tl_read :: db_link
  tl_write :: db_link
  tl_payment_hex :: string

definition payment_of :: "teller \<Rightarrow> string \<Rightarrow> decimal \<Rightarrow> string \<Rightarrow> string \<Rightarrow> string \<Rightarrow> payment_status \<Rightarrow> string \<Rightarrow> payment" where
  "payment_of te claim_id amount currency payee_id key status reference =
     \<lparr>py_payment_id = ''pay_'' @ take 12 (tl_payment_hex te), py_claim_id = claim_id, py_idempotency_key = key, py_amount = amount,
      py_currency = currency, py_payee_id = payee_id, py_status = status, py_rail = ''ach_stub'', py_reference = Some reference,
      py_crystal_id = None, py_external_ref = None\<rparr>"

definition dispatched :: "(json \<Rightarrow> string) \<Rightarrow> bank \<Rightarrow> payment \<Rightarrow> payment desk_handler" where
  "dispatched repr b p s =
     (case dispatch_payment repr b p s of
        (t, Inl e) \<Rightarrow> (t, Inr (p\<lparr>py_status := FAILED, py_reference := Some (''rail_error:'' @ e)\<rparr>))
      | (t, Inr r) \<Rightarrow>
          (t, Inr (p\<lparr>py_status := rr_status r, py_rail := rr_rail r, py_external_ref := Some (rr_external_ref r),
                     py_reference := Some (''external:'' @ rr_external_ref r)\<rparr>)))"

definition submit_payment ::
  "(json \<Rightarrow> string) \<Rightarrow> bank \<Rightarrow> teller \<Rightarrow> string \<Rightarrow> decimal \<Rightarrow> string \<Rightarrow> string \<Rightarrow> string \<Rightarrow> string \<Rightarrow> string option \<Rightarrow> payment desk_handler" where
  "submit_payment repr b te claim_id amount currency payee_id key gate_decision crystal_id =
     bindE (payment_get (tl_store te) (tl_read te) key) (\<lambda>existing.
       case existing of
         Some p \<Rightarrow> ret p
       | None \<Rightarrow>
           if gate_decision \<noteq> ''APPROVED''
           then payment_save (tl_store te) (tl_write te)
                  (payment_of te claim_id amount currency payee_id key BLOCKED (''blocked:'' @ gate_decision))
           else if \<not> truthy crystal_id
           then payment_save (tl_store te) (tl_write te)
                  (payment_of te claim_id amount currency payee_id key BLOCKED ''no_governance_crystal'')
           else bindE (dispatched repr b
                  ((payment_of te claim_id amount currency payee_id key PENDING (''crystal:'' @ the crystal_id))
                     \<lparr>py_crystal_id := crystal_id,
                      py_rail := (if payment_rail_mode b \<noteq> ''sandbox'' then payment_rail_mode b else ''ach_sandbox'')\<rparr>))
                  (payment_save (tl_store te) (tl_write te)))"

section \<open>The route\<close>

record payout_request =
  pq_claim_id :: string
  pq_payout_amount :: decimal
  pq_currency :: string
  pq_policy_number :: string
  pq_loss_date :: "int option"
  pq_siu_flag :: bool
  pq_fraud_signals :: "string list"
  pq_account_id :: string
  pq_policy_id :: string
  pq_payee_id :: string
  pq_idempotency_key :: "string option"

record payout_response =
  ps_claim_id :: string
  ps_decision :: string
  ps_gate_score :: rat
  ps_net_payable :: decimal
  ps_reason :: "string option"
  ps_crystal_id :: "string option"
  ps_siu_referral_id :: "string option"
  ps_siu_state :: "string option"
  ps_payment_id :: "string option"
  ps_payment_status :: "payment_status option"
  ps_rules_applied :: "string list"

definition DEFAULT_POLICIES :: "policy_context list" where
  "DEFAULT_POLICIES =
     [\<lparr>pc_policy_number = ''POL-AUTO-001'', pc_coverage_line = AUTO_LIABILITY, pc_per_occurrence_limit = Dec 100000000 (- 2),
       pc_aggregate_limit = Dec 200000000 (- 2), pc_aggregate_used = Dec 25000000 (- 2), pc_deductible = Dec 50000 (- 2),
       pc_auto_approve_limit = Dec 25000000 (- 2), pc_effective_date = 19723, pc_expiration_date = 20818, pc_jurisdiction = ''US'',
       pc_coverage_active = True, pc_regulatory_hold = False\<rparr>,
      \<lparr>pc_policy_number = ''POL-PROP-001'', pc_coverage_line = PROPERTY, pc_per_occurrence_limit = Dec 500000000 (- 2),
       pc_aggregate_limit = Dec 1000000000 (- 2), pc_aggregate_used = Dec 0 0, pc_deductible = Dec 250000 (- 2),
       pc_auto_approve_limit = Dec 50000000 (- 2), pc_effective_date = 19723, pc_expiration_date = 20818, pc_jurisdiction = ''US-CA'',
       pc_coverage_active = True, pc_regulatory_hold = False\<rparr>,
      \<lparr>pc_policy_number = ''POL-MOTOR-UK-001'', pc_coverage_line = AUTO_LIABILITY, pc_per_occurrence_limit = Dec 50000000 (- 2),
       pc_aggregate_limit = Dec 150000000 (- 2), pc_aggregate_used = Dec 10000000 (- 2), pc_deductible = Dec 25000 (- 2),
       pc_auto_approve_limit = Dec 10000000 (- 2), pc_effective_date = 19723, pc_expiration_date = 20818, pc_jurisdiction = ''UK'',
       pc_coverage_active = True, pc_regulatory_hold = False\<rparr>]"

definition resolve_policy :: "string \<Rightarrow> policy_context desk_handler" where
  "resolve_policy policy_number =
     (case row_where (\<lambda>p. pc_policy_number p = policy_number) DEFAULT_POLICIES of
        None \<Rightarrow> throw (Http_Exception 404 (''unknown policy: '' @ policy_number))
      | Some p \<Rightarrow> ret p)"

definition claim_manifest :: platform_manifest where
  "claim_manifest =
     \<lparr>mf_name = ''claim_gate'', mf_default_policy_id = ''claim-high-us'', mf_default_risk_tier = ''high'',
      mf_required_facet_keys = [''claim_id''], mf_commit_decisions = [''APPROVED'']\<rparr>"

text \<open>What the gate decides about a request under a policy: the evaluation and the operation the spine is asked to govern.\<close>

definition request_evaluation :: "string \<Rightarrow> int \<Rightarrow> payout_request \<Rightarrow> policy_context \<Rightarrow> payout_evaluation" where
  "request_evaluation hex today q policy =
     evaluate_payout hex (pq_claim_id q) (pq_payout_amount q) policy (case pq_loss_date q of None \<Rightarrow> today | Some d \<Rightarrow> d)
       (pq_siu_flag q) (pq_fraud_signals q)"

definition claim_operation :: "venue \<Rightarrow> (rat \<Rightarrow> json) \<Rightarrow> payout_request \<Rightarrow> payout_evaluation \<Rightarrow> governed_operation" where
  "claim_operation v number q ev =
     \<lparr>go_operation_id = pq_claim_id q,
      go_facets = payout_facets (vn_host v) number (pq_claim_id q) (pq_payout_amount q) (pq_currency q) (pv_decision ev) (pv_score ev)
        (pv_net_payable ev) (pq_policy_number q) (map_option sr_referral_id (pv_siu_referral ev)),
      go_decision = pv_decision ev, go_reserve = pv_net_payable ev, go_account_id = pq_account_id q,
      go_policy_id = Some (pq_policy_id q), go_outcome = Some ''paid''\<rparr>"

definition run_evaluation ::
  "venue \<Rightarrow> (rat \<Rightarrow> json) \<Rightarrow> bank \<Rightarrow> teller \<Rightarrow> calls \<Rightarrow> string \<Rightarrow> int \<Rightarrow> payout_request \<Rightarrow> payout_response desk_handler" where
  "run_evaluation v number b te cl hex today q =
     bindE (resolve_policy (pq_policy_number q)) (\<lambda>policy.
       let ev = request_evaluation hex today q policy
       in bindE (govern_operation v cl claim_manifest (claim_operation v number q ev)) (\<lambda>crystal_id.
          bindE (if truthy (pq_idempotency_key q)
                 then bindE (submit_payment (vn_repr v) b te (pq_claim_id q) (pv_net_payable ev) (pq_currency q) (pq_payee_id q)
                          (the (pq_idempotency_key q)) (pv_decision ev) crystal_id) (\<lambda>p. ret (Some p))
                 else ret None) (\<lambda>payment.
            ret \<lparr>ps_claim_id = pq_claim_id q, ps_decision = pv_decision ev, ps_gate_score = pv_score ev, ps_net_payable = pv_net_payable ev,
                 ps_reason = pv_reason ev, ps_crystal_id = crystal_id, ps_siu_referral_id = map_option sr_referral_id (pv_siu_referral ev),
                 ps_siu_state = map_option (siu_name \<circ> sr_state) (pv_siu_referral ev), ps_payment_id = map_option py_payment_id payment,
                 ps_payment_status = map_option py_status payment,
                 ps_rules_applied = (case pv_policy_trace ev of None \<Rightarrow> [] | Some t \<Rightarrow> pt_rules_applied t)\<rparr>)))"

end
