(* ===== verification/Claim_Contract.thy ===== *)
theory Claim_Contract
  imports Claim_Gate
begin

text \<open>
  Which claims the payout gate approves: the fraud score and the policy rules, put together as one condition on the request and its policy, with decimals
  read as rational numbers.
\<close>

section \<open>Decimals\<close>

definition dec_value :: "decimal \<Rightarrow> rat" where
  "dec_value d = of_int (coeff d) * 10 powi expo d"

lemma scaled_value:
  assumes "e \<le> expo d"
  shows "of_int (scaled e d) * 10 powi e = dec_value d"
proof -
  have "(10 :: rat) ^ nat (expo d - e) = 10 powi (expo d - e)" using assms by (simp add: power_int_def)
  then have "(10 :: rat) ^ nat (expo d - e) * 10 powi e = 10 powi expo d" by (simp add: power_int_add [symmetric])
  then show ?thesis by (simp add: scaled_def dec_value_def mult.assoc)
qed

lemma dec_less_value: "dec_less a b \<longleftrightarrow> dec_value a < dec_value b"
proof -
  let ?e = "min (expo a) (expo b)"
  have "0 < (10 :: rat) powi ?e" by simp
  then have "dec_value a < dec_value b \<longleftrightarrow> (of_int (scaled ?e a) :: rat) < of_int (scaled ?e b)"
    using scaled_value [of ?e a] scaled_value [of ?e b] by (metis min.cobounded1 min.cobounded2 mult_less_cancel_right_pos)
  then show ?thesis by (simp add: dec_less_def Let_def)
qed

lemma dec_minus_value: "dec_value (dec_minus a b) = dec_value a - dec_value b"
proof -
  let ?e = "min (expo a) (expo b)"
  have "dec_value (dec_minus a b) = of_int (scaled ?e a - scaled ?e b) * 10 powi ?e" by (simp add: dec_minus_def dec_value_def Let_def)
  also have "\<dots> = dec_value a - dec_value b"
    using scaled_value [of ?e a] scaled_value [of ?e b] by (simp add: algebra_simps)
  finally show ?thesis .
qed

lemma py_max_value: "dec_value (py_max a b) = max (dec_value a) (dec_value b)"
  by (simp add: py_max_def dec_less_value max_def)

lemma dec_zero_value [simp]: "dec_value dec_zero = 0"
  by (simp add: dec_value_def)

lemmas dec_values = dec_less_value dec_minus_value py_max_value

section \<open>Approval\<close>

lemma score_nonneg: "0 \<le> sum_list (map signal_weight ss)"
proof -
  have "0 \<le> signal_weight s" for s
    by (auto simp: signal_weight_def FRAUD_SIGNAL_WEIGHTS_def split: option.split if_splits)
  then show ?thesis by (induction ss) auto
qed

lemma referral_scores_full: "''siu_referral'' \<in> set ss \<Longrightarrow> score_fraud_signals ss = 1"
proof (induction ss)
  case (Cons s ss)
  have "1 \<le> sum_list (map signal_weight (s # ss))"
  proof (cases "s = ''siu_referral''")
    case True
    then show ?thesis using score_nonneg [of ss] by (simp add: signal_weight_def FRAUD_SIGNAL_WEIGHTS_def)
  next
    case False
    with Cons have "1 \<le> sum_list (map signal_weight ss)" by (auto simp: score_fraud_signals_def split: if_splits)
    then show ?thesis using score_nonneg [of "[s]"] by simp
  qed
  then show ?case by (simp add: score_fraud_signals_def)
qed simp

text \<open>When the fraud desk clears a claim.\<close>

lemma siu_clears:
  "sr_state (evaluate_siu hex claim_id ss flag) = CLEARED \<longleftrightarrow> \<not> flag \<and> score_fraud_signals ss < 35 / 100"
  "sr_state (evaluate_siu hex claim_id ss flag) \<noteq> UNDER_REVIEW"
proof -
  have "flag \<Longrightarrow> score_fraud_signals (if ''siu_referral'' \<notin> set ss then ss @ [''siu_referral''] else ss) = 1"
    by (rule referral_scores_full) auto
  then show "sr_state (evaluate_siu hex claim_id ss flag) = CLEARED \<longleftrightarrow> \<not> flag \<and> score_fraud_signals ss < 35 / 100"
    by (auto simp: evaluate_siu_def Let_def split: if_splits)
  show "sr_state (evaluate_siu hex claim_id ss flag) \<noteq> UNDER_REVIEW"
    by (simp add: evaluate_siu_def Let_def)
qed

definition within_policy :: "policy_context \<Rightarrow> decimal \<Rightarrow> int \<Rightarrow> bool" where
  "within_policy policy amount loss_date =
     (let remaining = dec_value (pc_aggregate_limit policy) - dec_value (pc_aggregate_used policy);
          net = max 0 (dec_value amount - dec_value (pc_deductible policy))
      in pc_coverage_active policy \<and> \<not> pc_regulatory_hold policy
         \<and> pc_effective_date policy \<le> loss_date \<and> loss_date \<le> pc_expiration_date policy
         \<and> 0 < remaining \<and> dec_value amount \<le> dec_value (pc_per_occurrence_limit policy)
         \<and> net \<le> remaining \<and> net \<le> dec_value (pc_auto_approve_limit policy))"

lemma few_signals: "(6 :: rat) / 10 \<le> max (3 / 10) (1 - 15 / 100 * of_nat n) \<longleftrightarrow> n \<le> 2"
proof -
  have "(6 :: rat) / 10 \<le> max (3 / 10) (1 - 15 / 100 * of_nat n) \<longleftrightarrow> (3 :: rat) * of_nat n \<le> 8"
    by (simp add: max_def field_simps)
  also have "\<dots> \<longleftrightarrow> of_nat (3 * n) \<le> (of_nat 8 :: rat)" by simp
  also have "\<dots> \<longleftrightarrow> 3 * n \<le> 8" by (rule of_nat_le_iff)
  also have "\<dots> \<longleftrightarrow> n \<le> 2" by linarith
  finally show ?thesis .
qed

lemma many_signals:
  "ss \<noteq> [] \<and> max (3 / 10) (1 - 15 / 100 * of_nat (length ss)) < (6 :: rat) / 10 \<longleftrightarrow> 2 < length ss"
  using few_signals [of "length ss"] by (auto simp only: not_le [symmetric] list.size)

lemma policy_rules_decide:
  assumes "\<not> flag" "''siu_referral'' \<notin> set ss"
  shows "pt_decision (evaluate_policy_rules policy amount loss_date flag ss) = ''APPROVED'' \<longleftrightarrow> within_policy policy amount loss_date \<and> length ss \<le> 2"
proof -
  define net where "net = max 0 (dec_value amount - dec_value (pc_deductible policy))"
  define rest where "rest = dec_value (pc_aggregate_limit policy) - dec_value (pc_aggregate_used policy)"
  show ?thesis
    using assms unfolding evaluate_policy_rules_def within_policy_def stopped_def Let_def dec_values dec_zero_value many_signals
      net_def [symmetric] rest_def [symmetric]
    by (simp add: not_less)
qed

lemma approved_net_payable:
  assumes "pt_decision (evaluate_policy_rules policy amount loss_date flag ss) = ''APPROVED''"
  shows "dec_value (pt_net_payable (evaluate_policy_rules policy amount loss_date flag ss)) = max 0 (dec_value amount - dec_value (pc_deductible policy))"
  using assms unfolding evaluate_policy_rules_def stopped_def Let_def many_signals
  by (simp add: py_max_value dec_minus_value split: if_splits)


end
