(* ===== verification/Payment_Contract.thy ===== *)
theory Payment_Contract
  imports Claim_Gate
begin

text \<open>
  What the claim gate guarantees about money: a payment reaches the banking rail only under a closed crystal of its claim, and at most once per
  idempotency key while the payment store works. And where it fails: a claim that the spine has closed is paid again under another key,
  and a payment whose row is not written is repeated by every retry.
\<close>

section \<open>The store\<close>

text \<open>What the rail relies on: a payment under a new key is added, in the form the store keeps, and nothing else changes.\<close>

locale payment_store =
  fixes save :: "payment \<Rightarrow> payment list \<Rightarrow> payment list" and kept :: "payment \<Rightarrow> payment"
  assumes save_fresh: "stored_payment (py_idempotency_key p) ps = None \<Longrightarrow> save p ps = ps @ [kept p]"
    and kept_key: "py_idempotency_key (kept p) = py_idempotency_key p"
begin

lemma save_finds:
  assumes "stored_payment (py_idempotency_key p) ps = None"
  shows "stored_payment (py_idempotency_key p) (save p ps) = Some (kept p)"
  using assms by (simp add: save_fresh kept_key stored_payment_def row_where_append)

lemma save_keys:
  assumes "stored_payment (py_idempotency_key p) ps = None"
  shows "py_idempotency_key ` set (save p ps) = insert (py_idempotency_key p) (py_idempotency_key ` set ps)"
  using assms by (auto simp: save_fresh kept_key)

end

lemma put_fresh: "stored_payment (py_idempotency_key p) ps = None \<Longrightarrow> put_payment merge p ps = ps @ [p]"
  by (simp add: put_payment_def)

interpretation memory: payment_store memory_save "\<lambda>p. p"
  by unfold_locales (simp_all add: memory_save_def put_fresh)

interpretation postgres: payment_store postgres_save payment_row
  by unfold_locales (simp_all add: postgres_save_def put_fresh payment_row_def)

lemma stored_None: "stored_payment key ps = None \<longleftrightarrow> key \<notin> py_idempotency_key ` set ps"
  by (auto simp: stored_payment_def row_where_None)

section \<open>The rail\<close>

text \<open>A dispatch hands over the payment at most once, and touches nothing else.\<close>

lemma dispatched_run:
  assumes "dispatched repr b p s = (t, x)"
  obtains p' where "x = Inr p'" "py_idempotency_key p' = py_idempotency_key p" "dk_rail t = dk_rail s \<and> t = s \<or> t = s\<lparr>dk_rail := dk_rail s @ [p]\<rparr>"
proof -
  obtain u y where d: "dispatch_payment repr b p s = (u, y)" by fastforce
  have "u = s \<or> u = s\<lparr>dk_rail := dk_rail s @ [p]\<rparr>"
    using d by (auto simp: dispatch_payment_def dispatch_fednow_def dispatch_clearinghouse_def post_payment_def Let_def split: if_splits sum.splits)
  with d assms that show thesis by (cases y) (auto simp: dispatched_def)
qed

text \<open>A working store, of the kind the process was started with.\<close>

definition working :: "store_kind \<Rightarrow> teller \<Rightarrow> bool" where
  "working k te = (tl_store te = k \<and> (k = Memory \<or> tl_read te = Connected \<and> tl_write te = Connected))"

definition save_of :: "store_kind \<Rightarrow> payment \<Rightarrow> payment list \<Rightarrow> payment list" where
  "save_of k = (if k = Memory then memory_save else postgres_save)"

lemma payment_save_run:
  "payment_save k link p s = (t, x)
    \<Longrightarrow> t = s\<lparr>dk_payments := save_of k p (dk_payments s)\<rparr> \<and> x = Inr p \<and> (k = Memory \<or> link = Connected)
      \<or> t = s \<and> x = Inl Store_Error \<and> k = Postgres \<and> link \<noteq> Connected"
  by (cases k) (auto simp: payment_save_def save_of_def seqE_def bindE_def modifyE_def ret_def throw_def split: if_splits)

lemma save_of_keys:
  "stored_payment (py_idempotency_key p) ps = None
    \<Longrightarrow> py_idempotency_key ` set (save_of k p ps) = insert (py_idempotency_key p) (py_idempotency_key ` set ps)"
  by (simp add: save_of_def memory.save_keys postgres.save_keys)

lemma payment_saved:
  assumes "payment_save k link p s = (t, x)" "stored_payment (py_idempotency_key p) (dk_payments s) = None"
  shows "t = s \<and> k = Postgres \<and> link \<noteq> Connected
    \<or> py_idempotency_key ` set (dk_payments t) = insert (py_idempotency_key p) (py_idempotency_key ` set (dk_payments s))"
  using payment_save_run [OF assms(1)] save_of_keys [OF assms(2), of k] by (elim disjE conjE) simp_all

lemma payment_get_run:
  "payment_get k link key s = (t, x) \<Longrightarrow> t = s \<and> (k = Memory \<or> link = Connected \<longrightarrow> x = Inr (stored_payment key (dk_payments s)))"
  by (auto simp: payment_get_def getsE_def ret_def throw_def split: if_splits)

text \<open>The payment a submission hands over.\<close>

definition handed_over :: "string \<Rightarrow> decimal \<Rightarrow> string \<Rightarrow> string \<Rightarrow> payment \<Rightarrow> bool" where
  "handed_over claim_id amount key i p =
     (py_claim_id p = claim_id \<and> py_amount p = amount \<and> py_idempotency_key p = key \<and> py_crystal_id p = Some i)"

definition instruction_of ::
  "bank \<Rightarrow> teller \<Rightarrow> string \<Rightarrow> decimal \<Rightarrow> string \<Rightarrow> string \<Rightarrow> string \<Rightarrow> string option \<Rightarrow> payment" where
  "instruction_of b te claim_id amount currency payee_id key crystal_id =
     (payment_of te claim_id amount currency payee_id key PENDING (''crystal:'' @ the crystal_id))
       \<lparr>py_crystal_id := crystal_id,
        py_rail := (if payment_rail_mode b \<noteq> ''sandbox'' then payment_rail_mode b else ''ach_sandbox'')\<rparr>"

lemma instruction_handed_over:
  "truthy crystal_id \<Longrightarrow> handed_over claim_id amount key (the crystal_id) (instruction_of b te claim_id amount currency payee_id key crystal_id)"
  by (cases crystal_id) (auto simp: instruction_of_def handed_over_def payment_of_def truthy_def)

lemma submit_payment_cases:
  assumes "submit_payment repr b te claim_id amount currency payee_id key gate_decision crystal_id s = (t, x)"
  obtains (stop) "t = s"
    | (blocked) r where "payment_get (tl_store te) (tl_read te) key s = (s, Inr None)"
        "payment_save (tl_store te) (tl_write te) (payment_of te claim_id amount currency payee_id key BLOCKED r) s = (t, x)"
    | (paid) u y where "payment_get (tl_store te) (tl_read te) key s = (s, Inr None)" "gate_decision = ''APPROVED''" "truthy crystal_id"
        "py_idempotency_key y = key"
        "u = s \<or> u = s\<lparr>dk_rail := dk_rail s @ [instruction_of b te claim_id amount currency payee_id key crystal_id]\<rparr>"
        "payment_save (tl_store te) (tl_write te) y u = (t, x)"
proof -
  let ?p = "instruction_of b te claim_id amount currency payee_id key crystal_id"
  obtain s1 found where g: "payment_get (tl_store te) (tl_read te) key s = (s1, found)" by fastforce
  with payment_get_run have s1: "s1 = s" by blast
  note run = assms [unfolded submit_payment_def bindE_def [of "payment_get _ _ _"] g, folded instruction_of_def]
  consider "found \<noteq> Inr None" | "found = Inr None" "gate_decision = ''APPROVED''" "truthy crystal_id"
    | r where "found = Inr None" "payment_save (tl_store te) (tl_write te) (payment_of te claim_id amount currency payee_id key BLOCKED r) s = (t, x)"
    using run s1 by (cases "found = Inr None") (auto split: if_splits)
  then show thesis
  proof cases
    case 1
    with run s1 stop show thesis by (auto simp: ret_def split: sum.splits option.splits)
  next
    case 2
    obtain u z where d: "dispatched repr b ?p s = (u, z)" by fastforce
    then obtain y where y: "z = Inr y" "py_idempotency_key y = py_idempotency_key ?p"
      "dk_rail u = dk_rail s \<and> u = s \<or> u = s\<lparr>dk_rail := dk_rail s @ [?p]\<rparr>" by (rule dispatched_run)
    have "py_idempotency_key y = key" using y(2) by (simp add: instruction_of_def payment_of_def)
    moreover have "payment_save (tl_store te) (tl_write te) y u = (t, x)" using run 2 s1 d y(1) by (simp add: bindE_def)
    ultimately show thesis using paid [of y u] g s1 2 y(3) by blast
  next
    case 3
    with blocked g s1 show thesis by blast
  qed
qed

lemma submit_payment_run:
  assumes "submit_payment repr b te claim_id amount currency payee_id key gate_decision crystal_id s = (t, x)"
  shows "dk_spine t = dk_spine s"
    and "dk_rail t = dk_rail s
      \<or> (\<exists>p i. gate_decision = ''APPROVED'' \<and> crystal_id = Some i \<and> handed_over claim_id amount key i p \<and> dk_rail t = dk_rail s @ [p])"
proof -
  from assms show "dk_spine t = dk_spine s"
    by (cases rule: submit_payment_cases) (auto dest!: payment_save_run)
  from assms show "dk_rail t = dk_rail s
      \<or> (\<exists>p i. gate_decision = ''APPROVED'' \<and> crystal_id = Some i \<and> handed_over claim_id amount key i p \<and> dk_rail t = dk_rail s @ [p])"
  proof (cases rule: submit_payment_cases)
    case (paid u y)
    then obtain i where "crystal_id = Some i" by (cases crystal_id) (auto simp: truthy_def)
    with instruction_handed_over [OF paid(3)] paid(2,5) payment_save_run [OF paid(6)] show ?thesis by auto
  qed (auto dest!: payment_save_run)
qed

lemma submit_payment_keys:
  assumes "submit_payment repr b te claim_id amount currency payee_id key gate_decision crystal_id s = (t, x)" "working k te"
  shows "dk_payments t = dk_payments s \<and> dk_rail t = dk_rail s
      \<or> stored_payment key (dk_payments s) = None \<and> py_idempotency_key ` set (dk_payments t) = insert key (py_idempotency_key ` set (dk_payments s))"
  using assms(1)
proof (cases rule: submit_payment_cases)
  case (blocked r)
  have new: "stored_payment key (dk_payments s) = None" using payment_get_run [OF blocked(1)] assms(2) by (auto simp: working_def)
  let ?p = "payment_of te claim_id amount currency payee_id key BLOCKED r"
  have "py_idempotency_key ?p = key" by (simp add: payment_of_def)
  with new show ?thesis using payment_saved [OF blocked(2)] assms(2) unfolding working_def by (metis store_kind.distinct(1))
next
  case (paid u y)
  have "stored_payment key (dk_payments s) = None" using payment_get_run [OF paid(1)] assms(2) by (auto simp: working_def)
  moreover have "dk_payments u = dk_payments s" using paid(5) by auto
  ultimately show ?thesis using payment_saved [OF paid(6)] paid(4) assms(2) unfolding working_def by (metis store_kind.distinct(1))
qed simp

section \<open>The govern path\<close>

text \<open>What a platform does to its desk while it governs an operation: the spine moves by steps of its own, money stays where it is.\<close>

definition desk_moved :: "venue \<Rightarrow> desk \<Rightarrow> desk \<Rightarrow> bool" where
  "desk_moved v s t =
     (dk_rail t = dk_rail s \<and> dk_payments t = dk_payments s
      \<and> (\<forall>running. (guard_step (vn_host v) (vn_governor v) (vn_settings v) (vn_limits v))\<^sup>*\<^sup>* (dk_spine s, running) (dk_spine t, running)))"

interpretation mv: effect_frame "desk_moved v" for v
  by unfold_locales (auto simp: desk_moved_def intro: rtranclp_trans)

lemma moved_call:
  assumes "\<And>s t x running. m s = (t, x) \<Longrightarrow> (guard_step (vn_host v) (vn_governor v) (vn_settings v) (vn_limits v))\<^sup>*\<^sup>* (s, running) (t, running)"
  shows "keeps (desk_moved v) (call_spine d m f)"
  unfolding keeps_def
proof
  fix s :: desk
  obtain t x where m: "m (dk_spine s) = (t, x)" by fastforce
  have "desk_moved v s (s\<lparr>dk_spine := t\<rparr>)" using assms [OF m] by (simp add: desk_moved_def)
  then show "desk_moved v s (fst (call_spine d m f s))"
    by (cases d; cases x) (simp_all add: call_spine_def on_governed_def m mv.refl)
qed

lemma moved_modify: "(\<And>s. dk_rail (f s) = dk_rail s \<and> dk_payments (f s) = dk_payments s \<and> dk_spine (f s) = dk_spine s) \<Longrightarrow> keeps (desk_moved v) (modifyE f)"
  by (rule mv.keeps_modifyE) (simp add: desk_moved_def)

lemma moved_commit: "keeps (desk_moved v) (call_spine d (with_spine (commit_route (vn_host v) (vn_governor v) (vn_settings v) redis q)) f)"
proof (rule moved_call)
  fix s t x running
  assume "with_spine (commit_route (vn_host v) (vn_governor v) (vn_settings v) redis q) s = (t, x)"
  then have "spine_step (vn_host v) (vn_governor v) (vn_settings v) (gv_spine s) (gv_spine t)" "t = s\<lparr>gv_spine := gv_spine t\<rparr>"
    by (auto simp: with_spine_run intro: spine_step.commit)
  then show "(guard_step (vn_host v) (vn_governor v) (vn_settings v) (vn_limits v))\<^sup>*\<^sup>* (s, running) (t, running)"
    by (metis guard_step.work r_into_rtranclp)
qed

lemma moved_governing:
  assumes "vn_governor v \<noteq> Finance"
  shows "keeps (desk_moved v) (govern_operation v cl m p)"
proof -
  have "keeps (desk_moved v) (adapter_crystallize v cl r)" for r
    unfolding adapter_crystallize_def http_crystallize_def Let_def
    by (intro mv.keeps_rules moved_call) (auto intro!: guarded_route_steps [OF _ assms] moved_modify simp: save_crystal_def append_platform_event_def)
  moreover have "keeps (desk_moved v) (adapter_commit v cl a k q)" for a k q
    unfolding adapter_commit_def http_commit_def local_commit_def case_prod_unfold
    by (intro mv.keeps_rules moved_commit moved_modify) (simp add: append_platform_event_def)
  ultimately show ?thesis
    unfolding govern_operation_def validate_manifest_facets_def by (intro mv.keeps_rules) auto
qed

lemma keeps_run: "keeps R m \<Longrightarrow> m s = (t, x) \<Longrightarrow> R s t"
  by (metis fst_conv keeps_def)

text \<open>An operation that was governed to the end, over the spine: the crystallization and the commit were both answered.\<close>

lemma call_answered:
  assumes "call_spine d m f s = (t, Inr z)"
  shows "m (dk_spine s) = (dk_spine t, Inr z)"
  using assms by (cases d) (auto simp: call_spine_def on_governed_def split: prod.splits sum.splits)

lemma governed_to_the_end:
  assumes "vn_spine_enabled v" "should_commit m p" "govern_operation v cl m p s = (t, Inr (Some i))"
  shows "\<exists>g1 z y. guarded_crystallize_route (vn_host v) (vn_governor v) (vn_settings v) (vn_limits v) (vn_repr v) (cl_redis cl) (cl_spine_uuid cl)
        (operation_request m p) (dk_spine s) = (g1, Inr z) \<and> i = cz_crystal_id z
      \<and> commit_route (vn_host v) (vn_governor v) (vn_settings v) (cl_redis cl) (operation_commit m p i) (gv_spine g1) = (gv_spine (dk_spine t), Inr y)"
proof -
  let ?route = "guarded_crystallize_route (vn_host v) (vn_governor v) (vn_settings v) (vn_limits v) (vn_repr v) (cl_redis cl) (cl_spine_uuid cl) (operation_request m p)"
  have "validate_manifest_facets m (go_facets p) s = (s, Inr ())"
    using assms(3) by (auto simp: govern_operation_def validate_manifest_facets_def seqE_def bindE_def throw_def ret_def split: if_splits)
  then have "bindE (adapter_crystallize v cl (operation_request m p)) (\<lambda>crystal.
            seqE (adapter_commit v cl (mf_name m) (go_operation_id p) (operation_commit m p (cr_crystal_id crystal)))
              (ret (Some (cr_crystal_id crystal)))) s = (t, Inr (Some i))"
    using assms(2,3) by (auto simp: govern_operation_def seqE_run whenE_def catchE_def ret_def split: prod.splits sum.splits)
  then obtain s1 c where c: "http_crystallize v cl (operation_request m p) s = (s1, Inr c)" "i = cr_crystal_id c"
    "http_commit v cl (operation_commit m p i) s1 = (t, Inr ())"
    using assms(1) by (auto simp: adapter_crystallize_def adapter_commit_def bindE_def seqE_def ret_def split: prod.splits sum.splits)
  then obtain z where z: "call_spine (cl_crystallize cl) ?route (\<lambda>(code, _). Http_Status code) s = (s1, Inr z)" "cr_crystal_id c = cz_crystal_id z"
    by (auto simp: http_crystallize_def bindE_def getsE_def ret_def split: prod.splits sum.splits)
  from c(3) obtain y where "call_spine (cl_commit cl) (with_spine (commit_route (vn_host v) (vn_governor v) (vn_settings v) (cl_redis cl) (operation_commit m p i)))
      commit_refused s1 = (t, Inr y)"
    by (auto simp: http_commit_def seqE_def bindE_def ret_def split: prod.splits sum.splits)
  from call_answered [OF this] call_answered [OF z(1)] z(2) c(2) show ?thesis by (auto simp: with_spine_run)
qed

section \<open>Closed crystals\<close>

text \<open>A commit that answers, first or replayed, leaves its crystal closed.\<close>

lemma commit_closes:
  assumes "spine_reachable h g cfg s0 s" "commit_route h g cfg redis r s = (t, Inr y)"
  shows "\<exists>c \<in> set (governance_crystals (sp_committed t)). cr_crystal_id c = cm_crystal_id r \<and> cr_terminal_state c \<noteq> None"
proof -
  note rs = reachable_spine [OF assms(1)]
  have on: "\<not> writes_halted cfg redis s"
    using assms(2) by (auto simp: commit_route_def unless_halted_def getsE_def throw_def split: if_splits)
  have "wp (commit_route h g cfg redis r) (\<lambda>_ t. \<exists>c \<in> set (pr_crystals (protocol_of (sp_committed t))). cr_crystal_id c = cm_crystal_id r \<and> cr_terminal_state c \<noteq> None)
      (\<lambda>_ _. True) s"
  proof (rule wp_commit_route [OF rs(3,1,2) on], goal_cases)
    case (1 c e)
    then show ?case using load_crystal_pair(1,4) [OF rs(3) 1(1)] by auto
  next
    case (2 c e t)
    note l = load_crystal_pair [OF rs(3) 2(1)]
    have "sp_db s = sp_committed s" using rs(2) by (simp add: at_commit_def)
    then have "pr_crystals (protocol_of (sp_committed t))
        = update_where (\<lambda>x. cr_crystal_id x = ce_crystal_id e) (\<lambda>x. x\<lparr>cr_terminal_state := Some C_COMMITTED\<rparr>) (governance_crystals (sp_committed s))"
      using 2(4) by (simp add: advanced_def close_crystal_def)
    then show ?case using l(1,3,4) by (auto simp: set_update_where paired_def intro!: bexI [of _ "c\<lparr>cr_terminal_state := Some C_COMMITTED\<rparr>"])
  qed simp
  from wpD_Inr [OF this assms(2)] show ?thesis by simp
qed

text \<open>What a payment on the rail needs: a crystal of its claim that is closed.\<close>

definition closed_crystal :: "spine_db \<Rightarrow> string \<Rightarrow> string \<Rightarrow> bool" where
  "closed_crystal d i claim_id =
     (\<exists>c \<in> set (governance_crystals d).
        cr_crystal_id c = i \<and> cr_platform c = ''claim_gate'' \<and> cr_operation_id c = claim_id \<and> cr_terminal_state c \<noteq> None)"

lemma closed_crystalI:
  assumes "c' \<in> set (governance_crystals d)" "same_crystal c c'" "cr_terminal_state c' \<noteq> None" "cr_platform c = ''claim_gate''"
  shows "closed_crystal d (cr_crystal_id c) (cr_operation_id c)"
  unfolding closed_crystal_def by (rule bexI [OF _ assms(1)]) (use assms(3,4) same_crystal_fields [OF assms(2)] in simp)

lemma protocol_step_closed:
  assumes "protocol_step g cfg p q" "c \<in> set (pr_crystals p)" "cr_terminal_state c \<noteq> None"
  shows "\<exists>c' \<in> set (pr_crystals q). same_crystal c c' \<and> cr_terminal_state c' \<noteq> None"
  using assms(1)
proof cases
  case (Closing e k)
  have "(if cr_crystal_id c = ce_crystal_id e then c\<lparr>cr_terminal_state := Some (closing_status k)\<rparr> else c) \<in> set (pr_crystals q)"
    using assms(2) Closing by (auto simp: set_update_where)
  then show ?thesis by (rule bexI [rotated]) (use assms(3) in \<open>simp add: same_crystal_def\<close>)
qed (use assms in \<open>auto intro!: bexI [of _ c]\<close>)

lemma closed_stays:
  assumes "(protocol_step g cfg)\<^sup>*\<^sup>* (protocol_of d) (protocol_of d')" "closed_crystal d i claim_id"
  shows "closed_crystal d' i claim_id"
proof -
  from assms(2) obtain c where c: "c \<in> set (pr_crystals (protocol_of d))" "cr_terminal_state c \<noteq> None"
    "cr_crystal_id c = i" "cr_platform c = ''claim_gate''" "cr_operation_id c = claim_id" by (auto simp: closed_crystal_def)
  from assms(1) have "\<exists>c' \<in> set (pr_crystals (protocol_of d')). same_crystal c c' \<and> cr_terminal_state c' \<noteq> None"
  proof (induction rule: rtranclp_induct)
    case base
    then show ?case using c by (auto intro!: bexI [of _ c])
  next
    case (step p q)
    then obtain c1 where c1: "c1 \<in> set (pr_crystals p)" "same_crystal c c1" "cr_terminal_state c1 \<noteq> None" by blast
    from protocol_step_closed [OF step.hyps(2) c1(1,3)] c1(2) show ?case by (auto simp: same_crystal_def)
  qed
  then obtain c' where "c' \<in> set (governance_crystals d')" "same_crystal c c'" "cr_terminal_state c' \<noteq> None" by auto
  from closed_crystalI [OF this c(4)] c(3,5) show ?thesis by simp
qed

lemma claim_closed:
  assumes "spine_reachable (vn_host v) (vn_governor v) (vn_settings v) s0 (gv_spine (dk_spine s))" "vn_governor v \<noteq> Finance"
    and "vn_spine_enabled v" "should_commit m p" "mf_name m = ''claim_gate''" "govern_operation v cl m p s = (t, Inr (Some i))"
  shows "closed_crystal (sp_committed (gv_spine (dk_spine t))) i (go_operation_id p)"
proof -
  let ?h = "vn_host v" and ?g = "vn_governor v" and ?cfg = "vn_settings v"
  from governed_to_the_end [OF assms(3,4,6)] obtain g1 z y where
    r: "guarded_crystallize_route ?h ?g ?cfg (vn_limits v) (vn_repr v) (cl_redis cl) (cl_spine_uuid cl) (operation_request m p) (dk_spine s) = (g1, Inr z)"
      "i = cz_crystal_id z"
    and y: "commit_route ?h ?g ?cfg (cl_redis cl) (operation_commit m p i) (gv_spine g1) = (gv_spine (dk_spine t), Inr y)" by blast
  from guarded_route_cases [OF r(1)] assms(2)
  have route: "spine_crystallize_route ?h ?g ?cfg (cl_redis cl) (cl_spine_uuid cl) (operation_request m p) (gv_spine (dk_spine s)) = (gv_spine g1, Inr z)"
    by (auto simp: spine_crystallize_route_def)
  have g1: "spine_reachable ?h ?g ?cfg s0 (gv_spine g1)"
    using assms(1) spine_step.crystallize [OF route] by (auto simp: spine_reachable_def)
  have t: "spine_reachable ?h ?g ?cfg s0 (gv_spine (dk_spine t))"
    using g1 spine_step.commit [OF y] by (auto simp: spine_reachable_def)
  from route_answered [OF assms(1) route] obtain c where
    c: "find_crystal_of (mf_name m) (go_operation_id p) (sp_committed (gv_spine g1)) = Some c" "cr_crystal_id c = i"
    using r(2) by (auto simp: answered_def operation_request_def replayed_def)
  then have in1: "c \<in> set (pr_crystals (protocol_of (sp_committed (gv_spine g1))))" "cr_platform c = mf_name m" "cr_operation_id c = go_operation_id p"
    by (auto simp: find_crystal_of_def dest!: row_where_Some)
  from protocol_steps_crystal [OF spine_step_protocol [OF g1 spine_step.commit [OF y]] in1(1)] obtain c'
    where c': "c' \<in> set (governance_crystals (sp_committed (gv_spine (dk_spine t))))" "same_crystal c c'" by auto
  from commit_closes [OF g1 y] obtain k where
    k: "k \<in> set (governance_crystals (sp_committed (gv_spine (dk_spine t))))" "cr_crystal_id k = i" "cr_terminal_state k \<noteq> None"
    by (auto simp: operation_commit_def)
  note parts = spine_inv_parts [OF reachable_spine(3) [OF t]]
  have "distinct (map cr_crystal_id (governance_crystals (sp_committed (gv_spine (dk_spine t)))))" using parts(3,4) by (simp add: crystal_ids)
  from same_key [OF this c'(1) k(1)] c(2) k(2) c'(2) have "c' = k" by (simp add: same_crystal_fields)
  with closed_crystalI [OF c'(1,2)] k(3) c(2) in1(2,3) assms(5) show ?thesis by simp
qed

section \<open>The evaluate route\<close>

lemma evaluation_cases:
  assumes "run_evaluation v number b te cl hex today q s = (t, x)" "vn_governor v \<noteq> Finance"
  obtains (unpaid) "desk_moved v s t"
    | (submitted) u ev i key y where "desk_moved v s u" "pq_idempotency_key q = Some key"
        "govern_operation v cl claim_manifest (claim_operation v number q ev) s = (u, Inr i)"
        "submit_payment (vn_repr v) b te (pq_claim_id q) (pv_net_payable ev) (pq_currency q) (pq_payee_id q) key (pv_decision ev) i u = (t, y)"
proof -
  obtain o' where policy: "resolve_policy (pq_policy_number q) s = (s, o')"
    by (cases "row_where (\<lambda>p. pc_policy_number p = pq_policy_number q) DEFAULT_POLICIES") (auto simp: resolve_policy_def throw_def ret_def)
  show thesis
  proof (cases o')
    case (Inl e)
    with assms(1) policy have "t = s" by (simp add: run_evaluation_def bindE_def)
    with unpaid mv.refl show thesis by simp
  next
    case (Inr policy')
    define ev where "ev = request_evaluation hex today q policy'"
    obtain u j where g: "govern_operation v cl claim_manifest (claim_operation v number q ev) s = (u, j)" by fastforce
    have moved: "desk_moved v s u" using keeps_run [OF moved_governing [OF assms(2)] g] .
    note run = assms(1) [unfolded run_evaluation_def bindE_def [of "resolve_policy _"] policy, simplified Inr, simplified,
      unfolded Let_def ev_def [symmetric] bindE_def [of "govern_operation _ _ _ _"] g, simplified]
    show thesis
    proof (cases j)
      case (Inl e)
      with run moved unpaid show thesis by simp
    next
      case (Inr i)
      show thesis
      proof (cases "truthy (pq_idempotency_key q)")
        case False
        with run Inr moved unpaid show thesis by (simp add: bindE_def ret_def)
      next
        case True
        then obtain key where key: "pq_idempotency_key q = Some key" by (cases "pq_idempotency_key q") (auto simp: truthy_def)
        obtain w y where w: "submit_payment (vn_repr v) b te (pq_claim_id q) (pv_net_payable ev) (pq_currency q) (pq_payee_id q) key (pv_decision ev) i u = (w, y)"
          by fastforce
        with run Inr True key have "t = w" by (cases y) (auto simp: bindE_def ret_def)
        with submitted [OF moved key] g Inr w show thesis by blast
      qed
    qed
  qed
qed

text \<open>The steps of a desk: requests, with what each meets outside the process, and whatever else happens at the spine.\<close>

inductive desk_step :: "venue \<Rightarrow> (rat \<Rightarrow> json) \<Rightarrow> bank \<Rightarrow> (teller \<Rightarrow> bool) \<Rightarrow> desk \<Rightarrow> desk \<Rightarrow> bool" for v number b ok where
  evaluate: "ok te \<Longrightarrow> run_evaluation v number b te cl hex today q s = (t, x) \<Longrightarrow> desk_step v number b ok s t"
| elsewhere: "guard_step (vn_host v) (vn_governor v) (vn_settings v) (vn_limits v) (dk_spine s, running) (w, running')
    \<Longrightarrow> desk_step v number b ok s (s\<lparr>dk_spine := w\<rparr>)"

text \<open>Every payment on the rail is covered: a closed crystal of its claim.\<close>

definition covered :: "desk \<Rightarrow> payment \<Rightarrow> bool" where
  "covered s p = (\<exists>i. py_crystal_id p = Some i \<and> closed_crystal (sp_committed (gv_spine (dk_spine s))) i (py_claim_id p))"

definition desk_governed :: "venue \<Rightarrow> spine \<Rightarrow> desk \<Rightarrow> bool" where
  "desk_governed v s0 s =
     (vn_spine_enabled v \<and> vn_governor v \<noteq> Finance
      \<and> spine_reachable (vn_host v) (vn_governor v) (vn_settings v) s0 (gv_spine (dk_spine s)) \<and> (\<forall>p \<in> set (dk_rail s). covered s p))"

lemma spine_moved_governed:
  assumes "desk_governed v s0 s" "dk_rail t = dk_rail s"
    and "(guard_step (vn_host v) (vn_governor v) (vn_settings v) (vn_limits v))\<^sup>*\<^sup>* (dk_spine s, running) (dk_spine t, running')"
  shows "desk_governed v s0 t"
proof -
  have r: "spine_reachable (vn_host v) (vn_governor v) (vn_settings v) s0 (gv_spine (dk_spine s))" using assms(1) by (simp add: desk_governed_def)
  note steps = spine_steps_protocol [OF r guard_steps_spine [OF assms(3), simplified]]
  have "covered t p" if "covered s p" for p
    using that closed_stays [OF conjunct2 [OF steps]] by (auto simp: covered_def)
  then show ?thesis using assms(1,2) conjunct1 [OF steps] by (auto simp: desk_governed_def)
qed

lemma desk_step_governed:
  assumes "desk_governed v s0 s" "desk_step v number b ok s t"
  shows "desk_governed v s0 t"
  using assms(2)
proof cases
  case (elsewhere running w running')
  then show ?thesis using spine_moved_governed [OF assms(1), of t running running'] by auto
next
  case (evaluate te cl hex today q x)
  have fin: "vn_governor v \<noteq> Finance" using assms(1) by (simp add: desk_governed_def)
  from evaluate(2) fin show ?thesis
  proof (cases rule: evaluation_cases)
    case unpaid
    then show ?thesis using spine_moved_governed [OF assms(1)] by (auto simp: desk_moved_def)
  next
    case (submitted u ev i key y)
    have u: "desk_governed v s0 u" using spine_moved_governed [OF assms(1)] submitted(1) by (auto simp: desk_moved_def)
    note run = submit_payment_run [OF submitted(4)]
    from run(2) show ?thesis
    proof
      assume "dk_rail t = dk_rail u"
      then show ?thesis using u run(1) by (simp add: desk_governed_def covered_def)
    next
      assume "\<exists>p i'. pv_decision ev = ''APPROVED'' \<and> i = Some i' \<and> handed_over (pq_claim_id q) (pv_net_payable ev) key i' p \<and> dk_rail t = dk_rail u @ [p]"
      then obtain p i' where p: "pv_decision ev = ''APPROVED''" "i = Some i'" "handed_over (pq_claim_id q) (pv_net_payable ev) key i' p"
        "dk_rail t = dk_rail u @ [p]" by blast
      have "closed_crystal (sp_committed (gv_spine (dk_spine u))) i' (go_operation_id (claim_operation v number q ev))"
        using assms(1) p(1,2) submitted(3)
        by (intro claim_closed) (auto simp: desk_governed_def should_commit_def claim_manifest_def claim_operation_def)
      then have "covered t p" using p(3) run(1) by (simp add: covered_def handed_over_def claim_operation_def)
      with u p(4) run(1) show ?thesis by (auto simp: desk_governed_def covered_def)
    qed
  qed
qed

interpretation dg: invariant_system
  "\<lambda>s. vn_spine_enabled v \<and> vn_governor v \<noteq> Finance \<and> digest_ok (vn_host v) \<and> gv_spine (dk_spine s) = s0 \<and> spine_start s0 \<and> dk_rail s = []"
  "desk_step v number b ok" "desk_governed v s0" for v number b ok s0
  by unfold_locales (simp add: desk_governed_def spine_reachable_def, rule desk_step_governed)

section \<open>One payment per key\<close>

definition keys_once :: "desk \<Rightarrow> bool" where
  "keys_once s =
     (distinct (map py_idempotency_key (dk_rail s)) \<and> py_idempotency_key ` set (dk_rail s) \<subseteq> py_idempotency_key ` set (dk_payments s))"

lemma desk_step_keys:
  assumes "keys_once s" "desk_step v number b (working k) s t" "vn_governor v \<noteq> Finance"
  shows "keys_once t"
  using assms(2)
proof cases
  case (elsewhere running w running')
  then show ?thesis using assms(1) by (simp add: keys_once_def)
next
  case (evaluate te cl hex today q x)
  from evaluate(2) assms(3) show ?thesis
  proof (cases rule: evaluation_cases)
    case unpaid
    then show ?thesis using assms(1) by (simp add: keys_once_def desk_moved_def)
  next
    case (submitted u ev i key y)
    have u: "keys_once u" using assms(1) submitted(1) by (simp add: keys_once_def desk_moved_def)
    from submit_payment_run(2) [OF submitted(4)] submit_payment_keys [OF submitted(4) evaluate(1)] u show ?thesis
      unfolding keys_once_def handed_over_def stored_None by (elim disjE exE conjE) auto
  qed
qed

interpretation ko: invariant_system "\<lambda>s. vn_governor v \<noteq> Finance \<and> dk_rail s = []" "desk_step v number b (working k)"
  "\<lambda>s. vn_governor v \<noteq> Finance \<and> keys_once s" for v number b k
  by unfold_locales (simp add: keys_once_def, blast intro: desk_step_keys)

section \<open>Requests that go through\<close>

lemma release_total: "\<exists>t. release_crystallize h g cfg a s = (t, Inr ())"
  by (auto simp: release_crystallize_def getsE_def catchE_def seqE_def bindE_def spine_mark_degraded_def whenE_def noted_def modifyE_def ret_def
      local_release_crystallize_def split: prod.split sum.split)

text \<open>What the spine asks of a request before its ledger: writes are on, the guardrails admit it, the platform is registered.\<close>

definition let_in :: "venue \<Rightarrow> calls \<Rightarrow> crystallize_request \<Rightarrow> governed \<Rightarrow> bool" where
  "let_in v cl r s =
     (\<not> writes_halted (vn_settings v) (cl_redis cl) (gv_spine s)
      \<and> snd (seqE (get_spine_guardrails (vn_host v) (vn_limits v))
           (check_crystallize (vn_host v) (vn_governor v) (vn_settings v) (vn_limits v) (cq_account_id r) (scope_id_of (vn_governor v) (vn_repr v) r)
              (cq_operation_id r)) s) = Inr ()
      \<and> guard_platform (vn_settings v) (cq_platform r) (cq_facets r) (gv_spine s) = (gv_spine s, Inr ()))"

lemma guarded_forward:
  assumes "let_in v cl r s"
    and "spine_session (seqE (guard_platform (vn_settings v) (cq_platform r) (cq_facets r))
      (claim_crystallize_operation (vn_host v) (vn_governor v) (vn_settings v) uuid r)) (gv_spine s) = (p, Inr z)"
  shows "\<exists>t. guarded_crystallize_route (vn_host v) (vn_governor v) (vn_settings v) (vn_limits v) (vn_repr v) (cl_redis cl) uuid r s = (t, Inr z) \<and> gv_spine t = p"
proof -
  let ?check = "check_crystallize (vn_host v) (vn_governor v) (vn_settings v) (vn_limits v) (cq_account_id r) (scope_id_of (vn_governor v) (vn_repr v) r) (cq_operation_id r)"
  let ?body = "spine_session (seqE (guard_platform (vn_settings v) (cq_platform r) (cq_facets r)) (claim_crystallize_operation (vn_host v) (vn_governor v) (vn_settings v) uuid r))"
  obtain s1 where s1: "get_spine_guardrails (vn_host v) (vn_limits v) s = (s1, Inr ())" using guardrails_connect_run by blast
  obtain s2 x where s2: "?check s1 = (s2, x)" by fastforce
  have x: "x = Inr ()" using assms(1) s1 s2 by (cases x) (auto simp: let_in_def seqE_run)
  have sp: "gv_spine s2 = gv_spine s" using spine_run [OF spine_limiter(3) s1] spine_run [OF spine_check s2] by simp
  obtain t where t: "release_crystallize (vn_host v) (vn_governor v) (vn_settings v) (cq_account_id r) (s2\<lparr>gv_spine := p\<rparr>) = (t, Inr ())"
    using release_total by blast
  have "catchE (seqE ?check (with_spine ?body)) claim_except s1 = (s2\<lparr>gv_spine := p\<rparr>, Inr z)"
    using s2 x sp assms(2) by (simp add: catchE_def seqE_run with_spine_def)
  then have "guarded_crystallize_route (vn_host v) (vn_governor v) (vn_settings v) (vn_limits v) (vn_repr v) (cl_redis cl) uuid r s = (t, Inr z)"
    using assms(1) s1 t by (simp add: guarded_crystallize_route_def let_in_def seqE_halted(2) seqE_run finallyE_def)
  moreover have "gv_spine t = p" using spine_run [OF spine_release t] by simp
  ultimately show ?thesis by blast
qed

text \<open>Both operations on a claim that has its crystal answer from it and leave the tables alone.\<close>

lemma crystallize_again:
  assumes "at_commit s" "guard_platform cfg (cq_platform r) (cq_facets r) s = (s, Inr ())"
    and "find_crystal_of (cq_platform r) (cq_operation_id r) (sp_committed s) = Some c"
  shows "\<exists>n. spine_session (seqE (guard_platform cfg (cq_platform r) (cq_facets r)) (claim_crystallize_operation h g cfg uuid r)) s
    = (s\<lparr>sp_counters := n\<rparr>, Inr (replayed r c))"
  using assms
  by (cases s) (auto simp: at_commit_def spine_session_def claim_crystallize_operation_def seqE_def bindE_def getsE_def modifyE_def ret_def count_by_def)

lemma commit_again:
  assumes "at_commit s" "\<not> writes_halted cfg redis s" "load_crystal (cm_crystal_id r) (sp_committed s) = Some (c, e)" "cr_terminal_state c \<noteq> None"
  shows "commit_route h g cfg redis r s = (s, Inr (replay_reply c))"
proof -
  have "sp_db s = sp_committed s" "s\<lparr>sp_db := sp_committed s\<rparr> = s" using assms(1) by (simp_all add: at_commit_def)
  then show ?thesis
    using assms(2-4)
    by (simp add: commit_route_def unless_halted_def getsE_def catchE_def spine_session_def commit_operation_def ret_def replay_reply_def)
qed

lemma governed_completes:
  assumes "vn_spine_enabled v" "cl_crystallize cl = Answered" "cl_commit cl = Answered" "missing_facets m (go_facets p) = []" "should_commit m p"
    and "guarded_crystallize_route (vn_host v) (vn_governor v) (vn_settings v) (vn_limits v) (vn_repr v) (cl_redis cl) (cl_spine_uuid cl)
        (operation_request m p) (dk_spine s) = (g1, Inr z)"
    and "commit_route (vn_host v) (vn_governor v) (vn_settings v) (cl_redis cl) (operation_commit m p (cz_crystal_id z)) (gv_spine g1) = (sp', Inr y)"
  shows "govern_operation v cl m p s = (s\<lparr>dk_spine := g1\<lparr>gv_spine := sp'\<rparr>\<rparr>, Inr (Some (cz_crystal_id z)))"
  using assms
  by (simp add: govern_operation_def validate_manifest_facets_def adapter_crystallize_def http_crystallize_def adapter_commit_def http_commit_def
      seqE_def bindE_def catchE_def whenE_def getsE_def ret_def call_spine_def on_governed_def with_spine_def)

text \<open>A rail that hands payments over.\<close>

definition rail_connected :: "bank \<Rightarrow> bool" where
  "rail_connected b =
     (let mode = payment_rail_mode b
      in mode = ''sandbox'' \<or> mode = ''fednow'' \<and> bk_fednow_url b \<or> mode \<in> {''clearinghouse'', ''ach'', ''clearinghouse_sandbox''} \<and> bk_ach_url b)"

lemma dispatched_forward:
  assumes "rail_connected b"
  shows "\<exists>y. dispatched repr b p s = (s\<lparr>dk_rail := dk_rail s @ [p]\<rparr>, Inr y) \<and> py_idempotency_key y = py_idempotency_key p"
proof -
  obtain u x where d: "dispatch_payment repr b p s = (u, x)" by fastforce
  with assms have "u = s\<lparr>dk_rail := dk_rail s @ [p]\<rparr>"
    by (auto simp: rail_connected_def dispatch_payment_def dispatch_fednow_def dispatch_clearinghouse_def post_payment_def Let_def split: if_splits sum.splits)
  with d show ?thesis by (cases x) (auto simp: dispatched_def)
qed

definition reads :: "teller \<Rightarrow> bool" where
  "reads te = (tl_store te = Memory \<or> tl_read te = Connected)"

lemma submit_forward:
  assumes "rail_connected b" "reads te" "stored_payment key (dk_payments s) = None" "truthy crystal_id"
  shows "\<exists>y. submit_payment repr b te claim_id amount currency payee_id key ''APPROVED'' crystal_id s
      = payment_save (tl_store te) (tl_write te) y (s\<lparr>dk_rail := dk_rail s @ [instruction_of b te claim_id amount currency payee_id key crystal_id]\<rparr>)
    \<and> py_idempotency_key y = key"
proof -
  let ?p = "instruction_of b te claim_id amount currency payee_id key crystal_id"
  from dispatched_forward [OF assms(1)] obtain y where
    y: "dispatched repr b ?p s = (s\<lparr>dk_rail := dk_rail s @ [?p]\<rparr>, Inr y)" "py_idempotency_key y = py_idempotency_key ?p" by blast
  have "payment_get (tl_store te) (tl_read te) key s = (s, Inr None)"
    using assms(2,3) by (auto simp: payment_get_def reads_def getsE_def ret_def)
  then have "submit_payment repr b te claim_id amount currency payee_id key ''APPROVED'' crystal_id s
      = payment_save (tl_store te) (tl_write te) y (s\<lparr>dk_rail := dk_rail s @ [?p]\<rparr>)"
    using assms(4) y(1) unfolding submit_payment_def instruction_of_def [symmetric] by (simp add: bindE_def)
  then show ?thesis using y(2) by (auto simp: instruction_of_def payment_of_def)
qed

lemma evaluation_completes:
  assumes "resolve_policy (pq_policy_number q) s = (s, Inr policy)" "ev = request_evaluation hex today q policy" "pv_decision ev = ''APPROVED''"
    and "govern_operation v cl claim_manifest (claim_operation v number q ev) s = (u, Inr (Some i))" "i \<noteq> []"
    and "pq_idempotency_key q = Some key" "key \<noteq> []" "rail_connected b" "reads te" "stored_payment key (dk_payments u) = None"
  shows "\<exists>t x p. run_evaluation v number b te cl hex today q s = (t, x) \<and> dk_rail t = dk_rail u @ [p] \<and> dk_spine t = dk_spine u
    \<and> handed_over (pq_claim_id q) (pv_net_payable ev) key i p \<and> (tl_store te = Postgres \<and> tl_write te \<noteq> Connected \<longrightarrow> dk_payments t = dk_payments u)"
proof -
  let ?p = "instruction_of b te (pq_claim_id q) (pv_net_payable ev) (pq_currency q) (pq_payee_id q) key (Some i)"
  from submit_forward [OF assms(8-10), of "Some i" "vn_repr v" "pq_claim_id q" "pv_net_payable ev" "pq_currency q" "pq_payee_id q"] assms(5)
  obtain y where y: "submit_payment (vn_repr v) b te (pq_claim_id q) (pv_net_payable ev) (pq_currency q) (pq_payee_id q) key ''APPROVED'' (Some i) u
      = payment_save (tl_store te) (tl_write te) y (u\<lparr>dk_rail := dk_rail u @ [?p]\<rparr>)" by (auto simp: truthy_def)
  obtain t x where t: "payment_save (tl_store te) (tl_write te) y (u\<lparr>dk_rail := dk_rail u @ [?p]\<rparr>) = (t, x)" by fastforce
  have "\<exists>x'. run_evaluation v number b te cl hex today q s = (t, x')"
    using assms(1-7) y t
    by (cases x) (auto simp: run_evaluation_def bindE_def ret_def truthy_def Let_def)
  moreover have "handed_over (pq_claim_id q) (pv_net_payable ev) key i ?p"
    using instruction_handed_over [of "Some i"] assms(5) by (simp add: truthy_def)
  ultimately show ?thesis using payment_save_run [OF t] by auto
qed

section \<open>Claims that are paid again\<close>

text \<open>A claim that the spine has closed, whatever closed it, and a request that gets as far as the ledger.\<close>

definition claim_settled :: "string \<Rightarrow> crystal_row \<Rightarrow> spine \<Rightarrow> bool" where
  "claim_settled claim_id c s =
     (at_commit s \<and> find_crystal_of ''claim_gate'' claim_id (sp_committed s) = Some c \<and> cr_terminal_state c \<noteq> None \<and> cr_crystal_id c \<noteq> []
      \<and> map_option fst (load_crystal (cr_crystal_id c) (sp_committed s)) = Some c)"

lemma settled_claim_governed:
  assumes "vn_spine_enabled v" "cl_crystallize cl = Answered" "cl_commit cl = Answered"
    and "claim_settled (pq_claim_id q) c (gv_spine (dk_spine s))" "pv_decision ev = ''APPROVED''"
    and "let_in v cl (operation_request claim_manifest (claim_operation v number q ev)) (dk_spine s)"
  shows "\<exists>u. govern_operation v cl claim_manifest (claim_operation v number q ev) s = (u, Inr (Some (cr_crystal_id c)))
    \<and> dk_rail u = dk_rail s \<and> dk_payments u = dk_payments s
    \<and> (\<exists>n. gv_spine (dk_spine u) = (gv_spine (dk_spine s))\<lparr>sp_counters := n\<rparr>)"
proof -
  let ?p = "claim_operation v number q ev" and ?sp = "gv_spine (dk_spine s)"
  let ?r = "operation_request claim_manifest ?p" and ?q = "operation_commit claim_manifest ?p (cr_crystal_id c)"
  have r: "cq_platform ?r = ''claim_gate''" "cq_operation_id ?r = pq_claim_id q"
    by (simp_all add: operation_request_def claim_manifest_def claim_operation_def)
  from assms(4) obtain e where
    c: "at_commit ?sp" "find_crystal_of ''claim_gate'' (pq_claim_id q) (sp_committed ?sp) = Some c" "cr_terminal_state c \<noteq> None"
      "load_crystal (cr_crystal_id c) (sp_committed ?sp) = Some (c, e)"
    by (auto simp: claim_settled_def)
  from crystallize_again [OF c(1), of "vn_settings v" ?r c "vn_host v" "vn_governor v" "cl_spine_uuid cl"] assms(6) c(2) r obtain n where
    n: "spine_session (seqE (guard_platform (vn_settings v) (cq_platform ?r) (cq_facets ?r))
      (claim_crystallize_operation (vn_host v) (vn_governor v) (vn_settings v) (cl_spine_uuid cl) ?r)) ?sp = (?sp\<lparr>sp_counters := n\<rparr>, Inr (replayed ?r c))"
    by (auto simp: let_in_def)
  from guarded_forward [OF assms(6) n] obtain g1 where
    g1: "guarded_crystallize_route (vn_host v) (vn_governor v) (vn_settings v) (vn_limits v) (vn_repr v) (cl_redis cl) (cl_spine_uuid cl) ?r (dk_spine s)
      = (g1, Inr (replayed ?r c))" "gv_spine g1 = ?sp\<lparr>sp_counters := n\<rparr>" by blast
  have "commit_route (vn_host v) (vn_governor v) (vn_settings v) (cl_redis cl) ?q (gv_spine g1) = (gv_spine g1, Inr (replay_reply c))"
    using assms(6) c by (intro commit_again [of _ _ _ _ _ e])
      (auto simp: g1(2) at_commit_def let_in_def writes_halted_def spine_diagnostic_mode_def operation_commit_def)
  moreover have "missing_facets claim_manifest (go_facets ?p) = []" "should_commit claim_manifest ?p"
    using assms(5) by (simp_all add: missing_facets_def claim_manifest_def claim_operation_def payout_facets_def should_commit_def)
  ultimately have "govern_operation v cl claim_manifest ?p s = (s\<lparr>dk_spine := g1\<lparr>gv_spine := gv_spine g1\<rparr>\<rparr>, Inr (Some (cr_crystal_id c)))"
    using governed_completes [OF assms(1-3) _ _ g1(1)] by (simp add: replayed_def)
  with g1(2) show ?thesis by auto
qed

section \<open>A desk\<close>

text \<open>A carrier with one account, the registered claim gate, the sandbox rail and the store in memory, and a claim of 510 dollars under a
  deductible of 500.\<close>

definition sample_venue :: venue where
  "sample_venue =
     \<lparr>vn_governor = Insurance, vn_host = sample_host, vn_settings = default_spine_settings, vn_limits = default_settings, vn_repr = (\<lambda>_. []),
      vn_spine_enabled = True\<rparr>"

definition sample_tables :: spine_db where
  "sample_tables =
     (sp_committed sample_spine)
       \<lparr>account_ledgers := map (\<lambda>a. a\<lparr>la_ledger_type := ledger_type_of Insurance\<rparr>) (account_ledgers (sp_committed sample_spine)),
        platform_registry := Some [\<lparr>pf_platform_name = ''claim_gate'', pf_enabled = True, pf_default_policy_id = None, pf_facet_schema = [],
          pf_manifest = []\<rparr>]\<rparr>"

definition desk_at :: "spine_db \<Rightarrow> desk" where
  "desk_at d =
     \<lparr>dk_spine = sample_governed\<lparr>gv_spine := sample_spine\<lparr>sp_db := d, sp_committed := d\<rparr>\<rparr>, dk_crystals = [], dk_events = [], dk_payments = [],
      dk_rail = []\<rparr>"

definition sample_bank :: bank where
  "sample_bank =
     \<lparr>bk_mode = ''sandbox'', bk_fednow_url = False, bk_fednow_sandbox_url = False, bk_clearinghouse_url = False, bk_clearinghouse_sandbox_url = False,
      bk_ach_url = False, bk_post = (\<lambda>_. Inl ''offline'')\<rparr>"

definition sample_teller :: teller where
  "sample_teller = \<lparr>tl_store = Memory, tl_read = Connected, tl_write = Connected, tl_payment_hex = ''p1''\<rparr>"

definition sample_calls :: calls where
  "sample_calls = \<lparr>cl_spine_uuid = ''u1'', cl_local_uuid = ''u2'', cl_redis = False, cl_crystallize = Answered, cl_commit = Answered\<rparr>"

definition sample_payout :: payout_request where
  "sample_payout =
     \<lparr>pq_claim_id = ''clm-1'', pq_payout_amount = Dec 510 0, pq_currency = ''USD'', pq_policy_number = ''POL-AUTO-001'', pq_loss_date = Some 20000,
      pq_siu_flag = False, pq_fraud_signals = [], pq_account_id = ''desk'', pq_policy_id = ''p1'', pq_payee_id = ''bob'',
      pq_idempotency_key = Some ''k1''\<rparr>"

definition sample_ev :: payout_evaluation where
  "sample_ev = request_evaluation ''h1'' 20001 sample_payout (hd DEFAULT_POLICIES)"

definition sample_operation :: governed_operation where
  "sample_operation = claim_operation sample_venue (\<lambda>_. JNull) sample_payout sample_ev"

lemma sample_ev_run: "pv_decision sample_ev = ''APPROVED'' \<and> pv_net_payable sample_ev = Dec 1000 (- 2)"
  by code_simp

lemma sample_desk_facts [simp]:
  "rail_connected sample_bank" "reads sample_teller" "working Memory sample_teller" "dk_rail (desk_at d) = []" "dk_payments (desk_at d) = []"
  "pq_idempotency_key sample_payout = Some ''k1''" "pq_claim_id sample_payout = ''clm-1''" "stored_payment k [] = None"
  "vn_spine_enabled sample_venue" "vn_governor sample_venue = Insurance" "vn_host sample_venue = sample_host"
  "vn_settings sample_venue = default_spine_settings" "vn_limits sample_venue = default_settings" "vn_repr sample_venue = (\<lambda>_. [])"
  "cl_crystallize sample_calls = Answered" "cl_commit sample_calls = Answered" "cl_redis sample_calls = False" "cl_spine_uuid sample_calls = ''u1''"
proof -
  show "rail_connected sample_bank" by code_simp
qed (simp_all add: reads_def working_def sample_teller_def desk_at_def sample_payout_def stored_payment_def sample_venue_def sample_calls_def)

lemma sample_policy: "resolve_policy (pq_policy_number sample_payout) s = (s, Inr (hd DEFAULT_POLICIES))"
  by (simp add: resolve_policy_def sample_payout_def DEFAULT_POLICIES_def ret_def)

definition sample_open_spine :: governed where
  "sample_open_spine =
     fst (guarded_crystallize_route sample_host Insurance default_spine_settings default_settings (\<lambda>_. []) False ''u1''
       (operation_request claim_manifest sample_operation) (dk_spine (desk_at sample_tables)))"

lemma sample_open_run:
  "map_sum (\<lambda>_. ()) cz_crystal_id (snd (guarded_crystallize_route sample_host Insurance default_spine_settings default_settings (\<lambda>_. []) False ''u1''
       (operation_request claim_manifest sample_operation) (dk_spine (desk_at sample_tables)))) = Inr ''crys_u1''"
  by code_simp

lemma sample_closed_run:
  "map_sum (\<lambda>_. ()) co_status (snd (commit_route sample_host Insurance default_spine_settings False
       (operation_commit claim_manifest sample_operation ''crys_u1'') (gv_spine sample_open_spine))) = Inr ''COMMITTED''"
  by code_simp

lemma map_sum_Inr: "map_sum f g (snd x) = Inr y \<Longrightarrow> \<exists>t z. x = (t, Inr z) \<and> g z = y"
  by (cases x; cases "snd x") auto

definition sample_paid_desk :: desk where
  "sample_paid_desk = fst (run_evaluation sample_venue (\<lambda>_. JNull) sample_bank sample_teller sample_calls ''h1'' 20001 sample_payout (desk_at sample_tables))"

lemma sample_paid: "\<exists>p. dk_rail sample_paid_desk = [p] \<and> handed_over ''clm-1'' (Dec 1000 (- 2)) ''k1'' ''crys_u1'' p"
proof -
  from map_sum_Inr [OF sample_open_run] obtain z where
    z: "guarded_crystallize_route sample_host Insurance default_spine_settings default_settings (\<lambda>_. []) False ''u1''
       (operation_request claim_manifest sample_operation) (dk_spine (desk_at sample_tables)) = (sample_open_spine, Inr z)" "cz_crystal_id z = ''crys_u1''"
    by (auto simp: sample_open_spine_def)
  from map_sum_Inr [OF sample_closed_run] obtain sp' y where
    y: "commit_route sample_host Insurance default_spine_settings False (operation_commit claim_manifest sample_operation ''crys_u1'') (gv_spine sample_open_spine)
      = (sp', Inr y)" by blast
  have "govern_operation sample_venue sample_calls claim_manifest sample_operation (desk_at sample_tables)
      = ((desk_at sample_tables)\<lparr>dk_spine := sample_open_spine\<lparr>gv_spine := sp'\<rparr>\<rparr>, Inr (Some ''crys_u1''))"
    by (subst z(2) [symmetric], rule governed_completes [where y = y])
      (use z y sample_ev_run in \<open>simp_all add: missing_facets_def claim_manifest_def sample_operation_def claim_operation_def payout_facets_def
         should_commit_def\<close>)
  from evaluation_completes [OF sample_policy sample_ev_def conjunct1 [OF sample_ev_run] this [unfolded sample_operation_def], of "''k1''" sample_bank sample_teller]
  show ?thesis using sample_ev_run unfolding sample_paid_desk_def by (simp del: split_paired_Ex) (metis fst_conv)
qed

section \<open>Properties\<close>

text \<open>C28: a payment is handed to the banking rail only under a closed crystal of its claim. With the spine switched on, in every state
  a desk can reach from a start with an empty rail, whatever requests are lost and whoever else uses the spine, each payment that was handed over
  names a crystal of the claim gate, of the payment's own claim, that the spine has closed.\<close>

theorem payments_have_closed_crystal:
  assumes "vn_spine_enabled v" "vn_governor v \<noteq> Finance" "digest_ok (vn_host v)" "spine_start (gv_spine (dk_spine s0))" "dk_rail s0 = []"
    and "(desk_step v number b ok)\<^sup>*\<^sup>* s0 s" "p \<in> set (dk_rail s)"
  shows "\<exists>i. py_crystal_id p = Some i \<and> closed_crystal (sp_committed (gv_spine (dk_spine s))) i (py_claim_id p)"
  using dg.inv_reachable [OF _ assms(6), of "gv_spine (dk_spine s0)"] assms(1-5,7) by (auto simp: desk_governed_def covered_def)

theorem payments_have_closed_crystal_witness:
  "dk_rail sample_paid_desk \<noteq> [] \<and> closed_crystal (sp_committed (gv_spine (dk_spine sample_paid_desk))) ''crys_u1'' ''clm-1''"
proof -
  from sample_paid obtain p where t: "dk_rail sample_paid_desk = [p]" "handed_over ''clm-1'' (Dec 1000 (- 2)) ''k1'' ''crys_u1'' p" by blast
  have "desk_step sample_venue (\<lambda>_. JNull) sample_bank (\<lambda>_. True) (desk_at sample_tables) sample_paid_desk"
    unfolding sample_paid_desk_def by (rule desk_step.evaluate [OF _ surjective_pairing]) simp
  moreover have "spine_start (gv_spine (dk_spine (desk_at sample_tables)))"
    by (simp add: spine_start_def desk_at_def sample_tables_def sample_spine_def at_commit_def balances_nonnegative_def cap_overruns_def Let_def)
  ultimately have "\<exists>i. py_crystal_id p = Some i \<and> closed_crystal (sp_committed (gv_spine (dk_spine sample_paid_desk))) i (py_claim_id p)"
    using sample_digest_ok t(1)
    by (intro payments_have_closed_crystal [of sample_venue "desk_at sample_tables"]) auto
  with t show ?thesis by (auto simp: handed_over_def)
qed



text \<open>C30: a claim that the spine has closed is paid again. When the crystal of a claim is closed, whether it was committed, expired or stranded, an approved
  request for the same claim under another idempotency key is handed to the rail with its own amount, and nothing in the tables of the spine
  changes: crystallization and commit both answer from the closed crystal.\<close>

theorem replayed_claim_is_paid_again:
  assumes "vn_spine_enabled v" "cl_crystallize cl = Answered" "cl_commit cl = Answered"
    and "claim_settled (pq_claim_id q) c (gv_spine (dk_spine s))"
    and "resolve_policy (pq_policy_number q) s = (s, Inr policy)" "pv_decision (request_evaluation hex today q policy) = ''APPROVED''"
    and "let_in v cl (operation_request claim_manifest (claim_operation v number q (request_evaluation hex today q policy))) (dk_spine s)"
    and "pq_idempotency_key q = Some key" "key \<noteq> []" "stored_payment key (dk_payments s) = None" "rail_connected b" "reads te"
  shows "\<exists>t x p. run_evaluation v number b te cl hex today q s = (t, x) \<and> dk_rail t = dk_rail s @ [p]
    \<and> py_claim_id p = pq_claim_id q \<and> py_amount p = pv_net_payable (request_evaluation hex today q policy) \<and> py_crystal_id p = Some (cr_crystal_id c)
    \<and> sp_committed (gv_spine (dk_spine t)) = sp_committed (gv_spine (dk_spine s))"
proof -
  from settled_claim_governed [OF assms(1-4,6,7)] obtain u n where
    u: "govern_operation v cl claim_manifest (claim_operation v number q (request_evaluation hex today q policy)) s = (u, Inr (Some (cr_crystal_id c)))"
      "dk_rail u = dk_rail s" "dk_payments u = dk_payments s" "gv_spine (dk_spine u) = (gv_spine (dk_spine s))\<lparr>sp_counters := n\<rparr>" by blast
  have "cr_crystal_id c \<noteq> []" using assms(4) by (simp add: claim_settled_def)
  from evaluation_completes [OF assms(5) refl assms(6) u(1) this assms(8,9,11,12)] assms(10) u(2-4) show ?thesis
    by (fastforce simp: handed_over_def)
qed

text \<open>The tables after the claim was stranded.\<close>

definition stranded_crystal :: crystal_row where
  "stranded_crystal =
     (seal_crystal sample_host ''u1'' 0 ''claim_gate'' ''clm-1'' ''high'' [] None None None None)\<lparr>cr_terminal_state := Some C_STRANDED\<rparr>"

definition stranded_tables :: spine_db where
  "stranded_tables =
     sample_tables\<lparr>governance_crystals := [stranded_crystal],
       commit_escrow := [ended_row C_STRANDED ''HORIZON_STRANDED''
         (new_commit default_spine_settings (operation_request claim_manifest sample_operation) stranded_crystal 0 0)]\<rparr>"

lemma stranded_settled: "claim_settled ''clm-1'' stranded_crystal (gv_spine (dk_spine (desk_at stranded_tables)))"
  by (simp add: claim_settled_def desk_at_def stranded_tables_def at_commit_def find_crystal_of_def load_crystal_def stranded_crystal_def
      seal_crystal_def Let_def new_commit_def ended_row_def)

lemma stranded_guard:
  "snd (seqE (get_spine_guardrails sample_host default_settings)
     (check_crystallize sample_host Insurance default_spine_settings default_settings ''desk'' ''clm-1'' ''clm-1'') (dk_spine (desk_at stranded_tables))) = Inr ()"
  by code_simp

lemma stranded_let_in: "let_in sample_venue sample_calls (operation_request claim_manifest sample_operation) (dk_spine (desk_at stranded_tables))"
proof -
  let ?r = "operation_request claim_manifest sample_operation"
  have r: "cq_account_id ?r = ''desk''" "cq_operation_id ?r = ''clm-1''" "scope_id_of Insurance (\<lambda>_. []) ?r = ''clm-1''" "cq_platform ?r = ''claim_gate''"
    by (simp_all add: operation_request_def sample_operation_def claim_operation_def sample_payout_def scope_id_of_def payout_facets_def facet_str_def
        claim_manifest_def)
  have "\<not> writes_halted default_spine_settings False (gv_spine (dk_spine (desk_at stranded_tables)))"
    by (simp add: writes_halted_def spine_diagnostic_mode_def desk_at_def sample_spine_def Let_def)
  moreover have "guard_platform default_spine_settings ''claim_gate'' fs (gv_spine (dk_spine (desk_at stranded_tables)))
      = (gv_spine (dk_spine (desk_at stranded_tables)), Inr ())" for fs
    by (simp add: guard_platform_def getsE_def ret_def Let_def desk_at_def stranded_tables_def sample_tables_def default_spine_settings_def)
  ultimately show ?thesis using stranded_guard by (simp add: let_in_def r)
qed

theorem replayed_claim_is_paid_again_witness:
  "\<exists>t x p. run_evaluation sample_venue (\<lambda>_. JNull) sample_bank sample_teller sample_calls ''h1'' 20001 sample_payout (desk_at stranded_tables) = (t, x)
     \<and> dk_rail t = [p] \<and> py_amount p = Dec 1000 (- 2) \<and> sp_committed (gv_spine (dk_spine t)) = stranded_tables"
proof -
  have ev: "request_evaluation ''h1'' 20001 sample_payout (hd DEFAULT_POLICIES) = sample_ev" by (simp add: sample_ev_def)
  have "claim_settled (pq_claim_id sample_payout) stranded_crystal (gv_spine (dk_spine (desk_at stranded_tables)))"
    using stranded_settled by simp
  from replayed_claim_is_paid_again [of sample_venue sample_calls, OF _ _ _ this sample_policy, of "''h1''" 20001 "\<lambda>_. JNull" "''k1''" sample_bank sample_teller,
      unfolded ev, folded sample_operation_def] sample_ev_run stranded_let_in
  show ?thesis by (simp add: desk_at_def) blast
qed

text \<open>C31: a payment whose row is not written is repeated by every retry. With PostgreSQL, when the connection is up for the read before the dispatch and gone for the
  write after it, the submission fails after the money was handed over, and each retry under the same idempotency key hands it over again.\<close>

theorem lost_write_pays_again:
  assumes "\<forall>te \<in> set tes. tl_store te = Postgres \<and> tl_read te = Connected \<and> tl_write te \<noteq> Connected"
    and "rail_connected b" "stored_payment key (dk_payments s) = None" "truthy crystal_id"
  shows "dk_rail (fold (\<lambda>te s. fst (submit_payment repr b te claim_id amount currency payee_id key ''APPROVED'' crystal_id s)) tes s)
      = dk_rail s @ map (\<lambda>te. instruction_of b te claim_id amount currency payee_id key crystal_id) tes
    \<and> (\<forall>te \<in> set tes. snd (submit_payment repr b te claim_id amount currency payee_id key ''APPROVED'' crystal_id s) = Inl Store_Error)"
proof -
  have lost: "submit_payment repr b te claim_id amount currency payee_id key ''APPROVED'' crystal_id s
      = (s\<lparr>dk_rail := dk_rail s @ [instruction_of b te claim_id amount currency payee_id key crystal_id]\<rparr>, Inl Store_Error)"
    if "te \<in> set tes" "stored_payment key (dk_payments s) = None" for te s
  proof -
    have te: "tl_store te = Postgres" "tl_read te = Connected" "tl_write te \<noteq> Connected" using assms(1) that(1) by auto
    then have "reads te" by (simp add: reads_def)
    from submit_forward [OF assms(2) this that(2) assms(4), of repr claim_id amount currency payee_id] te show ?thesis
      by (auto simp: payment_save_def throw_def)
  qed
  have "dk_rail (fold (\<lambda>te s. fst (submit_payment repr b te claim_id amount currency payee_id key ''APPROVED'' crystal_id s)) us s)
      = dk_rail s @ map (\<lambda>te. instruction_of b te claim_id amount currency payee_id key crystal_id) us"
    if "set us \<subseteq> set tes" "stored_payment key (dk_payments s) = None" for us s
    using that by (induction us arbitrary: s) (simp_all add: lost)
  with assms(3) lost show ?thesis by simp
qed

theorem lost_write_pays_again_witness:
  "length (dk_rail (fold (\<lambda>te s. fst (submit_payment (\<lambda>_. []) sample_bank te ''clm-1'' (Dec 10 0) ''USD'' ''bob'' ''k1'' ''APPROVED'' (Some ''crys_u1'') s))
     (replicate 3 \<lparr>tl_store = Postgres, tl_read = Connected, tl_write = Unreachable, tl_payment_hex = ''p1''\<rparr>) (desk_at sample_tables))) = 3"
  by (subst conjunct1 [OF lost_write_pays_again])
    (simp_all add: truthy_def)

end
