(* ===== verification/Spec2Isabelle.thy ===== *)
theory Spec2Isabelle
  imports Gateway_Contract Admission Console_Contract Claim_Contract Payment_Contract
begin

text \<open>
  \<^bold>\<open>ModelGovernor.\<close> The repository is a control plane that governs what AI agents may spend. A \<^emph>\<open>sidecar\<close>
  (\<^verbatim>\<open>src/sidecar/app\<close>) keeps wallets, trace budgets and budget scopes, reserves money before a model is called and
  settles it afterwards; a \<^emph>\<open>reconciler\<close> (\<^verbatim>\<open>src/reconciler/app\<close>) expires reservations that were never settled and
  audits the tables; a \<^emph>\<open>gateway\<close> (\<^verbatim>\<open>src/gateway/app\<close>) authenticates callers, reserves, calls a provider and settles.
  Every change is logged in a hash chained event table. Beside it three \<^emph>\<open>domain governors\<close> (\<^verbatim>\<open>src/finance-governor\<close>,
  \<^verbatim>\<open>src/insurance-governor\<close>, \<^verbatim>\<open>src/cybersecurity-governor\<close>) govern decisions instead of tokens: their spines freeze an
  operation as a \<^emph>\<open>crystal\<close> with facets and a horizon, reserve exposure for it, and later commit, adjudicate or sweep
  it. Platforms such as the claim gate of the insurance governor call a spine before they act, here before they pay.
  This development models these programs from the Python sources and proves what makes them correct.

  \<^bold>\<open>How programs are modelled.\<close> A handler is a function \<open>sys \<Rightarrow> sys \<times> (exn + 'a)\<close> (theory \<open>Prelude\<close>): \<open>Inl\<close> is a
  raised exception, and the state survives it, as in Python. \<open>seqE\<close>, \<open>bindE\<close>, \<open>catchE\<close>, \<open>stepsE\<close>, \<open>getsE\<close> and
  \<open>modifyE\<close> are statement sequence, \<^verbatim>\<open>try/except\<close>, blocks, reads and writes; \<open>wp m Q E s\<close> is the precondition for
  \<open>m\<close> to end in \<open>Q\<close> or raise in \<open>E\<close>. The state \<open>sys\<close> (theory \<open>State\<close>) holds the database of the session (\<open>db\<close>), the
  committed one (\<open>committed\<close>), the counters, the two clocks, the process-local limiter and breaker, the diagnostic
  flag and the commands sent to Redis. A \<open>db\<close> is a record of tables, a table a list of rows in insertion order, a row
  a record with the columns of the migrations. \<open>get_db_session\<close> starts from the committed database and drops what
  was not committed, on return and on exceptions alike. Money is an \<open>int\<close> in units of \<open>10 ^ -12\<close>, the quantum of
  \<^verbatim>\<open>money.py\<close>; request amounts are decimals \<open>Dec m e\<close>, which \<open>quantize_money\<close> rounds half to even (theory \<open>Money\<close>) and
  \<open>quantize_spine\<close>, the governors' \<^verbatim>\<open>currency.py\<close>, half up.

  \<^bold>\<open>What is a parameter.\<close> The record \<open>host\<close> carries SHA-256, the text of a timestamp and the answers of Redis as
  functions; PyJWT, the provider SDKs, \<^verbatim>\<open>uuid4\<close>, S3 and webhooks are parameters of the definitions that call them.
  The only assumption on them is \<open>digest_ok\<close>: a digest is neither empty nor the genesis value. That SHA-256 has no
  collisions is assumed nowhere: theorems on tampering conclude that contents agree or that a collision is exhibited.

  \<^bold>\<open>The theories, in the order of the code.\<close>

  \<^item> \<open>Prelude\<close>, \<open>Text\<close>, \<open>Money\<close>, \<open>Json\<close>: tables as lists (\<open>row_where\<close>, \<open>update_where\<close>, \<open>count_where\<close>), handlers and
    their weakest preconditions, the locales \<open>keyed_update\<close>, \<open>effect_frame\<close> and \<open>invariant_system\<close>, Python
    strings, decimals, and \<^verbatim>\<open>json.dumps\<close> with the proof that sorted dumps determine the value.
  \<^item> \<open>State\<close>, \<open>Samples\<close>: the tables, settings, requests and exceptions of \<^verbatim>\<open>schemas.py\<close>, \<^verbatim>\<open>config.py\<close>, \<^verbatim>\<open>db.py\<close> and the
    migrations; concrete instances for the witnesses.
  \<^item> \<open>Hash_Chain\<close>: the locale \<open>hash_chain\<close> (payloads are injective in row and predecessor) and its theorem that the
    head of a chain determines the contents up to a collision; interpreted for the event table and the audit log.
  \<^item> \<open>Ledger_Seal\<close>: \<^verbatim>\<open>ledger_seal.py\<close>, \<^verbatim>\<open>ledger_events.py\<close> and \<^verbatim>\<open>spine_core/chain_checkpoint.py\<close>: sealing, appending,
    full and incremental verification, checkpoints. Verification decides the chain property; incremental verification
    agrees with the full one on tables that only grew, and misses a rewritten prefix.
  \<^item> \<open>Attribution\<close>, \<open>Circuit_Breaker\<close>, \<open>Guardrails\<close>: identities, manual approval, budget scopes, the loop guardrail
    and lineage; the breaker; the limiter, rate windows, trace depth and diagnostic mode, each with its Redis path and
    its local fallback. \<open>Admission\<close> proves the bounds of the token bucket and of the in-flight slots, and that the
    local breaker refuses exactly when its window says so.
  \<^item> \<open>Ledger\<close>: \<^verbatim>\<open>ledger.py\<close>, one definition per SQL statement and per function, in the order of the source.
  \<^item> \<open>Ledger_Frame\<close>: which parts of the state each collaborator leaves alone (\<open>keeps\<close>), as rules.
  \<^item> \<open>Ledger_Spec\<close>: the abstract transactions \<open>spec_reserve\<close>, \<open>spec_settle\<close>, \<open>spec_record\<close>, \<open>spec_expire\<close>, which are
    partial functions on databases, and the refinement of each handler to its transaction.
  \<^item> \<open>Sweeper\<close>: \<^verbatim>\<open>reconciler/app/sweeper.py\<close>, \<^verbatim>\<open>finance_ops.py\<close> and the turns of \<^verbatim>\<open>reconciler/app/main.py\<close>.
  \<^item> \<open>Ledger_Inv\<close>, \<open>Ledger_Preserve\<close>, \<open>Ledger_History\<close>: the accounting invariant \<open>ledger_inv\<close>, its preservation by
    every transaction, and what no transaction undoes.
  \<^item> \<open>Routes\<close>, \<open>Route_Spec\<close>: the reserve and settle routes with their exception clauses and HTTP statuses.
  \<^item> \<open>Auth\<close>, \<open>Console\<close>, \<open>Console_Contract\<close>: credentials of sidecar and gateway (locale \<open>credential_check\<close>), the
    audited privileged routes, and anchors of the ledger head.
  \<^item> \<open>Control_Plane\<close>: the transition system \<open>cp_step\<close> of all requests, reconciler turns, verifications, privileged
    routes and passing time. The locale \<open>ledger_property\<close> is the interface between handlers and ledger: what every
    transaction keeps, every handler keeps; \<open>plane_inv\<close> is its instance, and \<open>reachable_inv\<close> what the properties use.
  \<^item> \<open>Scenario\<close>, \<open>Ledger_Contract\<close>: a run for the witnesses; idempotency, refinement, replay and drift.
  \<^item> \<open>Pricing\<close>, \<open>Gateway\<close>, \<open>Gateway_Contract\<close>: token prices and estimates, the providers and the router, governed
    dispatch over a network that may lose requests and answers, and what it means for the ledger.
  \<^item> \<open>Spine_State\<close>, \<open>Decision_Seal\<close>, \<open>Decision_Verify\<close>: the tables of the governors as one record \<open>spine\<close>, with the type
    \<open>governor\<close> for which of the three programs runs, their settings and exceptions; \<^verbatim>\<open>decision_seal.py\<close>, \<^verbatim>\<open>claim_seal.py\<close>
    and \<^verbatim>\<open>security_seal.py\<close> with full and incremental verification.
  \<^item> \<open>Crystal\<close>: \<^verbatim>\<open>spine_core/crystal.py\<close>, \<^verbatim>\<open>facet_schemas.py\<close>, \<^verbatim>\<open>commit_mesh.py\<close>, \<^verbatim>\<open>platform_registry.py\<close> and
    \<^verbatim>\<open>exposure_drift.py\<close>: fingerprints, facet validation, horizons, mesh rules, drift.
  \<^item> \<open>Commit_Ledger\<close>: \<^verbatim>\<open>commit_ledger.py\<close>, \<^verbatim>\<open>horizon_sweeper.py\<close>, the audits, the diagnostic mode, the routes and
    the turn of the reconciler, one definition per statement, with the governors' differences as branches.
  \<^item> \<open>Crystal_Protocol\<close>: the abstract machine \<open>protocol_step\<close>, in which crystals are only opened and closed, and its
    invariant \<open>protocol_inv\<close>. \<open>Crystal_Refine\<close> shows that each operation is a run of it, \<open>Crystal_Plane\<close> defines the
    transition system \<open>spine_step\<close> of all routes, turns, verifications and passing time, and \<open>Crystal_Contract\<close> holds
    a sample run and the properties.
  \<^item> \<open>Spine_Guard\<close>: \<^verbatim>\<open>guardrails.py\<close>, \<^verbatim>\<open>fallback_limiter.py\<close>, \<^verbatim>\<open>circuit_breaker.py\<close> and \<^verbatim>\<open>routes_crystallize.py\<close> of the
    insurance and cybersecurity spines: the record \<open>governed\<close> is a spine with the limiter, the breaker and the Redis log of its
    process. \<open>Guard_Contract\<close> defines overlapping requests (\<open>guard_step\<close>) and shows that a guarded request is a run of the spine,
    that the breaker around Redis never opens, and that the in-flight limit bounds nothing.
  \<^item> \<open>Platform_Sdk\<close>: \<^verbatim>\<open>platforms/common/spine_adapter.py\<close> and \<^verbatim>\<open>platform_sdk.py\<close>: a \<open>desk\<close> is a platform process with the spine it
    calls over HTTP, its local stores, the payment table and what went to the bank.
  \<^item> \<open>Claim_Gate\<close>: \<^verbatim>\<open>insurance-governor/platforms/claim_gate\<close> with the payment store and the banking rail: fraud score, policy rules,
    facets, idempotent submission and the evaluate route. \<open>Claim_Contract\<close> characterises the approved claims; \<open>Payment_Contract\<close>, with the
    locale \<open>payment_store\<close> for both backends and the transition system \<open>desk_step\<close>, says when money leaves and when it leaves twice.

  \<^bold>\<open>What is shown.\<close> In every reachable state: wallets are non-negative and equal the opening balance plus the logged
  events, trace budgets are within their caps, an operation is settled at most once and refunded at most once, rows
  satisfy their \<^verbatim>\<open>CHECK\<close> constraints, the chain verifies, the audit of the reconciler finds nothing, the log only
  grows, anchors certify prefixes of it, and the audit log is a chain. Reserve and settle refine their
  specifications on every path, errors included, and are idempotent; a sweep terminates and leaves no due
  reservation when its batch is large enough. The gateway only ever takes the sidecar along such runs. For the spines: a
  balance is the opening balance less what its operations hold, the events of an operation are a function of its row,
  every step refines the abstract protocol, a commit goes through exactly under the conditions of the protocol,
  crystallizations are idempotent, a crystal can be committed with the facets it froze, turns close all overdue
  crystals, and the audits fire exactly on one kind of expiry, which halts all writes. For the claim gate: it approves exactly the claims its rules allow, pays only under a closed crystal of
  the claim and once per idempotency key while its store works, but pays a closed claim again under another key. Behaviours that
  contradict the documentation are theorems too; the manifest lists them as findings.

  \<^bold>\<open>Bounds.\<close> No fuel is used: every loop of the modelled code runs over a list and is a total function. Runs of the
  control plane are of any length. Timestamps are integers of the database clock; the monotonic clock is rational.

  \<^bold>\<open>Not modelled.\<close> Concurrency inside the database: transactions are serial, as the row locks and the advisory lock of
  the sources intend. The 28 digit context of \<^verbatim>\<open>decimal\<close>, logging, tracing, metrics exposition, health endpoints,
  connection pools, leader election beyond holding the lock or not, and read-only routes. Of the domain governors: their own audit logs,
  anchors and authentication, which copy those of the sidecar, the platforms other than the claim gate, its FNOL webhook with the
  vendor adapters, and the stores of the finance platforms. The scores of the claim gate are rationals instead of floats, and \<open>number\<close> stands
  for the JSON of a score. The processes of a governor share the diagnostic flag through Redis, which a call reaches or does not
  (the parameter \<open>redis\<close>). The tools of \<^verbatim>\<open>governor-spine-core\<close> beyond checkpoints, crystals, facets and the mesh
  (evidence rubrics, retention, port maps) are not part of the services.
\<close>

section \<open>Every reachable state of the control plane\<close>

lemma reachable_rows:
  assumes "digest_ok h" "opened base s" "reachable_from h cfg s t"
  shows "w \<in> set (user_wallets (committed t)) \<Longrightarrow> wallet_ok base (ledger_events (committed t)) (escrow_ledger (committed t)) w"
    and "b \<in> set (trace_budget_state (committed t)) \<Longrightarrow> trace_ok (escrow_ledger (committed t)) b"
    and "p \<in> set (escrow_ledger (committed t)) \<Longrightarrow> row_amounts p \<and> row_times p \<and> row_events (ledger_events (committed t)) p"
  using reachable_inv(2) [OF assms] by (auto simp: ledger_inv_def ops_inv_def)

text \<open>C1: conservation of money. In every state the control plane can reach, no wallet is
  negative, and its balance is the opening balance plus the amounts of all events of its user,
  and also the opening balance minus what its operations currently cost: the reserved amount
  while an operation is held, the actual amount once it is settled, nothing once it expired.\<close>

theorem wallets_conserve_money:
  assumes "digest_ok h" "opened base s" "reachable_from h cfg s t" "w \<in> set (user_wallets (committed t))"
  shows "0 \<le> w_balance w
    \<and> w_balance w = base (w_user_id w)
        + event_total (\<lambda>e. ev_user_id e = w_user_id w) (ledger_events (committed t))
    \<and> w_balance w = base (w_user_id w)
        - column_sum (\<lambda>p. if e_user_id p = w_user_id w then charge p else 0) (escrow_ledger (committed t))"
  using reachable_rows(1) [OF assms] unfolding wallet_ok_def .

theorem wallets_conserve_money_witness:
  "\<exists>w \<in> set (user_wallets (committed after_reserve)). w_balance w = 100 * 10 ^ 12 - 15
     \<and> w_balance w = opening_balance (w_user_id w)
        + event_total (\<lambda>e. ev_user_id e = w_user_id w) (ledger_events (committed after_reserve))"
proof -
  obtain w where "w \<in> set (user_wallets (committed after_reserve))" "w_balance w = 100 * 10 ^ 12 - 15"
    using after_reserve_facts by auto
  then show ?thesis
    using wallets_conserve_money [OF sample_digest_ok sample_opened after_reserve_reachable] by blast
qed

text \<open>C2: trace budgets. In every reachable state the reserved total of a trace is within its cap
  and is the sum of what its held operations reserved, and its settled total is the sum of what
  its settled operations cost.\<close>

theorem trace_budgets_hold:
  assumes "digest_ok h" "opened base s" "reachable_from h cfg s t" "b \<in> set (trace_budget_state (committed t))"
  shows "t_reserved_total b \<le> t_cap_amount b
    \<and> t_reserved_total b = column_sum (\<lambda>p. if e_trace_id p = t_trace_id b \<and> held (e_status p)
        then e_reserved_amount p else 0) (escrow_ledger (committed t))
    \<and> t_settled_total b = column_sum (\<lambda>p. if e_trace_id p = t_trace_id b \<and> e_status p = SETTLED
        then e_actual_amount p else 0) (escrow_ledger (committed t))"
  using reachable_rows(2) [OF assms] unfolding trace_ok_def .

theorem trace_budgets_hold_witness:
  "\<exists>b \<in> set (trace_budget_state (committed after_reserve)).
     t_reserved_total b = 15 \<and> t_reserved_total b \<le> t_cap_amount b"
proof -
  obtain b where "b \<in> set (trace_budget_state (committed after_reserve))" "t_reserved_total b = 15"
    using after_reserve_facts by auto
  then show ?thesis
    using trace_budgets_hold [OF sample_digest_ok sample_opened after_reserve_reachable] by blast
qed

text \<open>C6: no double settlement and no double refund. In every reachable state an operation has one
  settlement event if it is settled and none otherwise, at most one refund event and exactly one
  once it expired, and the amounts of all its events add up to minus its current charge.\<close>

theorem one_terminal_event_per_operation:
  assumes "digest_ok h" "opened base s" "reachable_from h cfg s t" "p \<in> set (escrow_ledger (committed t))"
  shows "count_where (is_settle_event (e_idempotency_key p)) (ledger_events (committed t))
      = (if e_status p = SETTLED then 1 else 0)
    \<and> count_where (is_refund_event (e_idempotency_key p)) (ledger_events (committed t)) \<le> 1
    \<and> (e_status p = EXPIRED \<longrightarrow> count_where (is_refund_event (e_idempotency_key p)) (ledger_events (committed t)) = 1)
    \<and> event_total (\<lambda>e. ev_idempotency_key e = e_idempotency_key p) (ledger_events (committed t)) = - charge p"
  using reachable_rows(3) [OF assms]
  by (simp add: row_events_def Let_def settle_count_def refund_count_def)

theorem one_terminal_event_per_operation_witness:
  "\<exists>p \<in> set (escrow_ledger (committed after_reserve)).
     event_total (\<lambda>e. ev_idempotency_key e = e_idempotency_key p) (ledger_events (committed after_reserve)) = - charge p"
proof -
  obtain p where "p \<in> set (escrow_ledger (committed after_reserve))"
    using after_reserve_facts by auto
  then show ?thesis
    using one_terminal_event_per_operation [OF sample_digest_ok sample_opened after_reserve_reachable] by blast
qed

text \<open>The CHECK constraints of \<open>escrow_ledger\<close>. In every reachable state the timestamps of an operation fit
  its status, amounts are not negative, the drift is the actual minus the reserved amount of a
  settled operation and zero otherwise, and the status \<open>REFUNDED\<close> never occurs.\<close>

theorem stored_rows_consistent:
  assumes "digest_ok h" "opened base s" "reachable_from h cfg s t" "p \<in> set (escrow_ledger (committed t))"
  shows "row_times p \<and> 0 \<le> e_reserved_amount p \<and> 0 \<le> e_actual_amount p \<and> e_status p \<noteq> REFUNDED
    \<and> e_drift_amount p = (if e_status p = SETTLED then e_actual_amount p - e_reserved_amount p else 0)
    \<and> (e_status p \<noteq> SETTLED \<longrightarrow> e_actual_amount p = 0 \<and> e_settled_at p = None)"
  using reachable_rows(3) [OF assms] by (auto simp: row_amounts_def split: if_splits)

theorem stored_rows_consistent_witness:
  "\<exists>p \<in> set (escrow_ledger (committed after_reserve)). row_times p \<and> e_drift_amount p =
     (if e_status p = SETTLED then e_actual_amount p - e_reserved_amount p else 0)"
proof -
  obtain p where "p \<in> set (escrow_ledger (committed after_reserve))"
    using after_reserve_facts by auto
  then show ?thesis
    using stored_rows_consistent [OF sample_digest_ok sample_opened after_reserve_reachable] by blast
qed

text \<open>C11: budget scopes never get an expired reservation back. In every reachable state the consumed amount of
  a scope is the sum of the charges of its operations plus the reserved amount of each one that
  was ever refunded by expiry, although the wallet and the trace got that amount back.\<close>

theorem expired_spend_stays_in_scopes:
  assumes "digest_ok h" "opened base s" "reachable_from h cfg s t" "has_tenant_id (committed t)"
  shows "scope_consumed k (committed t)
    = column_sum (\<lambda>p. if k \<in> set (scope_keys p)
        then charge p + e_reserved_amount p * int (count_where (is_refund_event (e_idempotency_key p)) (ledger_events (committed t)))
        else 0) (escrow_ledger (committed t))"
  using reachable_inv(2) [OF assms(1-3)] assms(4)
  unfolding ledger_inv_def scopes_inv_def scope_total_def scope_spend_def refund_count_def by blast

theorem expired_spend_stays_in_scopes_witness:
  "has_tenant_id (committed after_reserve)
   \<and> scope_consumed (''user'', ''alice'') (committed after_reserve)
    = column_sum (\<lambda>p. if (''user'', ''alice'') \<in> set (scope_keys p)
        then charge p + e_reserved_amount p
          * int (count_where (is_refund_event (e_idempotency_key p)) (ledger_events (committed after_reserve)))
        else 0) (escrow_ledger (committed after_reserve))"
proof -
  have "has_tenant_id (committed after_reserve)" using after_reserve_facts by auto
  then show ?thesis
    using expired_spend_stays_in_scopes [OF sample_digest_ok sample_opened after_reserve_reachable] by blast
qed

text \<open>C7: the ledger is append-only. From one reachable state to a later one the event table only gains rows
  at its end, a settled operation stays exactly as it is, and no operation is deleted or changes
  its identity.\<close>

theorem ledger_only_grows:
  assumes "digest_ok h" "opened base s" "reachable_from h cfg s t" "reachable_from h cfg t u"
  shows "(\<exists>es. ledger_events (committed u) = ledger_events (committed t) @ es)
    \<and> (\<forall>p \<in> set (escrow_ledger (committed t)).
         (e_status p = SETTLED \<longrightarrow> p \<in> set (escrow_ledger (committed u)))
         \<and> (\<exists>q \<in> set (escrow_ledger (committed u)). same_identity p q))"
  using reachable_extends [OF assms] unfolding ledger_extends_def by blast

theorem ledger_only_grows_witness:
  "\<exists>es. ledger_events (committed after_reserve) = ledger_events (committed (idle_sys sample_db)) @ es"
  using ledger_only_grows [OF sample_digest_ok sample_opened _ after_reserve_reachable] by blast

text \<open>C9: in every reachable state the chain verification succeeds, full and incremental alike, and counts
  every row of the event table as sealed.\<close>

theorem ledger_always_verifies:
  assumes "digest_ok h" "opened base s" "reachable_from h cfg s t"
  shows "vr_valid (snd (verify_ledger_chain h incremental (committed t) t))
    \<and> vr_sealed_count (snd (verify_ledger_chain h incremental (committed t) t)) = length (ledger_events (committed t))"
proof -
  note i = reachable_inv [OF assms]
  note c = inv_chain [OF i(2)]
  have full: "vr_valid (snd (verify_ledger_chain h False (committed t) t))"
    "vr_sealed_count (snd (verify_ledger_chain h False (committed t) t)) = length (ledger_events (committed t))"
    using valid_full [OF c] verify_nonincremental_result(1) [OF valid_full [OF c]] by auto
  show ?thesis
  proof (cases "incremental \<and> ledger_events (committed t) \<noteq> []")
    case True
    then show ?thesis
      using verify_incremental_ok(1) [OF c assms(1) _ i(3) [unfolded checkpoints_ok_def], of t] by auto
  next
    case False
    moreover have "verify_ledger_chain h incremental (committed t) t = verify_ledger_chain h False (committed t) t"
      if "ledger_events (committed t) = []"
      using that by (simp add: verify_ledger_chain_def count_events_def)
    ultimately show ?thesis using full by (cases incremental) auto
  qed
qed

theorem ledger_always_verifies_witness:
  "vr_valid (snd (verify_ledger_chain sample_host True (committed after_reserve) after_reserve))"
  using ledger_always_verifies [OF sample_digest_ok sample_opened after_reserve_reachable] by blast

text \<open>C10: in every reachable state the audit of the reconciler finds no violation: it returns true without
  entering diagnostic mode and without raising a counter.\<close>

theorem finance_audit_never_trips:
  assumes "digest_ok h" "opened base s" "reachable_from h cfg s t"
  shows "run_finance_audit h t = (t, Inr True)"
proof -
  have "finance_violations (db t) = \<lparr>negative_wallets = 0, trace_cap_overruns = 0, duplicate_refunds = 0,
    duplicate_settlements = 0, stranded_without_hold_event = 0\<rparr>"
    using no_violations [OF reachable_inv(2) [OF assms]] reachable_inv(1) [OF assms] by (simp add: at_rest_def)
  then show ?thesis
    by (simp add: run_finance_audit_def assert_finance_ops_invariants_def catchE_def seqE_def bindE_def getsE_def
        count_violation_def whenE_def ret_def violation_total_def)
qed

theorem finance_audit_never_trips_witness:
  "run_finance_audit sample_host after_reserve = (after_reserve, Inr True)"
  by (rule finance_audit_never_trips [OF sample_digest_ok sample_opened after_reserve_reachable])

text \<open>C8: progress of the reconciler. In every reachable state a sweep of batch size \<open>n\<close> returns the number of due
  reservations it took, turns exactly those into stranded or expired rows and leaves every other
  row alone; when the batch is large enough no due reservation is left.\<close>

theorem sweep_closes_due_reservations:
  assumes "digest_ok h" "opened base s" "reachable_from h cfg s t"
  shows "\<exists>t'. sweep_expired_reservations h n t = (t', Inr (length (due_rows n (clock t) (committed t))))
    \<and> db t' = committed t'
    \<and> (\<forall>k. find_operation k (committed t')
         = (case row_where (\<lambda>p. e_idempotency_key p = k) (due_rows n (clock t) (committed t)) of
              None \<Rightarrow> find_operation k (committed t)
            | Some p \<Rightarrow> Some (swept_row (clock t) (committed t) p)))
    \<and> (count_where (sweepable (clock t)) (escrow_ledger (committed t)) \<le> n
         \<longrightarrow> count_where (sweepable (clock t)) (escrow_ledger (committed t')) = 0)"
proof -
  note i = reachable_inv [OF assms]
  let ?due = "due_rows n (clock t) (committed t)"
  have c: "db t = committed t" using i(1) by (simp add: at_rest_def)
  have k: "keys_inv (committed t)" using i(2) by (simp add: ledger_inv_def)
  have ps: "distinct (map e_idempotency_key ?due)"
    "\<forall>p \<in> set ?due. find_operation (e_idempotency_key p) (committed t) = Some p"
    using due_rows_facts [OF k] find_operation_unique [OF k] by blast+
  have "wp (sweep_expired_reservations h n)
      (\<lambda>x t'. x = length ?due \<and> db t' = spec_sweep h (clock t) ?due (committed t) \<and> committed t' = db t') (\<lambda>_ _. False) t"
    by (rule wp_sweep [OF _ assms(1)]) (use inv_chain [OF i(2)] c in auto)
  then obtain t' where t': "sweep_expired_reservations h n t = (t', Inr (length ?due))"
    "db t' = spec_sweep h (clock t) ?due (committed t)" "committed t' = db t'"
    by (auto simp: wp_def split: prod.splits sum.splits)
  have look: "find_operation k (committed t') = (case row_where (\<lambda>p. e_idempotency_key p = k) ?due of
              None \<Rightarrow> find_operation k (committed t) | Some p \<Rightarrow> Some (swept_row (clock t) (committed t) p))" for k
    using sweep_lookup [OF ps] t'(2,3) by simp
  have done_all: "\<not> sweepable (clock t) q"
    if le: "count_where (sweepable (clock t)) (escrow_ledger (committed t)) \<le> n" and q: "q \<in> set (escrow_ledger (committed t'))" for q
  proof -
    have all: "set ?due = {p \<in> set (escrow_ledger (committed t)). sweepable (clock t) p}"
      using le by (simp add: due_rows_def count_where_def)
    have k': "keys_inv (committed t')"
      using sweep_inv [OF i(2) assms(1), of "clock t" n] t'(2,3) by (simp add: ledger_inv_def)
    have own: "find_operation (e_idempotency_key q) (committed t') = Some q" using find_operation_unique [OF k' q] .
    show ?thesis
    proof (cases "row_where (\<lambda>p. e_idempotency_key p = e_idempotency_key q) ?due")
      case None
      then have "q \<in> set (escrow_ledger (committed t))"
        using own look [of "e_idempotency_key q"] find_operation_in [of "e_idempotency_key q" "committed t" q] by simp
      moreover have "q \<notin> set ?due" using None by (auto simp: row_where_None)
      ultimately show ?thesis using all by blast
    next
      case (Some p)
      then have "q = swept_row (clock t) (committed t) p" using own look [of "e_idempotency_key q"] by simp
      then show ?thesis by (auto simp: swept_row_def sweepable_def)
    qed
  qed
  show ?thesis using t' look done_all by (auto simp: count_where_0)
qed

theorem sweep_closes_due_reservations_witness:
  "\<exists>t'. sweep_expired_reservations sample_host 10 after_reserve
     = (t', Inr (length (due_rows 10 (clock after_reserve) (committed after_reserve)))) \<and> db t' = committed t'"
  using sweep_closes_due_reservations [OF sample_digest_ok sample_opened after_reserve_reachable, of 10] by blast

end
